(* ===== verification/Neo_Prelude.thy ===== *)
theory Neo_Prelude
  imports Complex_Main "HOL-Library.Sublist"
begin

text \<open>
  Shared vocabulary of the development: the collections the component proofs
  draw on, Python dictionaries as association lists that keep their insertion
  order, sums over the members of a list under insertion and removal, and the
  few text operations (ASCII case folding, substring and prefix tests) that
  several components use. Text is modelled by \<^typ>\<open>string\<close>; case folding and
  white space are those of ASCII.
\<close>

named_theorems py_defs \<open>definitions unfolded when a model function is evaluated\<close>
named_theorems ledger_simps \<open>rewriting of dictionaries, sums and counters\<close>

section \<open>Errors\<close>

text \<open>The exceptions the modelled code raises. A text is the fixed part of the message.\<close>

datatype py_error =
    ValueError string
  | TypeError string
  | RuntimeError string
  | KeyError string
  | IndexError
  | OSError
  | MemoryBudgetExceeded string
  | NativeThreadBudgetExceeded
  | ResourceWaitTimeout string
  | CancellationRequested
  | Interrupted

section \<open>Python dictionaries\<close>

type_synonym ('k, 'v) dict = "('k \<times> 'v) list"

fun dict_get :: "('k, 'v) dict \<Rightarrow> 'k \<Rightarrow> 'v option" where
  "dict_get [] k = None"
| "dict_get ((a, v) # d) k = (if a = k then Some v else dict_get d k)"

fun dict_set :: "('k, 'v) dict \<Rightarrow> 'k \<Rightarrow> 'v \<Rightarrow> ('k, 'v) dict" where
  "dict_set [] k v = [(k, v)]"
| "dict_set ((a, w) # d) k v = (if a = k then (a, v) # d else (a, w) # dict_set d k v)"

fun dict_pop :: "('k, 'v) dict \<Rightarrow> 'k \<Rightarrow> ('k, 'v) dict" where
  "dict_pop [] k = []"
| "dict_pop ((a, w) # d) k = (if a = k then d else (a, w) # dict_pop d k)"

definition dict_get_or :: "('k, 'v) dict \<Rightarrow> 'k \<Rightarrow> 'v \<Rightarrow> 'v" where
  "dict_get_or d k v = (case dict_get d k of None \<Rightarrow> v | Some w \<Rightarrow> w)"

definition dict_keys :: "('k, 'v) dict \<Rightarrow> 'k list" where
  "dict_keys d = map fst d"

definition dict_values :: "('k, 'v) dict \<Rightarrow> 'v list" where
  "dict_values d = map snd d"

text \<open>A dictionary holds every key at most once; all three operations keep that.\<close>

definition dict_wf :: "('k, 'v) dict \<Rightarrow> bool" where
  "dict_wf d \<longleftrightarrow> distinct (dict_keys d)"

lemma dict_keys_Nil [simp]: "dict_keys [] = []"
  by (simp add: dict_keys_def)

lemma dict_keys_Cons [simp]: "dict_keys ((k, v) # d) = k # dict_keys d"
  by (simp add: dict_keys_def)

lemma dict_wf_Nil [simp]: "dict_wf []"
  by (simp add: dict_wf_def)

lemma dict_wf_Cons [simp]: "dict_wf ((k, v) # d) \<longleftrightarrow> k \<notin> set (dict_keys d) \<and> dict_wf d"
  by (auto simp: dict_wf_def)

lemma dict_get_set [simp]: "dict_get (dict_set d k v) k' = (if k' = k then Some v else dict_get d k')"
  by (induction d k v rule: dict_set.induct) auto

lemma dict_get_or_set [ledger_simps]:
  "dict_get_or (dict_set d k v) k' w = (if k' = k then v else dict_get_or d k' w)"
  by (simp add: dict_get_or_def)

lemma set_dict_keys_set [simp]: "set (dict_keys (dict_set d k v)) = insert k (set (dict_keys d))"
  by (induction d k v rule: dict_set.induct) auto

lemma dict_wf_set [simp]: "dict_wf d \<Longrightarrow> dict_wf (dict_set d k v)"
  by (induction d k v rule: dict_set.induct) auto

lemma dict_get_None_iff: "dict_get d k = None \<longleftrightarrow> k \<notin> set (dict_keys d)"
  by (induction d k rule: dict_get.induct) auto

lemma set_dict_keys_pop: "dict_wf d \<Longrightarrow> set (dict_keys (dict_pop d k)) = set (dict_keys d) - {k}"
  by (induction d k rule: dict_pop.induct) auto

lemma dict_wf_pop [simp]: "dict_wf d \<Longrightarrow> dict_wf (dict_pop d k)"
  by (induction d k rule: dict_pop.induct) (auto simp: set_dict_keys_pop)

lemma dict_get_pop [simp]:
  "dict_wf d \<Longrightarrow> dict_get (dict_pop d k) k' = (if k' = k then None else dict_get d k')"
  by (induction d k rule: dict_pop.induct) (auto simp: dict_get_None_iff)

lemma dict_get_in_set: "dict_get d k = Some v \<Longrightarrow> (k, v) \<in> set d"
  by (induction d) (auto split: if_splits)

text \<open>The sum of an integer dictionary after one assignment.\<close>

lemma sum_dict_values_set [ledger_simps]:
  "sum_list (dict_values (dict_set d k v)) = sum_list (dict_values d) - dict_get_or d k 0 + (v :: int)"
  by (induction d) (auto simp: dict_values_def dict_get_or_def)

section \<open>Sums over the members of a list\<close>

definition sum_on :: "('a \<Rightarrow> int) \<Rightarrow> 'a list \<Rightarrow> int" where
  "sum_on f xs = sum_list (map f xs)"

lemma sum_on_Nil [simp]: "sum_on f [] = 0"
  by (simp add: sum_on_def)

lemma sum_on_Cons [simp]: "sum_on f (x # xs) = f x + sum_on f xs"
  by (simp add: sum_on_def)

lemma sum_on_append [simp]: "sum_on f (xs @ ys) = sum_on f xs + sum_on f ys"
  by (simp add: sum_on_def)

lemma sum_on_cong: "(\<And>x. x \<in> set xs \<Longrightarrow> f x = g x) \<Longrightarrow> sum_on f xs = sum_on g xs"
  by (induction xs) auto

lemma sum_on_remove1: "x \<in> set xs \<Longrightarrow> sum_on f (remove1 x xs) = sum_on f xs - f x"
  by (induction xs) auto

lemma sum_on_update:
  "distinct xs \<Longrightarrow> x \<in> set xs \<Longrightarrow> sum_on (f(x := v)) xs = sum_on f xs - f x + v"
proof (induction xs)
  case (Cons y ys)
  show ?case
  proof (cases "y = x")
    case True
    with Cons.prems have "sum_on (f(x := v)) ys = sum_on f ys"
      by (intro sum_on_cong) auto
    with True show ?thesis by (simp add: fun_upd_def)
  next
    case False
    with Cons show ?thesis by simp
  qed
qed simp

lemma sum_on_update_notin: "x \<notin> set xs \<Longrightarrow> sum_on (f(x := v)) xs = sum_on f xs"
  by (rule sum_on_cong) auto

lemma sum_on_nonneg: "(\<And>x. x \<in> set xs \<Longrightarrow> 0 \<le> f x) \<Longrightarrow> 0 \<le> sum_on f xs"
proof (induction xs)
  case (Cons x xs)
  then have "0 \<le> f x" and "0 \<le> sum_on f xs" by auto
  then show ?case by simp
qed simp

lemma sum_on_mono: "(\<And>x. x \<in> set xs \<Longrightarrow> f x \<le> g x) \<Longrightarrow> sum_on f xs \<le> sum_on g xs"
proof (induction xs)
  case (Cons x xs)
  then have "f x \<le> g x" and "sum_on f xs \<le> sum_on g xs" by auto
  then show ?case by simp
qed simp

lemma sum_on_member_le:
  assumes "x \<in> set xs" and "\<And>y. y \<in> set xs \<Longrightarrow> 0 \<le> f y"
  shows "f x \<le> sum_on f xs"
  using assms
proof (induction xs)
  case (Cons y ys)
  have "0 \<le> f y" and "0 \<le> sum_on f ys"
    using Cons.prems by (auto intro: sum_on_nonneg)
  moreover have "x = y \<or> f x \<le> sum_on f ys"
    using Cons by auto
  ultimately show ?case by auto
qed simp

section \<open>Text\<close>

definition ascii_lower :: "char \<Rightarrow> char" where
  "ascii_lower c = (let n = (of_char c :: nat) in if 65 \<le> n \<and> n \<le> 90 then char_of (n + 32) else c)"

definition casefold :: "string \<Rightarrow> string" where
  "casefold s = map ascii_lower s"

text \<open>Python's \<open>needle in text\<close> and \<open>text.startswith(p)\<close>.\<close>

definition text_in :: "string \<Rightarrow> string \<Rightarrow> bool" where
  "text_in needle txt \<longleftrightarrow> sublist needle txt"

definition starts_with :: "string \<Rightarrow> string \<Rightarrow> bool" where
  "starts_with txt p \<longleftrightarrow> prefix p txt"

lemma ascii_lower_idem [simp]: "ascii_lower (ascii_lower c) = ascii_lower c"
  by (auto simp: ascii_lower_def Let_def)

lemma casefold_idem [simp]: "casefold (casefold s) = casefold s"
  by (simp add: casefold_def)

lemma casefold_append: "casefold (s @ t) = casefold s @ casefold t"
  by (simp add: casefold_def)

lemma text_in_casefold: "text_in a b \<Longrightarrow> text_in (casefold a) (casefold b)"
  by (force simp: text_in_def sublist_def casefold_append)

end
