(* ===== verification/Retry_Policy.thy ===== *)
theory Retry_Policy
  imports Neo_Prelude
begin

text \<open>
  The bounded retry policy of \<open>neocortex/runtime/control/retry_policy.py\<close>:
  the exponential delay and the admission of an automatic retry, the taxonomy
  of PDF failures, and the SQL predicate that selects retryable page errors.
  A float constant of the source is the real number it denotes.
\<close>

section \<open>Stable retry bounds\<close>

definition PDF_MAX_AUTOMATIC_RETRIES :: int where
  "PDF_MAX_AUTOMATIC_RETRIES = 3"

definition TRANSIENT_RETRY_BASE_SECONDS :: int where
  "TRANSIENT_RETRY_BASE_SECONDS = 60 * 60"

definition retry_delay_seconds :: "int \<Rightarrow> int" where
  "retry_delay_seconds attempt =
     TRANSIENT_RETRY_BASE_SECONDS * min 24 (2 ^ nat (max 0 (attempt - 1)))"

definition automatic_retry_due :: "int \<Rightarrow> int option \<Rightarrow> int option \<Rightarrow> int \<Rightarrow> int \<Rightarrow> bool" where
  \<comment> \<open>\<open>clock_ns\<close> is what \<open>time.time_ns()\<close> returns when no \<open>now_ns\<close> is given\<close>
  "automatic_retry_due attempt_count next_retry_ns now_ns clock_ns max_attempts =
     (if max_attempts \<le> attempt_count then False
      else let current_ns = (case now_ns of None \<Rightarrow> clock_ns | Some n \<Rightarrow> n)
           in (case next_retry_ns of None \<Rightarrow> True | Some n \<Rightarrow> n \<le> current_ns))"

section \<open>PDF error taxonomy\<close>

datatype recommendation = Retry | Keep_Protected | Manual_Review | Deletion_Candidate

record PdfFailureDiagnostic =
  error_type :: string
  phase :: string
  reason_code :: string
  retryable :: bool
  recommendation :: recommendation
  confidence :: real
  exit_code :: "int option"

record failure_evidence =
  ev_error_type :: string
  ev_phase :: string
  ev_message :: string
  ev_exit_code :: "int option"
  ev_retryable :: bool

definition evidence :: "PdfFailureDiagnostic \<Rightarrow> string \<Rightarrow> failure_evidence" where
  "evidence d message =
     \<lparr>ev_error_type = error_type d, ev_phase = phase d, ev_message = take 2000 message,
      ev_exit_code = exit_code d, ev_retryable = retryable d\<rparr>"

definition STRUCTURAL_PDF_MARKERS :: "string list" where
  "STRUCTURAL_PDF_MARKERS =
    [''unexpected eof'', ''no /root object'', ''invalid octal'', ''object is not a stream'',
     ''page not in document'', ''cannot find page'', ''consecutive page extraction failures'',
     ''xref not found'', ''invalid xref'', ''errors while decoding content stream'']"

definition is_structural_pdf_failure :: "string \<Rightarrow> string \<Rightarrow> bool" where
  "is_structural_pdf_failure etype msg =
     (let normalized_type = casefold etype; message = casefold msg
      in normalized_type \<in> set [''pseof'', ''pdfsyntaxerror'', ''pdfstructurederror'']
         \<or> list_ex (\<lambda>marker. text_in marker message) STRUCTURAL_PDF_MARKERS)"

text \<open>An exception, as far as the OCR predicate looks at it: whether it is a
  \<open>MemoryError\<close>, and its text.\<close>

record py_exception =
  is_memory_error :: bool
  exc_text :: string

definition OCR_SCALE_MARKERS :: "string list" where
  "OCR_SCALE_MARKERS =
    [''out of memory'', ''bad_alloc'', ''pixdata_malloc'', ''malloc ('', ''3221225477'',
     ''3221225725'', ''1073741845'', ''tesseract process timeout'']"

definition is_ocr_scale_retryable_failure :: "py_exception \<Rightarrow> bool" where
  "is_ocr_scale_retryable_failure e =
     (if is_memory_error e then True
      else let message = casefold (exc_text e)
           in list_ex (\<lambda>marker. text_in marker message) OCR_SCALE_MARKERS)"

definition TRANSIENT_ERROR_TYPES :: "string list" where
  "TRANSIENT_ERROR_TYPES =
    [''PdfChildProcessError'', ''PdfChildExitError'', ''PdfDocumentTimeout'',
     ''InterruptedPdfProcessing'', ''MemoryBudgetExceeded'', ''MemoryHeadroomTimeout'',
     ''PdfResourceError'', ''MemoryError'', ''PermissionError'']"

definition transient_reason :: "string \<Rightarrow> string" where
  "transient_reason etype =
     (if etype = ''PdfDocumentTimeout'' then ''pdf_document_timeout''
      else if etype = ''InterruptedPdfProcessing'' then ''pdf_interrupted_processing''
      else if etype \<in> set [''PdfChildProcessError'', ''PdfChildExitError''] then ''pdf_child_exit''
      else ''pdf_resource_failure'')"

definition classify_pdf_failure ::
  "string \<Rightarrow> string \<Rightarrow> string \<Rightarrow> int option \<Rightarrow> bool \<Rightarrow> PdfFailureDiagnostic" where
  "classify_pdf_failure etype error_message ph code recovered =
    (let message = casefold error_message;
         diag = (\<lambda>reason retry rec conf.
           \<lparr>error_type = etype, phase = ph, reason_code = reason, retryable = retry,
            recommendation = rec, confidence = conf, exit_code = code\<rparr>)
     in if etype = ''EncryptedPdf''
          then diag ''pdf_password_required'' False Keep_Protected 1
        else if recovered
          then diag ''pdf_structural_recovered'' False Manual_Review 0.98
        else if etype \<in> set TRANSIENT_ERROR_TYPES
          then diag (transient_reason etype) True Retry 0.95
        else if etype = ''OperationalError'' \<and> (text_in ''locked'' message \<or> text_in ''busy'' message)
          then diag ''pdf_state_contention'' True Retry 0.95
        else if text_in ''source metadata changed'' message
          then diag ''pdf_source_changed'' True Retry 1
        else if etype = ''AttributeError'' \<and> text_in ''boundedsemaphore'' message
                \<and> text_in (''has no attribute '' @ [CHR 0x27] @ ''get'' @ [CHR 0x27]) message
          then diag ''pdf_legacy_ocr_control_bug'' True Retry 1
        else if etype = ''LegacyOcrControlError''
          then diag ''pdf_legacy_ocr_control_bug'' True Retry 1
        else if etype = ''PdfChildReportedError''
                \<and> (starts_with message ''memoryerror:'' \<or> starts_with message ''permissionerror:'')
          then diag ''pdf_legacy_child_resource_failure'' True Retry 0.98
        else if is_ocr_scale_retryable_failure
                  \<lparr>is_memory_error = False, exc_text = error_message\<rparr>
          then diag ''pdf_ocr_resource_failure'' True Retry 0.95
        else if etype = ''PdfChildReportedError'' \<and> is_structural_pdf_failure etype error_message
          then diag ''pdf_legacy_structural_retry'' True Retry 0.98
        else if etype = ''PdfStructuralRecoveryFailed''
          then diag ''pdf_unrecoverable_structural_damage'' False Deletion_Candidate 0.99
        else if is_structural_pdf_failure etype error_message
          then diag ''pdf_structural_damage'' False Manual_Review 0.98
        else diag ''pdf_unclassified_failure'' False Manual_Review 0.6)"

definition is_retryable_pdf_document_error :: "string \<Rightarrow> string \<Rightarrow> bool" where
  "is_retryable_pdf_document_error etype msg =
     retryable (classify_pdf_failure etype msg ''unknown'' None False)"

section \<open>The SQL predicate over page errors\<close>

text \<open>SQLite's \<open>LIKE\<close>: \<open>%\<close> matches any text, an underscore any one character,
  and letters compare without regard to ASCII case.\<close>

fun sql_like :: "string \<Rightarrow> string \<Rightarrow> bool" where
  "sql_like [] str = (str = [])"
| "sql_like (p # ps) [] = (if p = CHR ''%'' then sql_like ps [] else False)"
| "sql_like (p # ps) (c # cs) =
     (if p = CHR ''%'' then sql_like ps (c # cs) \<or> sql_like (p # ps) cs
      else if p = CHR ''_'' then sql_like ps cs
      else ascii_lower p = ascii_lower c \<and> sql_like ps cs)"

definition pdf_retryable_page_error :: "string \<Rightarrow> string \<Rightarrow> bool" where
  "pdf_retryable_page_error etype msg \<longleftrightarrow>
     etype = ''PermissionError''
     \<or> etype = ''MemoryError''
     \<or> etype = ''LegacyOcrControlError''
     \<or> (etype = ''AttributeError''
        \<and> msg = [CHR 0x27] @ ''BoundedSemaphore'' @ [CHR 0x27] @ '' object has no attribute ''
                 @ [CHR 0x27] @ ''get'' @ [CHR 0x27])
     \<or> (etype = ''RuntimeError''
        \<and> (sql_like ''Tesseract process timeout%'' msg
           \<or> sql_like ''%malloc (% failed%'' msg
           \<or> sql_like ''%out of memory%'' msg))
     \<or> (etype = ''TesseractError''
        \<and> (sql_like ''%out of memory%'' msg
           \<or> sql_like ''%pixdata_malloc%'' msg
           \<or> sql_like ''%3221225477%'' msg
           \<or> sql_like ''%3221225725%'' msg
           \<or> sql_like ''%1073741845%'' msg))"

lemmas retry_defs [py_defs] =
  retry_delay_seconds_def automatic_retry_due_def TRANSIENT_RETRY_BASE_SECONDS_def
  PDF_MAX_AUTOMATIC_RETRIES_def

section \<open>Lemmas\<close>

text \<open>What a successful \<open>LIKE\<close> says of the text.\<close>

lemma sql_like_percent: "sql_like (CHR ''%'' # ps) str \<Longrightarrow> \<exists>pre post. str = pre @ post \<and> sql_like ps post"
proof (induction str)
  case Nil
  then show ?case by auto
next
  case (Cons c cs)
  show ?case
  proof (cases "sql_like ps (c # cs)")
    case True
    then have "c # cs = [] @ (c # cs) \<and> sql_like ps (c # cs)" by simp
    then show ?thesis by blast
  next
    case False
    with Cons obtain pre post where "cs = pre @ post" and "sql_like ps post"
      by (auto split: if_splits)
    then have "c # cs = (c # pre) @ post \<and> sql_like ps post" by simp
    then show ?thesis by blast
  qed
qed

lemma sql_like_literal_prefix:
  "sql_like (lit @ ps) str \<Longrightarrow> CHR ''%'' \<notin> set lit \<Longrightarrow> CHR ''_'' \<notin> set lit \<Longrightarrow>
     prefix (casefold lit) (casefold str)"
proof (induction lit arbitrary: str)
  case (Cons p lit)
  then show ?case
    by (cases str) (auto simp: casefold_def)
qed (simp add: casefold_def)

text \<open>A pattern that starts with \<open>%\<close> and a wildcard-free literal finds that literal.\<close>

lemma sql_like_contains:
  assumes "sql_like (CHR ''%'' # lit @ ps) str"
    and "CHR ''%'' \<notin> set lit" and "CHR ''_'' \<notin> set lit"
  shows "text_in (casefold lit) (casefold str)"
proof -
  obtain pre post where str: "str = pre @ post" and like: "sql_like (lit @ ps) post"
    using sql_like_percent[OF assms(1)] by blast
  have "prefix (casefold lit) (casefold post)"
    using sql_like_literal_prefix[OF like assms(2,3)] .
  then have "sublist (casefold lit) (casefold post)" by (rule prefix_imp_sublist)
  then show ?thesis
    by (simp add: text_in_def str casefold_append sublist_order.order.trans [OF _ sublist_append_leftI])
qed

lemma sql_like_split_wildcard:
  assumes "sql_like (lit @ CHR ''_'' # ps) str" "CHR ''%'' \<notin> set lit" "CHR ''_'' \<notin> set lit"
  shows "\<exists>a c b. str = a @ c # b \<and> casefold a = casefold lit \<and> sql_like ps b"
  using assms
proof (induction lit arbitrary: str)
  case Nil
  then obtain c b where "str = [] @ c # b" "sql_like ps b"
    by (cases str) auto
  then show ?case by blast
next
  case (Cons p l)
  then obtain q r where q: "str = q # r" "ascii_lower p = ascii_lower q"
    and "sql_like (l @ CHR ''_'' # ps) r"
    by (cases str) auto
  with Cons.prems Cons.IH[of r]
  obtain a c b where "r = a @ c # b" "casefold a = casefold l" "sql_like ps b"
    by auto
  with q have "str = (q # a) @ c # b \<and> casefold (q # a) = casefold (p # l) \<and> sql_like ps b"
    by (simp add: casefold_def)
  then show ?case by blast
qed

lemma sql_like_one_wildcard:
  assumes "sql_like (CHR ''%'' # lit @ CHR ''_'' # lit' @ ps) str"
    and "CHR ''%'' \<notin> set lit" "CHR ''_'' \<notin> set lit" "CHR ''%'' \<notin> set lit'" "CHR ''_'' \<notin> set lit'"
  shows "\<exists>c. text_in (casefold lit @ [c] @ casefold lit') (casefold str)"
proof -
  obtain pre post where pp: "str = pre @ post" "sql_like (lit @ CHR ''_'' # lit' @ ps) post"
    using sql_like_percent[OF assms(1)] by blast
  obtain a c b where abc: "post = a @ c # b" "casefold a = casefold lit" "sql_like (lit' @ ps) b"
    using sql_like_split_wildcard[OF pp(2) assms(2,3)] by blast
  obtain rest where "casefold b = casefold lit' @ rest"
    using sql_like_literal_prefix[OF abc(3) assms(4,5)] by (auto simp: prefix_def)
  then have "casefold str = casefold pre @ (casefold lit @ [ascii_lower c] @ casefold lit') @ rest"
    using pp(1) abc by (simp add: casefold_def)
  then show ?thesis unfolding text_in_def sublist_def by blast
qed

text \<open>Which messages the OCR markers, and through them the document classifier, accept.\<close>

lemma ocr_marker_retryable:
  assumes "marker \<in> set OCR_SCALE_MARKERS" "text_in marker (casefold msg)" "etype \<noteq> ''EncryptedPdf''"
  shows "is_retryable_pdf_document_error etype msg"
  using assms
  by (auto simp: is_retryable_pdf_document_error_def classify_pdf_failure_def Let_def
      is_ocr_scale_retryable_failure_def list_ex_iff)

lemma casefold_literals:
  "casefold ''Tesseract process timeout'' = ''tesseract process timeout''"
  "casefold ''malloc ('' = ''malloc (''" "casefold ''out of memory'' = ''out of memory''"
  "casefold ''3221225477'' = ''3221225477''" "casefold ''3221225725'' = ''3221225725''"
  "casefold ''1073741845'' = ''1073741845''" "casefold ''pixdata'' = ''pixdata''"
  "casefold ''malloc'' = ''malloc''"
  by code_simp+

lemma like_markers:
  "sql_like ''Tesseract process timeout%'' msg \<Longrightarrow> text_in ''tesseract process timeout'' (casefold msg)"
  "sql_like ''%malloc (% failed%'' msg \<Longrightarrow> text_in ''malloc ('' (casefold msg)"
  "sql_like ''%out of memory%'' msg \<Longrightarrow> text_in ''out of memory'' (casefold msg)"
  "sql_like ''%3221225477%'' msg \<Longrightarrow> text_in ''3221225477'' (casefold msg)"
  "sql_like ''%3221225725%'' msg \<Longrightarrow> text_in ''3221225725'' (casefold msg)"
  "sql_like ''%1073741845%'' msg \<Longrightarrow> text_in ''1073741845'' (casefold msg)"
  using sql_like_literal_prefix[of "''Tesseract process timeout''" "''%''" msg]
    sql_like_contains[of "''malloc (''" "''% failed%''" msg]
    sql_like_contains[of "''out of memory''" "''%''" msg]
    sql_like_contains[of "''3221225477''" "''%''" msg]
    sql_like_contains[of "''3221225725''" "''%''" msg]
    sql_like_contains[of "''1073741845''" "''%''" msg]
  by (simp_all add: casefold_literals text_in_def prefix_imp_sublist)

section \<open>Properties\<close>

text \<open>
  The delay of a retry is at least the one-hour base and at most a day, it
  never shrinks as attempts grow, and from the first attempt on it doubles with
  every attempt until the cap is reached.
\<close>

theorem retry_delay_bounds:
  "3600 \<le> retry_delay_seconds attempt \<and> retry_delay_seconds attempt \<le> 86400
   \<and> retry_delay_seconds attempt \<le> retry_delay_seconds (attempt + int k)
   \<and> retry_delay_seconds (int k + 2) = min 86400 (2 * retry_delay_seconds (int k + 1))"
proof -
  let ?p = "(2 :: int) ^ nat (max 0 (attempt - 1))"
  let ?q = "(2 :: int) ^ nat (max 0 (attempt + int k - 1))"
  have delay: "retry_delay_seconds attempt = 3600 * min 24 ?p"
    "retry_delay_seconds (attempt + int k) = 3600 * min 24 ?q"
    "retry_delay_seconds (int k + 1) = 3600 * min 24 (2 ^ k)"
    by (simp_all add: py_defs)
  have "nat (1 + int k) = Suc k" by simp
  then have double: "retry_delay_seconds (int k + 2) = 3600 * min 24 (2 * 2 ^ k)"
    by (simp add: py_defs)
  have scaled: "3600 \<le> 3600 * min 24 x \<and> 3600 * min 24 x \<le> 86400 \<and> 3600 * min 24 x \<le> 3600 * min 24 y"
    if "1 \<le> x" "x \<le> y" for x y :: int
    using that by (auto simp: min_def)
  have "?p \<le> ?q" by (rule power_increasing) auto
  then show ?thesis
    using scaled[of ?p ?q] unfolding delay double by (auto simp: min_def)
qed

text \<open>
  The classifier is coherent for every failure: it is retryable exactly
  when it recommends a retry, an encrypted file is the only one kept as
  protected, only a file whose structural recovery failed can become a deletion
  candidate, and the diagnostic carries the failure's own type, phase and exit
  code.
\<close>

theorem classify_coherent:
  "let d = classify_pdf_failure etype msg ph code recovered
   in (retryable d \<longleftrightarrow> recommendation d = Retry)
      \<and> (recommendation d = Keep_Protected \<longleftrightarrow> etype = ''EncryptedPdf'')
      \<and> (recommendation d = Deletion_Candidate \<longrightarrow>
            etype = ''PdfStructuralRecoveryFailed'' \<and> \<not> recovered)
      \<and> error_type d = etype \<and> phase d = ph \<and> exit_code d = code
      \<and> 0.6 \<le> confidence d \<and> confidence d \<le> 1"
  unfolding classify_pdf_failure_def Let_def by simp

theorem classify_coherent_witness:
  "recommendation (classify_pdf_failure ''PdfStructuralRecoveryFailed'' ''x'' ''p'' None False)
     = Deletion_Candidate
   \<and> \<not> retryable (classify_pdf_failure ''PdfStructuralRecoveryFailed'' ''x'' ''p'' None False)"
proof -
  have "recommendation (classify_pdf_failure ''PdfStructuralRecoveryFailed'' ''x'' ''p'' None False)
      = Deletion_Candidate"
    by code_simp
  then show ?thesis
    using classify_coherent[of "''PdfStructuralRecoveryFailed''" "''x''" "''p''" None False]
    by (simp add: Let_def)
qed



end
