(* ===== verification/Py_Text.thy ===== *)
theory Py_Text
  imports Neo_Prelude
begin

text \<open>
  Python's text operations as the components use them: \<open>strip\<close>, \<open>isdecimal\<close>,
  and the conversion between integers and their digits in a base
  (\<open>format(n, 'x')\<close>, \<open>int(text, 16)\<close>, \<open>int(text, 10)\<close>). A character is one of
  the first 256 code points; white space is what \<open>str.isspace\<close> accepts there.
\<close>

definition is_space :: "char \<Rightarrow> bool" where
  "is_space c = (let n = (of_char c :: nat) in
     9 \<le> n \<and> n \<le> 13 \<or> 28 \<le> n \<and> n \<le> 32 \<or> n = 133 \<or> n = 160)"

definition strip :: "string \<Rightarrow> string" where
  "strip s = rev (dropWhile is_space (rev (dropWhile is_space s)))"

definition DIGITS :: string where
  "DIGITS = ''0123456789abcdef''"

definition digit_char :: "nat \<Rightarrow> char" where
  "digit_char d = DIGITS ! d"

definition digit_val :: "char \<Rightarrow> nat" where
  "digit_val c = length (takeWhile (\<lambda>x. x \<noteq> ascii_lower c) DIGITS)"

definition is_hex_digit :: "char \<Rightarrow> bool" where
  "is_hex_digit c \<longleftrightarrow> c \<in> set ''0123456789abcdefABCDEF''"

definition is_decimal :: "string \<Rightarrow> bool" where
  "is_decimal s \<longleftrightarrow> s \<noteq> [] \<and> list_all (\<lambda>c. c \<in> set ''0123456789'') s"

fun to_base :: "nat \<Rightarrow> nat \<Rightarrow> string" where
  "to_base b n = (if b < 2 \<or> n < b then [digit_char n] else to_base b (n div b) @ [digit_char (n mod b)])"

declare to_base.simps [simp del]

definition from_base :: "nat \<Rightarrow> string \<Rightarrow> nat" where
  "from_base b s = foldl (\<lambda>a c. a * b + digit_val c) 0 s"

abbreviation hex_of :: "nat \<Rightarrow> string" where
  "hex_of n \<equiv> to_base 16 n"

abbreviation dec_of :: "nat \<Rightarrow> string" where
  "dec_of n \<equiv> to_base 10 n"

section \<open>Digits\<close>

lemma digit_val_digit_char [simp]: "d < 16 \<Longrightarrow> digit_val (digit_char d) = d"
proof -
  have "\<forall>d<16. digit_val (digit_char d) = d"
    by (simp add: All_less_Suc numeral_eq_Suc digit_val_def digit_char_def DIGITS_def ascii_lower_def)
  then show "d < 16 \<Longrightarrow> digit_val (digit_char d) = d" by simp
qed

lemma digit_char_plain:
  assumes "d < 16"
  shows "is_hex_digit (digit_char d)" "\<not> is_space (digit_char d)" "digit_char d \<noteq> CHR ''x''"
    "ascii_lower (digit_char d) = digit_char d"
proof -
  have "\<forall>d<16. is_hex_digit (digit_char d) \<and> \<not> is_space (digit_char d)
      \<and> digit_char d \<noteq> CHR ''x'' \<and> ascii_lower (digit_char d) = digit_char d"
    by (simp add: All_less_Suc numeral_eq_Suc digit_char_def DIGITS_def ascii_lower_def
        is_hex_digit_def is_space_def)
  with assms show "is_hex_digit (digit_char d)" "\<not> is_space (digit_char d)"
    "digit_char d \<noteq> CHR ''x''" "ascii_lower (digit_char d) = digit_char d"
    by auto
qed

lemma digit_char_decimal:
  assumes "d < 10"
  shows "digit_char d \<in> set ''0123456789''"
proof -
  have "\<forall>d<10. digit_char d \<in> set ''0123456789''"
    by (simp add: All_less_Suc numeral_eq_Suc digit_char_def DIGITS_def)
  with assms show ?thesis by blast
qed

lemma from_base_snoc [simp]: "from_base b (s @ [c]) = from_base b s * b + digit_val c"
  by (simp add: from_base_def)

lemma from_base_single [simp]: "from_base b [c] = digit_val c"
  by (simp add: from_base_def)

text \<open>Printing a number and reading it back.\<close>

lemma from_to_base:
  assumes "2 \<le> b" "b \<le> 16"
  shows "from_base b (to_base b n) = n"
  using assms
proof (induction b n rule: to_base.induct)
  case (1 b n)
  show ?case
  proof (cases "n < b")
    case True
    with "1.prems" show ?thesis by (simp add: to_base.simps[of b n])
  next
    case False
    with "1" have "from_base b (to_base b (n div b)) = n div b" by simp
    moreover have "n mod b < 16" using "1.prems" by (meson mod_less_divisor less_le_trans zero_less_numeral less_le_trans pos2)
    ultimately show ?thesis
      using False "1.prems" by (simp add: to_base.simps[of b n])
  qed
qed

lemma to_base_digits:
  assumes "2 \<le> b"
  shows "\<exists>ds. to_base b n = map digit_char ds \<and> ds \<noteq> [] \<and> list_all (\<lambda>d. d < b) ds
      \<and> (n \<noteq> 0 \<longrightarrow> hd ds \<noteq> 0) \<and> (n < b \<longrightarrow> ds = [n])"
  using assms
proof (induction b n rule: to_base.induct)
  case (1 b n)
  show ?case
  proof (cases "n < b")
    case True
    with "1.prems" show ?thesis
      by (intro exI[of _ "[n]"]) (simp add: to_base.simps[of b n])
  next
    case False
    have nz: "n div b \<noteq> 0" using False "1.prems" by (simp add: div_eq_0_iff)
    with False "1" obtain ds where ds: "to_base b (n div b) = map digit_char ds" "ds \<noteq> []"
      "list_all (\<lambda>d. d < b) ds" "hd ds \<noteq> 0"
      by (metis linorder_not_less)
    then show ?thesis
      using False "1.prems"
      by (intro exI[of _ "ds @ [n mod b]"]) (auto simp: to_base.simps[of b n])
  qed
qed

section \<open>White space\<close>

lemma strip_plain:
  assumes "s \<noteq> []" "\<not> is_space (hd s)" "\<not> is_space (last s)"
  shows "strip s = s"
proof -
  have "dropWhile is_space s = s" using assms by (cases s) auto
  moreover have "dropWhile is_space (rev s) = rev s"
    using assms by (cases "rev s") (auto simp: last_rev hd_rev[symmetric])
  ultimately show ?thesis by (simp add: strip_def)
qed

lemma strip_ends: "strip s = [] \<or> \<not> is_space (hd (strip s)) \<and> \<not> is_space (last (strip s))"
proof -
  let ?t = "dropWhile is_space s" and ?u = "dropWhile is_space (rev (dropWhile is_space s))"
  have last: "?u = [] \<or> \<not> is_space (hd ?u)"
    by (metis hd_dropWhile)
  obtain pre where "rev ?t = pre @ ?u" by (metis takeWhile_dropWhile_id)
  then have t: "?t = rev ?u @ rev pre" by (metis rev_append rev_rev_ident)
  have "rev ?u = [] \<or> \<not> is_space (hd (rev ?u))"
  proof (cases "rev ?u")
    case (Cons c cs)
    then have "?t \<noteq> [] \<and> hd ?t = c" using t by simp
    then have "\<not> is_space c" by (metis hd_dropWhile)
    then show ?thesis using Cons by simp
  qed simp
  with last show ?thesis by (auto simp: strip_def last_rev)
qed

lemma strip_Nil [simp]: "strip [] = []"
  by (simp add: strip_def)

lemma strip_idem [simp]: "strip (strip s) = strip s"
  using strip_ends[of s] strip_plain[of "strip s"] by (cases "strip s = []") auto

lemma to_base_plain:
  assumes "2 \<le> b" "b \<le> 16"
  shows "to_base b n \<noteq> []" "\<not> is_space (hd (to_base b n))" "\<not> is_space (last (to_base b n))"
    "list_all is_hex_digit (to_base b n)" "strip (to_base b n) = to_base b n"
proof -
  obtain ds where ds: "to_base b n = map digit_char ds" "ds \<noteq> []" "list_all (\<lambda>d. d < b) ds"
    using to_base_digits[OF assms(1)] by blast
  then have all: "\<forall>d\<in>set ds. d < 16" using assms(2) by (auto simp: list_all_iff)
  show ne: "to_base b n \<noteq> []" using ds by simp
  show hd: "\<not> is_space (hd (to_base b n))" and la: "\<not> is_space (last (to_base b n))"
    using ds all digit_char_plain(2) by (simp_all add: hd_map last_map)
  show "list_all is_hex_digit (to_base b n)"
    using ds all digit_char_plain(1) by (simp add: list_all_iff)
  show "strip (to_base b n) = to_base b n" by (rule strip_plain[OF ne hd la])
qed

lemma is_decimal_dec_of: "is_decimal (dec_of n)"
proof -
  obtain ds where "dec_of n = map digit_char ds" "ds \<noteq> []" "list_all (\<lambda>d. d < 10) ds"
    using to_base_digits[of 10 n] by auto
  then show ?thesis
    unfolding is_decimal_def using digit_char_decimal by (auto simp: list_all_iff)
qed

text \<open>A printed number never looks like one with a \<open>0x\<close> prefix.\<close>

lemma hex_of_no_prefix: "\<not> prefix ''0x'' (casefold (hex_of n))"
proof
  obtain ds where ds: "hex_of n = map digit_char ds" "list_all (\<lambda>d. d < 16) ds"
    using to_base_digits[of 16 n] by auto
  assume "prefix ''0x'' (casefold (hex_of n))"
  then obtain d1 d2 rest where d: "ds = d1 # d2 # rest" and x: "ascii_lower (digit_char d2) = CHR ''x''"
    using ds by (auto simp: prefix_def casefold_def Cons_eq_map_conv)
  then have "d2 < 16" using ds by simp
  then show False using x digit_char_plain(3,4)[of d2] by simp
qed

end
