(* ===== verification/Io_Identity.thy ===== *)
theory Io_Identity
  imports Py_Text
begin

text \<open>
  Canonical identities of I/O devices, \<open>neocortex/runtime/control/io_identity.py\<close>.
  The argument is a Python value: nothing, a Boolean, an integer, or a text.
\<close>

section \<open>Model\<close>

datatype io_value = IoNone | IoBool bool | IoInt int | IoText string

text \<open>The limit Python puts on the digits of a decimal conversion.\<close>

definition INT_MAX_STR_DIGITS :: nat where
  "INT_MAX_STR_DIGITS = 4300"

definition canonical_text :: "string \<Rightarrow> py_error + string option" where
  "canonical_text value =
    (let raw = strip value
     in if raw = [] then Inr None
        else if starts_with (casefold raw) ''dev:'' then
          (let token = strip (drop 4 raw);
               token = (if starts_with (casefold token) ''0x'' then drop 2 token else token)
           in if token \<noteq> [] \<and> list_all is_hex_digit token
              then Inr (Some (''dev:'' @ hex_of (from_base 16 token)))
              else Inr (Some raw))
        else if is_decimal raw then
          (if INT_MAX_STR_DIGITS < length raw then Inl (ValueError ''int digits'')
           else Inr (Some (''dev:'' @ hex_of (from_base 10 raw))))
        else Inr (Some raw))"

fun canonical_io_device :: "io_value \<Rightarrow> py_error + string option" where
  "canonical_io_device IoNone = Inr None"
| "canonical_io_device (IoBool b) = Inr (Some (if b then ''True'' else ''False''))"
| "canonical_io_device (IoInt n) =
     (if n < 0 then Inl (ValueError ''I/O device numbers cannot be negative'')
      else Inr (Some (''dev:'' @ hex_of (nat n))))"
| "canonical_io_device (IoText s) = canonical_text s"

text \<open>\<open>canonical_io_device(value) or "default"\<close>: a missing and an empty identity are the default.\<close>

definition io_device_key :: "io_value \<Rightarrow> py_error + string" where
  "io_device_key v = (case canonical_io_device v of
      Inl e \<Rightarrow> Inl e
    | Inr None \<Rightarrow> Inr ''default''
    | Inr (Some s) \<Rightarrow> Inr (if s = [] then ''default'' else s))"

fun normalize_loop :: "(io_value \<times> int) list \<Rightarrow> (string, int) dict \<Rightarrow> py_error + (string, int) dict" where
  "normalize_loop [] normalized = Inr normalized"
| "normalize_loop ((raw_key, value) # rest) normalized =
     (case io_device_key raw_key of
        Inl e \<Rightarrow> Inl e
      | Inr key \<Rightarrow>
          (case dict_get normalized key of
             Some previous \<Rightarrow>
               if previous \<noteq> value then Inl (ValueError ''I/O device limits contain conflicting aliases'')
               else normalize_loop rest (dict_set normalized key value)
           | None \<Rightarrow> normalize_loop rest (dict_set normalized key value)))"

definition normalize_io_device_slots ::
  "(io_value \<times> int) list option \<Rightarrow> py_error + (string, int) dict option" where
  "normalize_io_device_slots configured =
     (case configured of
        None \<Rightarrow> Inr None
      | Some items \<Rightarrow> (case normalize_loop items [] of Inl e \<Rightarrow> Inl e | Inr d \<Rightarrow> Inr (Some d)))"

section \<open>Lemmas\<close>

lemma casefold_dev: "casefold (''dev:'' @ s) = ''dev:'' @ casefold s"
  by (simp add: casefold_def ascii_lower_def)

lemma canonical_dev_hex: "canonical_text (''dev:'' @ hex_of n) = Inr (Some (''dev:'' @ hex_of n))"
proof -
  have "last (''dev:'' @ hex_of n) = last (hex_of n)"
    using to_base_plain(1)[of 16 n] by simp
  then have "strip (''dev:'' @ hex_of n) = ''dev:'' @ hex_of n"
    using to_base_plain(3)[of 16 n] by (intro strip_plain) (simp_all add: is_space_def)
  moreover have "starts_with (casefold (''dev:'' @ hex_of n)) ''dev:''"
    unfolding casefold_dev starts_with_def by simp
  ultimately show ?thesis
    using to_base_plain[of 16 n] hex_of_no_prefix[of n]
    by (simp add: canonical_text_def Let_def starts_with_def from_to_base)
qed

lemma canonical_text_idem:
  assumes "canonical_text s = Inr (Some d)"
  shows "canonical_text d = Inr (Some d)"
proof -
  have "(\<exists>n. d = ''dev:'' @ hex_of n) \<or> d = strip s"
    using assms by (auto simp: canonical_text_def Let_def split: if_splits)
  then show ?thesis
  proof
    assume "\<exists>n. d = ''dev:'' @ hex_of n"
    then show ?thesis using canonical_dev_hex by blast
  next
    assume d: "d = strip s"
    have "canonical_text (strip s) = canonical_text s"
      by (simp add: canonical_text_def)
    with d assms show ?thesis by simp
  qed
qed

lemma canonical_text_label:
  "canonical_text ''True'' = Inr (Some ''True'')" "canonical_text ''False'' = Inr (Some ''False'')"
  by code_simp+

lemma canonical_dec_of: "length (dec_of n) \<le> INT_MAX_STR_DIGITS \<Longrightarrow>
    canonical_text (dec_of n) = Inr (Some (''dev:'' @ hex_of n))"
proof -
  assume len: "length (dec_of n) \<le> INT_MAX_STR_DIGITS"
  have dec: "is_decimal (dec_of n)" by (rule is_decimal_dec_of)
  then have "hd (dec_of n) \<in> set ''0123456789''"
    by (auto simp: is_decimal_def list_all_iff)
  then have "ascii_lower (hd (dec_of n)) \<noteq> CHR ''d''"
    by (auto simp: ascii_lower_def)
  then have "\<not> starts_with (casefold (dec_of n)) ''dev:''"
    using dec by (cases "dec_of n") (auto simp: starts_with_def casefold_def is_decimal_def)
  then show ?thesis
    using len dec to_base_plain[of 10 n]
    by (simp add: canonical_text_def Let_def from_to_base)
qed

text \<open>One turn of the normalisation loop, and what the whole loop leaves behind.\<close>

lemma normalize_loop_Cons:
  "normalize_loop ((raw, v) # rest) d = Inr d' \<longleftrightarrow>
     (\<exists>key. io_device_key raw = Inr key \<and> (dict_get d key = None \<or> dict_get d key = Some v)
        \<and> normalize_loop rest (dict_set d key v) = Inr d')"
  by (auto split: sum.splits option.splits if_splits)

lemma normalize_loop_get:
  assumes "normalize_loop items d = Inr d'"
  shows "(\<forall>k v. dict_get d k = Some v \<longrightarrow> dict_get d' k = Some v)
    \<and> (\<forall>raw v. (raw, v) \<in> set items \<longrightarrow> (\<exists>k. io_device_key raw = Inr k \<and> dict_get d' k = Some v))"
  using assms
proof (induction items arbitrary: d)
  case (Cons item rest)
  obtain raw v where item: "item = (raw, v)" by (cases item)
  obtain key where key: "io_device_key raw = Inr key" "dict_get d key = None \<or> dict_get d key = Some v"
    and rest: "normalize_loop rest (dict_set d key v) = Inr d'"
    using Cons.prems unfolding item normalize_loop_Cons by blast
  have old: "dict_get d' k = Some w" if "dict_get d k = Some w" for k w
    using Cons.IH[OF rest] key(2) that by (cases "k = key") auto
  have "dict_get d' key = Some v" using Cons.IH[OF rest] by auto
  then show ?case using Cons.IH[OF rest] key(1) old unfolding item by auto
qed simp

lemma normalize_loop_keys:
  assumes "normalize_loop items d = Inr d'" "dict_get d' k = Some v"
  shows "dict_get d k = Some v \<or> (\<exists>raw. (raw, v) \<in> set items \<and> io_device_key raw = Inr k)"
  using assms
proof (induction items arbitrary: d)
  case (Cons item rest)
  obtain raw w where item: "item = (raw, w)" by (cases item)
  obtain key where key: "io_device_key raw = Inr key"
    and rest: "normalize_loop rest (dict_set d key w) = Inr d'"
    using Cons.prems(1) unfolding item normalize_loop_Cons by blast
  show ?case using Cons.IH[OF rest Cons.prems(2)] key unfolding item by (auto split: if_splits)
qed simp

section \<open>Properties\<close>

lemma canonical_idem: "canonical_io_device v = Inr (Some d) \<Longrightarrow> canonical_io_device (IoText d) = Inr (Some d)"
  using canonical_text_idem canonical_text_label canonical_dev_hex
  by (cases v) (auto split: if_splits)

text \<open>
  Canonicalisation is a projection: whatever identity a route reports, the
  key computed for it is its own key, so applying it again at another layer
  never makes a second budget. The integer, the decimal text and the \<open>dev:\<close>
  text of one device number all get the same key.
\<close>

theorem canonical_io_device_idempotent:
  "(\<forall>d. canonical_io_device v = Inr (Some d) \<longrightarrow> canonical_io_device (IoText d) = Inr (Some d))
   \<and> canonical_io_device (IoText (''dev:'' @ hex_of n)) = canonical_io_device (IoInt (int n))
   \<and> (length (dec_of n) \<le> INT_MAX_STR_DIGITS \<longrightarrow>
        canonical_io_device (IoText (dec_of n)) = canonical_io_device (IoInt (int n)))"
proof -
  have "canonical_io_device (IoText d) = Inr (Some d)" if "canonical_io_device v = Inr (Some d)" for d
    using that by (rule canonical_idem)
  then show ?thesis
    using canonical_dev_hex[of n] canonical_dec_of[of n] by simp
qed

theorem canonical_io_device_idempotent_witness:
  "canonical_io_device (IoText '' 2049 '') = Inr (Some ''dev:801'')
   \<and> canonical_io_device (IoText ''dev:801'') = Inr (Some ''dev:801'')
   \<and> canonical_io_device (IoText (dec_of 2049)) = canonical_io_device (IoInt 2049)"
proof -
  have a: "canonical_io_device (IoText '' 2049 '') = Inr (Some ''dev:801'')" by code_simp
  have b: "length (dec_of 2049) \<le> INT_MAX_STR_DIGITS" by code_simp
  show ?thesis
    using a b canonical_io_device_idempotent[of "IoText '' 2049 ''" 2049] by simp
qed

text \<open>
  Normalising configured device limits: it fails, or every configured alias
  is found under its canonical key with the configured value, and every key of
  the result comes from a configured alias with that value. Two aliases of one
  device with different limits are always refused.
\<close>

theorem normalize_io_device_slots_sound:
  assumes "normalize_io_device_slots (Some items) = Inr (Some d)"
  shows "(\<forall>(raw, v)\<in>set items. \<exists>k. io_device_key raw = Inr k \<and> dict_get d k = Some v)
    \<and> (\<forall>k v. dict_get d k = Some v \<longrightarrow> (\<exists>raw. (raw, v) \<in> set items \<and> io_device_key raw = Inr k))
    \<and> (\<forall>(a, v)\<in>set items. \<forall>(b, w)\<in>set items. io_device_key a = io_device_key b \<longrightarrow> v = w)"
proof -
  have loop: "normalize_loop items [] = Inr d"
    using assms by (auto simp: normalize_io_device_slots_def split: sum.splits)
  have found: "\<exists>k. io_device_key raw = Inr k \<and> dict_get d k = Some v" if "(raw, v) \<in> set items" for raw v
    using normalize_loop_get[OF loop] that by blast
  have "v = w" if "(a, v) \<in> set items" "(b, w) \<in> set items" "io_device_key a = io_device_key b" for a b v w
    using found[OF that(1)] found[OF that(2)] that(3) by auto
  moreover have "\<exists>raw. (raw, v) \<in> set items \<and> io_device_key raw = Inr k" if "dict_get d k = Some v" for k v
    using normalize_loop_keys[OF loop that] by simp
  ultimately show ?thesis
    using found by blast
qed

theorem normalize_io_device_slots_sound_witness:
  "normalize_io_device_slots (Some [(IoText ''2049'', 2), (IoText ''dev:801'', 2), (IoInt 5, 1)])
     = Inr (Some [(''dev:801'', 2), (''dev:5'', 1)])
   \<and> dict_get [(''dev:801'', 2), (''dev:5'', 1)] ''dev:801'' = Some (2 :: int)
   \<and> normalize_io_device_slots (Some [(IoText ''2049'', 1), (IoText ''dev:801'', 2)])
     = Inl (ValueError ''I/O device limits contain conflicting aliases'')"
proof -
  have ok: "normalize_io_device_slots (Some [(IoText ''2049'', 2), (IoText ''dev:801'', 2), (IoInt 5, 1)])
     = Inr (Some [(''dev:801'', 2), (''dev:5'', 1)])"
    by code_simp
  have key: "io_device_key (IoText ''2049'') = Inr ''dev:801''" by code_simp
  have "normalize_io_device_slots (Some [(IoText ''2049'', 1), (IoText ''dev:801'', 2)])
     = Inl (ValueError ''I/O device limits contain conflicting aliases'')"
    by code_simp
  with ok key show ?thesis
    using normalize_io_device_slots_sound[OF ok] by simp
qed

end
