(* ===== verification/Resource_Models.thy ===== *)
theory Resource_Models
  imports Io_Identity
begin

text \<open>
  Data of the global resource coordinator, \<open>resource_models.py\<close>, together with
  the mutable state of \<open>GlobalResourceCoordinator\<close> (\<open>global_resources.py\<close>).

  \<^item> A request is an object; \<open>rid\<close> is its identity (Python's \<open>id(request)\<close>) and
    the coordinator's \<open>heap\<close> gives the object of an identity, so that aliasing
    between the queue, the active table and a lease is explicit.
  \<^item> The active table \<open>_active_reservations\<close> is the list of identities in
    insertion order, a per-route queue is the list of identities from its head.
  \<^item> A measured float is a \<open>pyfloat\<close>: a finite value (an exact real, rounding
    is not modelled), an infinity, or not-a-number. Configured percentages and
    clock readings are reals.
  \<^item> \<open>_metrics\<close> and \<open>_queues\<close> always have the same keys as \<open>route_order\<close>; they
    are total functions that matter on those names only.
  \<^item> \<open>_materialized_credit_bytes\<close>, a field that is only written and returned, is
    left out: the credit is recomputed by the function that returns it.
\<close>

section \<open>Floats\<close>

datatype pyfloat = Fin real | PosInf | NegInf | NaN

fun is_finite :: "pyfloat \<Rightarrow> bool" where
  "is_finite (Fin x) = True"
| "is_finite _ = False"

fun fl_less :: "pyfloat \<Rightarrow> pyfloat \<Rightarrow> bool" where
  "fl_less NaN y = False"
| "fl_less x NaN = False"
| "fl_less (Fin x) (Fin y) = (x < y)"
| "fl_less NegInf NegInf = False"
| "fl_less NegInf y = True"
| "fl_less x NegInf = False"
| "fl_less PosInf y = False"
| "fl_less x PosInf = True"

definition fl_le :: "pyfloat \<Rightarrow> pyfloat \<Rightarrow> bool" where
  "fl_le x y \<longleftrightarrow> fl_less x y \<or> x = y \<and> x \<noteq> NaN"

text \<open>Python's \<open>max(values, default=None)\<close>: the first value that no later one exceeds.\<close>

fun fl_max_from :: "pyfloat \<Rightarrow> pyfloat list \<Rightarrow> pyfloat" where
  "fl_max_from best [] = best"
| "fl_max_from best (x # xs) = fl_max_from (if fl_less best x then x else best) xs"

fun fl_max :: "pyfloat list \<Rightarrow> pyfloat option" where
  "fl_max [] = None"
| "fl_max (x # xs) = Some (fl_max_from x xs)"

fun fl_sub :: "pyfloat \<Rightarrow> pyfloat \<Rightarrow> pyfloat" where
  "fl_sub NaN y = NaN"
| "fl_sub x NaN = NaN"
| "fl_sub (Fin x) (Fin y) = Fin (x - y)"
| "fl_sub (Fin x) PosInf = NegInf"
| "fl_sub (Fin x) NegInf = PosInf"
| "fl_sub PosInf PosInf = NaN"
| "fl_sub PosInf y = PosInf"
| "fl_sub NegInf NegInf = NaN"
| "fl_sub NegInf y = NegInf"

text \<open>\<open>math.ceil\<close> of a float; it raises on what is not finite.\<close>

fun fl_ceil :: "pyfloat \<Rightarrow> int option" where
  "fl_ceil (Fin x) = Some \<lceil>x\<rceil>"
| "fl_ceil _ = None"

text \<open>\<open>int(x)\<close> truncates towards zero.\<close>

definition int_trunc :: "real \<Rightarrow> int" where
  "int_trunc x = (if 0 \<le> x then \<lfloor>x\<rfloor> else \<lceil>x\<rceil>)"

section \<open>Limits, samples, snapshots\<close>

definition MIB :: int where "MIB = 1024 * 1024"

definition GIB :: int where "GIB = 1024 * MIB"

record GlobalResourceLimits =
  lim_memory_budget_bytes :: "int option"
  lim_min_free_memory_bytes :: "int option"
  lim_min_free_commit_bytes :: "int option"
  lim_cpu_slots :: "int option"
  lim_max_cpu_load_percent :: real
  lim_wait_timeout_seconds :: "real option"
  lim_poll_interval_seconds :: real
  lim_native_thread_slots :: "int option"
  lim_cpu_hysteresis_percent :: real
  lim_memory_hysteresis_bytes :: "int option"
  lim_sample_interval_seconds :: real
  lim_temp_budget_bytes :: "int option"
  lim_memory_pressure_high_percent :: real
  lim_memory_pressure_recovery_percent :: real
  lim_io_slots :: "int option"
  lim_io_device_slots :: "(io_value \<times> int) list option"
  lim_gpu_memory_bytes :: "(string, int) dict option"
  lim_io_pressure_high_percent :: real
  lim_io_pressure_recovery_percent :: real

definition default_limits :: GlobalResourceLimits where
  "default_limits =
    \<lparr>lim_memory_budget_bytes = None, lim_min_free_memory_bytes = None,
     lim_min_free_commit_bytes = None, lim_cpu_slots = None, lim_max_cpu_load_percent = 90,
     lim_wait_timeout_seconds = None, lim_poll_interval_seconds = 0.25,
     lim_native_thread_slots = None, lim_cpu_hysteresis_percent = 5,
     lim_memory_hysteresis_bytes = None, lim_sample_interval_seconds = 0.25,
     lim_temp_budget_bytes = None, lim_memory_pressure_high_percent = 10,
     lim_memory_pressure_recovery_percent = 5, lim_io_slots = None,
     lim_io_device_slots = None, lim_gpu_memory_bytes = None,
     lim_io_pressure_high_percent = 20, lim_io_pressure_recovery_percent = 10\<rparr>"

record ResourceSample =
  s_available_physical :: "int option"
  s_available_commit :: "int option"
  s_total_physical :: "int option"
  s_total_commit :: "int option"
  s_cpu_load_percent :: "pyfloat option"
  s_resident_bytes :: "int option"
  s_transient_bytes :: "int option"
  s_temp_bytes :: "int option"
  s_native_threads :: "int option"
  s_memory_pressure_some_percent :: "pyfloat option"
  s_memory_pressure_full_percent :: "pyfloat option"
  s_memory_pressure_some_total_us :: "int option"
  s_memory_pressure_full_total_us :: "int option"
  s_external_cpu_cores :: "pyfloat option"
  s_own_cpu_cores :: "pyfloat option"
  s_effective_cpu_capacity :: "pyfloat option"
  s_owned_materialized_bytes :: "int option"
  s_io_pressure_some_percent :: "pyfloat option"
  s_io_pressure_full_percent :: "pyfloat option"

definition empty_sample :: ResourceSample where
  "empty_sample =
    \<lparr>s_available_physical = None, s_available_commit = None, s_total_physical = None,
     s_total_commit = None, s_cpu_load_percent = None, s_resident_bytes = None,
     s_transient_bytes = None, s_temp_bytes = None, s_native_threads = None,
     s_memory_pressure_some_percent = None, s_memory_pressure_full_percent = None,
     s_memory_pressure_some_total_us = None, s_memory_pressure_full_total_us = None,
     s_external_cpu_cores = None, s_own_cpu_cores = None, s_effective_cpu_capacity = None,
     s_owned_materialized_bytes = None, s_io_pressure_some_percent = None,
     s_io_pressure_full_percent = None\<rparr>"

record MemorySnapshot =
  available_physical :: "int option"
  available_commit :: "int option"
  total_physical :: "int option"
  total_commit :: "int option"

section \<open>Per-route counters and requests\<close>

record route_metrics =
  m_admissions :: int
  m_waits :: int
  m_wait_seconds :: real
  m_wait_ns :: int
  m_reserved_bytes :: int
  m_cpu_slots :: int
  m_active_requests :: int
  m_peak_reserved_bytes :: int
  m_peak_cpu_slots :: int
  m_resident_bytes :: int
  m_transient_bytes :: int
  m_temp_bytes :: int
  m_native_threads :: int
  m_peak_resident_bytes :: int
  m_peak_transient_bytes :: int
  m_peak_temp_bytes :: int
  m_peak_native_threads :: int
  m_phase_admissions :: "(string, int) dict"
  m_io_slots :: int
  m_peak_io_slots :: int
  m_gpu_bytes :: int
  m_peak_gpu_bytes :: int
  m_active_execution_requests :: int

definition zero_metrics :: route_metrics where
  "zero_metrics =
    \<lparr>m_admissions = 0, m_waits = 0, m_wait_seconds = 0, m_wait_ns = 0, m_reserved_bytes = 0,
     m_cpu_slots = 0, m_active_requests = 0, m_peak_reserved_bytes = 0, m_peak_cpu_slots = 0,
     m_resident_bytes = 0, m_transient_bytes = 0, m_temp_bytes = 0, m_native_threads = 0,
     m_peak_resident_bytes = 0, m_peak_transient_bytes = 0, m_peak_temp_bytes = 0,
     m_peak_native_threads = 0, m_phase_admissions = [], m_io_slots = 0, m_peak_io_slots = 0,
     m_gpu_bytes = 0, m_peak_gpu_bytes = 0, m_active_execution_requests = 0\<rparr>"

type_synonym rid = nat

record request =
  rq_route_name :: string
  rq_memory_bytes :: int
  rq_cpu_slots :: int
  rq_enqueued_at :: real
  rq_enqueued_at_ns :: int
  rq_resident_bytes :: int
  rq_transient_bytes :: int
  rq_temp_bytes :: int
  rq_native_threads :: int
  rq_phase :: "string option"
  rq_resident_key :: "string option"
  rq_resident_charge_bytes :: int
  rq_waited :: bool
  rq_queued :: bool
  rq_admitted :: bool
  rq_released :: bool
  rq_wait_accounted :: bool
  rq_io_slots :: int
  rq_io_device :: "string option"
  rq_gpu_bytes :: int
  rq_gpu_device :: "string option"
  rq_execution_active :: bool
  rq_process_identities :: "(int \<times> int) list"
  rq_temp_materialized_bytes :: int
  rq_temp_file_identity :: "(int \<times> int) option"
  rq_draining_from :: "rid option"
  rq_renewing_from :: "rid option"
  rq_adaptive_native_threads :: bool
  rq_native_thread_limit :: "int option"

definition new_request :: "string \<Rightarrow> int \<Rightarrow> int \<Rightarrow> real \<Rightarrow> int \<Rightarrow> request" where
  "new_request route_name memory_bytes cpu_slots enqueued_at enqueued_at_ns =
    \<lparr>rq_route_name = route_name, rq_memory_bytes = memory_bytes, rq_cpu_slots = cpu_slots,
     rq_enqueued_at = enqueued_at, rq_enqueued_at_ns = enqueued_at_ns, rq_resident_bytes = 0,
     rq_transient_bytes = 0, rq_temp_bytes = 0, rq_native_threads = 0, rq_phase = None,
     rq_resident_key = None, rq_resident_charge_bytes = 0, rq_waited = False, rq_queued = False,
     rq_admitted = False, rq_released = False, rq_wait_accounted = False, rq_io_slots = 0,
     rq_io_device = None, rq_gpu_bytes = 0, rq_gpu_device = None, rq_execution_active = False,
     rq_process_identities = [], rq_temp_materialized_bytes = 0, rq_temp_file_identity = None,
     rq_draining_from = None, rq_renewing_from = None, rq_adaptive_native_threads = False,
     rq_native_thread_limit = None\<rparr>"

section \<open>The coordinator\<close>

text \<open>Configuration, fixed at construction but for the adaptive ceilings and the registered GPU devices.\<close>

record coordinator_config =
  limits :: GlobalResourceLimits
  route_memory_budgets :: "(string, int) dict"
  automatic_memory_budget :: bool
  automatic_cpu_slots :: bool
  memory_budget_bytes :: int
  min_free_memory_bytes :: int
  min_free_commit_bytes :: int
  cpu_slots :: int
  max_cpu_load_percent :: real
  using_default_cpu_probe :: bool
  has_resource_probe :: bool
  native_thread_slots :: int
  automatic_native_thread_slots :: bool
  temp_budget_bytes :: int
  memory_hysteresis_bytes :: int
  io_device_slots :: "(string, int) dict"
  gpu_capacity :: "(string, int) dict"
  gpu_available_probes :: "string list"
  gpu_materialized_probes :: "string list"
  gpu_probe_generations :: "(string, int) dict"

text \<open>The accounting ledger.\<close>

record coordinator_ledger = coordinator_config +
  route_order :: "string list"
  queues :: "string \<Rightarrow> rid list"
  metrics :: "string \<Rightarrow> route_metrics"
  heap :: "rid \<Rightarrow> request"
  last_granted_index :: int
  reserved_bytes :: int
  resident_bytes :: int
  transient_bytes :: int
  temp_bytes :: int
  cpu_in_use :: int
  native_threads_in_use :: int
  active_requests :: int
  peak_reserved_bytes :: int
  peak_resident_bytes :: int
  peak_transient_bytes :: int
  peak_temp_bytes :: int
  peak_cpu_slots :: int
  peak_native_threads :: int
  peak_active_requests :: int
  resident_claims :: "(string \<times> string, (rid, int) dict) dict"
  active_execution_requests :: int
  active_reservations :: "rid list"
  io_in_use :: "(string, int) dict"
  gpu_in_use :: "(string, int) dict"
  peak_io_slots :: int
  peak_gpu_bytes :: int

text \<open>What the live observation of the host last said.\<close>

record coordinator = coordinator_ledger +
  cancelled :: bool
  min_available_memory :: "int option"
  min_available_commit :: "int option"
  max_cpu_load :: "real option"
  min_effective_cpu_slots :: int
  last_cpu_load :: "real option"
  last_effective_cpu_slots :: int
  last_external_cpu_cores :: "real option"
  last_cpu_capacity :: int
  last_memory_budget :: int
  previous_sample :: ResourceSample
  last_available_memory_delta :: "int option"
  last_available_commit_delta :: "int option"
  sample_count :: int
  pressure_events :: int
  last_memory_pressure_value :: "pyfloat option"
  last_memory_pressure_delta :: "pyfloat option"
  last_memory_pressure_total_delta_us :: "int option"
  memory_pressure :: bool
  memory_pressure_from_psi :: bool
  cpu_pressure :: bool
  last_cpu_sample_at :: "real option"
  io_pressure :: bool
  process_memory :: "(int \<times> int, int) dict"
  gpu_available_cache :: "(string, int option \<times> real) dict"
  gpu_materialized_cache :: "(string, (int \<times> int, int) dict) dict"

abbreviation upd_request :: "rid \<Rightarrow> (request \<Rightarrow> request) \<Rightarrow> 'a coordinator_ledger_scheme \<Rightarrow> 'a coordinator_ledger_scheme" where
  "upd_request r f c \<equiv> c\<lparr>heap := (heap c)(r := f (heap c r))\<rparr>"

abbreviation upd_metrics :: "string \<Rightarrow> (route_metrics \<Rightarrow> route_metrics) \<Rightarrow> 'a coordinator_ledger_scheme \<Rightarrow> 'a coordinator_ledger_scheme" where
  "upd_metrics n f c \<equiv> c\<lparr>metrics := (metrics c)(n := f (metrics c n))\<rparr>"

text \<open>\<open>request.io_device or "default"\<close>: no device and the empty name are the default.\<close>

definition device_or_default :: "string option \<Rightarrow> string" where
  "device_or_default d = (case d of None \<Rightarrow> ''default'' | Some s \<Rightarrow> if s = [] then ''default'' else s)"

lemma fl_max_some: "xs \<noteq> [] \<Longrightarrow> \<exists>y. fl_max xs = Some y"
  by (cases xs) auto

end
