(* ===== verification/Resource_Init.thy ===== *)
theory Resource_Init
  imports Resource_Models
begin

text \<open>
  Construction of the coordinator, \<open>GlobalResourceCoordinator.__init__\<close>, and the adaptive
  ceilings of \<open>resource_observation.py\<close>. The first sample, the host's memory snapshot, the
  processor count and the free space of the temporary directory are arguments; the objects of
  the threading library, the default sampler and the callbacks are not part of the state.
\<close>

section \<open>Adaptive ceilings\<close>

definition adaptive_memory_headroom :: "int option \<Rightarrow> int" where
  "adaptive_memory_headroom total_bytes =
    (case total_bytes of
       None \<Rightarrow> 64 * MIB
     | Some t \<Rightarrow> if t \<le> 0 then 64 * MIB else max 1 (min (512 * MIB) (t div 32)))"

definition adaptive_memory_budget :: "int option \<Rightarrow> int" where
  "adaptive_memory_budget total_bytes =
    (case total_bytes of
       None \<Rightarrow> GIB
     | Some t \<Rightarrow> if t \<le> 0 then GIB else max 1 (t - adaptive_memory_headroom total_bytes))"

definition adaptive_cpu_slots :: "int \<Rightarrow> int" where
  "adaptive_cpu_slots count = max 1 count"

text \<open>A sample with no memory field does not replace the host's snapshot.\<close>

definition memory_snapshot_from_resource_sample :: "ResourceSample option \<Rightarrow> MemorySnapshot option" where
  "memory_snapshot_from_resource_sample sample =
    (case sample of
       None \<Rightarrow> None
     | Some s \<Rightarrow>
         if s_available_physical s = None \<and> s_available_commit s = None
            \<and> s_total_physical s = None \<and> s_total_commit s = None
         then None
         else Some \<lparr>available_physical = s_available_physical s, available_commit = s_available_commit s,
                    total_physical = s_total_physical s, total_commit = s_total_commit s\<rparr>)"

section \<open>Validation\<close>

fun check_all :: "(bool \<times> string) list \<Rightarrow> py_error + unit" where
  "check_all [] = Inr ()"
| "check_all ((bad, message) # rest) = (if bad then Inl (ValueError message) else check_all rest)"

definition opt_below :: "'a::linorder option \<Rightarrow> 'a \<Rightarrow> bool" where
  "opt_below v bound = (case v of None \<Rightarrow> False | Some x \<Rightarrow> x < bound)"

definition limit_checks :: "GlobalResourceLimits \<Rightarrow> (string, int) dict option \<Rightarrow> (bool \<times> string) list" where
  "limit_checks lms device_slots =
   [(opt_below (lim_wait_timeout_seconds lms) 0, ''global resource wait timeout cannot be negative''),
    (lim_poll_interval_seconds lms \<le> 0, ''global resource poll interval must be positive''),
    (lim_sample_interval_seconds lms \<le> 0, ''global resource sample interval must be positive''),
    (\<not> (0 < lim_max_cpu_load_percent lms \<and> lim_max_cpu_load_percent lms \<le> 100),
       ''global maximum CPU load must be in (0, 100]''),
    (lim_cpu_hysteresis_percent lms < 0, ''global CPU hysteresis cannot be negative''),
    (\<not> (0 \<le> lim_memory_pressure_recovery_percent lms
        \<and> lim_memory_pressure_recovery_percent lms \<le> lim_memory_pressure_high_percent lms),
       ''global memory pressure recovery must not exceed the high threshold''),
    (opt_below (lim_memory_hysteresis_bytes lms) 0, ''global memory hysteresis cannot be negative''),
    (opt_below (lim_native_thread_slots lms) 1, ''global native thread slots must be positive''),
    (opt_below (lim_temp_budget_bytes lms) 1, ''global temporary resource budget must be positive''),
    (opt_below (lim_io_slots lms) 1, ''global I/O concurrency must be positive''),
    (list_ex (\<lambda>v. v < 1) (dict_values (case device_slots of None \<Rightarrow> [] | Some d \<Rightarrow> d)),
       ''device I/O concurrency must be positive''),
    (list_ex (\<lambda>v. v < 1) (dict_values (case lim_gpu_memory_bytes lms of None \<Rightarrow> [] | Some d \<Rightarrow> d)),
       ''GPU memory capacities must be positive''),
    (\<not> (0 \<le> lim_io_pressure_recovery_percent lms
        \<and> lim_io_pressure_recovery_percent lms \<le> lim_io_pressure_high_percent lms),
       ''I/O recovery threshold must not exceed pressure threshold'')]"

fun route_budgets :: "(string \<times> int) list \<Rightarrow> (string, int) dict \<Rightarrow> py_error + (string, int) dict" where
  "route_budgets [] acc = Inr acc"
| "route_budgets ((name, budget) # rest) acc =
     (if strip name = [] then Inl (ValueError ''route memory budgets require nonempty route names'')
      else if budget < 1 then Inl (ValueError ''route memory budgets must be positive integers'')
      else if dict_get acc (strip name) \<noteq> None
        then Inl (ValueError ''route memory budgets require unique route names'')
      else route_budgets rest (dict_set acc (strip name) budget))"

section \<open>Construction\<close>

definition init_config ::
  "GlobalResourceLimits \<Rightarrow> (string, int) dict option \<Rightarrow> (string, int) dict \<Rightarrow> MemorySnapshot \<Rightarrow> int \<Rightarrow> int \<Rightarrow> bool \<Rightarrow> bool
     \<Rightarrow> coordinator_config" where
  "init_config lms device_slots budgets snap cpu_count free default_cpu_probe has_probe =
    (let headroom = adaptive_memory_headroom (total_physical snap);
         slots = (case lim_cpu_slots lms of None \<Rightarrow> adaptive_cpu_slots cpu_count | Some n \<Rightarrow> n)
     in \<lparr>limits = lms\<lparr>lim_io_device_slots := map_option (map (\<lambda>(k, v). (IoText k, v))) device_slots\<rparr>,
         route_memory_budgets = budgets,
         automatic_memory_budget = (lim_memory_budget_bytes lms = None),
         automatic_cpu_slots = (lim_cpu_slots lms = None),
         memory_budget_bytes = (case lim_memory_budget_bytes lms of
            None \<Rightarrow> adaptive_memory_budget (total_physical snap) | Some b \<Rightarrow> b),
         min_free_memory_bytes = (case lim_min_free_memory_bytes lms of None \<Rightarrow> headroom | Some b \<Rightarrow> b),
         min_free_commit_bytes = (case lim_min_free_commit_bytes lms of None \<Rightarrow> headroom | Some b \<Rightarrow> b),
         cpu_slots = slots,
         max_cpu_load_percent = lim_max_cpu_load_percent lms,
         using_default_cpu_probe = default_cpu_probe,
         has_resource_probe = has_probe,
         native_thread_slots = (case lim_native_thread_slots lms of None \<Rightarrow> slots | Some n \<Rightarrow> n),
         automatic_native_thread_slots = (lim_native_thread_slots lms = None),
         temp_budget_bytes = (case lim_temp_budget_bytes lms of None \<Rightarrow> free | Some b \<Rightarrow> b),
         memory_hysteresis_bytes = (case lim_memory_hysteresis_bytes lms of
            None \<Rightarrow> max 1 (min (256 * MIB) (headroom div 10)) | Some b \<Rightarrow> b),
         io_device_slots = (case device_slots of None \<Rightarrow> [] | Some d \<Rightarrow> d),
         gpu_capacity = (case lim_gpu_memory_bytes lms of None \<Rightarrow> [] | Some d \<Rightarrow> d),
         gpu_available_probes = [], gpu_materialized_probes = [], gpu_probe_generations = []\<rparr>)"

text \<open>The ledger is empty: every counter is zero, no route has a queue entry, no lease is live.\<close>

definition initial_state :: "string list \<Rightarrow> coordinator_config \<Rightarrow> ResourceSample \<Rightarrow> bool \<Rightarrow> coordinator" where
  "initial_state routes cfg sample stopped =
    \<lparr>limits = limits cfg, route_memory_budgets = route_memory_budgets cfg,
     automatic_memory_budget = automatic_memory_budget cfg, automatic_cpu_slots = automatic_cpu_slots cfg,
     memory_budget_bytes = memory_budget_bytes cfg, min_free_memory_bytes = min_free_memory_bytes cfg,
     min_free_commit_bytes = min_free_commit_bytes cfg, cpu_slots = cpu_slots cfg,
     max_cpu_load_percent = max_cpu_load_percent cfg, using_default_cpu_probe = using_default_cpu_probe cfg,
     has_resource_probe = has_resource_probe cfg, native_thread_slots = native_thread_slots cfg,
     automatic_native_thread_slots = automatic_native_thread_slots cfg,
     temp_budget_bytes = temp_budget_bytes cfg, memory_hysteresis_bytes = memory_hysteresis_bytes cfg,
     io_device_slots = io_device_slots cfg, gpu_capacity = gpu_capacity cfg,
     gpu_available_probes = gpu_available_probes cfg, gpu_materialized_probes = gpu_materialized_probes cfg,
     gpu_probe_generations = gpu_probe_generations cfg,
     route_order = routes, queues = (\<lambda>_. []), metrics = (\<lambda>_. zero_metrics),
     heap = (\<lambda>_. new_request [] 0 0 0 0), last_granted_index = -1,
     reserved_bytes = 0, resident_bytes = 0, transient_bytes = 0, temp_bytes = 0, cpu_in_use = 0,
     native_threads_in_use = 0, active_requests = 0, peak_reserved_bytes = 0, peak_resident_bytes = 0,
     peak_transient_bytes = 0, peak_temp_bytes = 0, peak_cpu_slots = 0, peak_native_threads = 0,
     peak_active_requests = 0, resident_claims = [], active_execution_requests = 0,
     active_reservations = [], io_in_use = [], gpu_in_use = [], peak_io_slots = 0, peak_gpu_bytes = 0,
     cancelled = stopped, min_available_memory = None, min_available_commit = None, max_cpu_load = None,
     min_effective_cpu_slots = cpu_slots cfg, last_cpu_load = None, last_effective_cpu_slots = cpu_slots cfg,
     last_external_cpu_cores = None, last_cpu_capacity = cpu_slots cfg,
     last_memory_budget = memory_budget_bytes cfg, previous_sample = sample,
     last_available_memory_delta = None, last_available_commit_delta = None, sample_count = 0,
     pressure_events = 0, last_memory_pressure_value = None, last_memory_pressure_delta = None,
     last_memory_pressure_total_delta_us = None, memory_pressure = False, memory_pressure_from_psi = False,
     cpu_pressure = False, last_cpu_sample_at = None, io_pressure = False, process_memory = [],
     gpu_available_cache = [], gpu_materialized_cache = []\<rparr>"

definition config_checks :: "coordinator_config \<Rightarrow> (bool \<times> string) list" where
  "config_checks cfg =
   [(memory_budget_bytes cfg < 1, ''global memory budget must be positive''),
    (min_free_memory_bytes cfg < 0 \<or> min_free_commit_bytes cfg < 0, ''global memory headroom cannot be negative''),
    (cpu_slots cfg < 1, ''global CPU slots must be positive'')]"

definition init ::
  "string list \<Rightarrow> GlobalResourceLimits \<Rightarrow> (string \<times> int) list \<Rightarrow> ResourceSample option \<Rightarrow> MemorySnapshot \<Rightarrow> int \<Rightarrow> int
     \<Rightarrow> bool \<Rightarrow> bool \<Rightarrow> bool \<Rightarrow> py_error + coordinator" where
  "init routes lms budgets sample host cpu_count free default_cpu_probe has_probe stopped =
    (if routes = [] \<or> \<not> distinct routes then Inl (ValueError ''route_order must contain unique route names'')
     else (case normalize_io_device_slots (lim_io_device_slots lms) of
       Inl e \<Rightarrow> Inl e
     | Inr device_slots \<Rightarrow>
         (case check_all (limit_checks lms device_slots) of
            Inl e \<Rightarrow> Inl e
          | Inr _ \<Rightarrow>
              (case route_budgets budgets [] of
                 Inl e \<Rightarrow> Inl e
               | Inr route_limits \<Rightarrow>
                   (let snap = (case memory_snapshot_from_resource_sample sample of None \<Rightarrow> host | Some m \<Rightarrow> m);
                        cfg = init_config lms device_slots route_limits snap cpu_count free default_cpu_probe has_probe;
                        first = (case sample of
                           Some s \<Rightarrow> s
                         | None \<Rightarrow> empty_sample\<lparr>s_available_physical := available_physical snap,
                             s_available_commit := available_commit snap, s_total_physical := total_physical snap,
                             s_total_commit := total_commit snap\<rparr>)
                    in (case check_all (config_checks cfg) of
                          Inl e \<Rightarrow> Inl e
                        | Inr _ \<Rightarrow> Inr (initial_state routes cfg first stopped)))))))"

lemma check_all_ok: "check_all cs = Inr u \<longleftrightarrow> (\<forall>(bad, message) \<in> set cs. \<not> bad)"
  by (induction cs rule: check_all.induct) auto

text \<open>
  Every coordinator that construction accepts starts with positive ceilings whatever the
  host reports: at least one CPU slot, one native thread and one byte of memory budget; the
  headroom it keeps free is not negative; every configured device or GPU limit is positive;
  each hysteresis band is ordered; and the automatic memory budget never exceeds the physical
  memory.
\<close>

theorem init_sound:
  assumes "init routes lms budgets sample host cpu_count free p1 p2 stopped = Inr c"
  shows "routes \<noteq> [] \<and> distinct (route_order c) \<and> 1 \<le> cpu_slots c \<and> 1 \<le> native_thread_slots c
    \<and> 1 \<le> memory_budget_bytes c \<and> 0 \<le> min_free_memory_bytes c \<and> 0 \<le> min_free_commit_bytes c
    \<and> 0 \<le> memory_hysteresis_bytes c
    \<and> (\<forall>v \<in> set (dict_values (io_device_slots c)). 1 \<le> v) \<and> (\<forall>v \<in> set (dict_values (gpu_capacity c)). 1 \<le> v)
    \<and> lim_memory_pressure_recovery_percent (limits c) \<le> lim_memory_pressure_high_percent (limits c)
    \<and> 0 < max_cpu_load_percent c \<and> max_cpu_load_percent c \<le> 100
    \<and> (\<forall>t. lim_memory_budget_bytes lms = None \<longrightarrow>
         total_physical (case memory_snapshot_from_resource_sample sample of None \<Rightarrow> host | Some m \<Rightarrow> m) = Some t \<longrightarrow>
         0 < t \<longrightarrow> memory_budget_bytes c \<le> t)"
proof -
  define snap where "snap = (case memory_snapshot_from_resource_sample sample of None \<Rightarrow> host | Some m \<Rightarrow> m)"
  obtain slots rl first where n: "normalize_io_device_slots (lim_io_device_slots lms) = Inr slots"
    and lc: "check_all (limit_checks lms slots) = Inr ()"
    and cc: "check_all (config_checks (init_config lms slots rl snap cpu_count free p1 p2)) = Inr ()"
    and rs: "routes \<noteq> []" "distinct routes"
    and c: "c = initial_state routes (init_config lms slots rl snap cpu_count free p1 p2) first stopped"
    using assms unfolding init_def snap_def by (auto simp: Let_def split: if_splits sum.splits)
  define cfg where "cfg = init_config lms slots rl snap cpu_count free p1 p2"
  have conf: "1 \<le> memory_budget_bytes cfg" "0 \<le> min_free_memory_bytes cfg" "0 \<le> min_free_commit_bytes cfg" "1 \<le> cpu_slots cfg"
    using cc[unfolded check_all_ok config_checks_def] by (auto simp: cfg_def)
  have lims: "\<not> opt_below (lim_native_thread_slots lms) 1" "\<not> opt_below (lim_memory_hysteresis_bytes lms) 0"
    "0 < lim_max_cpu_load_percent lms" "lim_max_cpu_load_percent lms \<le> 100"
    "lim_memory_pressure_recovery_percent lms \<le> lim_memory_pressure_high_percent lms"
    "\<not> list_ex (\<lambda>v. v < 1) (dict_values (case slots of None \<Rightarrow> [] | Some d \<Rightarrow> d))"
    "\<not> list_ex (\<lambda>v. v < 1) (dict_values (case lim_gpu_memory_bytes lms of None \<Rightarrow> [] | Some d \<Rightarrow> d))"
    using lc[unfolded check_all_ok limit_checks_def] by simp_all
  have native: "1 \<le> native_thread_slots cfg"
    using lims(1) conf(4) by (auto simp: cfg_def init_config_def Let_def opt_below_def split: option.splits)
  have hyst: "0 \<le> memory_hysteresis_bytes cfg"
    using lims(2) by (auto simp: cfg_def init_config_def Let_def opt_below_def split: option.splits)
  have budget: "memory_budget_bytes cfg \<le> t"
    if "lim_memory_budget_bytes lms = None" "total_physical snap = Some t" "0 < t" for t
    using that by (simp add: cfg_def init_config_def Let_def adaptive_memory_budget_def adaptive_memory_headroom_def)
  have devs: "\<forall>v \<in> set (dict_values (io_device_slots cfg)). 1 \<le> v" "\<forall>v \<in> set (dict_values (gpu_capacity cfg)). 1 \<le> v"
    using lims(6,7) by (auto simp: cfg_def init_config_def Let_def list_ex_iff not_less)
  show ?thesis
    using rs conf native hyst budget devs lims(3-5)
    by (simp add: c cfg_def[symmetric] initial_state_def snap_def[symmetric])
      (simp add: cfg_def init_config_def Let_def)
qed

text \<open>A small coordinator, on which the witnesses of the development evaluate.\<close>

definition demo_limits :: GlobalResourceLimits where
  "demo_limits = default_limits\<lparr>lim_memory_budget_bytes := Some 1000, lim_min_free_memory_bytes := Some 0,
     lim_min_free_commit_bytes := Some 0, lim_cpu_slots := Some 4, lim_temp_budget_bytes := Some 500,
     lim_io_device_slots := Some [(IoInt 5, 2)], lim_gpu_memory_bytes := Some [(''default'', 100)]\<rparr>"

definition demo_host :: MemorySnapshot where
  "demo_host = \<lparr>available_physical = Some 5000, available_commit = None, total_physical = Some 8000, total_commit = None\<rparr>"

definition demo_config :: coordinator_config where
  "demo_config = init_config demo_limits (Some [(''dev:5'', 2)]) [] demo_host 8 900 False True"

definition demo :: coordinator where
  "demo = initial_state [''pdf'', ''docx''] demo_config
     (empty_sample\<lparr>s_available_physical := Some 5000, s_total_physical := Some 8000\<rparr>) False"

lemma demo_init: "init [''pdf'', ''docx''] demo_limits [] None demo_host 8 900 False True False = Inr demo"
proof -
  have slots: "normalize_io_device_slots (Some [(IoInt 5, 2)]) = Inr (Some [(''dev:5'', 2)])" by code_simp
  have lims: "lim_io_device_slots demo_limits = Some [(IoInt 5, 2)]" by (simp add: demo_limits_def)
  have "check_all (limit_checks demo_limits (Some [(''dev:5'', 2)])) = Inr ()"
    by (simp add: limit_checks_def demo_limits_def default_limits_def opt_below_def dict_values_def)
  moreover have "check_all (config_checks demo_config) = Inr ()"
    by (simp add: config_checks_def demo_config_def init_config_def demo_limits_def)
  ultimately show ?thesis
    by (simp add: init_def slots lims memory_snapshot_from_resource_sample_def demo_config_def[symmetric] Let_def)
      (simp add: demo_def demo_host_def empty_sample_def)
qed

theorem init_sound_witness:
  "init [''pdf'', ''docx''] demo_limits [] None demo_host 8 900 False True False = Inr demo
   \<and> 1 \<le> cpu_slots demo \<and> 1 \<le> native_thread_slots demo \<and> memory_budget_bytes demo = 1000"
  using init_sound[OF demo_init] demo_init
  by (simp add: demo_def initial_state_def demo_config_def init_config_def demo_limits_def Let_def)
end
