(* ===== verification/Resource_Ledger.thy ===== *)
theory Resource_Ledger
  imports Resource_Init
begin

text \<open>
  The accounting operations of \<open>GlobalResourceCoordinator\<close>
  (\<open>global_resources.py\<close>): the charge of a shared resident allocation, the
  credit for measured memory, and the state changes that commit, undo and
  release an admission. Each operation runs while the coordinator's lock is
  held, so it is one function on the state.

  Committing and releasing are \<open>try\<close> blocks that restore every counter when an
  exception arrives part way. Their statements are a list of steps;
  \<open>run_steps k\<close> executes them until one fails or an asynchronous exception
  arrives before step \<open>k\<close>, so \<open>k\<close> beyond the length is the run without one.
\<close>

section \<open>Queries\<close>

text \<open>\<open>max(claims.values(), default=0)\<close>\<close>

definition claim_max :: "(rid, int) dict \<Rightarrow> int" where
  "claim_max claims = (case dict_values claims of [] \<Rightarrow> 0 | v # vs \<Rightarrow> fold max vs v)"

definition resident_charge_for_request :: "coordinator \<Rightarrow> request \<Rightarrow> int" where
  "resident_charge_for_request c rq =
    (case rq_resident_key rq of
       None \<Rightarrow> rq_resident_bytes rq
     | Some key \<Rightarrow>
         if rq_resident_bytes rq \<le> 0 then rq_resident_bytes rq
         else let current = claim_max (dict_get_or (resident_claims c) (rq_route_name rq, key) [])
              in max 0 (rq_resident_bytes rq - current))"

text \<open>Bytes of the processes of one lease that no earlier lease has been credited for.\<close>

fun own_bytes :: "(int \<times> int, int) dict \<Rightarrow> (int \<times> int) list \<Rightarrow> (int \<times> int) list \<Rightarrow> int \<times> (int \<times> int) list" where
  "own_bytes observed [] seen = (0, seen)"
| "own_bytes observed (i # is) seen =
     (case (if i \<in> set seen then None else dict_get observed i) of
        None \<Rightarrow> own_bytes observed is seen
      | Some b \<Rightarrow> (let (own, seen') = own_bytes observed is (i # seen) in (max 0 b + own, seen')))"

fun credit_loop :: "(int \<times> int, int) dict \<Rightarrow> (request \<Rightarrow> int) \<Rightarrow> request list \<Rightarrow> (int \<times> int) list \<Rightarrow> int" where
  "credit_loop observed charged [] seen = 0"
| "credit_loop observed charged (q # qs) seen =
     (let (own, seen') = own_bytes observed (rq_process_identities q) seen
      in min (charged q) own + credit_loop observed charged qs seen')"

definition materialized_credit :: "coordinator \<Rightarrow> int" where
  "materialized_credit c =
     min (reserved_bytes c)
       (credit_loop (process_memory c) rq_memory_bytes (map (heap c) (active_reservations c)) [])"

definition gpu_materialized_credit :: "coordinator \<Rightarrow> string \<Rightarrow> int" where
  "gpu_materialized_credit c device =
     min (dict_get_or (gpu_in_use c) device 0)
       (credit_loop (dict_get_or (gpu_materialized_cache c) device []) rq_gpu_bytes
          (filter (\<lambda>q. device_or_default (rq_gpu_device q) = device)
             (map (heap c) (active_reservations c))) [])"

definition gpu_available :: "coordinator \<Rightarrow> real \<Rightarrow> string \<Rightarrow> int option" where
  "gpu_available c now device =
     (case dict_get (gpu_available_cache c) device of
        None \<Rightarrow> None
      | Some (amount, sampled_at) \<Rightarrow>
          if max 2 (lim_sample_interval_seconds (limits c) * 4) < now - sampled_at then None else amount)"

text \<open>The capacity of a device whose key is canonical already.\<close>

definition io_capacity :: "coordinator \<Rightarrow> string \<Rightarrow> int" where
  "io_capacity c device =
     (case dict_get (io_device_slots c) device of
        Some configured \<Rightarrow> max 1 configured
      | None \<Rightarrow> (case lim_io_slots (limits c) of
                  Some n \<Rightarrow> max 1 n
                | None \<Rightarrow> max 1 (last_cpu_capacity c)))"

section \<open>Interruptible blocks\<close>

type_synonym step = "coordinator \<Rightarrow> coordinator option"

fun run_steps :: "nat \<Rightarrow> step list \<Rightarrow> coordinator \<Rightarrow> bool \<times> coordinator" where
  "run_steps k [] s = (True, s)"
| "run_steps 0 (f # fs) s = (False, s)"
| "run_steps (Suc k) (f # fs) s = (case f s of None \<Rightarrow> (False, s) | Some s' \<Rightarrow> run_steps k fs s')"

definition ok :: "(coordinator \<Rightarrow> coordinator) \<Rightarrow> step" where
  "ok f = (\<lambda>s. Some (f s))"

section \<open>Waiting time and the queue\<close>

definition record_wait :: "int \<Rightarrow> rid \<Rightarrow> coordinator \<Rightarrow> coordinator" where
  "record_wait now_ns r c =
    (let rq = heap c r
     in if rq_waited rq \<and> \<not> rq_wait_accounted rq
        then let elapsed_ns = max 0 (now_ns - rq_enqueued_at_ns rq)
             in upd_request r (\<lambda>q. q\<lparr>rq_wait_accounted := True\<rparr>)
                 (upd_metrics (rq_route_name rq)
                    (\<lambda>m. m\<lparr>m_wait_ns := m_wait_ns m + elapsed_ns,
                           m_wait_seconds := m_wait_seconds m + real_of_int elapsed_ns / 1000000000\<rparr>) c)
        else c)"

definition discard_queued_request :: "int \<Rightarrow> rid \<Rightarrow> coordinator \<Rightarrow> coordinator" where
  "discard_queued_request now_ns r c =
    (if \<not> rq_queued (heap c r) then c
     else let n = rq_route_name (heap c r);
              c = c\<lparr>queues := (queues c)(n := remove1 r (queues c n))\<rparr>;
              c = upd_request r (\<lambda>q. q\<lparr>rq_queued := False\<rparr>) c
          in record_wait now_ns r c)"

text \<open>A new request joins its route's queue; a finalizer or a renewal joins at the front.\<close>

definition enqueue :: "rid \<Rightarrow> request \<Rightarrow> coordinator \<Rightarrow> coordinator" where
  "enqueue r rq c =
    (let n = rq_route_name rq;
         waiting = (if rq_draining_from rq \<noteq> None \<or> rq_renewing_from rq \<noteq> None
                    then r # queues c n else queues c n @ [r])
     in c\<lparr>heap := (heap c)(r := rq\<lparr>rq_queued := True\<rparr>), queues := (queues c)(n := waiting)\<rparr>)"

section \<open>Committing an admission\<close>

definition claim_key :: "request \<Rightarrow> (string \<times> string) option" where
  "claim_key rq = map_option (\<lambda>k. (rq_route_name rq, k)) (rq_resident_key rq)"

definition table_insert :: "rid \<Rightarrow> rid list \<Rightarrow> rid list" where
  "table_insert r rs = (if r \<in> set rs then rs else rs @ [r])"

definition executes :: "request \<Rightarrow> bool" where
  "executes rq \<longleftrightarrow> rq_cpu_slots rq \<noteq> 0 \<or> rq_native_threads rq \<noteq> 0 \<or> rq_io_slots rq \<noteq> 0"

definition grant_charge_steps :: "rid \<Rightarrow> int \<Rightarrow> step list" where
  "grant_charge_steps r route_index =
   [ ok (upd_request r (\<lambda>q. q\<lparr>rq_queued := False\<rparr>)),
     ok (\<lambda>c. c\<lparr>last_granted_index := route_index\<rparr>),
     ok (\<lambda>c. upd_request r (\<lambda>q. q\<lparr>rq_resident_charge_bytes := resident_charge_for_request c q\<rparr>) c),
     ok (upd_request r (\<lambda>q. q\<lparr>rq_memory_bytes := rq_resident_charge_bytes q + rq_transient_bytes q\<rparr>)),
     ok (\<lambda>c. c\<lparr>reserved_bytes := reserved_bytes c + rq_memory_bytes (heap c r)\<rparr>),
     ok (\<lambda>c. c\<lparr>resident_bytes := resident_bytes c + rq_resident_charge_bytes (heap c r)\<rparr>),
     ok (\<lambda>c. c\<lparr>transient_bytes := transient_bytes c + rq_transient_bytes (heap c r)\<rparr>),
     ok (\<lambda>c. c\<lparr>temp_bytes := temp_bytes c + rq_temp_bytes (heap c r)\<rparr>),
     ok (\<lambda>c. c\<lparr>cpu_in_use := cpu_in_use c + rq_cpu_slots (heap c r)\<rparr>),
     ok (\<lambda>c. c\<lparr>native_threads_in_use := native_threads_in_use c + rq_native_threads (heap c r)\<rparr>),
     ok (\<lambda>c. c\<lparr>active_requests := active_requests c + 1\<rparr>)]"

definition grant_claim_steps :: "rid \<Rightarrow> step list" where
  "grant_claim_steps r =
   [ ok (\<lambda>c. case claim_key (heap c r) of None \<Rightarrow> c
          | Some k \<Rightarrow> c\<lparr>resident_claims :=
              (case dict_get (resident_claims c) k of
                 None \<Rightarrow> dict_set (resident_claims c) k [] | Some _ \<Rightarrow> resident_claims c)\<rparr>),
     ok (\<lambda>c. case claim_key (heap c r) of None \<Rightarrow> c
          | Some k \<Rightarrow> c\<lparr>resident_claims := dict_set (resident_claims c) k
              (dict_set (dict_get_or (resident_claims c) k []) r (rq_resident_bytes (heap c r)))\<rparr>)]"

definition grant_metric_steps :: "rid \<Rightarrow> string \<Rightarrow> step list" where
  "grant_metric_steps r n =
   [ ok (upd_metrics n (\<lambda>m. m\<lparr>m_admissions := m_admissions m + 1\<rparr>)),
     ok (\<lambda>c. upd_metrics n (\<lambda>m. m\<lparr>m_reserved_bytes := m_reserved_bytes m + rq_memory_bytes (heap c r)\<rparr>) c),
     ok (\<lambda>c. upd_metrics n (\<lambda>m. m\<lparr>m_cpu_slots := m_cpu_slots m + rq_cpu_slots (heap c r)\<rparr>) c),
     ok (upd_metrics n (\<lambda>m. m\<lparr>m_active_requests := m_active_requests m + 1\<rparr>)),
     ok (\<lambda>c. upd_metrics n (\<lambda>m. m\<lparr>m_resident_bytes := m_resident_bytes m + rq_resident_charge_bytes (heap c r)\<rparr>) c),
     ok (\<lambda>c. upd_metrics n (\<lambda>m. m\<lparr>m_transient_bytes := m_transient_bytes m + rq_transient_bytes (heap c r)\<rparr>) c),
     ok (\<lambda>c. upd_metrics n (\<lambda>m. m\<lparr>m_temp_bytes := m_temp_bytes m + rq_temp_bytes (heap c r)\<rparr>) c),
     ok (\<lambda>c. upd_metrics n (\<lambda>m. m\<lparr>m_native_threads := m_native_threads m + rq_native_threads (heap c r)\<rparr>) c),
     ok (\<lambda>c. case rq_phase (heap c r) of None \<Rightarrow> c
          | Some ph \<Rightarrow> upd_metrics n (\<lambda>m. m\<lparr>m_phase_admissions :=
              dict_set (m_phase_admissions m) ph (dict_get_or (m_phase_admissions m) ph 0 + 1)\<rparr>) c),
     ok (upd_metrics n (\<lambda>m. m\<lparr>m_peak_reserved_bytes := max (m_peak_reserved_bytes m) (m_reserved_bytes m)\<rparr>)),
     ok (upd_metrics n (\<lambda>m. m\<lparr>m_peak_cpu_slots := max (m_peak_cpu_slots m) (m_cpu_slots m)\<rparr>)),
     ok (upd_metrics n (\<lambda>m. m\<lparr>m_peak_resident_bytes := max (m_peak_resident_bytes m) (m_resident_bytes m)\<rparr>)),
     ok (upd_metrics n (\<lambda>m. m\<lparr>m_peak_transient_bytes := max (m_peak_transient_bytes m) (m_transient_bytes m)\<rparr>)),
     ok (upd_metrics n (\<lambda>m. m\<lparr>m_peak_temp_bytes := max (m_peak_temp_bytes m) (m_temp_bytes m)\<rparr>)),
     ok (upd_metrics n (\<lambda>m. m\<lparr>m_peak_native_threads := max (m_peak_native_threads m) (m_native_threads m)\<rparr>))]"

definition grant_peak_steps :: "rid \<Rightarrow> int \<Rightarrow> step list" where
  "grant_peak_steps r now_ns =
   [ ok (\<lambda>c. if rq_waited (heap c r) then record_wait now_ns r c else c),
     ok (\<lambda>c. c\<lparr>peak_reserved_bytes := max (peak_reserved_bytes c) (reserved_bytes c)\<rparr>),
     ok (\<lambda>c. c\<lparr>peak_resident_bytes := max (peak_resident_bytes c) (resident_bytes c)\<rparr>),
     ok (\<lambda>c. c\<lparr>peak_transient_bytes := max (peak_transient_bytes c) (transient_bytes c)\<rparr>),
     ok (\<lambda>c. c\<lparr>peak_temp_bytes := max (peak_temp_bytes c) (temp_bytes c)\<rparr>),
     ok (\<lambda>c. c\<lparr>peak_cpu_slots := max (peak_cpu_slots c) (cpu_in_use c)\<rparr>),
     ok (\<lambda>c. c\<lparr>peak_native_threads := max (peak_native_threads c) (native_threads_in_use c)\<rparr>),
     ok (\<lambda>c. c\<lparr>peak_active_requests := max (peak_active_requests c) (active_requests c)\<rparr>)]"

definition grant_admit_steps :: "rid \<Rightarrow> string \<Rightarrow> step list" where
  "grant_admit_steps r n =
   [ ok (upd_request r (\<lambda>q. q\<lparr>rq_admitted := True\<rparr>)),
     ok (upd_request r (\<lambda>q. q\<lparr>rq_released := False\<rparr>)),
     ok (upd_request r (\<lambda>q. q\<lparr>rq_execution_active := executes q\<rparr>)),
     ok (\<lambda>c. c\<lparr>active_reservations := table_insert r (active_reservations c)\<rparr>),
     ok (\<lambda>c. if rq_execution_active (heap c r)
             then c\<lparr>active_execution_requests := active_execution_requests c + 1\<rparr> else c),
     ok (\<lambda>c. if rq_execution_active (heap c r)
             then upd_metrics n (\<lambda>m. m\<lparr>m_active_execution_requests := m_active_execution_requests m + 1\<rparr>) c else c)]"

definition grant_io_steps :: "rid \<Rightarrow> string \<Rightarrow> step list" where
  "grant_io_steps r n =
   [ ok (\<lambda>c. if rq_io_slots (heap c r) \<noteq> 0
             then c\<lparr>io_in_use := dict_set (io_in_use c) (device_or_default (rq_io_device (heap c r)))
               (dict_get_or (io_in_use c) (device_or_default (rq_io_device (heap c r))) 0 + rq_io_slots (heap c r))\<rparr>
             else c),
     ok (\<lambda>c. if rq_io_slots (heap c r) \<noteq> 0
             then upd_metrics n (\<lambda>m. m\<lparr>m_io_slots := m_io_slots m + rq_io_slots (heap c r)\<rparr>) c else c),
     ok (\<lambda>c. if rq_io_slots (heap c r) \<noteq> 0
             then upd_metrics n (\<lambda>m. m\<lparr>m_peak_io_slots := max (m_peak_io_slots m) (m_io_slots m)\<rparr>) c else c),
     ok (\<lambda>c. if rq_io_slots (heap c r) \<noteq> 0
             then c\<lparr>peak_io_slots := max (peak_io_slots c) (sum_list (dict_values (io_in_use c)))\<rparr> else c)]"

definition grant_gpu_steps :: "rid \<Rightarrow> string \<Rightarrow> step list" where
  "grant_gpu_steps r n =
   [ ok (\<lambda>c. if rq_gpu_bytes (heap c r) \<noteq> 0
             then c\<lparr>gpu_in_use := dict_set (gpu_in_use c) (device_or_default (rq_gpu_device (heap c r)))
               (dict_get_or (gpu_in_use c) (device_or_default (rq_gpu_device (heap c r))) 0 + rq_gpu_bytes (heap c r))\<rparr>
             else c),
     ok (\<lambda>c. if rq_gpu_bytes (heap c r) \<noteq> 0
             then upd_metrics n (\<lambda>m. m\<lparr>m_gpu_bytes := m_gpu_bytes m + rq_gpu_bytes (heap c r)\<rparr>) c else c),
     ok (\<lambda>c. if rq_gpu_bytes (heap c r) \<noteq> 0
             then upd_metrics n (\<lambda>m. m\<lparr>m_peak_gpu_bytes := max (m_peak_gpu_bytes m) (m_gpu_bytes m)\<rparr>) c else c),
     ok (\<lambda>c. if rq_gpu_bytes (heap c r) \<noteq> 0
             then c\<lparr>peak_gpu_bytes := max (peak_gpu_bytes c) (sum_list (dict_values (gpu_in_use c)))\<rparr> else c)]"

definition grant_popleft :: "string \<Rightarrow> step" where
  "grant_popleft n = (\<lambda>c. case queues c n of [] \<Rightarrow> None | _ # q \<Rightarrow> Some (c\<lparr>queues := (queues c)(n := q)\<rparr>))"

definition grant_steps :: "rid \<Rightarrow> string \<Rightarrow> int \<Rightarrow> int \<Rightarrow> step list" where
  "grant_steps r n route_index now_ns =
     grant_charge_steps r route_index @ grant_claim_steps r @ grant_metric_steps r n @ grant_peak_steps r now_ns
     @ grant_admit_steps r n @ grant_io_steps r n @ grant_gpu_steps r n"

text \<open>The \<open>except\<close> block: everything but the queue goes back to what it was on entry.\<close>

definition restore_claims ::
  "request \<Rightarrow> (string \<times> string, (rid, int) dict) dict \<Rightarrow> (string \<times> string, (rid, int) dict) dict
     \<Rightarrow> (string \<times> string, (rid, int) dict) dict" where
  "restore_claims rq prev cur =
    (case claim_key rq of
       None \<Rightarrow> cur
     | Some k \<Rightarrow> (case dict_get prev k of None \<Rightarrow> dict_pop cur k | Some cl \<Rightarrow> dict_set cur k cl))"

definition grant_rollback :: "rid \<Rightarrow> string \<Rightarrow> coordinator \<Rightarrow> coordinator \<Rightarrow> coordinator" where
  "grant_rollback r n prev c =
    c\<lparr>io_in_use := io_in_use prev, gpu_in_use := gpu_in_use prev,
      active_execution_requests := active_execution_requests prev,
      peak_io_slots := peak_io_slots prev, peak_gpu_bytes := peak_gpu_bytes prev,
      active_reservations := remove1 r (active_reservations c),
      reserved_bytes := reserved_bytes prev, resident_bytes := resident_bytes prev,
      transient_bytes := transient_bytes prev, temp_bytes := temp_bytes prev,
      cpu_in_use := cpu_in_use prev, native_threads_in_use := native_threads_in_use prev,
      active_requests := active_requests prev, last_granted_index := last_granted_index prev,
      peak_reserved_bytes := peak_reserved_bytes prev, peak_resident_bytes := peak_resident_bytes prev,
      peak_transient_bytes := peak_transient_bytes prev, peak_temp_bytes := peak_temp_bytes prev,
      peak_cpu_slots := peak_cpu_slots prev, peak_native_threads := peak_native_threads prev,
      peak_active_requests := peak_active_requests prev,
      resident_claims := restore_claims (heap prev r) (resident_claims prev) (resident_claims c),
      metrics := (metrics c)(n := (metrics c n)
        \<lparr>m_admissions := m_admissions (metrics prev n), m_wait_seconds := m_wait_seconds (metrics prev n),
         m_wait_ns := m_wait_ns (metrics prev n), m_reserved_bytes := m_reserved_bytes (metrics prev n),
         m_cpu_slots := m_cpu_slots (metrics prev n), m_active_requests := m_active_requests (metrics prev n),
         m_peak_reserved_bytes := m_peak_reserved_bytes (metrics prev n),
         m_peak_cpu_slots := m_peak_cpu_slots (metrics prev n),
         m_resident_bytes := m_resident_bytes (metrics prev n),
         m_transient_bytes := m_transient_bytes (metrics prev n), m_temp_bytes := m_temp_bytes (metrics prev n),
         m_native_threads := m_native_threads (metrics prev n),
         m_peak_resident_bytes := m_peak_resident_bytes (metrics prev n),
         m_peak_transient_bytes := m_peak_transient_bytes (metrics prev n),
         m_peak_temp_bytes := m_peak_temp_bytes (metrics prev n),
         m_peak_native_threads := m_peak_native_threads (metrics prev n),
         m_phase_admissions := m_phase_admissions (metrics prev n),
         m_io_slots := m_io_slots (metrics prev n), m_peak_io_slots := m_peak_io_slots (metrics prev n),
         m_gpu_bytes := m_gpu_bytes (metrics prev n), m_peak_gpu_bytes := m_peak_gpu_bytes (metrics prev n),
         m_active_execution_requests := m_active_execution_requests (metrics prev n)\<rparr>),
      heap := (heap c)(r := (heap c r)
        \<lparr>rq_execution_active := False, rq_wait_accounted := rq_wait_accounted (heap prev r),
         rq_memory_bytes := rq_memory_bytes (heap prev r),
         rq_resident_charge_bytes := rq_resident_charge_bytes (heap prev r),
         rq_queued := False, rq_admitted := False, rq_released := False\<rparr>)\<rparr>"

definition grant_request :: "nat \<Rightarrow> rid \<Rightarrow> int \<Rightarrow> int \<Rightarrow> coordinator \<Rightarrow> bool \<times> coordinator" where
  "grant_request k r route_index now_ns c =
    (let n = rq_route_name (heap c r);
         (committed, s) = run_steps k (grant_popleft n # grant_steps r n route_index now_ns) c
     in if committed then (True, s) else (False, grant_rollback r n c s))"

section \<open>Releasing an admission\<close>

text \<open>The resident bytes that become free, and the claims that stay.\<close>

definition release_claims ::
  "rid \<Rightarrow> request \<Rightarrow> (string \<times> string, (rid, int) dict) dict \<Rightarrow> int \<times> (string \<times> string, (rid, int) dict) dict" where
  "release_claims r rq cls =
    (case claim_key rq of
       None \<Rightarrow> (rq_resident_charge_bytes rq, cls)
     | Some k \<Rightarrow>
         (case dict_get cls k of
            None \<Rightarrow> (rq_resident_charge_bytes rq, cls)
          | Some claims \<Rightarrow>
              (let left = dict_pop claims r
               in (max 0 (claim_max claims - claim_max left),
                   if left = [] then dict_pop cls k else dict_set cls k left))))"

definition release_counter_steps :: "rid \<Rightarrow> string \<Rightarrow> int \<Rightarrow> step list" where
  "release_counter_steps r n resident_released =
   [ ok (\<lambda>c. c\<lparr>reserved_bytes := reserved_bytes c - (resident_released + rq_transient_bytes (heap c r))\<rparr>),
     ok (\<lambda>c. c\<lparr>resident_bytes := resident_bytes c - resident_released\<rparr>),
     ok (\<lambda>c. c\<lparr>transient_bytes := transient_bytes c - rq_transient_bytes (heap c r)\<rparr>),
     ok (\<lambda>c. c\<lparr>temp_bytes := temp_bytes c - rq_temp_bytes (heap c r)\<rparr>),
     ok (\<lambda>c. c\<lparr>cpu_in_use := cpu_in_use c - rq_cpu_slots (heap c r)\<rparr>),
     ok (\<lambda>c. c\<lparr>native_threads_in_use := native_threads_in_use c - rq_native_threads (heap c r)\<rparr>),
     ok (\<lambda>c. c\<lparr>active_requests := active_requests c - 1\<rparr>),
     ok (\<lambda>c. upd_metrics n (\<lambda>m. m\<lparr>m_reserved_bytes := m_reserved_bytes m - (resident_released + rq_transient_bytes (heap c r))\<rparr>) c),
     ok (\<lambda>c. upd_metrics n (\<lambda>m. m\<lparr>m_cpu_slots := m_cpu_slots m - rq_cpu_slots (heap c r)\<rparr>) c),
     ok (upd_metrics n (\<lambda>m. m\<lparr>m_active_requests := m_active_requests m - 1\<rparr>)),
     ok (upd_metrics n (\<lambda>m. m\<lparr>m_resident_bytes := m_resident_bytes m - resident_released\<rparr>)),
     ok (\<lambda>c. upd_metrics n (\<lambda>m. m\<lparr>m_transient_bytes := m_transient_bytes m - rq_transient_bytes (heap c r)\<rparr>) c),
     ok (\<lambda>c. upd_metrics n (\<lambda>m. m\<lparr>m_temp_bytes := m_temp_bytes m - rq_temp_bytes (heap c r)\<rparr>) c),
     ok (\<lambda>c. upd_metrics n (\<lambda>m. m\<lparr>m_native_threads := m_native_threads m - rq_native_threads (heap c r)\<rparr>) c)]"

text \<open>\<open>table[device] -= amount\<close>, which fails when the device is not in the table.\<close>

definition dict_sub :: "(string, int) dict \<Rightarrow> string \<Rightarrow> int \<Rightarrow> (string, int) dict option" where
  "dict_sub d k v = map_option (\<lambda>old. dict_set d k (old - v)) (dict_get d k)"

definition release_execution_steps :: "rid \<Rightarrow> string \<Rightarrow> bool \<Rightarrow> step list" where
  "release_execution_steps r n executing =
   [ ok (\<lambda>c. if executing then c\<lparr>active_execution_requests := active_execution_requests c - 1\<rparr> else c),
     ok (\<lambda>c. if executing then upd_metrics n (\<lambda>m. m\<lparr>m_active_execution_requests := m_active_execution_requests m - 1\<rparr>) c else c),
     ok (\<lambda>c. if executing then upd_request r (\<lambda>q. q\<lparr>rq_execution_active := False\<rparr>) c else c)]"

definition release_io_steps :: "rid \<Rightarrow> string \<Rightarrow> step list" where
  "release_io_steps r n =
   [ (\<lambda>c. if rq_io_slots (heap c r) \<noteq> 0
          then map_option (\<lambda>d. c\<lparr>io_in_use := d\<rparr>)
                 (dict_sub (io_in_use c) (device_or_default (rq_io_device (heap c r))) (rq_io_slots (heap c r)))
          else Some c),
     ok (\<lambda>c. if rq_io_slots (heap c r) \<noteq> 0
             then upd_metrics n (\<lambda>m. m\<lparr>m_io_slots := m_io_slots m - rq_io_slots (heap c r)\<rparr>) c else c)]"

definition release_gpu_steps :: "rid \<Rightarrow> string \<Rightarrow> step list" where
  "release_gpu_steps r n =
   [ (\<lambda>c. if rq_gpu_bytes (heap c r) \<noteq> 0
          then map_option (\<lambda>d. c\<lparr>gpu_in_use := d\<rparr>)
                 (dict_sub (gpu_in_use c) (device_or_default (rq_gpu_device (heap c r))) (rq_gpu_bytes (heap c r)))
          else Some c),
     ok (\<lambda>c. if rq_gpu_bytes (heap c r) \<noteq> 0
             then upd_metrics n (\<lambda>m. m\<lparr>m_gpu_bytes := m_gpu_bytes m - rq_gpu_bytes (heap c r)\<rparr>) c else c)]"

definition release_steps :: "rid \<Rightarrow> string \<Rightarrow> int \<Rightarrow> bool \<Rightarrow> step list" where
  "release_steps r n resident_released executing =
     release_counter_steps r n resident_released @ release_execution_steps r n executing
     @ release_io_steps r n @ release_gpu_steps r n"

definition release_rollback :: "rid \<Rightarrow> string \<Rightarrow> coordinator \<Rightarrow> coordinator \<Rightarrow> coordinator" where
  "release_rollback r n prev c =
    c\<lparr>io_in_use := io_in_use prev, gpu_in_use := gpu_in_use prev,
      active_execution_requests := active_execution_requests prev,
      reserved_bytes := reserved_bytes prev, resident_bytes := resident_bytes prev,
      transient_bytes := transient_bytes prev, temp_bytes := temp_bytes prev,
      cpu_in_use := cpu_in_use prev, native_threads_in_use := native_threads_in_use prev,
      active_requests := active_requests prev,
      resident_claims := restore_claims (heap prev r) (resident_claims prev) (resident_claims c),
      metrics := (metrics c)(n := (metrics c n)
        \<lparr>m_active_execution_requests := m_active_execution_requests (metrics prev n),
         m_io_slots := m_io_slots (metrics prev n), m_gpu_bytes := m_gpu_bytes (metrics prev n),
         m_reserved_bytes := m_reserved_bytes (metrics prev n), m_cpu_slots := m_cpu_slots (metrics prev n),
         m_active_requests := m_active_requests (metrics prev n),
         m_resident_bytes := m_resident_bytes (metrics prev n),
         m_transient_bytes := m_transient_bytes (metrics prev n), m_temp_bytes := m_temp_bytes (metrics prev n),
         m_native_threads := m_native_threads (metrics prev n)\<rparr>),
      heap := (heap c)(r := (heap c r)\<lparr>rq_execution_active := rq_execution_active (heap prev r)\<rparr>)\<rparr>"

definition release_admission :: "nat \<Rightarrow> rid \<Rightarrow> coordinator \<Rightarrow> bool \<times> coordinator" where
  "release_admission k r c =
    (let rq = heap c r; n = rq_route_name rq
     in if \<not> rq_admitted rq \<or> rq_released rq then (True, c)
        else let (resident_released, claims) = release_claims r rq (resident_claims c);
                 (done, s) = run_steps k (release_steps r n resident_released (rq_execution_active rq))
                               (c\<lparr>resident_claims := claims\<rparr>)
             in if done
                then (True, (upd_request r (\<lambda>q. q\<lparr>rq_admitted := False, rq_released := True\<rparr>) s)
                              \<lparr>active_reservations := remove1 r (active_reservations s)\<rparr>)
                else (False, release_rollback r n c s))"

text \<open>Returning execution. A lease with I/O slots has its device in the table since its
  grant, so the subtraction finds the key.\<close>

definition release_execution :: "rid \<Rightarrow> coordinator \<Rightarrow> coordinator" where
  "release_execution r c =
    (let rq = heap c r; n = rq_route_name rq
     in if \<not> rq_admitted rq \<or> rq_released rq \<or> \<not> rq_execution_active rq then c
        else let c = c\<lparr>cpu_in_use := cpu_in_use c - rq_cpu_slots rq,
                       native_threads_in_use := native_threads_in_use c - rq_native_threads rq\<rparr>;
                 c = upd_metrics n (\<lambda>m. m\<lparr>m_cpu_slots := m_cpu_slots m - rq_cpu_slots rq,
                       m_native_threads := m_native_threads m - rq_native_threads rq\<rparr>) c;
                 device = device_or_default (rq_io_device rq);
                 c = (if rq_io_slots rq \<noteq> 0
                      then upd_metrics n (\<lambda>m. m\<lparr>m_io_slots := m_io_slots m - rq_io_slots rq\<rparr>)
                             (c\<lparr>io_in_use := dict_set (io_in_use c) device
                                  (dict_get_or (io_in_use c) device 0 - rq_io_slots rq)\<rparr>)
                      else c);
                 c = upd_request r (\<lambda>q. q\<lparr>rq_cpu_slots := 0, rq_native_threads := 0, rq_io_slots := 0,
                       rq_execution_active := False\<rparr>) c
             in upd_metrics n (\<lambda>m. m\<lparr>m_active_execution_requests := m_active_execution_requests m - 1\<rparr>)
                  (c\<lparr>active_execution_requests := active_execution_requests c - 1\<rparr>))"

definition cleanup_request :: "nat \<Rightarrow> int \<Rightarrow> rid \<Rightarrow> coordinator \<Rightarrow> bool \<times> coordinator" where
  "cleanup_request k now_ns r c =
    (if rq_queued (heap c r) then (True, discard_queued_request now_ns r c)
     else if rq_admitted (heap c r) \<and> \<not> rq_released (heap c r) then release_admission k r c
     else (True, c))"

section \<open>Operations of a lease\<close>

definition shrink_transient_bytes :: "rid \<Rightarrow> int \<Rightarrow> coordinator \<Rightarrow> py_error + coordinator" where
  "shrink_transient_bytes r amount c =
    (let rq = heap c r; n = rq_route_name rq
     in if \<not> rq_admitted rq \<or> rq_released rq
          then Inl (RuntimeError ''cannot shrink a released resource grant'')
        else if amount < 0 \<or> rq_transient_bytes rq < amount
          then Inl (ValueError ''transient reduction cannot grow a reservation'')
        else let released = rq_transient_bytes rq - amount;
                 c = upd_request r (\<lambda>q. q\<lparr>rq_transient_bytes := amount,
                       rq_memory_bytes := rq_memory_bytes q - released\<rparr>) c;
                 c = c\<lparr>reserved_bytes := reserved_bytes c - released,
                       transient_bytes := transient_bytes c - released\<rparr>
             in Inr (upd_metrics n (\<lambda>m. m\<lparr>m_reserved_bytes := m_reserved_bytes m - released,
                       m_transient_bytes := m_transient_bytes m - released\<rparr>) c))"

text \<open>What \<open>os.fstat\<close> says of the owned descriptor: whether it is a regular
  file, its device and inode, its length.\<close>

record file_stat =
  st_is_regular :: bool
  st_identity :: "int \<times> int"
  st_size :: int

definition resize_temp_checks :: "rid \<Rightarrow> int \<Rightarrow> file_stat option \<Rightarrow> coordinator \<Rightarrow> py_error + (int \<times> (int \<times> int) option)" where
  "resize_temp_checks r amount fd c =
    (let rq = heap c r
     in if \<not> rq_admitted rq \<or> rq_released rq
          then Inl (RuntimeError ''cannot resize a released resource grant'')
        else (case fd of
            None \<Rightarrow> Inr (0, None)
          | Some st \<Rightarrow>
              if \<not> st_is_regular st
                then Inl (ValueError ''temporary resource descriptor must be a regular file'')
              else if rq_temp_file_identity rq \<noteq> None \<and> rq_temp_file_identity rq \<noteq> Some (st_identity st)
                then Inl (ValueError ''temporary resource descriptor changed identity'')
              else if list_ex (\<lambda>o'. o' \<noteq> r \<and> rq_temp_bytes (heap c o') \<noteq> 0
                       \<and> rq_temp_file_identity (heap c o') = Some (st_identity st)) (active_reservations c)
                then Inl (ValueError ''temporary file already belongs to another live grant'')
              else Inr (min (rq_temp_bytes rq) (max 0 (st_size st)), Some (st_identity st))))"

definition others :: "rid \<Rightarrow> coordinator \<Rightarrow> request list" where
  "others r c = map (heap c) (filter (\<lambda>o'. o' \<noteq> r) (active_reservations c))"

definition resize_temp_bytes ::
  "rid \<Rightarrow> int \<Rightarrow> file_stat option \<Rightarrow> int \<Rightarrow> bool \<Rightarrow> coordinator \<Rightarrow> py_error + coordinator" where
  \<comment> \<open>\<open>free\<close> is what the file system reports, \<open>stopped\<close> whether the lease's own token is cancelled\<close>
  "resize_temp_bytes r amount fd free stopped c =
    (if amount < 0 then Inl (ValueError ''temporary resource size cannot be negative'')
     else if cancelled c \<or> stopped then Inl CancellationRequested
     else (case resize_temp_checks r amount fd c of
         Inl e \<Rightarrow> Inl e
       | Inr (materialized, identity) \<Rightarrow>
           (let rq = heap c r; n = rq_route_name rq;
                delta = amount - rq_temp_bytes rq;
                future = temp_bytes c + delta;
                explicit = lim_temp_budget_bytes (limits c);
                pending_other = sum_list (map (\<lambda>q. max 0 (rq_temp_bytes q - rq_temp_materialized_bytes q)) (others r c));
                other_materialized = sum_list (map rq_temp_materialized_bytes (others r c))
            in if 0 < delta \<and> (case explicit of None \<Rightarrow> False | Some e \<Rightarrow> e < future)
                 then Inl (MemoryBudgetExceeded ''temporary storage budget exceeded'')
               else if 0 < delta \<and> free < max 0 (amount - materialized) + pending_other
                 then Inl (MemoryBudgetExceeded ''insufficient filesystem capacity for temporary growth'')
               else
                 (let c = (if 0 < delta \<and> explicit = None
                           then c\<lparr>temp_budget_bytes := other_materialized + materialized + free\<rparr> else c);
                      c = upd_request r (\<lambda>q. q\<lparr>rq_temp_materialized_bytes := min amount materialized,
                            rq_temp_file_identity := (if amount \<noteq> 0 then identity else None),
                            rq_temp_bytes := amount\<rparr>) c;
                      c = c\<lparr>temp_bytes := future, peak_temp_bytes := max (peak_temp_bytes c) future\<rparr>
                  in Inr (upd_metrics n (\<lambda>m. m\<lparr>m_temp_bytes := m_temp_bytes m + delta,
                            m_peak_temp_bytes := max (m_peak_temp_bytes m) (m_temp_bytes m + delta)\<rparr>) c)))))"

section \<open>Routes and devices\<close>

definition register_route :: "string \<Rightarrow> coordinator \<Rightarrow> py_error + coordinator" where
  "register_route route_name c =
    (let name = strip route_name
     in if name = [] then Inl (ValueError ''resource route cannot be empty'')
        else if name \<in> set (route_order c) then Inr c
        else Inr (c\<lparr>route_order := route_order c @ [name],
                    queues := (queues c)(name := []),
                    metrics := (metrics c)(name := zero_metrics)\<rparr>))"

section \<open>A waiting and an admitted request\<close>

definition demo_request :: request where
  "demo_request = (new_request ''pdf'' 300 1 0 0)\<lparr>rq_resident_bytes := 100, rq_transient_bytes := 200,
     rq_native_threads := 1, rq_resident_key := Some ''model'', rq_io_slots := 1, rq_io_device := Some ''dev:5''\<rparr>"

definition demo_waiting :: coordinator where
  "demo_waiting = enqueue 1 demo_request demo"

definition demo_admitted :: coordinator where
  "demo_admitted = demo\<lparr>
     heap := (heap demo)(1 := demo_request\<lparr>rq_resident_charge_bytes := 100, rq_admitted := True, rq_execution_active := True\<rparr>),
     reserved_bytes := 300, resident_bytes := 100, transient_bytes := 200, cpu_in_use := 1,
     native_threads_in_use := 1, active_requests := 1, active_execution_requests := 1,
     resident_claims := [((''pdf'', ''model''), [(1, 100)])], active_reservations := [1], io_in_use := [(''dev:5'', 1)],
     metrics := (metrics demo)(''pdf'' := zero_metrics\<lparr>m_admissions := 1, m_reserved_bytes := 300, m_resident_bytes := 100,
       m_transient_bytes := 200, m_cpu_slots := 1, m_native_threads := 1, m_active_requests := 1, m_io_slots := 1,
       m_active_execution_requests := 1\<rparr>)\<rparr>"

end
