(* ===== verification/Resource_Rollback.thy ===== *)
theory Resource_Rollback
  imports Resource_Ledger
begin

text \<open>
  The exception safety of the two \<open>try\<close> blocks. A step is \<^emph>\<open>absorbed\<close> by a view of
  the state, such as a rollback, when the view is the same before and after the
  step; a block all of whose steps are absorbed by its rollback can stop anywhere.
\<close>

definition absorbed :: "(coordinator \<Rightarrow> bool) \<Rightarrow> (coordinator \<Rightarrow> 'b) \<Rightarrow> step \<Rightarrow> bool" where
  "absorbed P rb f \<longleftrightarrow> (\<forall>s s'. P s \<longrightarrow> f s = Some s' \<longrightarrow> P s' \<and> rb s' = rb s)"

lemma absorbed_ok [simp]: "absorbed P rb (ok f) \<longleftrightarrow> (\<forall>s. P s \<longrightarrow> P (f s) \<and> rb (f s) = rb s)"
  by (simp add: absorbed_def ok_def)

lemma run_steps_absorbed:
  "list_all (absorbed P rb) fs \<Longrightarrow> P s \<Longrightarrow> rb (snd (run_steps k fs s)) = rb s"
proof (induction k fs s rule: run_steps.induct)
  case (3 k f fs s)
  show ?case
  proof (cases "f s")
    case (Some s')
    then have "P s'" and "rb s' = rb s" using "3.prems" by (auto simp: absorbed_def)
    then show ?thesis using "3.IH"[OF Some] "3.prems" Some by simp
  qed simp
qed auto

lemma run_steps_short: "k < length fs \<Longrightarrow> fst (run_steps k fs s) = False"
  by (induction k fs s rule: run_steps.induct) (auto split: option.splits)

text \<open>The dictionary and table facts the rollback rests on.\<close>

lemma dict_pop_set [simp]: "dict_pop (dict_set d k v) k = dict_pop d k"
  by (induction d k v rule: dict_set.induct) auto

lemma dict_set_set [simp]: "dict_set (dict_set d k v) k w = dict_set d k w"
  by (induction d k v rule: dict_set.induct) auto

lemma dict_set_get: "dict_get d k = Some v \<Longrightarrow> dict_set d k v = d"
  by (induction d k rule: dict_get.induct) (auto split: if_splits)

lemma dict_pop_notin: "dict_get d k = None \<Longrightarrow> dict_pop d k = d"
  by (induction d k rule: dict_pop.induct) (auto split: if_splits)

lemma remove1_table_insert [simp]: "remove1 r (table_insert r rs) = remove1 r rs"
  by (auto simp: table_insert_def remove1_append remove1_idem)

lemma restore_claims_set [simp]:
  "claim_key rq = Some k \<Longrightarrow> restore_claims rq prev (dict_set cur k v) = restore_claims rq prev cur"
  by (auto simp: restore_claims_def split: option.splits)

lemma restore_claims_self: "restore_claims rq cls cls = cls"
  by (auto simp: restore_claims_def dict_set_get dict_pop_notin split: option.splits)

text \<open>No step changes the route or the resident key of the request.\<close>

definition same_owner :: "rid \<Rightarrow> string \<Rightarrow> coordinator \<Rightarrow> coordinator \<Rightarrow> bool" where
  "same_owner r n prev s \<longleftrightarrow> rq_route_name (heap s r) = n \<and> rq_route_name (heap prev r) = n
     \<and> rq_resident_key (heap s r) = rq_resident_key (heap prev r)"

lemma same_owner_refl: "same_owner r (rq_route_name (heap c r)) c c"
  by (simp add: same_owner_def)

lemma same_owner_claim: "same_owner r n prev s \<Longrightarrow> claim_key (heap s r) = claim_key (heap prev r)"
  by (simp add: same_owner_def claim_key_def)

lemma same_owner_upd [simp]:
  "(\<And>q. rq_route_name (f q) = rq_route_name q) \<Longrightarrow> (\<And>q. rq_resident_key (f q) = rq_resident_key q) \<Longrightarrow>
   same_owner r n prev (s\<lparr>heap := (heap s)(r := f (heap s r))\<rparr>) = same_owner r n prev s"
  by (simp add: same_owner_def)

section \<open>The grant\<close>

lemma grant_charge_absorbed:
  "list_all (absorbed (same_owner r n prev) (grant_rollback r n prev)) (grant_charge_steps r i)"
  by (simp add: grant_charge_steps_def grant_rollback_def same_owner_def)

lemma grant_rollback_claims:
  "restore_claims (heap prev r) (resident_claims prev) cls
     = restore_claims (heap prev r) (resident_claims prev) (resident_claims s) \<Longrightarrow>
   grant_rollback r n prev (s\<lparr>resident_claims := cls\<rparr>) = grant_rollback r n prev s"
  by (simp add: grant_rollback_def)

lemma grant_claim_absorbed:
  "list_all (absorbed (same_owner r n prev) (grant_rollback r n prev)) (grant_claim_steps r)"
proof -
  have owner: "same_owner r n prev (s\<lparr>resident_claims := cls\<rparr>) = same_owner r n prev s" for s cls
    by (simp add: same_owner_def)
  have key: "claim_key (heap s r) = claim_key (heap prev r)" if "same_owner r n prev s" for s
    using that by (rule same_owner_claim)
  show ?thesis
    by (cases "claim_key (heap prev r)")
      (simp_all add: grant_claim_steps_def owner key grant_rollback_claims split: option.split)
qed

lemma grant_metric_absorbed:
  "list_all (absorbed (same_owner r n prev) (grant_rollback r n prev)) (grant_metric_steps r n)"
  by (simp add: grant_metric_steps_def grant_rollback_def same_owner_def split: option.splits)

lemma grant_peak_absorbed:
  "list_all (absorbed (same_owner r n prev) (grant_rollback r n prev)) (grant_peak_steps r now_ns)"
  by (simp add: grant_peak_steps_def grant_rollback_def record_wait_def Let_def same_owner_def)

lemma grant_admit_absorbed:
  "list_all (absorbed (same_owner r n prev) (grant_rollback r n prev)) (grant_admit_steps r n)"
  by (simp add: grant_admit_steps_def grant_rollback_def same_owner_def)

lemma grant_io_absorbed:
  "list_all (absorbed (same_owner r n prev) (grant_rollback r n prev)) (grant_io_steps r n)"
  by (simp add: grant_io_steps_def grant_rollback_def same_owner_def)

lemma grant_gpu_absorbed:
  "list_all (absorbed (same_owner r n prev) (grant_rollback r n prev)) (grant_gpu_steps r n)"
  by (simp add: grant_gpu_steps_def grant_rollback_def same_owner_def)

lemma grant_steps_absorbed:
  "list_all (absorbed (same_owner r n prev) (grant_rollback r n prev)) (grant_steps r n i now_ns)"
  by (simp add: grant_steps_def grant_charge_absorbed grant_claim_absorbed grant_metric_absorbed grant_peak_absorbed
      grant_admit_absorbed grant_io_absorbed grant_gpu_absorbed)

text \<open>What the \<open>except\<close> block makes of a state in which no step has run.\<close>

lemma grant_rollback_self:
  assumes "r \<notin> set (active_reservations c)" "\<not> rq_admitted (heap c r)" "\<not> rq_released (heap c r)"
    "\<not> rq_execution_active (heap c r)"
  shows "grant_rollback r n c c = upd_request r (\<lambda>q. q\<lparr>rq_queued := False\<rparr>) c"
proof -
  have "heap c r\<lparr>rq_execution_active := False, rq_queued := False, rq_admitted := False, rq_released := False\<rparr>
      = heap c r\<lparr>rq_queued := False\<rparr>"
    using assms(2-4) by (cases "heap c r") simp
  then show ?thesis
    using assms(1) by (simp add: grant_rollback_def restore_claims_self remove1_idem)
qed

lemma run_steps_Cons_False:
  "run_steps k (f # fs) s = (False, s') \<Longrightarrow> f s = Some t \<Longrightarrow>
     (k = 0 \<and> s' = s) \<or> (\<exists>j. k = Suc j \<and> run_steps j fs t = (False, s'))"
  by (cases k) auto

text \<open>
  A request at the head of its queue that nobody has admitted: the state in which the
  waiting loop calls \<open>_grant_request_locked\<close>.
\<close>

definition grantable :: "rid \<Rightarrow> coordinator \<Rightarrow> bool" where
  "grantable r c \<longleftrightarrow> (case queues c (rq_route_name (heap c r)) of [] \<Rightarrow> False | h # _ \<Rightarrow> h = r)
     \<and> r \<notin> set (active_reservations c) \<and> rq_queued (heap c r) \<and> \<not> rq_admitted (heap c r)
     \<and> \<not> rq_released (heap c r) \<and> \<not> rq_execution_active (heap c r)"

lemma grantable_queue:
  assumes "grantable r c"
  obtains q where "queues c (rq_route_name (heap c r)) = r # q"
  using assms by (auto simp: grantable_def split: list.splits)

lemma grant_popleft_head:
  "queues c n = r # q \<Longrightarrow> grant_popleft n c = Some (c\<lparr>queues := (queues c)(n := q)\<rparr>)"
  by (simp add: grant_popleft_def)

lemma grant_rollback_prev_queue: "grant_rollback r n (c\<lparr>queues := q\<rparr>) = grant_rollback r n c"
  by (rule ext) (simp add: grant_rollback_def)

lemma grant_rollback_state:
  assumes "grantable r c" and "grant_request k r i now_ns c = (False, s)"
  shows "s = upd_request r (\<lambda>q. q\<lparr>rq_queued := False\<rparr>)
     (c\<lparr>queues := (queues c)(rq_route_name (heap c r) :=
        (if k = 0 then queues c (rq_route_name (heap c r)) else tl (queues c (rq_route_name (heap c r)))))\<rparr>)"
proof -
  define n where "n = rq_route_name (heap c r)"
  obtain q where q: "queues c n = r # q" using assms(1) grantable_queue n_def by blast
  define c1 where "c1 = c\<lparr>queues := (queues c)(n := q)\<rparr>"
  obtain u where u: "run_steps k (grant_popleft n # grant_steps r n i now_ns) c = (False, u)"
    and s: "s = grant_rollback r n c u"
    using assms(2) by (auto simp: grant_request_def Let_def n_def split: prod.splits if_splits)
  have fresh: "r \<notin> set (active_reservations c)" "\<not> rq_admitted (heap c r)"
    "\<not> rq_released (heap c r)" "\<not> rq_execution_active (heap c r)"
    using assms(1) by (simp_all add: grantable_def)
  from run_steps_Cons_False[OF u grant_popleft_head[OF q]]
  consider "k = 0" "u = c" | j where "k = Suc j" "run_steps j (grant_steps r n i now_ns) c1 = (False, u)"
    by (auto simp: c1_def)
  then show ?thesis
  proof cases
    case 1
    then show ?thesis using s fresh by (simp add: grant_rollback_self)
  next
    case 2
    have "grant_rollback r n c1 u = grant_rollback r n c1 c1"
      using run_steps_absorbed[OF grant_steps_absorbed[where prev = c1 and r = r and n = n and i = i and now_ns = now_ns],
          where k = j and s = c1] 2(2)
      by (simp add: c1_def n_def same_owner_def)
    also have "\<dots> = upd_request r (\<lambda>q. q\<lparr>rq_queued := False\<rparr>) c1"
      using fresh by (intro grant_rollback_self) (simp_all add: c1_def)
    finally show ?thesis
      using s 2(1) q by (simp add: c1_def n_def grant_rollback_prev_queue)
  qed
qed

text \<open>
  C7. \<open>_grant_request_locked\<close> is rollback-safe: wherever an asynchronous exception stops the
  commit of the request at the head of its queue, every counter, peak, per-route metric, device
  table, resident claim and field of the request is what it was on entry, except that the request
  is no longer marked as queued and, once \<open>popleft\<close> has run, no longer in its queue.
\<close>

theorem grant_request_rollback:
  assumes "grantable r c" and "grant_request k r i now_ns c = (False, s)"
  shows "s = upd_request r (\<lambda>q. q\<lparr>rq_queued := False\<rparr>)
     (c\<lparr>queues := (queues c)(rq_route_name (heap c r) :=
        (if k = 0 then queues c (rq_route_name (heap c r)) else tl (queues c (rq_route_name (heap c r)))))\<rparr>)"
  using assms by (rule grant_rollback_state)

lemma length_grant_steps: "length (grant_steps r n i now_ns) = 50"
  by (simp add: grant_steps_def grant_charge_steps_def grant_claim_steps_def
      grant_metric_steps_def grant_peak_steps_def grant_admit_steps_def grant_io_steps_def grant_gpu_steps_def)

lemma grant_request_interrupted: "k < 51 \<Longrightarrow> \<not> fst (grant_request k r i now_ns c)"
  using run_steps_short[of k "grant_popleft (rq_route_name (heap c r)) # grant_steps r (rq_route_name (heap c r)) i now_ns" c]
  by (auto simp: grant_request_def Let_def length_grant_steps split: prod.splits)

lemma demo_grantable: "grantable 1 demo_waiting"
  by code_simp

theorem grant_request_rollback_witness:
  "grantable 1 demo_waiting \<and> \<not> fst (grant_request 20 1 0 7 demo_waiting)
   \<and> reserved_bytes (snd (grant_request 20 1 0 7 demo_waiting)) = 0
   \<and> queues (snd (grant_request 20 1 0 7 demo_waiting)) ''pdf'' = []"
proof -
  have stop: "\<not> fst (grant_request 20 1 0 7 demo_waiting)" by (simp add: grant_request_interrupted)
  then have "grant_request 20 1 0 7 demo_waiting = (False, snd (grant_request 20 1 0 7 demo_waiting))"
    by (metis (full_types) prod.collapse)
  note r = grant_request_rollback[OF demo_grantable this]
  have "reserved_bytes demo_waiting = 0" "tl (queues demo_waiting (rq_route_name (heap demo_waiting 1))) = []"
    "rq_route_name (heap demo_waiting 1) = ''pdf''" by code_simp+
  then show ?thesis using stop demo_grantable by (subst (1 2) r) simp
qed

section \<open>The release\<close>

lemma absorbed_option [simp]:
  "absorbed P rb (\<lambda>c. if b c then map_option (g c) (h c) else Some c)
     \<longleftrightarrow> (\<forall>s d. P s \<longrightarrow> b s \<longrightarrow> h s = Some d \<longrightarrow> P (g s d) \<and> rb (g s d) = rb s)"
  by (auto simp: absorbed_def)

lemma release_counter_absorbed:
  "list_all (absorbed (same_owner r n prev) (release_rollback r n prev)) (release_counter_steps r n b)"
  by (simp add: release_counter_steps_def release_rollback_def same_owner_def)

lemma release_steps_absorbed:
  "list_all (absorbed (same_owner r n prev) (release_rollback r n prev)) (release_steps r n b e)"
  by (simp add: release_steps_def release_counter_absorbed)
    (simp add: release_execution_steps_def release_io_steps_def release_gpu_steps_def release_rollback_def same_owner_def)

lemma release_rollback_self:
  "release_rollback r n c (c\<lparr>resident_claims := cls\<rparr>)
     = c\<lparr>resident_claims := restore_claims (heap c r) (resident_claims c) cls\<rparr>"
  by (simp add: release_rollback_def)

lemma dict_get_restore_release:
  assumes "dict_wf cls"
  shows "dict_get (restore_claims rq cls (snd (release_claims r rq cls))) k = dict_get cls k"
  using assms by (auto simp: restore_claims_def release_claims_def Let_def dict_pop_notin split: option.splits)

lemma release_rollback_state:
  assumes "release_admission k r c = (False, s)"
  shows "s = c\<lparr>resident_claims := restore_claims (heap c r) (resident_claims c)
     (snd (release_claims r (heap c r) (resident_claims c)))\<rparr>"
proof -
  define n where "n = rq_route_name (heap c r)"
  define cls where "cls = snd (release_claims r (heap c r) (resident_claims c))"
  define b where "b = fst (release_claims r (heap c r) (resident_claims c))"
  define fs where "fs = release_steps r n b (rq_execution_active (heap c r))"
  obtain u where u: "run_steps k fs (c\<lparr>resident_claims := cls\<rparr>) = (False, u)"
    and s: "s = release_rollback r n c u"
    using assms by (auto simp: release_admission_def Let_def n_def cls_def b_def fs_def
        split: prod.splits if_splits)
  have "list_all (absorbed (same_owner r n c) (release_rollback r n c)) fs"
    by (simp add: fs_def release_steps_absorbed)
  moreover have "same_owner r n c (c\<lparr>resident_claims := cls\<rparr>)"
    by (simp add: n_def same_owner_def)
  ultimately have "release_rollback r n c u = release_rollback r n c (c\<lparr>resident_claims := cls\<rparr>)"
    using run_steps_absorbed u by (metis snd_conv)
  then show ?thesis using s by (simp add: release_rollback_self cls_def)
qed


lemma release_admission_interrupted:
  assumes "k < 21" "rq_admitted (heap c r)" "\<not> rq_released (heap c r)"
  shows "\<not> fst (release_admission k r c)"
proof -
  have "\<not> fst (run_steps k (release_steps r n b e) s)" for n b e s
    using run_steps_short[of k "release_steps r n b e" s] assms(1)
    by (simp add: release_steps_def release_counter_steps_def release_execution_steps_def release_io_steps_def
        release_gpu_steps_def)
  then show ?thesis
    using assms(2,3) by (auto simp: release_admission_def Let_def split: prod.splits) (metis fst_conv)
qed


section \<open>Configuration and live observation\<close>

text \<open>Neither block touches the configuration or what was observed of the host.\<close>

definition surroundings :: "coordinator \<Rightarrow> coordinator_config \<times> int \<times> int \<times> int \<times> bool \<times> bool \<times> bool" where
  "surroundings c = (coordinator_config.truncate c, last_memory_budget c, last_cpu_capacity c, last_effective_cpu_slots c,
     memory_pressure c, cpu_pressure c, io_pressure c)"

lemma surroundings_simps [simp]:
  "surroundings (c\<lparr>heap := x1\<rparr>) = surroundings c" "surroundings (c\<lparr>metrics := x2\<rparr>) = surroundings c"
  "surroundings (c\<lparr>queues := x3\<rparr>) = surroundings c" "surroundings (c\<lparr>resident_claims := x4\<rparr>) = surroundings c"
  "surroundings (c\<lparr>active_reservations := x5\<rparr>) = surroundings c"
  by (simp_all add: surroundings_def coordinator_config.defs)

lemma grant_steps_surroundings:
  "list_all (absorbed (\<lambda>c. True) surroundings) (grant_popleft n # grant_steps r n i now_ns)"
  by (simp add: grant_steps_def grant_charge_steps_def grant_claim_steps_def grant_metric_steps_def grant_peak_steps_def
      grant_admit_steps_def grant_io_steps_def grant_gpu_steps_def record_wait_def Let_def split: option.split)
    (auto simp: surroundings_def coordinator_config.defs absorbed_def grant_popleft_def split: list.splits)

lemma grant_request_surroundings: "surroundings (snd (grant_request k r i now_ns c)) = surroundings c"
proof -
  have "surroundings (grant_rollback r n p s) = surroundings s" for n p s
    by (simp add: grant_rollback_def surroundings_def coordinator_config.defs)
  then show ?thesis
    using run_steps_absorbed[OF grant_steps_surroundings[where n = "rq_route_name (heap c r)" and r = r and i = i
          and now_ns = now_ns], where s = c and k = k]
    by (auto simp: grant_request_def Let_def split: prod.splits)
qed

lemma release_admission_surroundings: "surroundings (snd (release_admission k r c)) = surroundings c"
proof -
  have "list_all (absorbed (\<lambda>c. True) surroundings) (release_steps r n b e)" for n b e
    by (simp add: release_steps_def release_counter_steps_def release_execution_steps_def release_io_steps_def
        release_gpu_steps_def) (simp add: surroundings_def coordinator_config.defs)
  then have run: "surroundings (snd (run_steps k (release_steps r n b e) s)) = surroundings s" for n b e s
    using run_steps_absorbed by blast
  have "surroundings (release_rollback r n p s) = surroundings s" for n p s
    by (simp add: release_rollback_def surroundings_def coordinator_config.defs)
  then show ?thesis
    using run[of "rq_route_name (heap c r)" "fst (release_claims r (heap c r) (resident_claims c))"
        "rq_execution_active (heap c r)" "c\<lparr>resident_claims := snd (release_claims r (heap c r) (resident_claims c))\<rparr>"]
    by (auto simp: release_admission_def Let_def split: prod.splits)
qed

end
