(* ===== verification/Resource_Commit.thy ===== *)
theory Resource_Commit
  imports Resource_Rollback
begin

text \<open>
  The effect of a grant and of a release that run to their end, in closed form:
  what each adds to or takes from every counter, the new object of the request,
  the claim tables and the queue. A \<open>resource\<close> names one counter that the
  coordinator keeps in total and per route.
\<close>

section \<open>Counters\<close>

datatype resource =
  Requests | Executions | Transient | Temporary | Cpu | Native | Io | Gpu | Resident | Reserved

primrec global_counter :: "resource \<Rightarrow> coordinator \<Rightarrow> int" where
  "global_counter Requests c = active_requests c"
| "global_counter Executions c = active_execution_requests c"
| "global_counter Transient c = transient_bytes c"
| "global_counter Temporary c = temp_bytes c"
| "global_counter Cpu c = cpu_in_use c"
| "global_counter Native c = native_threads_in_use c"
| "global_counter Io c = sum_list (dict_values (io_in_use c))"
| "global_counter Gpu c = sum_list (dict_values (gpu_in_use c))"
| "global_counter Resident c = resident_bytes c"
| "global_counter Reserved c = reserved_bytes c"

primrec route_counter :: "resource \<Rightarrow> route_metrics \<Rightarrow> int" where
  "route_counter Requests m = m_active_requests m"
| "route_counter Executions m = m_active_execution_requests m"
| "route_counter Transient m = m_transient_bytes m"
| "route_counter Temporary m = m_temp_bytes m"
| "route_counter Cpu m = m_cpu_slots m"
| "route_counter Native m = m_native_threads m"
| "route_counter Io m = m_io_slots m"
| "route_counter Gpu m = m_gpu_bytes m"
| "route_counter Resident m = m_resident_bytes m"
| "route_counter Reserved m = m_reserved_bytes m"

text \<open>What one request holds when its share of resident memory is \<open>b\<close>.\<close>

primrec charge_with :: "resource \<Rightarrow> int \<Rightarrow> request \<Rightarrow> int" where
  "charge_with Requests b q = 1"
| "charge_with Executions b q = of_bool (rq_execution_active q)"
| "charge_with Transient b q = rq_transient_bytes q"
| "charge_with Temporary b q = rq_temp_bytes q"
| "charge_with Cpu b q = rq_cpu_slots q"
| "charge_with Native b q = rq_native_threads q"
| "charge_with Io b q = rq_io_slots q"
| "charge_with Gpu b q = rq_gpu_bytes q"
| "charge_with Resident b q = b"
| "charge_with Reserved b q = b + rq_transient_bytes q"

section \<open>Complete runs\<close>

fun run_all :: "step list \<Rightarrow> coordinator \<Rightarrow> coordinator option" where
  "run_all [] s = Some s"
| "run_all (f # fs) s = (case f s of None \<Rightarrow> None | Some s' \<Rightarrow> run_all fs s')"

lemma run_steps_True: "run_steps k fs s = (True, s') \<Longrightarrow> run_all fs s = Some s'"
  by (induction k fs s rule: run_steps.induct) (auto split: option.splits)

lemma run_steps_enough: "length fs \<le> k \<Longrightarrow> run_all fs s = Some s' \<Longrightarrow> run_steps k fs s = (True, s')"
  by (induction k fs s rule: run_steps.induct) (auto split: option.splits)

lemma run_all_append: "run_all (fs @ gs) s = (case run_all fs s of None \<Rightarrow> None | Some s' \<Rightarrow> run_all gs s')"
  by (induction fs s rule: run_all.induct) (auto split: option.splits)

lemma run_all_appendI: "run_all fs s = Some t \<Longrightarrow> run_all gs t = u \<Longrightarrow> run_all (fs @ gs) s = u"
  by (simp add: run_all_append)

lemma ok_apply [simp]: "ok f s = Some (f s)"
  by (simp add: ok_def)

section \<open>The grant\<close>

text \<open>
  \<open>moves_by g m n c s\<close>: from \<open>c\<close> to \<open>s\<close> the totals move by \<open>g\<close>, the counters of route \<open>n\<close> by
  \<open>m\<close>, and the tables are the same.
\<close>

definition moves_by :: "(resource \<Rightarrow> int) \<Rightarrow> (resource \<Rightarrow> int) \<Rightarrow> string \<Rightarrow> coordinator \<Rightarrow> coordinator \<Rightarrow> bool" where
  "moves_by g m n c s \<longleftrightarrow>
     (\<forall>x. global_counter x s = global_counter x c + g x)
   \<and> (\<forall>x. route_counter x (metrics s n) = route_counter x (metrics c n) + m x)
   \<and> (\<forall>n'. n' \<noteq> n \<longrightarrow> metrics s n' = metrics c n')
   \<and> heap s = heap c \<and> resident_claims s = resident_claims c \<and> active_reservations s = active_reservations c
   \<and> io_in_use s = io_in_use c \<and> gpu_in_use s = gpu_in_use c
   \<and> route_order s = route_order c \<and> queues s = queues c"

lemma moves_by_refl: "moves_by (\<lambda>x. 0) (\<lambda>x. 0) n c c"
  by (simp add: moves_by_def)

lemma moves_by_trans:
  "moves_by g m n c s \<Longrightarrow> moves_by g' m' n s t \<Longrightarrow> moves_by (\<lambda>x. g x + g' x) (\<lambda>x. m x + m' x) n c t"
  by (simp add: moves_by_def)

definition only :: "resource \<Rightarrow> int \<Rightarrow> resource \<Rightarrow> int" where
  "only y v = (\<lambda>x. if x = y then v else 0)"

definition step_moves :: "rid \<Rightarrow> request \<Rightarrow> string \<Rightarrow> (resource \<Rightarrow> int) \<Rightarrow> (resource \<Rightarrow> int) \<Rightarrow> step \<Rightarrow> bool" where
  "step_moves r q n g m f \<longleftrightarrow> (\<forall>c. heap c r = q \<longrightarrow> (\<exists>s. f c = Some s \<and> moves_by g m n c s))"

definition steps_move :: "rid \<Rightarrow> request \<Rightarrow> string \<Rightarrow> (resource \<Rightarrow> int) \<Rightarrow> (resource \<Rightarrow> int) \<Rightarrow> step list \<Rightarrow> bool" where
  "steps_move r q n g m fs \<longleftrightarrow> (\<forall>c. heap c r = q \<longrightarrow> (\<exists>s. run_all fs c = Some s \<and> moves_by g m n c s))"

lemma steps_move_list:
  "list_all2 (step_moves r q n g) ms fs \<Longrightarrow> (\<And>x. g x = 0) \<Longrightarrow>
     steps_move r q n (\<lambda>x. 0) (\<lambda>x. sum_list (map (\<lambda>m. m x) ms)) fs"
proof (induction ms fs rule: list_all2_induct)
  case Nil
  then show ?case by (simp add: steps_move_def moves_by_refl)
next
  case (Cons m ms f fs)
  show ?case
    unfolding steps_move_def
  proof (intro allI impI)
    fix c :: coordinator
    assume "heap c r = q"
    then obtain s where s: "f c = Some s" "moves_by g m n c s"
      using Cons.hyps(1) by (auto simp: step_moves_def)
    then have "heap s r = q" using \<open>heap c r = q\<close> by (simp add: moves_by_def)
    then obtain t where t: "run_all fs s = Some t" "moves_by (\<lambda>x. 0) (\<lambda>x. \<Sum>m\<leftarrow>ms. m x) n s t"
      using Cons.IH Cons.prems by (auto simp: steps_move_def)
    then show "\<exists>t. run_all (f # fs) c = Some t \<and> moves_by (\<lambda>x. 0) (\<lambda>x. \<Sum>m\<leftarrow>m # ms. m x) n c t"
      using s moves_by_trans[OF s(2) t(2)] Cons.prems by simp
  qed
qed

lemma all_resource:
  "(\<forall>x. P x) \<longleftrightarrow> P Requests \<and> P Executions \<and> P Transient \<and> P Temporary \<and> P Cpu \<and> P Native \<and> P Io \<and> P Gpu
     \<and> P Resident \<and> P Reserved"
  by (metis resource.exhaust)

abbreviation "still \<equiv> (\<lambda>x :: resource. 0 :: int)"

text \<open>Conditional statements as conditional values.\<close>

lemma if_upd_ledger:
  "(if b then c\<lparr>active_execution_requests := v1\<rparr> else c) = c\<lparr>active_execution_requests := if b then v1 else active_execution_requests c\<rparr>"
  "(if b then c\<lparr>io_in_use := v2\<rparr> else c) = c\<lparr>io_in_use := if b then v2 else io_in_use c\<rparr>"
  "(if b then c\<lparr>gpu_in_use := v3\<rparr> else c) = c\<lparr>gpu_in_use := if b then v3 else gpu_in_use c\<rparr>"
  "(if b then c\<lparr>peak_io_slots := v4\<rparr> else c) = c\<lparr>peak_io_slots := if b then v4 else peak_io_slots c\<rparr>"
  "(if b then c\<lparr>peak_gpu_bytes := v5\<rparr> else c) = c\<lparr>peak_gpu_bytes := if b then v5 else peak_gpu_bytes c\<rparr>"
  "(if b then c\<lparr>metrics := v6\<rparr> else c) = c\<lparr>metrics := if b then v6 else metrics c\<rparr>"
  "(if b then c\<lparr>heap := v7\<rparr> else c) = c\<lparr>heap := if b then v7 else heap c\<rparr>"
  by simp_all

lemma case_upd_ledger:
  "(case p of None \<Rightarrow> c | Some k \<Rightarrow> c\<lparr>metrics := v1 k\<rparr>) = c\<lparr>metrics := case p of None \<Rightarrow> metrics c | Some k \<Rightarrow> v1 k\<rparr>"
  "(case p of None \<Rightarrow> c | Some k \<Rightarrow> c\<lparr>resident_claims := v2 k\<rparr>)
     = c\<lparr>resident_claims := case p of None \<Rightarrow> resident_claims c | Some k \<Rightarrow> v2 k\<rparr>"
  by (simp_all split: option.split)

lemma if_upd_fun: "(if b then f(n := v) else f) = f(n := if b then v else f n)"
  by auto

lemma case_upd_fun: "(case p of None \<Rightarrow> f | Some k \<Rightarrow> f(n := v k)) = f(n := case p of None \<Rightarrow> f n | Some k \<Rightarrow> v k)"
  by (simp split: option.split)

lemmas upd_normal = if_upd_ledger case_upd_ledger if_upd_fun case_upd_fun

text \<open>The object of a request after its grant.\<close>

definition granted_object :: "coordinator \<Rightarrow> request \<Rightarrow> request" where
  "granted_object c q =
     (let b = resident_charge_for_request c q
      in q\<lparr>rq_queued := False, rq_resident_charge_bytes := b, rq_memory_bytes := b + rq_transient_bytes q,
           rq_wait_accounted := rq_wait_accounted q \<or> rq_waited q, rq_admitted := True, rq_released := False,
           rq_execution_active := executes q\<rparr>)"

lemma resident_charge_claims:
  "resident_claims c = resident_claims c' \<Longrightarrow> resident_charge_for_request c q = resident_charge_for_request c' q"
  by (simp add: resident_charge_for_request_def split: option.split)

lemma grant_charge_run:
  fixes c :: coordinator and r :: rid
  defines "b \<equiv> resident_charge_for_request c (heap c r)"
  shows "run_all (grant_charge_steps r i) c = Some (c\<lparr>heap := (heap c)(r := (heap c r)\<lparr>rq_queued := False,
        rq_resident_charge_bytes := b, rq_memory_bytes := b + rq_transient_bytes (heap c r)\<rparr>),
      last_granted_index := i,
      reserved_bytes := reserved_bytes c + (b + rq_transient_bytes (heap c r)),
      resident_bytes := resident_bytes c + b, transient_bytes := transient_bytes c + rq_transient_bytes (heap c r),
      temp_bytes := temp_bytes c + rq_temp_bytes (heap c r), cpu_in_use := cpu_in_use c + rq_cpu_slots (heap c r),
      native_threads_in_use := native_threads_in_use c + rq_native_threads (heap c r),
      active_requests := active_requests c + 1\<rparr>)"
proof -
  have "resident_charge_for_request (c\<lparr>heap := h, last_granted_index := i\<rparr>) (heap c r\<lparr>rq_queued := False\<rparr>) = b" for h
    by (simp add: b_def resident_charge_for_request_def split: option.split)
  then show ?thesis by (simp add: grant_charge_steps_def)
qed

lemma grant_claim_run:
  "run_all (grant_claim_steps r) c = Some (c\<lparr>resident_claims := (case claim_key (heap c r) of None \<Rightarrow> resident_claims c
      | Some k \<Rightarrow> dict_set (resident_claims c) k
          (dict_set (dict_get_or (resident_claims c) k []) r (rq_resident_bytes (heap c r))))\<rparr>)"
  by (simp add: grant_claim_steps_def upd_normal dict_get_or_def split: option.split)

lemma grant_metric_moves:
  "steps_move r q n still (\<lambda>x. sum_list (map (\<lambda>m. m x)
     [still, only Reserved (rq_memory_bytes q), only Cpu (rq_cpu_slots q), only Requests 1,
      only Resident (rq_resident_charge_bytes q), only Transient (rq_transient_bytes q),
      only Temporary (rq_temp_bytes q), only Native (rq_native_threads q),
      still, still, still, still, still, still, still])) (grant_metric_steps r n)"
  unfolding grant_metric_steps_def
  by (rule steps_move_list[where g = still])
    (simp_all add: step_moves_def moves_by_def all_resource only_def split: option.split)

lemma grant_peak_moves:
  "steps_move r q n still (\<lambda>x. sum_list (map (\<lambda>m. m x) [still, still, still, still, still, still, still]))
     (tl (grant_peak_steps r t))"
  unfolding grant_peak_steps_def list.sel
  by (rule steps_move_list[where g = still])
    (simp_all add: step_moves_def moves_by_def all_resource only_def)
text \<open>\<open>table[device] = table.get(device, 0) + amount\<close>, which the code runs for a positive amount only.\<close>

definition device_add :: "(string, int) dict \<Rightarrow> string option \<Rightarrow> int \<Rightarrow> (string, int) dict" where
  "device_add d dev v = (if v = 0 then d
     else dict_set d (device_or_default dev) (dict_get_or d (device_or_default dev) 0 + v))"

lemma sum_device_add [simp]: "sum_list (dict_values (device_add d dev v)) = sum_list (dict_values d) + v"
  by (simp add: device_add_def sum_dict_values_set)

lemma device_add_get: "dict_get_or (device_add d dev v) k 0 = dict_get_or d k 0 + (if k = device_or_default dev then v else 0)"
  by (simp add: device_add_def dict_get_or_set)

definition counters_move :: "(resource \<Rightarrow> int) \<Rightarrow> string \<Rightarrow> coordinator \<Rightarrow> coordinator \<Rightarrow> bool" where
  "counters_move g n c s \<longleftrightarrow>
     (\<forall>x. global_counter x s = global_counter x c + g x)
   \<and> (\<forall>x. route_counter x (metrics s n) = route_counter x (metrics c n) + g x)
   \<and> (\<forall>n'. n' \<noteq> n \<longrightarrow> metrics s n' = metrics c n') \<and> route_order s = route_order c"

lemma counters_move_trans:
  "counters_move g n c s \<Longrightarrow> counters_move g' n s t \<Longrightarrow> counters_move (\<lambda>x. g x + g' x) n c t"
  by (simp add: counters_move_def)

lemma grant_admit_run:
  "\<exists>s. run_all (grant_admit_steps r n) c = Some s
    \<and> counters_move (only Executions (of_bool (executes (heap c r)))) n c s
    \<and> heap s = (heap c)(r := (heap c r)\<lparr>rq_admitted := True, rq_released := False, rq_execution_active := executes (heap c r)\<rparr>)
    \<and> active_reservations s = table_insert r (active_reservations c)
    \<and> resident_claims s = resident_claims c \<and> io_in_use s = io_in_use c \<and> gpu_in_use s = gpu_in_use c \<and> queues s = queues c"
  by (simp add: grant_admit_steps_def executes_def upd_normal counters_move_def all_resource only_def)

lemma grant_io_run:
  "\<exists>s. run_all (grant_io_steps r n) c = Some s
    \<and> counters_move (only Io (rq_io_slots (heap c r))) n c s
    \<and> heap s = heap c \<and> active_reservations s = active_reservations c \<and> resident_claims s = resident_claims c
    \<and> io_in_use s = device_add (io_in_use c) (rq_io_device (heap c r)) (rq_io_slots (heap c r))
    \<and> gpu_in_use s = gpu_in_use c \<and> queues s = queues c"
  by (cases "rq_io_slots (heap c r) = 0")
    (simp_all add: grant_io_steps_def counters_move_def all_resource only_def device_add_def sum_dict_values_set)

lemma grant_gpu_run:
  "\<exists>s. run_all (grant_gpu_steps r n) c = Some s
    \<and> counters_move (only Gpu (rq_gpu_bytes (heap c r))) n c s
    \<and> heap s = heap c \<and> active_reservations s = active_reservations c \<and> resident_claims s = resident_claims c
    \<and> gpu_in_use s = device_add (gpu_in_use c) (rq_gpu_device (heap c r)) (rq_gpu_bytes (heap c r))
    \<and> io_in_use s = io_in_use c \<and> queues s = queues c"
  by (cases "rq_gpu_bytes (heap c r) = 0")
    (simp_all add: grant_gpu_steps_def counters_move_def all_resource only_def device_add_def sum_dict_values_set)

lemma record_wait_counters:
  "global_counter x (record_wait t r c) = global_counter x c"
  "route_counter x (metrics (record_wait t r c) n) = route_counter x (metrics c n)"
  by (cases x; simp add: record_wait_def Let_def)+

lemma record_wait_frame:
  "heap (record_wait t r c)
     = (heap c)(r := (heap c r)\<lparr>rq_wait_accounted := rq_wait_accounted (heap c r) \<or> rq_waited (heap c r)\<rparr>)"
  "n \<noteq> rq_route_name (heap c r) \<Longrightarrow> metrics (record_wait t r c) n = metrics c n"
  "resident_claims (record_wait t r c) = resident_claims c"
  "active_reservations (record_wait t r c) = active_reservations c"
  "io_in_use (record_wait t r c) = io_in_use c" "gpu_in_use (record_wait t r c) = gpu_in_use c"
  "queues (record_wait t r c) = queues c" "route_order (record_wait t r c) = route_order c"
  by (simp_all add: record_wait_def Let_def) (auto intro: fun_upd_idem[symmetric])

lemma steps_moveE:
  assumes "steps_move r q n g m fs" "heap c r = q"
  obtains s where "run_all fs c = Some s" "moves_by g m n c s"
  using assms by (auto simp: steps_move_def)

lemma grant_peak_run:
  assumes "n = rq_route_name (heap c r)"
  obtains s where "run_all (grant_peak_steps r t) c = Some s"
    "counters_move still n c s"
    "heap s = (heap c)(r := (heap c r)\<lparr>rq_wait_accounted := rq_wait_accounted (heap c r) \<or> rq_waited (heap c r)\<rparr>)"
    "resident_claims s = resident_claims c" "active_reservations s = active_reservations c"
    "io_in_use s = io_in_use c" "gpu_in_use s = gpu_in_use c" "queues s = queues c"
proof -
  have "(if rq_waited (heap c r) then record_wait t r c else c) = record_wait t r c"
    by (simp add: record_wait_def)
  then have hd: "run_all (grant_peak_steps r t) c = run_all (tl (grant_peak_steps r t)) (record_wait t r c)"
    by (simp add: grant_peak_steps_def del: run_all.simps(2)) (simp only: run_all.simps ok_apply option.case)
  obtain s where s: "run_all (tl (grant_peak_steps r t)) (record_wait t r c) = Some s"
    "moves_by still (\<lambda>x. sum_list (map (\<lambda>m. m x) [still, still, still, still, still, still, still])) n (record_wait t r c) s"
    using steps_moveE[OF grant_peak_moves refl] .
  from s(2) have "counters_move still n c s"
    using record_wait_frame(2)[of _ c r t] assms
    by (simp add: moves_by_def counters_move_def record_wait_counters record_wait_frame)
  with s that hd show ?thesis
    by (simp add: moves_by_def record_wait_frame)
qed

definition add_claim :: "rid \<Rightarrow> request \<Rightarrow> (string \<times> string, (rid, int) dict) dict \<Rightarrow> (string \<times> string, (rid, int) dict) dict" where
  "add_claim r q cls = (case claim_key q of None \<Rightarrow> cls
     | Some k \<Rightarrow> dict_set cls k (dict_set (dict_get_or cls k []) r (rq_resident_bytes q)))"

lemma claim_key_queued [simp]:
  "claim_key (q\<lparr>rq_queued := x, rq_resident_charge_bytes := y, rq_memory_bytes := z\<rparr>) = claim_key q"
  by (simp add: claim_key_def)

text \<open>The charge and the claim move the totals only; the metric statements follow for the route.\<close>

lemma grant_charge_metric_run:
  fixes c :: coordinator and r :: rid
  defines "q \<equiv> (heap c r)\<lparr>rq_queued := False, rq_resident_charge_bytes := resident_charge_for_request c (heap c r),
      rq_memory_bytes := resident_charge_for_request c (heap c r) + rq_transient_bytes (heap c r)\<rparr>"
  obtains s where "run_all (grant_charge_steps r i @ grant_claim_steps r @ grant_metric_steps r n) c = Some s"
    "counters_move (\<lambda>x. charge_with x (rq_resident_charge_bytes q) (q\<lparr>rq_execution_active := False, rq_io_slots := 0, rq_gpu_bytes := 0\<rparr>)) n c s"
    "heap s = (heap c)(r := q)" "resident_claims s = add_claim r (heap c r) (resident_claims c)"
    "active_reservations s = active_reservations c" "io_in_use s = io_in_use c" "gpu_in_use s = gpu_in_use c"
    "queues s = queues c"
proof -
  define b where "b = resident_charge_for_request c (heap c r)"
  define u where "u = c\<lparr>heap := (heap c)(r := q), last_granted_index := i,
      reserved_bytes := reserved_bytes c + (b + rq_transient_bytes (heap c r)),
      resident_bytes := resident_bytes c + b, transient_bytes := transient_bytes c + rq_transient_bytes (heap c r),
      temp_bytes := temp_bytes c + rq_temp_bytes (heap c r), cpu_in_use := cpu_in_use c + rq_cpu_slots (heap c r),
      native_threads_in_use := native_threads_in_use c + rq_native_threads (heap c r),
      active_requests := active_requests c + 1, resident_claims := add_claim r (heap c r) (resident_claims c)\<rparr>"
  have "run_all (grant_charge_steps r i @ grant_claim_steps r) c = Some u"
    by (simp add: run_all_append grant_charge_run grant_claim_run u_def q_def b_def add_claim_def
        cong: option.case_cong)
  moreover obtain s where s: "run_all (grant_metric_steps r n) u = Some s"
    "moves_by still (\<lambda>x. sum_list (map (\<lambda>m. m x)
     [still, only Reserved (rq_memory_bytes q), only Cpu (rq_cpu_slots q), only Requests 1,
      only Resident (rq_resident_charge_bytes q), only Transient (rq_transient_bytes q),
      only Temporary (rq_temp_bytes q), only Native (rq_native_threads q),
      still, still, still, still, still, still, still])) n u s"
  proof -
    have "heap u r = q" by (simp add: u_def)
    then show thesis using that steps_moveE[OF grant_metric_moves] by blast
  qed
  ultimately have run: "run_all (grant_charge_steps r i @ grant_claim_steps r @ grant_metric_steps r n) c = Some s"
    using run_all_appendI by fastforce
  have "counters_move (\<lambda>x. charge_with x (rq_resident_charge_bytes q)
      (q\<lparr>rq_execution_active := False, rq_io_slots := 0, rq_gpu_bytes := 0\<rparr>)) n c s"
    using s(2) by (simp add: counters_move_def moves_by_def all_resource only_def u_def q_def b_def)
  with run s(2) that show ?thesis
    by (simp add: moves_by_def u_def)
qed

lemma grant_steps_run:
  fixes c :: coordinator and r :: rid
  defines "n \<equiv> rq_route_name (heap c r)" and "q \<equiv> granted_object c (heap c r)"
  obtains s where "run_all (grant_steps r n i t) c = Some s"
    "counters_move (\<lambda>x. charge_with x (rq_resident_charge_bytes q) q) n c s"
    "heap s = (heap c)(r := q)" "resident_claims s = add_claim r (heap c r) (resident_claims c)"
    "active_reservations s = table_insert r (active_reservations c)"
    "io_in_use s = device_add (io_in_use c) (rq_io_device q) (rq_io_slots q)"
    "gpu_in_use s = device_add (gpu_in_use c) (rq_gpu_device q) (rq_gpu_bytes q)" "queues s = queues c"
proof -
  obtain s1 where s1: "run_all (grant_charge_steps r i @ grant_claim_steps r @ grant_metric_steps r n) c = Some s1"
    "counters_move (\<lambda>x. charge_with x (rq_resident_charge_bytes q)
       (q\<lparr>rq_execution_active := False, rq_io_slots := 0, rq_gpu_bytes := 0\<rparr>)) n c s1"
    "heap s1 = (heap c)(r := (heap c r)\<lparr>rq_queued := False, rq_resident_charge_bytes := resident_charge_for_request c (heap c r),
      rq_memory_bytes := resident_charge_for_request c (heap c r) + rq_transient_bytes (heap c r)\<rparr>)"
    "resident_claims s1 = add_claim r (heap c r) (resident_claims c)"
    "active_reservations s1 = active_reservations c" "io_in_use s1 = io_in_use c" "gpu_in_use s1 = gpu_in_use c"
    "queues s1 = queues c"
    by (rule grant_charge_metric_run[where c = c and r = r and i = i and n = n])
      (simp add: q_def granted_object_def Let_def counters_move_def all_resource)
  have n1: "n = rq_route_name (heap s1 r)" by (simp add: s1(3) n_def)
  obtain s2 where s2: "run_all (grant_peak_steps r t) s1 = Some s2" "counters_move still n s1 s2"
    "heap s2 = (heap s1)(r := (heap s1 r)\<lparr>rq_wait_accounted := rq_wait_accounted (heap s1 r) \<or> rq_waited (heap s1 r)\<rparr>)"
    "resident_claims s2 = resident_claims s1" "active_reservations s2 = active_reservations s1"
    "io_in_use s2 = io_in_use s1" "gpu_in_use s2 = gpu_in_use s1" "queues s2 = queues s1"
    by (rule grant_peak_run[OF n1])
  obtain s3 where s3: "run_all (grant_admit_steps r n) s2 = Some s3"
    "counters_move (only Executions (of_bool (executes (heap s2 r)))) n s2 s3"
    "heap s3 = (heap s2)(r := (heap s2 r)\<lparr>rq_admitted := True, rq_released := False, rq_execution_active := executes (heap s2 r)\<rparr>)"
    "active_reservations s3 = table_insert r (active_reservations s2)"
    "resident_claims s3 = resident_claims s2" "io_in_use s3 = io_in_use s2" "gpu_in_use s3 = gpu_in_use s2" "queues s3 = queues s2"
    using grant_admit_run[of r n s2] by blast
  have q3: "heap s3 = (heap c)(r := q)"
    by (simp add: s3(3) s2(3) s1(3) q_def granted_object_def Let_def executes_def)
  obtain s4 where s4: "run_all (grant_io_steps r n) s3 = Some s4"
    "counters_move (only Io (rq_io_slots (heap s3 r))) n s3 s4"
    "heap s4 = heap s3" "active_reservations s4 = active_reservations s3" "resident_claims s4 = resident_claims s3"
    "io_in_use s4 = device_add (io_in_use s3) (rq_io_device (heap s3 r)) (rq_io_slots (heap s3 r))"
    "gpu_in_use s4 = gpu_in_use s3" "queues s4 = queues s3"
    using grant_io_run[of r n s3] by blast
  obtain s5 where s5: "run_all (grant_gpu_steps r n) s4 = Some s5"
    "counters_move (only Gpu (rq_gpu_bytes (heap s4 r))) n s4 s5"
    "heap s5 = heap s4" "active_reservations s5 = active_reservations s4" "resident_claims s5 = resident_claims s4"
    "gpu_in_use s5 = device_add (gpu_in_use s4) (rq_gpu_device (heap s4 r)) (rq_gpu_bytes (heap s4 r))"
    "io_in_use s5 = io_in_use s4" "queues s5 = queues s4"
    using grant_gpu_run[of r n s4] by blast
  show ?thesis
  proof (rule that)
    show "run_all (grant_steps r n i t) c = Some s5"
      using run_all_appendI[OF s1(1) run_all_appendI[OF s2(1) run_all_appendI[OF s3(1) run_all_appendI[OF s4(1) s5(1)]]]]
      by (simp add: grant_steps_def)
    have ex: "executes (heap s2 r) = rq_execution_active q"
      by (simp add: s2(3) s1(3) q_def granted_object_def Let_def executes_def)
    show "counters_move (\<lambda>x. charge_with x (rq_resident_charge_bytes q) q) n c s5"
      using s1(2) s2(2) s3(2) s4(2) s5(2)
      by (simp add: counters_move_def all_resource only_def s4(3) q3 ex)
  qed (simp_all add: s5 s4 q3 s3(4-) s2(4-) s1(4-))
qed

text \<open>A grant that is not interrupted commits: the step budget needed is the length of the block.\<close>

lemma grant_request_commits:
  assumes "grantable r c" "51 \<le> k"
  shows "\<exists>s. grant_request k r i t c = (True, s)"
proof -
  obtain q where q: "queues c (rq_route_name (heap c r)) = r # q" using grantable_queue[OF assms(1)] .
  obtain s where "run_all (grant_steps r (rq_route_name (heap c r)) i t)
      (c\<lparr>queues := (queues c)(rq_route_name (heap c r) := q)\<rparr>) = Some s"
    using grant_steps_run[where c = "c\<lparr>queues := (queues c)(rq_route_name (heap c r) := q)\<rparr>" and r = r and i = i and t = t]
    by auto
  then have "run_all (grant_popleft (rq_route_name (heap c r)) # grant_steps r (rq_route_name (heap c r)) i t) c = Some s"
    by (simp add: grant_popleft_head[OF q])
  then show ?thesis
    using run_steps_enough[of "grant_popleft (rq_route_name (heap c r)) # grant_steps r (rq_route_name (heap c r)) i t" k c s]
      assms(2)
    by (simp add: grant_request_def Let_def length_grant_steps)
qed

lemma grant_request_effect:
  fixes c s :: coordinator and r :: rid
  assumes "grant_request k r i t c = (True, s)"
  defines "n \<equiv> rq_route_name (heap c r)" and "q \<equiv> granted_object c (heap c r)"
  shows "counters_move (\<lambda>x. charge_with x (rq_resident_charge_bytes q) q) n c s"
    "heap s = (heap c)(r := q)" "resident_claims s = add_claim r (heap c r) (resident_claims c)"
    "active_reservations s = table_insert r (active_reservations c)"
    "io_in_use s = device_add (io_in_use c) (rq_io_device q) (rq_io_slots q)"
    "gpu_in_use s = device_add (gpu_in_use c) (rq_gpu_device q) (rq_gpu_bytes q)"
    "queues s = (queues c)(n := tl (queues c n))"
proof -
  obtain q0 q' where qs: "queues c n = q0 # q'"
    and run: "run_all (grant_steps r n i t) (c\<lparr>queues := (queues c)(n := q')\<rparr>) = Some s"
    using assms(1) run_steps_True[of k "grant_popleft n # grant_steps r n i t" c s]
    by (auto simp: grant_request_def Let_def n_def grant_popleft_def split: prod.splits if_splits list.splits)
  define c1 where "c1 = c\<lparr>queues := (queues c)(n := q')\<rparr>"
  have n1: "n = rq_route_name (heap c1 r)" and q1: "q = granted_object c1 (heap c1 r)"
    using resident_charge_claims[of c1 c] by (simp_all add: c1_def n_def q_def granted_object_def)
  obtain s' where s': "run_all (grant_steps r n i t) c1 = Some s'"
    "counters_move (\<lambda>x. charge_with x (rq_resident_charge_bytes q) q) n c1 s'"
    "heap s' = (heap c1)(r := q)" "resident_claims s' = add_claim r (heap c1 r) (resident_claims c1)"
    "active_reservations s' = table_insert r (active_reservations c1)"
    "io_in_use s' = device_add (io_in_use c1) (rq_io_device q) (rq_io_slots q)"
    "gpu_in_use s' = device_add (gpu_in_use c1) (rq_gpu_device q) (rq_gpu_bytes q)" "queues s' = queues c1"
    unfolding n1 q1 by (rule grant_steps_run[where c = c1 and r = r and i = i and t = t])
  have "s' = s" using s'(1) run by (simp add: c1_def)
  moreover have "global_counter x c1 = global_counter x c" for x
    by (cases x) (simp_all add: c1_def)
  ultimately show "counters_move (\<lambda>x. charge_with x (rq_resident_charge_bytes q) q) n c s"
    "heap s = (heap c)(r := q)" "resident_claims s = add_claim r (heap c r) (resident_claims c)"
    "active_reservations s = table_insert r (active_reservations c)"
    "io_in_use s = device_add (io_in_use c) (rq_io_device q) (rq_io_slots q)"
    "gpu_in_use s = device_add (gpu_in_use c) (rq_gpu_device q) (rq_gpu_bytes q)"
    "queues s = (queues c)(n := tl (queues c n))"
    using s'(2-) qs by (simp_all add: c1_def counters_move_def)
qed

section \<open>The release\<close>

text \<open>The devices of the request are in the tables, so that the subtractions find their keys.\<close>

definition devices_known :: "coordinator \<Rightarrow> request \<Rightarrow> bool" where
  "devices_known c q \<longleftrightarrow>
     (rq_io_slots q \<noteq> 0 \<longrightarrow> dict_get (io_in_use c) (device_or_default (rq_io_device q)) \<noteq> None)
   \<and> (rq_gpu_bytes q \<noteq> 0 \<longrightarrow> dict_get (gpu_in_use c) (device_or_default (rq_gpu_device q)) \<noteq> None)"

lemma release_counter_run:
  "run_all (release_counter_steps r n b) c = Some (c\<lparr>
      reserved_bytes := reserved_bytes c - (b + rq_transient_bytes (heap c r)), resident_bytes := resident_bytes c - b,
      transient_bytes := transient_bytes c - rq_transient_bytes (heap c r),
      temp_bytes := temp_bytes c - rq_temp_bytes (heap c r), cpu_in_use := cpu_in_use c - rq_cpu_slots (heap c r),
      native_threads_in_use := native_threads_in_use c - rq_native_threads (heap c r),
      active_requests := active_requests c - 1,
      metrics := (metrics c)(n := (metrics c n)\<lparr>
        m_reserved_bytes := m_reserved_bytes (metrics c n) - (b + rq_transient_bytes (heap c r)),
        m_cpu_slots := m_cpu_slots (metrics c n) - rq_cpu_slots (heap c r),
        m_active_requests := m_active_requests (metrics c n) - 1,
        m_resident_bytes := m_resident_bytes (metrics c n) - b,
        m_transient_bytes := m_transient_bytes (metrics c n) - rq_transient_bytes (heap c r),
        m_temp_bytes := m_temp_bytes (metrics c n) - rq_temp_bytes (heap c r),
        m_native_threads := m_native_threads (metrics c n) - rq_native_threads (heap c r)\<rparr>)\<rparr>)"
  by (simp add: release_counter_steps_def)

lemma dict_sub_eq: "dict_sub d k v = (case dict_get d k of None \<Rightarrow> None | Some _ \<Rightarrow> Some (dict_set d k (dict_get_or d k 0 - v)))"
  by (simp add: dict_sub_def dict_get_or_def split: option.split)

lemma release_execution_run:
  "\<exists>s. run_all (release_execution_steps r n (rq_execution_active (heap c r))) c = Some s
    \<and> counters_move (only Executions (- of_bool (rq_execution_active (heap c r)))) n c s
    \<and> heap s = (heap c)(r := (heap c r)\<lparr>rq_execution_active := False\<rparr>)
    \<and> io_in_use s = io_in_use c \<and> gpu_in_use s = gpu_in_use c \<and> active_reservations s = active_reservations c
    \<and> resident_claims s = resident_claims c \<and> queues s = queues c"
proof (cases "rq_execution_active (heap c r)")
  case True
  then show ?thesis by (simp add: release_execution_steps_def counters_move_def all_resource only_def)
next
  case False
  then have "(heap c)(r := (heap c r)\<lparr>rq_execution_active := False\<rparr>) = heap c"
    by (cases "heap c r") (auto simp: fun_eq_iff)
  with False show ?thesis by (simp add: release_execution_steps_def counters_move_def all_resource only_def)
qed

lemma release_io_run:
  assumes "run_all (release_io_steps r n) c = Some s"
  shows "counters_move (only Io (- rq_io_slots (heap c r))) n c s
    \<and> heap s = heap c \<and> io_in_use s = device_add (io_in_use c) (rq_io_device (heap c r)) (- rq_io_slots (heap c r))
    \<and> gpu_in_use s = gpu_in_use c \<and> active_reservations s = active_reservations c
    \<and> resident_claims s = resident_claims c \<and> queues s = queues c"
  using assms
  by (cases "rq_io_slots (heap c r) = 0")
    (auto simp: release_io_steps_def counters_move_def all_resource only_def device_add_def dict_sub_eq
       sum_dict_values_set split: option.splits)

lemma release_gpu_run:
  assumes "run_all (release_gpu_steps r n) c = Some s"
  shows "counters_move (only Gpu (- rq_gpu_bytes (heap c r))) n c s
    \<and> heap s = heap c \<and> gpu_in_use s = device_add (gpu_in_use c) (rq_gpu_device (heap c r)) (- rq_gpu_bytes (heap c r))
    \<and> io_in_use s = io_in_use c \<and> active_reservations s = active_reservations c
    \<and> resident_claims s = resident_claims c \<and> queues s = queues c"
  using assms
  by (cases "rq_gpu_bytes (heap c r) = 0")
    (auto simp: release_gpu_steps_def counters_move_def all_resource only_def device_add_def dict_sub_eq
       sum_dict_values_set split: option.splits)

lemma run_all_appendE:
  assumes "run_all (fs @ gs) s = Some u"
  obtains t where "run_all fs s = Some t" "run_all gs t = Some u"
  using assms by (auto simp: run_all_append split: option.splits)

lemma release_steps_run:
  fixes c s :: coordinator and r :: rid
  assumes "run_all (release_steps r n b (rq_execution_active (heap c r))) c = Some s"
  shows "counters_move (\<lambda>x. - charge_with x b (heap c r)) n c s"
    "heap s = (heap c)(r := (heap c r)\<lparr>rq_execution_active := False\<rparr>)"
    "io_in_use s = device_add (io_in_use c) (rq_io_device (heap c r)) (- rq_io_slots (heap c r))"
    "gpu_in_use s = device_add (gpu_in_use c) (rq_gpu_device (heap c r)) (- rq_gpu_bytes (heap c r))"
    "active_reservations s = active_reservations c" "resident_claims s = resident_claims c" "queues s = queues c"
proof -
  from assms obtain s1 s2 s3 where run: "run_all (release_counter_steps r n b) c = Some s1"
    "run_all (release_execution_steps r n (rq_execution_active (heap c r))) s1 = Some s2"
    "run_all (release_io_steps r n) s2 = Some s3" "run_all (release_gpu_steps r n) s3 = Some s"
    unfolding release_steps_def by (elim run_all_appendE)
  define g where "g = (\<lambda>x. - charge_with x b ((heap c r)\<lparr>rq_execution_active := False, rq_io_slots := 0, rq_gpu_bytes := 0\<rparr>))"
  have s1: "counters_move g n c s1" "heap s1 = heap c"
    "io_in_use s1 = io_in_use c" "gpu_in_use s1 = gpu_in_use c" "active_reservations s1 = active_reservations c"
    "resident_claims s1 = resident_claims c" "queues s1 = queues c"
    using run(1) by (auto simp: release_counter_run counters_move_def all_resource g_def)
  note s2 = release_execution_run[of r n s1, unfolded s1(2) run(2), simplified]
  note s3 = release_io_run[OF run(3)]
  note s4 = release_gpu_run[OF run(4)]
  have "counters_move (\<lambda>x. g x + only Executions (- of_bool (rq_execution_active (heap c r))) x
     + only Io (- rq_io_slots (heap s2 r)) x + only Gpu (- rq_gpu_bytes (heap s3 r)) x) n c s"
    using counters_move_trans[OF counters_move_trans[OF counters_move_trans[OF s1(1)]]] s2 s3 s4 by blast
  then show "counters_move (\<lambda>x. - charge_with x b (heap c r)) n c s"
    using s2 s3 by (simp add: counters_move_def all_resource only_def g_def)
  show "heap s = (heap c)(r := (heap c r)\<lparr>rq_execution_active := False\<rparr>)"
    "io_in_use s = device_add (io_in_use c) (rq_io_device (heap c r)) (- rq_io_slots (heap c r))"
    "gpu_in_use s = device_add (gpu_in_use c) (rq_gpu_device (heap c r)) (- rq_gpu_bytes (heap c r))"
    "active_reservations s = active_reservations c" "resident_claims s = resident_claims c" "queues s = queues c"
    using s1 s2 s3 s4 by simp_all
qed

lemma release_admission_effect:
  fixes c s :: coordinator and r :: rid
  assumes "release_admission k r c = (True, s)" "rq_admitted (heap c r)" "\<not> rq_released (heap c r)"
  defines "n \<equiv> rq_route_name (heap c r)" and "q \<equiv> heap c r"
  shows "counters_move (\<lambda>x. - charge_with x (fst (release_claims r q (resident_claims c))) q) n c s"
    "heap s = (heap c)(r := q\<lparr>rq_execution_active := False, rq_admitted := False, rq_released := True\<rparr>)"
    "resident_claims s = snd (release_claims r q (resident_claims c))"
    "active_reservations s = remove1 r (active_reservations c)"
    "io_in_use s = device_add (io_in_use c) (rq_io_device q) (- rq_io_slots q)"
    "gpu_in_use s = device_add (gpu_in_use c) (rq_gpu_device q) (- rq_gpu_bytes q)" "queues s = queues c"
proof -
  define b where "b = fst (release_claims r q (resident_claims c))"
  define c1 where "c1 = c\<lparr>resident_claims := snd (release_claims r q (resident_claims c))\<rparr>"
  have h1: "heap c1 r = q" by (simp add: c1_def q_def)
  obtain u where "run_steps k (release_steps r n b (rq_execution_active q)) c1 = (True, u)"
    and s: "s = (upd_request r (\<lambda>q. q\<lparr>rq_admitted := False, rq_released := True\<rparr>) u)
                  \<lparr>active_reservations := remove1 r (active_reservations u)\<rparr>"
    using assms(1-3)
    by (auto simp: release_admission_def Let_def n_def q_def b_def c1_def split: prod.splits if_splits)
  from run_steps_True[OF this(1)] have run: "run_all (release_steps r n b (rq_execution_active (heap c1 r))) c1 = Some u"
    by (simp add: h1)
  note u = release_steps_run[OF run, unfolded h1]
  have "global_counter x s = global_counter x u" for x
    by (cases x) (simp_all add: s)
  moreover have "global_counter x c1 = global_counter x c" for x
    by (cases x) (simp_all add: c1_def)
  ultimately show "counters_move (\<lambda>x. - charge_with x (fst (release_claims r q (resident_claims c))) q) n c s"
    using u(1) by (simp add: counters_move_def s b_def) (simp add: c1_def)
  show "heap s = (heap c)(r := q\<lparr>rq_execution_active := False, rq_admitted := False, rq_released := True\<rparr>)"
    "resident_claims s = snd (release_claims r q (resident_claims c))"
    "active_reservations s = remove1 r (active_reservations c)"
    "io_in_use s = device_add (io_in_use c) (rq_io_device q) (- rq_io_slots q)"
    "gpu_in_use s = device_add (gpu_in_use c) (rq_gpu_device q) (- rq_gpu_bytes q)" "queues s = queues c"
    using u(2-) by (simp_all add: s c1_def)
qed

lemma release_steps_total:
  assumes "devices_known c (heap c r)"
  shows "\<exists>s. run_all (release_steps r n b (rq_execution_active (heap c r))) c = Some s"
proof -
  obtain s1 where s1: "run_all (release_counter_steps r n b) c = Some s1" "heap s1 = heap c"
    "io_in_use s1 = io_in_use c" "gpu_in_use s1 = gpu_in_use c"
    by (simp add: release_counter_run)
  obtain s2 where s2: "run_all (release_execution_steps r n (rq_execution_active (heap c r))) s1 = Some s2"
    "heap s2 = (heap c)(r := (heap c r)\<lparr>rq_execution_active := False\<rparr>)" "io_in_use s2 = io_in_use c" "gpu_in_use s2 = gpu_in_use c"
    using release_execution_run[of r n s1] s1 by auto
  obtain s3 where s3: "run_all (release_io_steps r n) s2 = Some s3"
    using assms by (cases "rq_io_slots (heap c r) = 0")
      (auto simp: release_io_steps_def s2 devices_known_def dict_sub_eq)
  have "heap s3 = heap s2" "gpu_in_use s3 = gpu_in_use s2" using release_io_run[OF s3] by auto
  then obtain s4 where "run_all (release_gpu_steps r n) s3 = Some s4"
    using assms by (cases "rq_gpu_bytes (heap c r) = 0")
      (auto simp: release_gpu_steps_def s2 devices_known_def dict_sub_eq)
  then show ?thesis
    using run_all_appendI[OF s1(1) run_all_appendI[OF s2(1) run_all_appendI[OF s3]]]
    by (auto simp: release_steps_def)
qed

lemma release_admission_commits:
  assumes "devices_known c (heap c r)" "21 \<le> k"
  shows "\<exists>s. release_admission k r c = (True, s)"
proof -
  obtain b cls where bc: "release_claims r (heap c r) (resident_claims c) = (b, cls)" by fastforce
  define c1 where "c1 = c\<lparr>resident_claims := cls\<rparr>"
  have "devices_known c1 (heap c1 r)" using assms(1) by (simp add: devices_known_def c1_def)
  then obtain s where "run_all (release_steps r (rq_route_name (heap c r)) b (rq_execution_active (heap c1 r))) c1 = Some s"
    using release_steps_total by blast
  moreover have "length (release_steps r (rq_route_name (heap c r)) b (rq_execution_active (heap c r))) = 21"
    by (simp add: release_steps_def release_counter_steps_def release_execution_steps_def release_io_steps_def
        release_gpu_steps_def)
  ultimately have "run_steps k (release_steps r (rq_route_name (heap c r)) b (rq_execution_active (heap c r))) c1 = (True, s)"
    using assms(2) by (intro run_steps_enough) (simp_all add: c1_def)
  then show ?thesis by (simp add: release_admission_def Let_def bc c1_def)
qed
end
