(* ===== verification/Resource_Invariant.thy ===== *)
theory Resource_Invariant
  imports Resource_Commit
begin

text \<open>
  The accounting invariant of the coordinator. \<open>held\<close> is the specification: what the live
  leases hold, computed from their objects and from the claim tables alone. The invariant says
  that every counter, in total and per route, and every device table equals it.
\<close>

section \<open>What the live leases hold\<close>

definition own_charge :: "resource \<Rightarrow> request \<Rightarrow> int" where
  "own_charge x q = charge_with x (if rq_resident_key q = None then rq_resident_charge_bytes q else 0) q"

text \<open>One shared allocation costs its largest claim, however many leases share it.\<close>

definition claims_total :: "(string \<Rightarrow> bool) \<Rightarrow> (string \<times> string, (rid, int) dict) dict \<Rightarrow> int" where
  "claims_total sel cls = sum_on (\<lambda>(key, cl). if sel (fst key) then claim_max cl else 0) cls"

definition live_sum :: "(request \<Rightarrow> int) \<Rightarrow> coordinator \<Rightarrow> int" where
  "live_sum f c = sum_on (\<lambda>r. f (heap c r)) (active_reservations c)"

definition held :: "(string \<Rightarrow> bool) \<Rightarrow> resource \<Rightarrow> coordinator \<Rightarrow> int" where
  "held sel x c =
     live_sum (\<lambda>q. if sel (rq_route_name q) then own_charge x q else 0) c
     + (if x = Resident \<or> x = Reserved then claims_total sel (resident_claims c) else 0)"

definition device_held :: "(request \<Rightarrow> string option) \<Rightarrow> (request \<Rightarrow> int) \<Rightarrow> string \<Rightarrow> coordinator \<Rightarrow> int" where
  "device_held dev amount d c = live_sum (\<lambda>q. if device_or_default (dev q) = d then amount q else 0) c"

lemma live_sum_add:
  assumes "r \<notin> set (active_reservations c)" "heap s = (heap c)(r := q)"
    "active_reservations s = table_insert r (active_reservations c)"
  shows "live_sum f s = live_sum f c + f q"
proof -
  have "sum_on (\<lambda>r'. f (heap s r')) (active_reservations c) = sum_on (\<lambda>r'. f (heap c r')) (active_reservations c)"
    using assms(1) by (intro sum_on_cong) (auto simp: assms(2))
  then show ?thesis using assms by (simp add: live_sum_def table_insert_def)
qed

lemma live_sum_remove:
  assumes "distinct (active_reservations c)" "r \<in> set (active_reservations c)" "\<And>r'. r' \<noteq> r \<Longrightarrow> heap s r' = heap c r'"
    "active_reservations s = remove1 r (active_reservations c)"
  shows "live_sum f s = live_sum f c - f (heap c r)"
proof -
  have "live_sum f s = sum_on (\<lambda>r'. f (heap c r')) (remove1 r (active_reservations c))"
    using assms(1,3) unfolding live_sum_def assms(4) by (intro sum_on_cong) (auto simp: set_remove1_eq)
  then show ?thesis using sum_on_remove1[OF assms(2)] by (simp add: live_sum_def)
qed

lemma live_sum_update:
  assumes "distinct (active_reservations c)" "heap s = (heap c)(r := q)" "active_reservations s = active_reservations c"
  shows "live_sum f s = live_sum f c + (if r \<in> set (active_reservations c) then f q - f (heap c r) else 0)"
proof -
  have "(\<lambda>r'. f (heap s r')) = (\<lambda>r'. f (heap c r'))(r := f q)" by (auto simp: assms(2))
  then show ?thesis
    using sum_on_update[OF assms(1), of r "\<lambda>r'. f (heap c r')" "f q"]
      sum_on_update_notin[of r "active_reservations c" "\<lambda>r'. f (heap c r')" "f q"]
    by (auto simp: live_sum_def assms(3))
qed

section \<open>The invariant\<close>

definition amounts_ok :: "request \<Rightarrow> bool" where
  "amounts_ok q \<longleftrightarrow> 0 \<le> rq_cpu_slots q \<and> 0 \<le> rq_native_threads q \<and> 0 \<le> rq_io_slots q \<and> 0 \<le> rq_gpu_bytes q
     \<and> 0 \<le> rq_resident_bytes q \<and> 0 \<le> rq_transient_bytes q \<and> 0 \<le> rq_temp_bytes q \<and> 0 \<le> rq_resident_charge_bytes q"

definition lease_ok :: "coordinator \<Rightarrow> rid \<Rightarrow> bool" where
  "lease_ok c r \<longleftrightarrow> rq_admitted (heap c r) \<and> \<not> rq_released (heap c r) \<and> \<not> rq_queued (heap c r)
     \<and> amounts_ok (heap c r) \<and> rq_route_name (heap c r) \<in> set (route_order c) \<and> devices_known c (heap c r)
     \<and> rq_execution_active (heap c r) = executes (heap c r)"

definition waiting_ok :: "coordinator \<Rightarrow> string \<Rightarrow> rid \<Rightarrow> bool" where
  "waiting_ok c n r \<longleftrightarrow> rq_route_name (heap c r) = n \<and> n \<in> set (route_order c) \<and> \<not> rq_admitted (heap c r)
     \<and> \<not> rq_released (heap c r) \<and> \<not> rq_execution_active (heap c r) \<and> amounts_ok (heap c r)"

text \<open>The claim tables list exactly the live leases that share an allocation.\<close>

definition claims_ok :: "coordinator \<Rightarrow> bool" where
  "claims_ok c \<longleftrightarrow> dict_wf (resident_claims c)
     \<and> (\<forall>key. dict_wf (dict_get_or (resident_claims c) key []))
     \<and> (\<forall>key r. dict_get (dict_get_or (resident_claims c) key []) r
          = (if r \<in> set (active_reservations c) \<and> claim_key (heap c r) = Some key
             then Some (rq_resident_bytes (heap c r)) else None))"

definition ledger_inv :: "coordinator \<Rightarrow> bool" where
  "ledger_inv c \<longleftrightarrow> distinct (active_reservations c)
     \<and> (\<forall>r \<in> set (active_reservations c). lease_ok c r)
     \<and> (\<forall>n. distinct (queues c n) \<and> (\<forall>r \<in> set (queues c n). waiting_ok c n r))
     \<and> (\<forall>x. global_counter x c = held (\<lambda>n. True) x c)
     \<and> (\<forall>n \<in> set (route_order c). \<forall>x. route_counter x (metrics c n) = held (\<lambda>m. m = n) x c)
     \<and> (\<forall>d. dict_get_or (io_in_use c) d 0 = device_held rq_io_device rq_io_slots d c)
     \<and> (\<forall>d. dict_get_or (gpu_in_use c) d 0 = device_held rq_gpu_device rq_gpu_bytes d c)
     \<and> claims_ok c"

section \<open>Claims\<close>

lemma sum_on_dict_set:
  "sum_on (\<lambda>(k, v). g k v) (dict_set d k v)
     = sum_on (\<lambda>(k, v). g k v) d - (case dict_get d k of None \<Rightarrow> 0 | Some w \<Rightarrow> g k w) + g k v"
  by (induction d) auto

lemma sum_on_dict_pop:
  "sum_on (\<lambda>(k, v). g k v) (dict_pop d k)
     = sum_on (\<lambda>(k, v). g k v) d - (case dict_get d k of None \<Rightarrow> 0 | Some w \<Rightarrow> g k w)"
  by (induction d) auto

lemma fold_max_max: "fold max xs (max a b :: int) = max a (fold max xs b)"
proof (induction xs arbitrary: b)
  case (Cons x xs)
  show ?case using Cons[of "max x b"] by (simp add: max.left_commute)
qed simp

lemma claim_max_Cons:
  "claim_max ((r, v) # cl) = (if cl = [] then v else max v (claim_max cl))"
  by (cases cl) (auto simp: claim_max_def dict_values_def fold_max_max max.commute[of _ v])

definition claims_nonneg :: "(rid, int) dict \<Rightarrow> bool" where
  "claims_nonneg cl \<longleftrightarrow> (\<forall>(r, v) \<in> set cl. 0 \<le> v)"

lemma claims_nonneg_simps [simp]:
  "claims_nonneg []" "claims_nonneg ((r, v) # cl) \<longleftrightarrow> 0 \<le> v \<and> claims_nonneg cl"
  by (auto simp: claims_nonneg_def)

lemma claim_max_nonneg: "claims_nonneg cl \<Longrightarrow> 0 \<le> claim_max cl"
  by (induction cl) (auto simp: claim_max_Cons, simp add: claim_max_def dict_values_def)

lemma claim_max_Nil [simp]: "claim_max [] = 0"
  by (simp add: claim_max_def dict_values_def)

lemma claim_max_set:
  "claims_nonneg cl \<Longrightarrow> 0 \<le> v \<Longrightarrow> dict_get cl r = None \<Longrightarrow> claim_max (dict_set cl r v) = max (claim_max cl) v"
proof (induction cl)
  case (Cons a cl)
  obtain r' v' where a: "a = (r', v')" by fastforce
  have "dict_set cl r v \<noteq> []" by (cases cl) (auto split: if_splits)
  moreover have "claim_max (dict_set cl r v) = max (claim_max cl) v" using Cons a by (auto split: if_splits)
  ultimately show ?case using Cons.prems a claim_max_nonneg[of cl] by (auto simp: claim_max_Cons split: if_splits)
qed (simp add: claim_max_Cons)

lemma claim_max_pop_le: "claims_nonneg cl \<Longrightarrow> claim_max (dict_pop cl r) \<le> claim_max cl"
proof (induction cl)
  case (Cons a cl)
  obtain r' v' where a: "a = (r', v')" by fastforce
  have "dict_pop cl r = [] \<Longrightarrow> claim_max cl \<ge> 0" using Cons a claim_max_nonneg by auto
  with Cons a show ?case using claim_max_nonneg[of cl] by (auto simp: claim_max_Cons)
qed simp

lemma claims_nonnegI: "dict_wf cl \<Longrightarrow> (\<And>r v. dict_get cl r = Some v \<Longrightarrow> 0 \<le> v) \<Longrightarrow> claims_nonneg cl"
proof (induction cl)
  case (Cons a cl)
  obtain r v where a: "a = (r, v)" by fastforce
  have "0 \<le> v" using Cons.prems(2)[of r v] a by simp
  moreover have "dict_get cl r' = Some v' \<Longrightarrow> 0 \<le> v'" for r' v'
    using Cons.prems(1) Cons.prems(2)[of r' v'] a dict_get_None_iff[of cl r] by (cases "r' = r") auto
  ultimately show ?case using Cons a by simp
qed simp

lemma claims_ok_nonneg:
  assumes "claims_ok c" "\<And>r. r \<in> set (active_reservations c) \<Longrightarrow> amounts_ok (heap c r)"
  shows "claims_nonneg (dict_get_or (resident_claims c) key [])"
proof (rule claims_nonnegI)
  show "dict_wf (dict_get_or (resident_claims c) key [])"
    using assms(1) by (cases key) (simp add: claims_ok_def)
  fix r v assume "dict_get (dict_get_or (resident_claims c) key []) r = Some v"
  then show "0 \<le> v"
    using assms by (cases key) (auto simp: claims_ok_def amounts_ok_def split: if_splits)
qed

lemma claims_total_add:
  assumes "dict_get (dict_get_or cls key []) r = None" "claims_nonneg (dict_get_or cls key [])"
    "claim_key q = Some key" "0 \<le> rq_resident_bytes q"
  shows "claims_total sel (add_claim r q cls)
     = claims_total sel cls + (if sel (fst key) then max 0 (rq_resident_bytes q - claim_max (dict_get_or cls key [])) else 0)"
proof -
  have "(case dict_get cls key of None \<Rightarrow> 0 | Some w \<Rightarrow> if sel (fst key) then claim_max w else 0)
      = (if sel (fst key) then claim_max (dict_get_or cls key []) else 0)"
    by (simp add: dict_get_or_def split: option.split)
  then show ?thesis
    using claim_max_set[OF assms(2) assms(4) assms(1)]
    by (simp add: claims_total_def add_claim_def assms(3) sum_on_dict_set max_def)
qed

lemma resident_charge_keyed:
  assumes "claim_key q = Some key" "0 \<le> rq_resident_bytes q" "claims_nonneg (dict_get_or (resident_claims c) key [])"
  shows "resident_charge_for_request c q = max 0 (rq_resident_bytes q - claim_max (dict_get_or (resident_claims c) key []))"
  using assms claim_max_nonneg[OF assms(3)]
  by (auto simp: resident_charge_for_request_def claim_key_def Let_def)

lemma resident_charge_nonneg: "0 \<le> rq_resident_bytes q \<Longrightarrow> 0 \<le> resident_charge_for_request c q"
  by (simp add: resident_charge_for_request_def Let_def split: option.split)

lemma resident_charge_plain: "rq_resident_key q = None \<Longrightarrow> resident_charge_for_request c q = rq_resident_bytes q"
  by (simp add: resident_charge_for_request_def)

lemma claims_total_release:
  assumes "claim_key q = Some key" "dict_get cls key = Some cl" "claims_nonneg cl"
  shows "claims_total sel (snd (release_claims r q cls))
     = claims_total sel cls - (if sel (fst key) then fst (release_claims r q cls) else 0)"
  using assms claim_max_pop_le[OF assms(3), of r]
  by (auto simp: claims_total_def release_claims_def Let_def sum_on_dict_set sum_on_dict_pop)

lemma charge_split:
  "charge_with x b q = charge_with x (if rq_resident_key q = None then b else 0) q
     + (if (x = Resident \<or> x = Reserved) \<and> rq_resident_key q \<noteq> None then b else 0)"
  by (cases x) auto

text \<open>What a grant and a release do to \<open>held\<close>.\<close>

lemma held_grant:
  assumes inv: "ledger_inv c" and r: "r \<notin> set (active_reservations c)" "amounts_ok (heap c r)"
    and q: "q = granted_object c (heap c r)" and s: "heap s = (heap c)(r := q)"
      "resident_claims s = add_claim r (heap c r) (resident_claims c)"
      "active_reservations s = table_insert r (active_reservations c)"
  shows "held sel x s = held sel x c
     + (if sel (rq_route_name (heap c r)) then charge_with x (rq_resident_charge_bytes q) q else 0)"
proof -
  have ok: "claims_ok c" and am: "\<And>r. r \<in> set (active_reservations c) \<Longrightarrow> amounts_ok (heap c r)"
    using inv by (auto simp: ledger_inv_def lease_ok_def)
  have name: "rq_route_name q = rq_route_name (heap c r)" "rq_resident_key q = rq_resident_key (heap c r)"
    "rq_resident_charge_bytes q = resident_charge_for_request c (heap c r)"
    by (simp_all add: q granted_object_def Let_def)
  have claims: "claims_total sel (resident_claims s) = claims_total sel (resident_claims c)
      + (if sel (rq_route_name q) \<and> rq_resident_key q \<noteq> None then rq_resident_charge_bytes q else 0)"
  proof (cases "rq_resident_key (heap c r)")
    case None
    then show ?thesis by (simp add: s name add_claim_def claim_key_def)
  next
    case (Some k)
    then have key: "claim_key (heap c r) = Some (rq_route_name (heap c r), k)" by (simp add: claim_key_def)
    note nn = claims_ok_nonneg[OF ok am, of "(rq_route_name (heap c r), k)"]
    have "dict_get (dict_get_or (resident_claims c) (rq_route_name (heap c r), k) []) r = None"
      using ok r(1) by (simp add: claims_ok_def)
    from claims_total_add[OF this nn key] show ?thesis
      using r(2) resident_charge_keyed[OF key _ nn] Some by (auto simp: s name amounts_ok_def)
  qed
  show ?thesis
    using name charge_split[of x "rq_resident_charge_bytes q" q]
    by (auto simp: held_def claims live_sum_add[OF r(1) s(1) s(3)] own_charge_def[of _ q])
qed

lemma held_release:
  assumes inv: "ledger_inv c" and r: "r \<in> set (active_reservations c)" and q: "q = heap c r"
    and s: "\<And>r'. r' \<noteq> r \<Longrightarrow> heap s r' = heap c r'"
      "resident_claims s = snd (release_claims r q (resident_claims c))"
      "active_reservations s = remove1 r (active_reservations c)"
  shows "held sel x s = held sel x c
     - (if sel (rq_route_name q) then charge_with x (fst (release_claims r q (resident_claims c))) q else 0)"
proof -
  define b where "b = fst (release_claims r q (resident_claims c))"
  have ok: "claims_ok c" and am: "\<And>r. r \<in> set (active_reservations c) \<Longrightarrow> amounts_ok (heap c r)"
    and dis: "distinct (active_reservations c)"
    using inv by (auto simp: ledger_inv_def lease_ok_def)
  have claims: "claims_total sel (resident_claims s) = claims_total sel (resident_claims c)
      - (if sel (rq_route_name q) \<and> rq_resident_key q \<noteq> None then b else 0)"
    and b: "rq_resident_key q = None \<Longrightarrow> b = rq_resident_charge_bytes q"
  proof -
    show "rq_resident_key q = None \<Longrightarrow> b = rq_resident_charge_bytes q"
      by (simp add: b_def release_claims_def claim_key_def)
    show "claims_total sel (resident_claims s) = claims_total sel (resident_claims c)
      - (if sel (rq_route_name q) \<and> rq_resident_key q \<noteq> None then b else 0)"
    proof (cases "rq_resident_key q")
      case None
      then show ?thesis by (simp add: s release_claims_def claim_key_def)
    next
      case (Some k)
      then have key: "claim_key q = Some (rq_route_name q, k)" by (simp add: claim_key_def)
      have "dict_get (dict_get_or (resident_claims c) (rq_route_name q, k) []) r \<noteq> None"
        using ok r key by (simp add: claims_ok_def q)
      then obtain cl where cl: "dict_get (resident_claims c) (rq_route_name q, k) = Some cl"
        by (auto simp: dict_get_or_def split: option.splits)
      have "claims_nonneg cl"
        using claims_ok_nonneg[OF ok am, of "(rq_route_name q, k)"] cl by (simp add: dict_get_or_def)
      from claims_total_release[OF key cl this] show ?thesis
        using Some by (simp add: s b_def)
    qed
  qed
  show ?thesis
    using b charge_split[of x b q] by (auto simp: held_def claims live_sum_remove[OF dis r s(1) s(3)] own_charge_def[of _ q] b_def[symmetric] q[symmetric])
qed

lemma claims_ok_grant:
  assumes "claims_ok c" "r \<notin> set (active_reservations c)" "claim_key q = claim_key (heap c r)"
    "rq_resident_bytes q = rq_resident_bytes (heap c r)" "heap s = (heap c)(r := q)"
    "resident_claims s = add_claim r (heap c r) (resident_claims c)"
    "active_reservations s = table_insert r (active_reservations c)"
  shows "claims_ok s"
proof -
  have get: "dict_get_or (resident_claims s) key [] = (if claim_key q = Some key
       then dict_set (dict_get_or (resident_claims c) key []) r (rq_resident_bytes q)
       else dict_get_or (resident_claims c) key [])" for key
    by (cases key) (auto simp: assms(3,4,6) add_claim_def dict_get_or_set split: option.split)
  have "dict_wf (resident_claims s)"
    using assms(1) by (simp add: assms(6) add_claim_def claims_ok_def split: option.split)
  then show ?thesis
    using assms(1,2) by (auto simp: claims_ok_def get assms(5,7) table_insert_def)
qed

lemma claims_ok_release:
  assumes "claims_ok c" "r \<in> set (active_reservations c)" "distinct (active_reservations c)"
    "\<And>r'. r' \<noteq> r \<Longrightarrow> heap s r' = heap c r'"
    "resident_claims s = snd (release_claims r (heap c r) (resident_claims c))"
    "active_reservations s = remove1 r (active_reservations c)"
  shows "claims_ok s"
proof -
  have wf: "dict_wf (resident_claims c)" and wf1: "dict_wf (dict_get_or (resident_claims c) key [])" for key
    using assms(1) unfolding claims_ok_def by blast+
  have get: "dict_get_or (resident_claims s) key [] = (if claim_key (heap c r) = Some key
       then dict_pop (dict_get_or (resident_claims c) key []) r else dict_get_or (resident_claims c) key [])" for key
    using wf by (cases key)
      (auto simp: assms(5) release_claims_def Let_def dict_get_or_def split: option.split)
  have "dict_wf (resident_claims s)"
    using wf by (simp add: assms(5) release_claims_def Let_def split: option.split)
  moreover have "dict_get (dict_get_or (resident_claims s) key []) r'
     = (if r' \<in> set (active_reservations s) \<and> claim_key (heap s r') = Some key
        then Some (rq_resident_bytes (heap s r')) else None)" for key r'
    using assms(1-4) wf1[of key]
    by (cases key; cases "r' = r") (auto simp: get claims_ok_def assms(6) set_remove1_eq)
  moreover have "dict_wf (dict_get_or (resident_claims s) key [])" for key
    using wf1[of key] by (simp add: get)
  ultimately show ?thesis by (simp add: claims_ok_def)
qed

lemma claims_ok_update:
  assumes "claims_ok c" "claim_key q = claim_key (heap c r)" "rq_resident_bytes q = rq_resident_bytes (heap c r)"
    "heap s = (heap c)(r := q)" "resident_claims s = resident_claims c" "active_reservations s = active_reservations c"
  shows "claims_ok s"
  using assms(1-3) by (auto simp: claims_ok_def assms(4-))

section \<open>Preservation\<close>

definition counters_ok :: "coordinator \<Rightarrow> bool" where
  "counters_ok c \<longleftrightarrow> (\<forall>x. global_counter x c = held (\<lambda>n. True) x c)
     \<and> (\<forall>n \<in> set (route_order c). \<forall>x. route_counter x (metrics c n) = held (\<lambda>m. m = n) x c)"

definition devices_ok :: "coordinator \<Rightarrow> bool" where
  "devices_ok c \<longleftrightarrow> (\<forall>d. dict_get_or (io_in_use c) d 0 = device_held rq_io_device rq_io_slots d c)
     \<and> (\<forall>d. dict_get_or (gpu_in_use c) d 0 = device_held rq_gpu_device rq_gpu_bytes d c)"

definition tables_ok :: "coordinator \<Rightarrow> bool" where
  "tables_ok c \<longleftrightarrow> distinct (active_reservations c) \<and> (\<forall>r \<in> set (active_reservations c). lease_ok c r)
     \<and> (\<forall>n. distinct (queues c n) \<and> (\<forall>r \<in> set (queues c n). waiting_ok c n r))"

lemma ledger_inv_parts: "ledger_inv c \<longleftrightarrow> tables_ok c \<and> counters_ok c \<and> devices_ok c \<and> claims_ok c"
  unfolding ledger_inv_def tables_ok_def counters_ok_def devices_ok_def by blast

lemma counters_ok_move:
  assumes "counters_ok c" "counters_move g n c s"
    "\<And>sel x. held sel x s = held sel x c + (if sel n then g x else 0)"
  shows "counters_ok s"
  using assms by (auto simp: counters_ok_def counters_move_def)

lemma device_held_sum: "device_held dev amount d c = live_sum (\<lambda>q. if device_or_default (dev q) = d then amount q else 0) c"
  by (simp add: device_held_def)

lemma device_add_known: "dict_get d k \<noteq> None \<Longrightarrow> dict_get (device_add d dev v) k \<noteq> None"
  by (simp add: device_add_def)

lemma device_add_new: "v \<noteq> 0 \<Longrightarrow> dict_get (device_add d dev v) (device_or_default dev) \<noteq> None"
  by (simp add: device_add_def)

lemma lease_ok_frame:
  assumes "lease_ok c r" "heap s r = heap c r" "set (route_order c) \<subseteq> set (route_order s)"
    "\<And>k. dict_get (io_in_use c) k \<noteq> None \<Longrightarrow> dict_get (io_in_use s) k \<noteq> None"
    "\<And>k. dict_get (gpu_in_use c) k \<noteq> None \<Longrightarrow> dict_get (gpu_in_use s) k \<noteq> None"
  shows "lease_ok s r"
  using assms by (auto simp: lease_ok_def devices_known_def)

lemma waiting_ok_frame:
  "waiting_ok c n r \<Longrightarrow> heap s r = heap c r \<Longrightarrow> set (route_order c) \<subseteq> set (route_order s) \<Longrightarrow> waiting_ok s n r"
  by (auto simp: waiting_ok_def)

lemma inv_grantable_frame:
  assumes "tables_ok c" "grantable r c"
  shows "waiting_ok c (rq_route_name (heap c r)) r" "r \<notin> set (active_reservations c)"
    "\<And>n. r \<in> set (queues c n) \<Longrightarrow> n = rq_route_name (heap c r)"
    "r \<notin> set (tl (queues c (rq_route_name (heap c r))))"
proof -
  obtain q where q: "queues c (rq_route_name (heap c r)) = r # q" using grantable_queue[OF assms(2)] .
  have qs: "distinct (queues c n)" "\<And>r. r \<in> set (queues c n) \<Longrightarrow> waiting_ok c n r" for n
    using assms(1) by (auto simp: tables_ok_def)
  show "waiting_ok c (rq_route_name (heap c r)) r" using qs(2) q by simp
  show "r \<notin> set (active_reservations c)" using assms(2) by (simp add: grantable_def)
  show "r \<in> set (queues c n) \<Longrightarrow> n = rq_route_name (heap c r)" for n
    using qs(2) by (auto simp: waiting_ok_def)
  show "r \<notin> set (tl (queues c (rq_route_name (heap c r))))"
    using qs(1)[of "rq_route_name (heap c r)"] q by simp
qed

lemma tables_ok_grant:
  assumes t: "tables_ok c" and g: "grantable r c"
    and n: "n = rq_route_name (heap c r)" and q: "q = granted_object c (heap c r)"
    and s: "heap s = (heap c)(r := q)" "active_reservations s = table_insert r (active_reservations c)"
      "io_in_use s = device_add (io_in_use c) (rq_io_device q) (rq_io_slots q)"
      "gpu_in_use s = device_add (gpu_in_use c) (rq_gpu_device q) (rq_gpu_bytes q)"
      "queues s = (queues c)(n := tl (queues c n))" "route_order s = route_order c"
  shows "tables_ok s"
proof -
  note w = inv_grantable_frame[OF t g]
  have new: "lease_ok s r"
    using w(1) device_add_new[of "rq_io_slots q" "io_in_use c" "rq_io_device q"]
      device_add_new[of "rq_gpu_bytes q" "gpu_in_use c" "rq_gpu_device q"]
    by (auto simp: lease_ok_def s devices_known_def waiting_ok_def q granted_object_def Let_def amounts_ok_def executes_def
        resident_charge_nonneg)
  have old: "lease_ok s r'" if "r' \<in> set (active_reservations c)" for r'
    using that t w(2) by (intro lease_ok_frame[of c r' s]) (auto simp: tables_ok_def s device_add_known)
  have wait: "waiting_ok s m r'" if "r' \<in> set (queues c m)" "r' \<noteq> r" for m r'
    using that t by (intro waiting_ok_frame[of c m r' s]) (auto simp: tables_ok_def s)
  have "r' \<in> set (queues s m) \<Longrightarrow> r' \<in> set (queues c m) \<and> r' \<noteq> r" for r' m
    using w(3)[of m] w(4) by (cases "queues c n") (auto simp: s n split: if_splits)
  then show ?thesis
    using new old wait t w(2) by (auto simp: tables_ok_def s table_insert_def distinct_tl)
qed

lemma devices_ok_grant:
  assumes "devices_ok c" "r \<notin> set (active_reservations c)" "heap s = (heap c)(r := q)"
    "active_reservations s = table_insert r (active_reservations c)"
    "io_in_use s = device_add (io_in_use c) (rq_io_device q) (rq_io_slots q)"
    "gpu_in_use s = device_add (gpu_in_use c) (rq_gpu_device q) (rq_gpu_bytes q)"
  shows "devices_ok s"
  using assms(1) live_sum_add[OF assms(2-4)]
  by (auto simp: devices_ok_def device_held_sum assms(5,6) device_add_get)

lemma ledger_inv_grant:
  assumes inv: "ledger_inv c" and g: "grantable r c" and run: "grant_request k r i t c = (True, s)"
  shows "ledger_inv s"
proof -
  note e = grant_request_effect[OF run]
  have t: "tables_ok c" and k: "counters_ok c" and d: "devices_ok c" and cl: "claims_ok c"
    using inv by (simp_all add: ledger_inv_parts)
  note w = inv_grantable_frame[OF t g]
  have am: "amounts_ok (heap c r)" using w(1) by (simp add: waiting_ok_def)
  have ro: "route_order s = route_order c" using e(1) by (simp add: counters_move_def)
  have "tables_ok s" using tables_ok_grant[OF t g refl refl e(2,4-7) ro] .
  moreover have "counters_ok s"
    by (rule counters_ok_move[OF k e(1)]) (rule held_grant[OF inv w(2) am refl e(2-4)])
  moreover have "devices_ok s" using devices_ok_grant[OF d w(2) e(2) e(4-6)] .
  moreover have "claims_ok s"
    by (rule claims_ok_grant[OF cl w(2) _ _ e(2-4)])
      (simp_all add: granted_object_def Let_def claim_key_def)
  ultimately show ?thesis by (simp add: ledger_inv_parts)
qed

lemma tables_ok_release:
  assumes t: "tables_ok c" and r: "r \<in> set (active_reservations c)"
    and s: "\<And>r'. r' \<noteq> r \<Longrightarrow> heap s r' = heap c r'" "active_reservations s = remove1 r (active_reservations c)"
      "io_in_use s = device_add (io_in_use c) d1 v1" "gpu_in_use s = device_add (gpu_in_use c) d2 v2"
      "queues s = queues c" "route_order s = route_order c"
  shows "tables_ok s"
proof -
  have dis: "distinct (active_reservations c)" using t by (simp add: tables_ok_def)
  have "lease_ok s r'" if "r' \<in> set (active_reservations c)" "r' \<noteq> r" for r'
    using that t by (intro lease_ok_frame[of c r' s]) (auto simp: tables_ok_def s device_add_known)
  moreover have "waiting_ok s n r'" if "r' \<in> set (queues c n)" for n r'
  proof -
    have "r' \<noteq> r" using that r t by (auto simp: tables_ok_def lease_ok_def waiting_ok_def)
    then show ?thesis using that t by (intro waiting_ok_frame[of c n r' s]) (auto simp: tables_ok_def s)
  qed
  ultimately show ?thesis using t dis by (auto simp: tables_ok_def s(2,5) set_remove1_eq)
qed

lemma ledger_inv_release:
  assumes inv: "ledger_inv c" and r: "r \<in> set (active_reservations c)" and run: "release_admission k r c = (True, s)"
  shows "ledger_inv s"
proof -
  have t: "tables_ok c" and k: "counters_ok c" and d: "devices_ok c" and cl: "claims_ok c"
    using inv by (simp_all add: ledger_inv_parts)
  have live: "rq_admitted (heap c r)" "\<not> rq_released (heap c r)" and dis: "distinct (active_reservations c)"
    using t r by (auto simp: tables_ok_def lease_ok_def)
  note e = release_admission_effect[OF run live]
  have other: "r' \<noteq> r \<Longrightarrow> heap s r' = heap c r'" for r' by (simp add: e(2))
  have ro: "route_order s = route_order c" using e(1) by (simp add: counters_move_def)
  have "tables_ok s" using tables_ok_release[OF t r other e(4-7) ro] .
  moreover have "counters_ok s"
    using held_release[OF inv r refl other e(3) e(4)] by (intro counters_ok_move[OF k e(1)]) simp
  moreover have "devices_ok s"
    using d live_sum_remove[OF dis r other e(4)]
    by (auto simp: devices_ok_def device_held_sum e(5,6) device_add_get)
  moreover have "claims_ok s" using claims_ok_release[OF cl r dis other e(3,4)] .
  ultimately show ?thesis by (simp add: ledger_inv_parts)
qed

text \<open>An operation that changes one live lease and moves the counters by the difference.\<close>

lemma ledger_inv_update:
  assumes inv: "ledger_inv c" and r: "r \<in> set (active_reservations c)"
    and q: "rq_route_name q = rq_route_name (heap c r)" "rq_resident_key q = rq_resident_key (heap c r)"
      "rq_resident_bytes q = rq_resident_bytes (heap c r)" "lease_ok s r"
    and g: "counters_move g (rq_route_name (heap c r)) c s" "\<And>x. g x = own_charge x q - own_charge x (heap c r)"
    and s: "heap s = (heap c)(r := q)" "active_reservations s = active_reservations c"
      "resident_claims s = resident_claims c" "queues s = queues c"
      "io_in_use s = device_add (io_in_use c) (rq_io_device q) (rq_io_slots q - rq_io_slots (heap c r))"
      "gpu_in_use s = gpu_in_use c" "rq_io_device q = rq_io_device (heap c r)"
      "rq_gpu_device q = rq_gpu_device (heap c r)" "rq_gpu_bytes q = rq_gpu_bytes (heap c r)"
  shows "ledger_inv s"
proof -
  have t: "tables_ok c" and k: "counters_ok c" and d: "devices_ok c" and cl: "claims_ok c"
    using inv by (simp_all add: ledger_inv_parts)
  have dis: "distinct (active_reservations c)" using t by (simp add: tables_ok_def)
  have ro: "route_order s = route_order c" using g(1) by (simp add: counters_move_def)
  note ls = live_sum_update[OF dis s(1,2)]
  have "lease_ok s r'" if "r' \<in> set (active_reservations c)" for r'
    using that t q(4)
    by (cases "r' = r", simp, intro lease_ok_frame[of c r' s]) (auto simp: tables_ok_def s ro device_add_known)
  moreover have "waiting_ok s n r'" if "r' \<in> set (queues c n)" for n r'
  proof -
    have "r' \<noteq> r" using that r t by (auto simp: tables_ok_def lease_ok_def waiting_ok_def)
    then show ?thesis using that t by (intro waiting_ok_frame[of c n r' s]) (auto simp: tables_ok_def s ro)
  qed
  ultimately have "tables_ok s" using t by (auto simp: tables_ok_def s(2,4))
  moreover have "counters_ok s"
    by (rule counters_ok_move[OF k g(1)]) (simp add: held_def ls s(3) r q g(2))
  moreover have "devices_ok s"
    using d r by (auto simp: devices_ok_def device_held_sum ls s(5-) device_add_get)
  moreover have "claims_ok s"
    by (rule claims_ok_update[OF cl _ q(3) s(1) s(3,2)]) (simp add: claim_key_def q)
  ultimately show ?thesis by (simp add: ledger_inv_parts)
qed

lemma ledger_inv_shrink:
  assumes "ledger_inv c" "r \<in> set (active_reservations c)" "shrink_transient_bytes r amount c = Inr s"
  shows "ledger_inv s"
proof -
  define q where "q = (heap c r)\<lparr>rq_transient_bytes := amount,
      rq_memory_bytes := rq_memory_bytes (heap c r) - (rq_transient_bytes (heap c r) - amount)\<rparr>"
  have lease: "lease_ok c r" using assms(1,2) by (simp add: ledger_inv_def)
  have ok: "0 \<le> amount" "amount \<le> rq_transient_bytes (heap c r)"
    and s: "s = c\<lparr>heap := (heap c)(r := q), reserved_bytes := reserved_bytes c - (rq_transient_bytes (heap c r) - amount),
       transient_bytes := transient_bytes c - (rq_transient_bytes (heap c r) - amount),
       metrics := (metrics c)(rq_route_name (heap c r) := (metrics c (rq_route_name (heap c r)))
         \<lparr>m_reserved_bytes := m_reserved_bytes (metrics c (rq_route_name (heap c r))) - (rq_transient_bytes (heap c r) - amount),
          m_transient_bytes := m_transient_bytes (metrics c (rq_route_name (heap c r))) - (rq_transient_bytes (heap c r) - amount)\<rparr>)\<rparr>"
    using assms(3) by (auto simp: shrink_transient_bytes_def Let_def q_def split: if_splits)
  have "counters_move (\<lambda>x. own_charge x q - own_charge x (heap c r)) (rq_route_name (heap c r)) c s"
    by (simp add: counters_move_def all_resource own_charge_def s q_def)
  moreover have "lease_ok s r"
    using lease ok by (simp add: lease_ok_def s q_def amounts_ok_def devices_known_def executes_def)
  ultimately show ?thesis
    using assms(1,2) by (intro ledger_inv_update[where c = c and s = s and q = q and r = r]) (simp_all add: s q_def device_add_def)
qed

lemma ledger_inv_release_execution:
  assumes "ledger_inv c" "r \<in> set (active_reservations c)"
  shows "ledger_inv (release_execution r c)"
proof (cases "rq_execution_active (heap c r)")
  case True
  define s where "s = release_execution r c"
  define q where "q = (heap c r)\<lparr>rq_cpu_slots := 0, rq_native_threads := 0, rq_io_slots := 0, rq_execution_active := False\<rparr>"
  have lease: "lease_ok c r" using assms by (simp add: ledger_inv_def)
  then have live: "rq_admitted (heap c r)" "\<not> rq_released (heap c r)" by (simp_all add: lease_ok_def)
  have io: "io_in_use s = device_add (io_in_use c) (rq_io_device q) (rq_io_slots q - rq_io_slots (heap c r))"
    using True live by (simp add: s_def release_execution_def Let_def q_def device_add_def)
  have s: "heap s = (heap c)(r := q)" "active_reservations s = active_reservations c"
    "resident_claims s = resident_claims c" "queues s = queues c" "gpu_in_use s = gpu_in_use c"
    using True live by (simp_all add: s_def release_execution_def Let_def q_def)
  have "counters_move (\<lambda>x. own_charge x q - own_charge x (heap c r)) (rq_route_name (heap c r)) c s"
    using True live by (cases "rq_io_slots (heap c r) = 0")
      (simp_all add: counters_move_def all_resource own_charge_def s_def release_execution_def Let_def q_def sum_dict_values_set)
  moreover have "lease_ok s r"
    using lease True live by (auto simp: lease_ok_def s io q_def amounts_ok_def devices_known_def executes_def
        s_def release_execution_def Let_def)
  ultimately show ?thesis
    unfolding s_def[symmetric] using assms io s
    by (intro ledger_inv_update[where c = c and s = s and q = q and r = r]) (simp_all add: q_def)
next
  case False
  then show ?thesis using assms by (simp add: release_execution_def Let_def)
qed
end
