(* ===== verification/Resource_Preservation.thy ===== *)
theory Resource_Preservation
  imports Resource_Invariant
begin

text \<open>
  The accounting invariant under the remaining operations of the coordinator: construction,
  queueing and leaving a queue, an interrupted grant or release, growing temporary storage and
  registering a route.
\<close>

section \<open>The other operations\<close>

lemma ledger_inv_initial: "ledger_inv (initial_state routes cfg sample stopped)"
proof -
  define c where "c = initial_state routes cfg sample stopped"
  have fields: "active_reservations c = []" "resident_claims c = []" "queues c n = []" "metrics c n = zero_metrics"
    "io_in_use c = []" "gpu_in_use c = []" for n
    by (simp_all add: c_def initial_state_def)
  have "held sel x c = 0" for sel x
    by (simp add: held_def live_sum_def claims_total_def fields)
  moreover have "global_counter x c = 0" for x
    by (cases x) (simp_all add: c_def initial_state_def dict_values_def)
  moreover have "route_counter x zero_metrics = 0" for x
    by (cases x) (simp_all add: zero_metrics_def)
  ultimately have "ledger_inv c"
    by (simp add: ledger_inv_def fields device_held_def live_sum_def claims_ok_def dict_get_or_def)
  then show ?thesis by (simp add: c_def)
qed

text \<open>The invariant reads the ledger only through these fields.\<close>

lemma held_cong:
  assumes "active_reservations s = active_reservations c" "resident_claims s = resident_claims c"
    "\<And>r. r \<in> set (active_reservations c) \<Longrightarrow> heap s r = heap c r"
  shows "held sel x s = held sel x c" "device_held dev amount d s = device_held dev amount d c"
proof -
  have "live_sum f s = live_sum f c" for f
    unfolding live_sum_def assms(1) using assms(3) by (intro sum_on_cong) simp
  then show "held sel x s = held sel x c" "device_held dev amount d s = device_held dev amount d c"
    by (simp_all add: held_def device_held_def assms(2))
qed

text \<open>An operation on the queues and on requests that are not live keeps the accounting.\<close>

lemma ledger_inv_queues:
  assumes inv: "ledger_inv c"
    and s: "active_reservations s = active_reservations c" "resident_claims s = resident_claims c"
      "\<And>r. r \<in> set (active_reservations c) \<Longrightarrow> heap s r = heap c r"
      "\<And>x. global_counter x s = global_counter x c" "\<And>x n. route_counter x (metrics s n) = route_counter x (metrics c n)"
      "io_in_use s = io_in_use c" "gpu_in_use s = gpu_in_use c" "route_order s = route_order c"
    and q: "\<And>n. distinct (queues s n)" "\<And>n r. r \<in> set (queues s n) \<Longrightarrow> waiting_ok s n r"
  shows "ledger_inv s"
proof -
  note h = held_cong[OF s(1-3)]
  have "lease_ok s r" if "r \<in> set (active_reservations c)" for r
    using inv that s(3)[OF that] by (auto simp: ledger_inv_def lease_ok_def devices_known_def s)
  moreover have "claims_ok s"
    using inv s(3) by (auto simp: ledger_inv_def claims_ok_def s(1,2))
  ultimately show ?thesis
    using inv q by (auto simp: ledger_inv_def h s)
qed

lemma ledger_inv_enqueue:
  assumes inv: "ledger_inv c" and fresh: "r \<notin> set (active_reservations c)" "\<And>n. r \<notin> set (queues c n)"
    and rq: "rq_route_name rq \<in> set (route_order c)" "\<not> rq_admitted rq" "\<not> rq_released rq" "\<not> rq_execution_active rq"
      "amounts_ok rq"
  shows "ledger_inv (enqueue r rq c)"
proof (rule ledger_inv_queues[OF inv])
  fix n
  have old: "distinct (queues c n)" "\<And>r'. r' \<in> set (queues c n) \<Longrightarrow> waiting_ok c n r'"
    using inv by (auto simp: ledger_inv_def)
  show "distinct (queues (enqueue r rq c) n)"
    using old(1) fresh(2) by (auto simp: enqueue_def Let_def)
  show "waiting_ok (enqueue r rq c) n r'" if "r' \<in> set (queues (enqueue r rq c) n)" for r'
  proof (cases "r' = r")
    case True
    then show ?thesis
      using that fresh(2)[of n] rq by (auto simp: enqueue_def Let_def waiting_ok_def amounts_ok_def split: if_splits)
  next
    case False
    then have "waiting_ok c n r'" using that old(2) by (auto simp: enqueue_def Let_def split: if_splits)
    then show ?thesis using False by (simp add: enqueue_def Let_def waiting_ok_def)
  qed
next
  fix x show "global_counter x (enqueue r rq c) = global_counter x c"
    by (cases x) (simp_all add: enqueue_def Let_def)
qed (use fresh(1) in \<open>auto simp: enqueue_def Let_def\<close>)

lemma ledger_inv_discard:
  assumes inv: "ledger_inv c" and q: "r \<notin> set (active_reservations c)"
  shows "ledger_inv (discard_queued_request t r c)"
proof (cases "rq_queued (heap c r)")
  case True
  define c1 where "c1 = c\<lparr>queues := (queues c)(rq_route_name (heap c r) := remove1 r (queues c (rq_route_name (heap c r)))),
      heap := (heap c)(r := (heap c r)\<lparr>rq_queued := False\<rparr>)\<rparr>"
  have s: "discard_queued_request t r c = record_wait t r c1"
    using True by (simp add: discard_queued_request_def c1_def Let_def)
  have old: "distinct (queues c n)" "\<And>r'. r' \<in> set (queues c n) \<Longrightarrow> waiting_ok c n r'" for n
    using inv by (auto simp: ledger_inv_def)
  show ?thesis
    unfolding s
  proof (rule ledger_inv_queues[OF inv])
    fix n
    show "distinct (queues (record_wait t r c1) n)"
      using old(1) by (simp add: record_wait_frame c1_def)
    show "waiting_ok (record_wait t r c1) n r'" if "r' \<in> set (queues (record_wait t r c1) n)" for r'
    proof -
      have "r' \<in> set (queues c n)"
        using that by (auto simp: record_wait_frame c1_def split: if_splits dest: set_remove1_subset[THEN subsetD])
      then show ?thesis using old(2)
        by (auto simp: waiting_ok_def record_wait_frame c1_def amounts_ok_def)
    qed
  next
    fix x show "global_counter x (record_wait t r c1) = global_counter x c"
      by (cases x) (simp_all add: record_wait_counters c1_def)
  qed (use q in \<open>auto simp: record_wait_frame record_wait_counters c1_def\<close>)
next
  case False
  then show ?thesis using inv by (simp add: discard_queued_request_def)
qed

lemma ledger_inv_grant_interrupted:
  assumes inv: "ledger_inv c" and g: "grantable r c" and rb: "s = upd_request r (\<lambda>q. q\<lparr>rq_queued := False\<rparr>)
     (c\<lparr>queues := (queues c)(rq_route_name (heap c r) := qs)\<rparr>)" "set qs \<subseteq> set (queues c (rq_route_name (heap c r)))" "distinct qs"
  shows "ledger_inv s"
proof (rule ledger_inv_queues[OF inv])
  fix n
  have old: "distinct (queues c n)" "\<And>r'. r' \<in> set (queues c n) \<Longrightarrow> waiting_ok c n r'"
    using inv by (auto simp: ledger_inv_def)
  show "distinct (queues s n)" using old(1) rb by simp
  show "waiting_ok s n r'" if "r' \<in> set (queues s n)" for r'
  proof -
    have "waiting_ok c n r'" using that old(2) rb by (auto split: if_splits)
    then show ?thesis by (auto simp: waiting_ok_def rb(1) amounts_ok_def)
  qed
next
  fix x show "global_counter x s = global_counter x c"
    by (cases x) (simp_all add: rb(1))
qed (use g in \<open>auto simp: rb(1) grantable_def\<close>)

lemma dict_get_Some_iff: "dict_wf d \<Longrightarrow> dict_get d k = Some v \<longleftrightarrow> (k, v) \<in> set d"
proof (induction d)
  case (Cons a d)
  obtain k' v' where a: "a = (k', v')" by fastforce
  then show ?case using Cons by (auto simp: dict_keys_def image_iff)
qed simp

lemma sum_on_dict_cong:
  assumes "dict_wf d" "dict_wf d'" "\<And>k. dict_get d k = dict_get d' k"
  shows "sum_on f d = sum_on f d'"
proof -
  have "set d = set d'" using assms by (auto simp: dict_get_Some_iff[symmetric])
  moreover have "distinct d" "distinct d'"
    using assms(1,2) by (auto simp: dict_wf_def dict_keys_def distinct_map)
  ultimately show ?thesis by (simp add: sum_on_def sum_list_distinct_conv_sum_set)
qed

lemma ledger_inv_claims_cong:
  assumes inv: "ledger_inv c" and wf: "dict_wf cls" and get: "\<And>key. dict_get cls key = dict_get (resident_claims c) key"
  shows "ledger_inv (c\<lparr>resident_claims := cls\<rparr>)"
proof -
  have "dict_wf (resident_claims c)" using inv by (simp add: ledger_inv_def claims_ok_def)
  then have "claims_total sel cls = claims_total sel (resident_claims c)" for sel
    using sum_on_dict_cong[OF wf _ get] by (simp add: claims_total_def)
  moreover have ls: "live_sum f (c\<lparr>resident_claims := cls\<rparr>) = live_sum f c" for f
    by (simp add: live_sum_def)
  ultimately have h: "held sel x (c\<lparr>resident_claims := cls\<rparr>) = held sel x c" for sel x
    by (simp add: held_def)
  have d: "device_held dev amount d (c\<lparr>resident_claims := cls\<rparr>) = device_held dev amount d c" for dev amount d
    by (simp add: device_held_def ls)
  have k: "global_counter x (c\<lparr>resident_claims := cls\<rparr>) = global_counter x c" for x
    by (cases x) simp_all
  have "dict_get_or cls key [] = dict_get_or (resident_claims c) key []" for key
    by (simp add: dict_get_or_def get)
  then have "claims_ok (c\<lparr>resident_claims := cls\<rparr>)"
    using inv wf by (simp add: ledger_inv_def claims_ok_def)
  then show ?thesis
    using inv by (simp add: ledger_inv_def h d k lease_ok_def waiting_ok_def devices_known_def)
qed

lemma dict_wf_restore_claims: "dict_wf cls \<Longrightarrow> dict_wf (restore_claims rq cls (snd (release_claims r rq cls)))"
  by (simp add: restore_claims_def release_claims_def Let_def split: option.split)

lemma ledger_inv_release_interrupted:
  assumes inv: "ledger_inv c" and run: "release_admission k r c = (False, s)"
  shows "ledger_inv s"
proof -
  have wf: "dict_wf (resident_claims c)" using inv by (simp add: ledger_inv_def claims_ok_def)
  show ?thesis
    unfolding release_rollback_state[OF run]
    by (rule ledger_inv_claims_cong[OF inv dict_wf_restore_claims[OF wf] dict_get_restore_release[OF wf]])
qed

lemma resize_temp_state:
  assumes "resize_temp_bytes r amount fd free stopped c = Inr s"
  defines "n \<equiv> rq_route_name (heap c r)" and "delta \<equiv> amount - rq_temp_bytes (heap c r)"
  shows "0 \<le> amount" "\<exists>b m f. s = c\<lparr>temp_budget_bytes := b,
       heap := (heap c)(r := (heap c r)\<lparr>rq_temp_materialized_bytes := m, rq_temp_file_identity := f, rq_temp_bytes := amount\<rparr>),
       temp_bytes := temp_bytes c + delta, peak_temp_bytes := max (peak_temp_bytes c) (temp_bytes c + delta),
       metrics := (metrics c)(n := (metrics c n)\<lparr>m_temp_bytes := m_temp_bytes (metrics c n) + delta,
         m_peak_temp_bytes := max (m_peak_temp_bytes (metrics c n)) (m_temp_bytes (metrics c n) + delta)\<rparr>)\<rparr>"
proof -
  obtain m f where mf: "resize_temp_checks r amount fd c = Inr (m, f)"
    using assms by (auto simp: resize_temp_bytes_def split: if_splits sum.splits)
  show "0 \<le> amount" using assms by (simp add: resize_temp_bytes_def split: if_splits)
  have budget: "(if b then c\<lparr>temp_budget_bytes := v\<rparr> else c) = c\<lparr>temp_budget_bytes := if b then v else temp_budget_bytes c\<rparr>" for b v
    by simp
  note res = assms(1)[unfolded resize_temp_bytes_def mf sum.case prod.case Let_def budget]
  show "\<exists>b m f. s = c\<lparr>temp_budget_bytes := b,
       heap := (heap c)(r := (heap c r)\<lparr>rq_temp_materialized_bytes := m, rq_temp_file_identity := f, rq_temp_bytes := amount\<rparr>),
       temp_bytes := temp_bytes c + delta, peak_temp_bytes := max (peak_temp_bytes c) (temp_bytes c + delta),
       metrics := (metrics c)(n := (metrics c n)\<lparr>m_temp_bytes := m_temp_bytes (metrics c n) + delta,
         m_peak_temp_bytes := max (m_peak_temp_bytes (metrics c n)) (m_temp_bytes (metrics c n) + delta)\<rparr>)\<rparr>"
    by (rule exI[of _ "if 0 < amount - rq_temp_bytes (heap c r) \<and> lim_temp_budget_bytes (limits c) = None
          then sum_list (map rq_temp_materialized_bytes (others r c)) + m + free else temp_budget_bytes c"],
        rule exI[of _ "min amount m"], rule exI[of _ "if amount \<noteq> 0 then f else None"])
      (use res in \<open>auto simp: n_def delta_def split: if_split_asm\<close>)
qed

text \<open>With a configured budget, growth stays within it and the budget is not recomputed.\<close>

lemma resize_temp_budget:
  assumes "resize_temp_bytes r amount fd free stopped c = Inr s" "lim_temp_budget_bytes (limits c) = Some b"
  shows "temp_budget_bytes s = temp_budget_bytes c" "temp_bytes s \<le> max b (temp_bytes c)"
proof -
  obtain m f where mf: "resize_temp_checks r amount fd c = Inr (m, f)"
    using assms by (auto simp: resize_temp_bytes_def split: if_splits sum.splits)
  have c: "0 \<le> amount" "\<not> cancelled c" "\<not> stopped"
    using assms(1) by (auto simp: resize_temp_bytes_def split: if_splits)
  show "temp_budget_bytes s = temp_budget_bytes c" "temp_bytes s \<le> max b (temp_bytes c)"
    using assms(1) c by (auto simp: resize_temp_bytes_def mf assms(2) Let_def not_less le_max_iff_disj split: if_split_asm)
qed

lemma ledger_inv_resize_temp:
  assumes "ledger_inv c" "r \<in> set (active_reservations c)" "resize_temp_bytes r amount fd free stopped c = Inr s"
  shows "ledger_inv s"
proof -
  define n where "n = rq_route_name (heap c r)"
  define delta where "delta = amount - rq_temp_bytes (heap c r)"
  have lease: "lease_ok c r" using assms(1,2) by (simp add: ledger_inv_def)
  obtain m f b where s: "s = c\<lparr>temp_budget_bytes := b,
       heap := (heap c)(r := (heap c r)\<lparr>rq_temp_materialized_bytes := m, rq_temp_file_identity := f, rq_temp_bytes := amount\<rparr>),
       temp_bytes := temp_bytes c + delta, peak_temp_bytes := max (peak_temp_bytes c) (temp_bytes c + delta),
       metrics := (metrics c)(n := (metrics c n)\<lparr>m_temp_bytes := m_temp_bytes (metrics c n) + delta,
         m_peak_temp_bytes := max (m_peak_temp_bytes (metrics c n)) (m_temp_bytes (metrics c n) + delta)\<rparr>)\<rparr>"
    using resize_temp_state(2)[OF assms(3)] n_def delta_def by blast
  define q where "q = (heap c r)\<lparr>rq_temp_materialized_bytes := m, rq_temp_file_identity := f, rq_temp_bytes := amount\<rparr>"
  have "counters_move (\<lambda>x. own_charge x q - own_charge x (heap c r)) (rq_route_name (heap c r)) c s"
    by (simp add: counters_move_def all_resource own_charge_def s q_def n_def delta_def)
  moreover have "lease_ok s r"
    using lease resize_temp_state(1)[OF assms(3)]
    by (simp add: lease_ok_def s q_def amounts_ok_def devices_known_def executes_def)
  ultimately show ?thesis
    using assms(1,2) by (intro ledger_inv_update[where c = c and s = s and q = q and r = r])
      (simp_all add: s q_def device_add_def)
qed

lemma sum_on_zero: "(\<And>x. x \<in> set xs \<Longrightarrow> f x = 0) \<Longrightarrow> sum_on f xs = 0"
  by (induction xs) auto

lemma claims_total_none:
  assumes "claims_ok c" "\<And>r. r \<in> set (active_reservations c) \<Longrightarrow> rq_route_name (heap c r) \<noteq> n"
  shows "claims_total (\<lambda>m. m = n) (resident_claims c) = 0"
  unfolding claims_total_def
proof (rule sum_on_zero)
  fix e assume e: "e \<in> set (resident_claims c)"
  obtain key cl where e': "e = (key, cl)" by fastforce
  have "dict_get (resident_claims c) key = Some cl"
    using e e' assms(1) by (simp add: dict_get_Some_iff claims_ok_def)
  then have cl: "dict_get_or (resident_claims c) key [] = cl" by (simp add: dict_get_or_def)
  have "dict_get (dict_get_or (resident_claims c) key []) r = (if r \<in> set (active_reservations c) \<and> claim_key (heap c r) = Some key
      then Some (rq_resident_bytes (heap c r)) else None)" for r
    using assms(1) unfolding claims_ok_def by blast
  then have get: "dict_get cl r = (if r \<in> set (active_reservations c) \<and> claim_key (heap c r) = Some key
      then Some (rq_resident_bytes (heap c r)) else None)" for r
    by (simp add: cl)
  show "(case e of (key, cl) \<Rightarrow> if fst key = n then claim_max cl else 0) = 0"
  proof (cases "fst key = n")
    case True
    then have "dict_get cl r = None" for r
      using get[of r] assms(2)[of r] by (auto simp: claim_key_def)
    then have "cl = []" by (cases cl) (auto split: if_splits, metis option.distinct(1))
    then show ?thesis by (simp add: e')
  qed (simp add: e')
qed

lemma ledger_inv_register_route:
  assumes inv: "ledger_inv c" and reg: "register_route name c = Inr s"
  shows "ledger_inv s"
proof (cases "strip name \<in> set (route_order c)")
  case True
  then show ?thesis using inv reg by (auto simp: register_route_def Let_def split: if_splits)
next
  case False
  define n where "n = strip name"
  have s: "s = c\<lparr>route_order := route_order c @ [n], queues := (queues c)(n := []), metrics := (metrics c)(n := zero_metrics)\<rparr>"
    using reg False by (auto simp: register_route_def Let_def n_def split: if_splits)
  have routes: "r \<in> set (active_reservations c) \<Longrightarrow> rq_route_name (heap c r) \<noteq> n" for r
    using inv False by (auto simp: ledger_inv_def lease_ok_def n_def)
  have k: "global_counter x s = global_counter x c" for x by (cases x) (simp_all add: s)
  have h: "held sel x s = held sel x c" "device_held dev amount d s = device_held dev amount d c" for sel x dev amount d
    by (rule held_cong; simp add: s)+
  have "claims_total (\<lambda>m. m = n) (resident_claims c) = 0"
    using inv routes by (intro claims_total_none) (auto simp: ledger_inv_def)
  then have zero: "held (\<lambda>m. m = n) x c = 0" for x
    using routes by (auto simp: held_def live_sum_def intro: sum_on_zero)
  have "route_counter x zero_metrics = 0" for x
    by (cases x) (simp_all add: zero_metrics_def)
  then have "counters_ok s"
    using inv zero by (auto simp: counters_ok_def ledger_inv_def h k) (auto simp: s)
  moreover have "tables_ok s"
    using inv by (auto simp: tables_ok_def ledger_inv_def lease_ok_def waiting_ok_def devices_known_def s)
  moreover have "devices_ok s" "claims_ok s"
    using inv by (auto simp: devices_ok_def ledger_inv_def h claims_ok_def) (auto simp: s)
  ultimately show ?thesis by (simp add: ledger_inv_parts)
qed
end
