(* ===== verification/Resource_Scheduling.thy ===== *)
theory Resource_Scheduling
  imports Resource_Preservation
begin

text \<open>
  Admission scheduling, \<open>resource_scheduling.py\<close>: whether the request at the head of a queue
  fits the live sample, and which route is served next. The file system's free space and the
  clock reading are arguments.
\<close>

section \<open>Model\<close>

text \<open>\<open>io_device_key(request.io_device)\<close>; the device of a request is canonical, so it does not raise.\<close>

definition io_key :: "string option \<Rightarrow> string" where
  "io_key d = (case io_device_key (case d of None \<Rightarrow> IoNone | Some s \<Rightarrow> IoText s) of
     Inr k \<Rightarrow> k | Inl _ \<Rightarrow> device_or_default d)"

definition fits_memory :: "coordinator \<Rightarrow> request \<Rightarrow> bool" where
  "fits_memory c rq =
    (let charge = resident_charge_for_request c rq + rq_transient_bytes rq
     in reserved_bytes c + charge \<le> last_memory_budget c
      \<and> (case dict_get (route_memory_budgets c) (rq_route_name rq) of
           None \<Rightarrow> True
         | Some budget \<Rightarrow> m_reserved_bytes (metrics c (rq_route_name rq)) + charge \<le> budget))"

definition fits_temp :: "coordinator \<Rightarrow> request \<Rightarrow> int \<Rightarrow> bool" where
  "fits_temp c rq free \<longleftrightarrow>
     rq_temp_bytes rq + temp_bytes c \<le> temp_budget_bytes c
   \<and> (rq_temp_bytes rq \<noteq> 0 \<longrightarrow>
        sum_list (map (\<lambda>r. max 0 (rq_temp_bytes (heap c r) - rq_temp_materialized_bytes (heap c r))) (active_reservations c))
          + rq_temp_bytes rq \<le> free)"

definition fits_io :: "coordinator \<Rightarrow> request \<Rightarrow> bool" where
  "fits_io c rq \<longleftrightarrow>
     (rq_io_slots rq \<noteq> 0 \<longrightarrow>
        \<not> (io_pressure c \<and> rq_draining_from rq = None)
      \<and> dict_get_or (io_in_use c) (io_key (rq_io_device rq)) 0 + rq_io_slots rq
          \<le> io_capacity c (io_key (rq_io_device rq)))"

definition fits_gpu :: "coordinator \<Rightarrow> real \<Rightarrow> request \<Rightarrow> bool" where
  "fits_gpu c now rq \<longleftrightarrow>
     (rq_gpu_bytes rq \<noteq> 0 \<longrightarrow>
       (let device = device_or_default (rq_gpu_device rq); used = dict_get_or (gpu_in_use c) device 0
        in used + rq_gpu_bytes rq \<le> dict_get_or (gpu_capacity c) device 0
         \<and> (device \<in> set (gpu_available_probes c) \<longrightarrow>
              (case gpu_available c now device of
                 None \<Rightarrow> False
               | Some available \<Rightarrow> used - gpu_materialized_credit c device + rq_gpu_bytes rq \<le> available))))"

definition fits_headroom :: "coordinator \<Rightarrow> request \<Rightarrow> MemorySnapshot \<Rightarrow> bool" where
  "fits_headroom c rq snap =
    (let future = reserved_bytes c + resident_charge_for_request c rq + rq_transient_bytes rq;
         incremental = max 0 (future - materialized_credit c)
     in (case available_physical snap of None \<Rightarrow> True | Some a \<Rightarrow> min_free_memory_bytes c + incremental \<le> a)
      \<and> (case available_commit snap of None \<Rightarrow> True | Some a \<Rightarrow> min_free_commit_bytes c + incremental \<le> a))"

definition drain_running :: "coordinator \<Rightarrow> bool" where
  "drain_running c \<longleftrightarrow> list_ex (\<lambda>r. rq_draining_from (heap c r) \<noteq> None \<and> rq_execution_active (heap c r)) (active_reservations c)"

definition fits :: "coordinator \<Rightarrow> real \<Rightarrow> int \<Rightarrow> request \<Rightarrow> MemorySnapshot \<Rightarrow> int \<Rightarrow> bool" where
  "fits c now free rq snap effective_cpu_slots =
    (let draining = rq_draining_from rq \<noteq> None;
         execution = (0 < rq_cpu_slots rq \<or> 0 < rq_native_threads rq \<or> 0 < rq_io_slots rq);
         pressure = (memory_pressure c \<or> cpu_pressure c \<or> io_pressure c);
         slots = (if draining \<and> pressure then max 1 effective_cpu_slots else effective_cpu_slots)
     in (case rq_draining_from rq of None \<Rightarrow> True | Some d \<Rightarrow> d \<in> set (active_reservations c))
      \<and> (draining \<or> fits_memory c rq)
      \<and> (draining \<or> \<not> (memory_pressure c \<or> cpu_pressure c \<and> execution))
      \<and> \<not> (draining \<and> pressure \<and> drain_running c)
      \<and> cpu_in_use c + rq_cpu_slots rq \<le> slots
      \<and> native_threads_in_use c + rq_native_threads rq \<le> min (native_thread_slots c) slots
      \<and> fits_temp c rq free \<and> fits_io c rq \<and> fits_gpu c now rq
      \<and> (draining \<or> fits_headroom c rq snap))"

text \<open>The routes in round-robin order, starting after the one served last.\<close>

definition ordered_routes :: "coordinator \<Rightarrow> string list" where
  "ordered_routes c =
     map (\<lambda>offset. route_order c ! nat ((last_granted_index c + int offset) mod int (length (route_order c))))
       [1..<length (route_order c) + 1]"

definition adapt_head :: "int \<Rightarrow> string \<Rightarrow> coordinator \<Rightarrow> coordinator" where
  "adapt_head effective_cpu_slots n c =
    (case queues c n of
       [] \<Rightarrow> c
     | r # _ \<Rightarrow>
         if rq_adaptive_native_threads (heap c r)
         then let available = min (effective_cpu_slots - cpu_in_use c)
                                (min (native_thread_slots c) effective_cpu_slots - native_threads_in_use c);
                  available = (case rq_native_thread_limit (heap c r) of None \<Rightarrow> available | Some l \<Rightarrow> min available l)
              in upd_request r (\<lambda>q. q\<lparr>rq_cpu_slots := max 1 available, rq_native_threads := max 1 available\<rparr>) c
         else c)"

definition head_fits :: "coordinator \<Rightarrow> real \<Rightarrow> int \<Rightarrow> MemorySnapshot \<Rightarrow> int \<Rightarrow> string \<Rightarrow> bool" where
  "head_fits c now free snap effective_cpu_slots n =
     (case queues c n of [] \<Rightarrow> False | r # _ \<Rightarrow> fits c now free (heap c r) snap effective_cpu_slots)"

definition head_drains :: "coordinator \<Rightarrow> string \<Rightarrow> bool" where
  "head_drains c n = (case queues c n of [] \<Rightarrow> False | r # _ \<Rightarrow> rq_draining_from (heap c r) \<noteq> None)"

definition pick_route :: "coordinator \<Rightarrow> string list \<Rightarrow> string option" where
  "pick_route c fitting =
    (case find (head_drains c) fitting of
       Some n \<Rightarrow> Some n
     | None \<Rightarrow> (case find (\<lambda>n. m_cpu_slots (metrics c n) = 0) fitting of
                 Some n \<Rightarrow> Some n
               | None \<Rightarrow> (case fitting of [] \<Rightarrow> None | n # _ \<Rightarrow> Some n)))"

definition next_route :: "coordinator \<Rightarrow> real \<Rightarrow> int \<Rightarrow> MemorySnapshot \<Rightarrow> int \<Rightarrow> string option \<times> coordinator" where
  "next_route c now free snap effective_cpu_slots =
    (let ordered = ordered_routes c;
         c' = fold (adapt_head effective_cpu_slots) ordered c;
         fitting = filter (head_fits c' now free snap effective_cpu_slots) ordered
     in (pick_route c' fitting, c'))"

section \<open>Order and width\<close>

lemma set_ordered_routes: "set (ordered_routes c) = set (route_order c)"
proof -
  define n where "n = length (route_order c)"
  define f where "f = (\<lambda>offset. nat ((last_granted_index c + int offset) mod int n))"
  have "f ` {1..n} = {..<n}"
  proof (cases "n = 0")
    case False
    have "f ` {1..n} \<subseteq> {..<n}" using False by (auto simp: f_def nat_less_iff)
    moreover have "inj_on f {1..n}"
    proof (rule inj_onI)
      fix a b assume ab: "a \<in> {1..n}" "b \<in> {1..n}" "f a = f b"
      then have "(last_granted_index c + int a) mod int n = (last_granted_index c + int b) mod int n"
        using False by (auto simp: f_def eq_nat_nat_iff)
      then have "int n dvd (int a - int b)"
        by (metis add_diff_cancel_left mod_eq_dvd_iff)
      moreover have "\<bar>int a - int b\<bar> < int n" using ab by auto
      ultimately have "int a - int b = 0" using dvd_imp_le_int[of "int a - int b" "int n"] by linarith
      then show "a = b" by simp
    qed
    ultimately show ?thesis by (intro card_subset_eq) (auto simp: card_image)
  qed simp
  moreover have "set (ordered_routes c) = (\<lambda>i. route_order c ! i) ` (f ` {1..n})"
    unfolding ordered_routes_def n_def[symmetric] f_def by (auto simp: image_image atLeastLessThanSuc_atLeastAtMost simp del: upt_Suc)
  ultimately show ?thesis by (auto simp: n_def set_conv_nth)
qed

lemma adapt_head_heap:
  "heap (adapt_head e n c) r = (heap c r)\<lparr>rq_cpu_slots := rq_cpu_slots (heap (adapt_head e n c) r),
     rq_native_threads := rq_native_threads (heap (adapt_head e n c) r)\<rparr>"
  by (simp add: adapt_head_def Let_def split: list.split)

lemma adapt_head_frame: "adapt_head e n c = c\<lparr>heap := heap (adapt_head e n c)\<rparr>"
  by (simp add: adapt_head_def Let_def split: list.split)

text \<open>The states the adaptive widths lead to differ in the widths of queue heads only.\<close>

definition width_only :: "coordinator \<Rightarrow> coordinator \<Rightarrow> bool" where
  "width_only c c' \<longleftrightarrow> c' = c\<lparr>heap := heap c'\<rparr>
     \<and> (\<forall>r. heap c' r = (heap c r)\<lparr>rq_cpu_slots := rq_cpu_slots (heap c' r), rq_native_threads := rq_native_threads (heap c' r)\<rparr>)"

lemma width_only_refl: "width_only c c"
  by (simp add: width_only_def)

lemma width_only_adapt: "width_only c (adapt_head e n c)"
  unfolding width_only_def using adapt_head_frame adapt_head_heap by blast

lemma width_only_trans:
  assumes "width_only a b" "width_only b c"
  shows "width_only a c"
proof -
  obtain h where b: "b = a\<lparr>heap := h\<rparr>" using assms(1) by (auto simp: width_only_def)
  have "c = a\<lparr>heap := heap c\<rparr>" using assms(2) by (simp add: width_only_def b)
  moreover have "heap c r = (heap a r)\<lparr>rq_cpu_slots := rq_cpu_slots (heap c r), rq_native_threads := rq_native_threads (heap c r)\<rparr>" for r
  proof -
    have hb: "heap b r = (heap a r)\<lparr>rq_cpu_slots := rq_cpu_slots (heap b r), rq_native_threads := rq_native_threads (heap b r)\<rparr>"
      and hc: "heap c r = (heap b r)\<lparr>rq_cpu_slots := rq_cpu_slots (heap c r), rq_native_threads := rq_native_threads (heap c r)\<rparr>"
      using assms by (simp_all add: width_only_def)
    show ?thesis by (subst hc, subst hb) simp
  qed
  ultimately show ?thesis by (simp add: width_only_def)
qed

lemma width_only_fold: "width_only c (fold (adapt_head e) ns c)"
  by (induction ns arbitrary: c) (auto simp: width_only_refl intro: width_only_trans width_only_adapt)

lemma next_route_width: "next_route c now free snap e = (n, c') \<Longrightarrow> width_only c c'"
  by (auto simp: next_route_def Let_def width_only_fold)

lemma width_only_fields:
  assumes "width_only c c'"
  shows "queues c' = queues c" "metrics c' = metrics c" "route_order c' = route_order c"
    "active_reservations c' = active_reservations c" "last_granted_index c' = last_granted_index c"
    "cpu_in_use c' = cpu_in_use c" "native_threads_in_use c' = native_threads_in_use c"
    "native_thread_slots c' = native_thread_slots c"
proof -
  obtain h where "c' = c\<lparr>heap := h\<rparr>" using assms by (auto simp: width_only_def)
  then show "queues c' = queues c" "metrics c' = metrics c" "route_order c' = route_order c"
    "active_reservations c' = active_reservations c" "last_granted_index c' = last_granted_index c"
    "cpu_in_use c' = cpu_in_use c" "native_threads_in_use c' = native_threads_in_use c"
    "native_thread_slots c' = native_thread_slots c"
    by simp_all
qed

lemma find_Some_iff2: "find P xs = Some x \<Longrightarrow> x \<in> set xs \<and> P x"
  by (induction xs) (auto split: if_splits)

lemma pick_route_None: "pick_route c fitting = None \<longleftrightarrow> fitting = []"
  by (auto simp: pick_route_def split: option.splits list.splits)

lemma pick_route_Some:
  assumes "pick_route c fitting = Some n"
  shows "n \<in> set fitting" "(\<exists>m \<in> set fitting. head_drains c m) \<Longrightarrow> head_drains c n"
    "\<not> head_drains c n \<Longrightarrow> (\<exists>m \<in> set fitting. m_cpu_slots (metrics c m) = 0) \<Longrightarrow> m_cpu_slots (metrics c n) = 0"
proof -
  show "n \<in> set fitting"
    using assms by (auto simp: pick_route_def split: option.splits list.splits dest: find_Some_iff2)
  show "(\<exists>m \<in> set fitting. head_drains c m) \<Longrightarrow> head_drains c n"
    using assms by (auto simp: pick_route_def find_None_iff split: option.splits dest: find_Some_iff2)
  show "\<not> head_drains c n \<Longrightarrow> (\<exists>m \<in> set fitting. m_cpu_slots (metrics c m) = 0) \<Longrightarrow> m_cpu_slots (metrics c n) = 0"
    using assms by (auto simp: pick_route_def find_None_iff split: option.splits dest: find_Some_iff2)
qed

section \<open>Properties\<close>

text \<open>
  C12. The scheduler is work conserving and fair: it selects no route exactly when no queue head
  fits; a selected head fits; finalizers (drain requests) go first; and while no finalizer fits,
  a route that holds CPU slots is never served before a fitting route that holds none.
\<close>

theorem next_route_fair:
  assumes "next_route c now free snap e = (choice, c')"
  shows "(choice = None \<longleftrightarrow> (\<forall>m \<in> set (route_order c). \<not> head_fits c' now free snap e m))
    \<and> (\<forall>n. choice = Some n \<longrightarrow> n \<in> set (route_order c) \<and> head_fits c' now free snap e n
        \<and> (\<forall>m \<in> set (route_order c). head_fits c' now free snap e m \<longrightarrow>
             (head_drains c m \<longrightarrow> head_drains c n)
           \<and> (\<not> head_drains c n \<longrightarrow> m_cpu_slots (metrics c m) = 0 \<longrightarrow> m_cpu_slots (metrics c n) = 0)))"
proof -
  note w = width_only_fields[OF next_route_width[OF assms]]
  have drains: "head_drains c' m = head_drains c m" for m
  proof -
    have "rq_draining_from (heap c' r) = rq_draining_from (heap c r)" for r
    proof -
      have "heap c' r = (heap c r)\<lparr>rq_cpu_slots := rq_cpu_slots (heap c' r), rq_native_threads := rq_native_threads (heap c' r)\<rparr>"
        using next_route_width[OF assms] by (simp add: width_only_def)
      then show ?thesis by (metis request.select_convs(26) request.surjective request.update_convs(3,9))
    qed
    then show ?thesis by (simp add: head_drains_def w split: list.split)
  qed
  define fitting where "fitting = filter (head_fits c' now free snap e) (ordered_routes c)"
  have choice: "choice = pick_route c' fitting"
    using assms by (auto simp: next_route_def Let_def fitting_def)
  have mem: "m \<in> set fitting \<longleftrightarrow> m \<in> set (route_order c) \<and> head_fits c' now free snap e m" for m
    by (auto simp: fitting_def set_ordered_routes)
  have "choice = None \<longleftrightarrow> (\<forall>m \<in> set (route_order c). \<not> head_fits c' now free snap e m)"
    using mem by (auto simp: choice pick_route_None) (metis list.set_intros(1) neq_Nil_conv)
  moreover have "n \<in> set (route_order c) \<and> head_fits c' now free snap e n
        \<and> (\<forall>m \<in> set (route_order c). head_fits c' now free snap e m \<longrightarrow>
             (head_drains c m \<longrightarrow> head_drains c n)
           \<and> (\<not> head_drains c n \<longrightarrow> m_cpu_slots (metrics c m) = 0 \<longrightarrow> m_cpu_slots (metrics c n) = 0))"
    if "choice = Some n" for n
    using pick_route_Some[of c' fitting n] that mem by (auto simp: choice drains w)
  ultimately show ?thesis by blast
qed

theorem next_route_fair_witness:
  "\<exists>c'. next_route demo_waiting 0 900 demo_host 4 = (Some ''pdf'', c')
    \<and> head_fits c' 0 900 demo_host 4 ''pdf''"
proof -
  obtain choice c' where run: "next_route demo_waiting 0 900 demo_host 4 = (choice, c')" by fastforce
  have "fst (next_route demo_waiting 0 900 demo_host 4) = Some ''pdf''" by code_simp
  with run next_route_fair[OF run] show ?thesis by auto
qed

section \<open>Limits\<close>

text \<open>The device of a request is the canonical one the admission computed.\<close>

definition canonical_device :: "string option \<Rightarrow> bool" where
  "canonical_device d = (case d of None \<Rightarrow> True | Some s \<Rightarrow> canonical_io_device (IoText s) = Inr (Some s))"

lemma io_key_canonical: "canonical_device d \<Longrightarrow> io_key d = device_or_default d"
  by (auto simp: canonical_device_def io_key_def io_device_key_def device_or_default_def split: option.splits)

lemma surroundings_fields:
  assumes "surroundings s = surroundings c"
  shows "last_memory_budget s = last_memory_budget c" "route_memory_budgets s = route_memory_budgets c"
    "native_thread_slots s = native_thread_slots c" "temp_budget_bytes s = temp_budget_bytes c"
    "gpu_capacity s = gpu_capacity c" "io_device_slots s = io_device_slots c" "limits s = limits c"
    "last_cpu_capacity s = last_cpu_capacity c" "min_free_memory_bytes s = min_free_memory_bytes c"
    "last_effective_cpu_slots s = last_effective_cpu_slots c" "cpu_slots s = cpu_slots c"
    "automatic_cpu_slots s = automatic_cpu_slots c" "automatic_memory_budget s = automatic_memory_budget c"
    "memory_budget_bytes s = memory_budget_bytes c" "automatic_native_thread_slots s = automatic_native_thread_slots c"
  using assms by (simp_all add: surroundings_def coordinator_config.defs)

text \<open>What the leases hold after a committed grant: what was counted before, and the request.\<close>

lemma grant_held:
  assumes inv: "ledger_inv c" and g: "grantable r c" and run: "grant_request k r i t c = (True, s)"
  defines "q \<equiv> granted_object c (heap c r)" and "n \<equiv> rq_route_name (heap c r)"
    and "io \<equiv> device_or_default (rq_io_device (heap c r))" and "gpu \<equiv> device_or_default (rq_gpu_device (heap c r))"
  shows "held (\<lambda>_. True) x s = global_counter x c + charge_with x (rq_resident_charge_bytes q) q"
    "held (\<lambda>m. m = n) x s = route_counter x (metrics c n) + charge_with x (rq_resident_charge_bytes q) q"
    "device_held rq_io_device rq_io_slots io s = dict_get_or (io_in_use c) io 0 + rq_io_slots (heap c r)"
    "device_held rq_gpu_device rq_gpu_bytes gpu s = dict_get_or (gpu_in_use c) gpu 0 + rq_gpu_bytes (heap c r)"
proof -
  note e = grant_request_effect[OF run, folded q_def n_def]
  have inv': "ledger_inv s" using ledger_inv_grant[OF inv g run] .
  have n: "n \<in> set (route_order s)"
    using inv g e(1) inv_grantable_frame(1)[of c r] by (simp add: ledger_inv_parts waiting_ok_def n_def counters_move_def)
  show "held (\<lambda>_. True) x s = global_counter x c + charge_with x (rq_resident_charge_bytes q) q"
    "held (\<lambda>m. m = n) x s = route_counter x (metrics c n) + charge_with x (rq_resident_charge_bytes q) q"
    using inv' n e(1) by (auto simp: ledger_inv_def counters_move_def)
  have "device_held rq_io_device rq_io_slots d s = dict_get_or (io_in_use s) d 0"
    "device_held rq_gpu_device rq_gpu_bytes d s = dict_get_or (gpu_in_use s) d 0" for d
    using inv' by (simp_all add: ledger_inv_def)
  then show "device_held rq_io_device rq_io_slots io s = dict_get_or (io_in_use c) io 0 + rq_io_slots (heap c r)"
    "device_held rq_gpu_device rq_gpu_bytes gpu s = dict_get_or (gpu_in_use c) gpu 0 + rq_gpu_bytes (heap c r)"
    by (simp_all add: e(5,6) device_add_get q_def granted_object_def Let_def io_def gpu_def)
qed

text \<open>
  C5. Admission never oversubscribes: when the request the scheduler found to fit is committed,
  what all live leases then hold is within the live memory budget and the budget of its route, the
  CPU slots and native threads are within the effective capacity, the temporary storage within its
  budget, and the I/O slots and the GPU memory of its devices within the capacity of those devices.
  A finalizer reserves no memory and, under pressure, gets at most one slot beyond an empty
  capacity.
\<close>

theorem grant_within_limits:
  assumes inv: "ledger_inv c" and g: "grantable r c" and dev: "canonical_device (rq_io_device (heap c r))"
    and fit: "fits c now free (heap c r) snap e" and run: "grant_request k r i t c = (True, s)"
  defines "slots \<equiv> (if rq_draining_from (heap c r) \<noteq> None \<and> (memory_pressure c \<or> cpu_pressure c \<or> io_pressure c)
      then max 1 e else e)" and "n \<equiv> rq_route_name (heap c r)"
    and "io \<equiv> device_or_default (rq_io_device (heap c r))" and "gpu \<equiv> device_or_default (rq_gpu_device (heap c r))"
  shows "(rq_draining_from (heap c r) = None \<longrightarrow> held (\<lambda>_. True) Reserved s \<le> last_memory_budget s)
    \<and> (\<forall>b. rq_draining_from (heap c r) = None \<longrightarrow> dict_get (route_memory_budgets s) n = Some b \<longrightarrow>
         held (\<lambda>m. m = n) Reserved s \<le> b)
    \<and> held (\<lambda>_. True) Cpu s \<le> slots \<and> held (\<lambda>_. True) Native s \<le> min (native_thread_slots s) slots
    \<and> held (\<lambda>_. True) Temporary s \<le> temp_budget_bytes s
    \<and> (rq_io_slots (heap c r) \<noteq> 0 \<longrightarrow> device_held rq_io_device rq_io_slots io s \<le> io_capacity s io)
    \<and> (rq_gpu_bytes (heap c r) \<noteq> 0 \<longrightarrow> device_held rq_gpu_device rq_gpu_bytes gpu s \<le> dict_get_or (gpu_capacity s) gpu 0)"
proof -
  define q where "q = granted_object c (heap c r)"
  have q: "rq_resident_charge_bytes q = resident_charge_for_request c (heap c r)"
    "rq_transient_bytes q = rq_transient_bytes (heap c r)" "rq_cpu_slots q = rq_cpu_slots (heap c r)"
    "rq_native_threads q = rq_native_threads (heap c r)" "rq_temp_bytes q = rq_temp_bytes (heap c r)"
    by (simp_all add: q_def granted_object_def Let_def)
  have sur: "surroundings s = surroundings c" using grant_request_surroundings[of k r i t c] run by simp
  note f = surroundings_fields[OF sur] and h = grant_held[OF inv g run, folded q_def n_def io_def gpu_def]
  have cap: "io_capacity s d = io_capacity c d" for d unfolding io_capacity_def f ..
  have mem: "rq_draining_from (heap c r) = None \<longrightarrow> fits_memory c (heap c r)"
    and cpu: "cpu_in_use c + rq_cpu_slots (heap c r) \<le> slots"
      "native_threads_in_use c + rq_native_threads (heap c r) \<le> min (native_thread_slots c) slots"
    and temp: "fits_temp c (heap c r) free" and io: "fits_io c (heap c r)" and gpu: "fits_gpu c now (heap c r)"
    using fit[unfolded fits_def Let_def] by (auto simp: slots_def)
  have "rq_draining_from (heap c r) = None \<longrightarrow> held (\<lambda>_. True) Reserved s \<le> last_memory_budget s"
    using mem by (simp add: h(1) q f fits_memory_def Let_def)
  moreover have "\<forall>b. rq_draining_from (heap c r) = None \<longrightarrow> dict_get (route_memory_budgets s) n = Some b \<longrightarrow>
         held (\<lambda>m. m = n) Reserved s \<le> b"
    using mem by (simp add: h(2) q f fits_memory_def Let_def n_def[symmetric] split: option.splits)
  moreover have "held (\<lambda>_. True) Cpu s \<le> slots" "held (\<lambda>_. True) Native s \<le> min (native_thread_slots s) slots"
    using cpu by (simp_all add: h(1) q f)
  moreover have "held (\<lambda>_. True) Temporary s \<le> temp_budget_bytes s"
    using temp by (simp add: h(1) q f fits_temp_def)
  moreover have "rq_io_slots (heap c r) \<noteq> 0 \<longrightarrow> device_held rq_io_device rq_io_slots io s \<le> io_capacity s io"
    using io by (simp add: h(3) cap fits_io_def io_key_canonical[OF dev] io_def[symmetric])
  moreover have "rq_gpu_bytes (heap c r) \<noteq> 0 \<longrightarrow>
      device_held rq_gpu_device rq_gpu_bytes gpu s \<le> dict_get_or (gpu_capacity s) gpu 0"
    using gpu by (simp add: h(4) f fits_gpu_def Let_def gpu_def[symmetric])
  ultimately show ?thesis by blast
qed

lemma ledger_inv_demo: "ledger_inv demo_waiting"
proof -
  have routes: "rq_route_name demo_request \<in> set (route_order demo)"
    by (simp add: demo_def initial_state_def demo_request_def new_request_def)
  have "amounts_ok demo_request" "\<not> rq_admitted demo_request" "\<not> rq_released demo_request"
    "\<not> rq_execution_active demo_request"
    by (simp_all add: amounts_ok_def demo_request_def new_request_def)
  moreover have "1 \<notin> set (active_reservations demo)" "1 \<notin> set (queues demo n)" for n
    by (simp_all add: demo_def initial_state_def)
  ultimately show ?thesis
    unfolding demo_waiting_def using routes ledger_inv_initial
    by (intro ledger_inv_enqueue) (auto simp: demo_def)
qed

theorem grant_within_limits_witness:
  "\<exists>s. grant_request 60 1 0 7 demo_waiting = (True, s) \<and> fits demo_waiting 0 900 (heap demo_waiting 1) demo_host 4
    \<and> held (\<lambda>_. True) Reserved s \<le> 1000 \<and> held (\<lambda>_. True) Cpu s \<le> 4
    \<and> device_held rq_io_device rq_io_slots ''dev:5'' s \<le> 2"
proof -
  obtain s where run: "grant_request 60 1 0 7 demo_waiting = (True, s)"
    using grant_request_commits[OF demo_grantable, of 60] by auto
  have fit: "fits demo_waiting 0 900 (heap demo_waiting 1) demo_host 4" by code_simp
  have dev: "canonical_device (rq_io_device (heap demo_waiting 1))" by code_simp
  have vals: "rq_draining_from (heap demo_waiting 1) = None" "rq_io_slots (heap demo_waiting 1) = 1"
    "device_or_default (rq_io_device (heap demo_waiting 1)) = ''dev:5''" "io_capacity demo_waiting ''dev:5'' = 2"
    "last_memory_budget demo_waiting = 1000" by code_simp+
  have sur: "surroundings s = surroundings demo_waiting"
    using grant_request_surroundings[of 60 1 0 7 demo_waiting] run by simp
  note f = surroundings_fields[OF sur]
  have "io_capacity s ''dev:5'' = 2" using vals(4) unfolding io_capacity_def f by simp
  then show ?thesis
    using grant_within_limits[OF ledger_inv_demo demo_grantable dev fit run] run fit unfolding vals f by simp
qed
end
