(* ===== verification/Resource_Observation.thy ===== *)
theory Resource_Observation
  imports Resource_Ledger
begin

text \<open>
  Live observation of the host, \<open>update_pressure_locked\<close> and \<open>observe_live_resources\<close> of
  \<open>resource_observation.py\<close> with \<open>_read_resource_sample\<close> and \<open>_effective_cpu_capacity\<close> of the
  coordinator. What the host answers is one argument: the sample read, the memory snapshot, the
  clock, and what the two CPU probes return (nothing when they raise).
\<close>

section \<open>Reading a sample\<close>

text \<open>What the default sampler owns: the host readings attributed to this process tree.\<close>

record OwnedSnapshot =
  own_memory_snapshot :: MemorySnapshot
  own_sampled_at :: real
  own_host_cpu_percent :: "pyfloat option"
  own_external_cpu_cores :: "pyfloat option"
  own_own_cpu_cores :: "pyfloat option"
  own_effective_cpu_capacity :: "pyfloat option"
  own_materialized_bytes :: "int option"
  own_memory_pressure_some_percent :: "pyfloat option"
  own_memory_pressure_full_percent :: "pyfloat option"
  own_memory_pressure_some_total_us :: "int option"
  own_memory_pressure_full_total_us :: "int option"
  own_io_pressure_some_percent :: "pyfloat option"
  own_io_pressure_full_percent :: "pyfloat option"
  own_process_memory_bytes :: "(int \<times> int, int) dict"

text \<open>The three sources: a probe of the caller, the default sampler (with or without a running
  monitor, read at a time), or the kernel's pressure file alone.\<close>

datatype reading =
    Probed "ResourceSample option"
  | Owned "OwnedSnapshot option" bool real
  | Pressure_File "ResourceSample option"

definition owned_sample :: "OwnedSnapshot \<Rightarrow> ResourceSample" where
  "owned_sample o' = empty_sample
    \<lparr>s_available_physical := available_physical (own_memory_snapshot o'),
     s_available_commit := available_commit (own_memory_snapshot o'),
     s_total_physical := total_physical (own_memory_snapshot o'),
     s_total_commit := total_commit (own_memory_snapshot o'),
     s_cpu_load_percent := own_host_cpu_percent o',
     s_external_cpu_cores := own_external_cpu_cores o',
     s_own_cpu_cores := own_own_cpu_cores o',
     s_effective_cpu_capacity := own_effective_cpu_capacity o',
     s_owned_materialized_bytes := own_materialized_bytes o',
     s_memory_pressure_some_percent := own_memory_pressure_some_percent o',
     s_memory_pressure_full_percent := own_memory_pressure_full_percent o',
     s_memory_pressure_some_total_us := own_memory_pressure_some_total_us o',
     s_memory_pressure_full_total_us := own_memory_pressure_full_total_us o',
     s_io_pressure_some_percent := own_io_pressure_some_percent o',
     s_io_pressure_full_percent := own_io_pressure_full_percent o'\<rparr>"

text \<open>A stalled observer must not keep spending old headroom: no physical memory, every core taken.\<close>

definition stale_sample :: "OwnedSnapshot \<Rightarrow> ResourceSample" where
  "stale_sample o' = empty_sample
    \<lparr>s_available_physical := Some 0, s_total_physical := total_physical (own_memory_snapshot o'),
     s_external_cpu_cores := own_effective_cpu_capacity o',
     s_effective_cpu_capacity := own_effective_cpu_capacity o'\<rparr>"

definition read_resource_sample :: "reading \<Rightarrow> coordinator \<Rightarrow> ResourceSample option \<times> coordinator" where
  "read_resource_sample rd c =
    (case rd of
       Probed s \<Rightarrow> (s, c)
     | Pressure_File s \<Rightarrow> (s, c)
     | Owned None monitor_running now \<Rightarrow> (None, c)
     | Owned (Some o') monitor_running now \<Rightarrow>
         (Some (if monitor_running \<and> max 2 (lim_sample_interval_seconds (limits c) * 4) < now - own_sampled_at o'
                then stale_sample o' else owned_sample o'),
          c\<lparr>process_memory := own_process_memory_bytes o'\<rparr>))"

section \<open>Capacity under load\<close>

definition effective_memory_budget :: "coordinator \<Rightarrow> MemorySnapshot \<Rightarrow> int" where
  "effective_memory_budget c snap =
    (if \<not> automatic_memory_budget c then memory_budget_bytes c
     else adaptive_memory_budget (total_physical snap))"

definition effective_cpu_capacity :: "coordinator \<Rightarrow> real option \<Rightarrow> int option \<Rightarrow> int" where
  "effective_cpu_capacity c load slots =
    (let available = (case slots of None \<Rightarrow> cpu_slots c | Some n \<Rightarrow> max 1 n)
     in case load of
          None \<Rightarrow> available
        | Some l \<Rightarrow>
            (let remaining = max 0 (max_cpu_load_percent c - l);
                 capacity = \<lceil>real_of_int available * remaining / max_cpu_load_percent c\<rceil>
             in max 1 (min available capacity)))"

section \<open>Pressure\<close>

definition finite_of :: "pyfloat option list \<Rightarrow> pyfloat list" where
  "finite_of vs = concat (map (\<lambda>v. case v of None \<Rightarrow> [] | Some x \<Rightarrow> if is_finite x then [x] else []) vs)"

definition known_of :: "'a option list \<Rightarrow> 'a list" where
  "known_of vs = concat (map (\<lambda>v. case v of None \<Rightarrow> [] | Some x \<Rightarrow> [x]) vs)"

definition opt_sub :: "int option \<Rightarrow> int option \<Rightarrow> int option" where
  "opt_sub a b = (case a of None \<Rightarrow> None | Some x \<Rightarrow> (case b of None \<Rightarrow> None | Some y \<Rightarrow> Some (x - y)))"

definition current_sample :: "MemorySnapshot \<Rightarrow> ResourceSample option \<Rightarrow> real option \<Rightarrow> ResourceSample" where
  "current_sample snap sample cpu_load =
    (case sample of None \<Rightarrow> empty_sample | Some s \<Rightarrow> s)
      \<lparr>s_available_physical := available_physical snap, s_available_commit := available_commit snap,
       s_total_physical := total_physical snap, s_total_commit := total_commit snap,
       s_cpu_load_percent := map_option Fin cpu_load\<rparr>"

definition pressure_value :: "ResourceSample \<Rightarrow> pyfloat option" where
  "pressure_value s = fl_max (finite_of [s_memory_pressure_some_percent s, s_memory_pressure_full_percent s])"

definition pressure_total :: "ResourceSample \<Rightarrow> int option" where
  "pressure_total s =
    (case known_of [s_memory_pressure_some_total_us s, s_memory_pressure_full_total_us s] of
       [] \<Rightarrow> None | x # xs \<Rightarrow> Some (fold max xs x))"

definition record_sample :: "MemorySnapshot \<Rightarrow> ResourceSample option \<Rightarrow> real option \<Rightarrow> coordinator \<Rightarrow> coordinator" where
  "record_sample snap sample cpu_load c =
    (let current = current_sample snap sample cpu_load; previous = previous_sample c
     in c\<lparr>last_available_memory_delta := opt_sub (s_available_physical current) (s_available_physical previous),
          last_available_commit_delta := opt_sub (s_available_commit current) (s_available_commit previous),
          last_memory_pressure_delta :=
            (case pressure_value current of None \<Rightarrow> None
             | Some p \<Rightarrow> (case pressure_value previous of None \<Rightarrow> None | Some q \<Rightarrow> Some (fl_sub p q))),
          last_memory_pressure_total_delta_us := opt_sub (pressure_total current) (pressure_total previous),
          last_memory_pressure_value := pressure_value current,
          previous_sample := current, sample_count := sample_count c + 1\<rparr>)"

definition outstanding_growth :: "coordinator \<Rightarrow> int" where
  "outstanding_growth c = max 0 (reserved_bytes c - materialized_credit c)"

definition memory_low :: "coordinator \<Rightarrow> MemorySnapshot \<Rightarrow> bool" where
  "memory_low c snap \<longleftrightarrow>
     (case available_physical snap of None \<Rightarrow> False | Some a \<Rightarrow> a < min_free_memory_bytes c + outstanding_growth c)
   \<or> (case available_commit snap of None \<Rightarrow> False | Some a \<Rightarrow> a < min_free_commit_bytes c + outstanding_growth c)"

definition memory_recovered :: "coordinator \<Rightarrow> MemorySnapshot \<Rightarrow> bool" where
  "memory_recovered c snap \<longleftrightarrow>
     (case available_physical snap of None \<Rightarrow> True
      | Some a \<Rightarrow> min_free_memory_bytes c + outstanding_growth c + memory_hysteresis_bytes c \<le> a)
   \<and> (case available_commit snap of None \<Rightarrow> True
      | Some a \<Rightarrow> min_free_commit_bytes c + outstanding_growth c + memory_hysteresis_bytes c \<le> a)"

definition pressure_high :: "coordinator \<Rightarrow> pyfloat option \<Rightarrow> bool" where
  "pressure_high c v = (case v of None \<Rightarrow> False | Some p \<Rightarrow> fl_le (Fin (lim_memory_pressure_high_percent (limits c))) p)"

definition pressure_recovered :: "coordinator \<Rightarrow> pyfloat option \<Rightarrow> bool" where
  "pressure_recovered c v = (case v of None \<Rightarrow> True | Some p \<Rightarrow> fl_le p (Fin (lim_memory_pressure_recovery_percent (limits c))))"

definition latch_memory :: "MemorySnapshot \<Rightarrow> pyfloat option \<Rightarrow> coordinator \<Rightarrow> coordinator" where
  "latch_memory snap v c =
    (if memory_pressure c
     then if memory_recovered c snap \<and> pressure_recovered c v
          then c\<lparr>memory_pressure := False, memory_pressure_from_psi := False, pressure_events := pressure_events c + 1\<rparr>
          else c
     else if memory_low c snap \<or> pressure_high c v
          then c\<lparr>memory_pressure := True, memory_pressure_from_psi := pressure_high c v,
                 pressure_events := pressure_events c + 1\<rparr>
          else c)"

definition latch_cpu :: "real option \<Rightarrow> bool \<Rightarrow> coordinator \<Rightarrow> coordinator" where
  "latch_cpu cpu_load explicit c =
    (case cpu_load of
       None \<Rightarrow> c
     | Some l \<Rightarrow>
         if explicit \<and> max_cpu_load_percent c \<le> l
         then if cpu_pressure c then c else c\<lparr>cpu_pressure := True, pressure_events := pressure_events c + 1\<rparr>
         else if explicit \<and> cpu_pressure c \<and> l \<le> max_cpu_load_percent c - lim_cpu_hysteresis_percent (limits c)
         then c\<lparr>cpu_pressure := False, pressure_events := pressure_events c + 1\<rparr>
         else c)"

definition latch_io :: "ResourceSample \<Rightarrow> coordinator \<Rightarrow> coordinator" where
  "latch_io s c =
    (case fl_max (known_of [s_io_pressure_some_percent s, s_io_pressure_full_percent s]) of
       None \<Rightarrow> c
     | Some p \<Rightarrow>
         if io_pressure c
         then c\<lparr>io_pressure := fl_less (Fin (lim_io_pressure_recovery_percent (limits c))) p\<rparr>
         else c\<lparr>io_pressure := fl_le (Fin (lim_io_pressure_high_percent (limits c))) p\<rparr>)"

definition update_pressure ::
  "MemorySnapshot \<Rightarrow> ResourceSample option \<Rightarrow> real option \<Rightarrow> bool \<Rightarrow> coordinator \<Rightarrow> coordinator" where
  "update_pressure snap sample cpu_load explicit c =
    (let current = current_sample snap sample cpu_load
     in latch_io current (latch_cpu cpu_load explicit
          (latch_memory snap (pressure_value current) (record_sample snap sample cpu_load c))))"

section \<open>One observation\<close>

record observation =
  obs_reading :: reading
  obs_host :: MemorySnapshot
  obs_now :: real
  obs_cpu_probe :: "pyfloat option"
  obs_cpu_count :: "int option"

definition record_minima :: "MemorySnapshot \<Rightarrow> coordinator \<Rightarrow> coordinator" where
  "record_minima snap c =
    c\<lparr>min_available_memory := (case available_physical snap of None \<Rightarrow> min_available_memory c
        | Some a \<Rightarrow> Some (case min_available_memory c of None \<Rightarrow> a | Some m \<Rightarrow> min m a)),
      min_available_commit := (case available_commit snap of None \<Rightarrow> min_available_commit c
        | Some a \<Rightarrow> Some (case min_available_commit c of None \<Rightarrow> a | Some m \<Rightarrow> min m a))\<rparr>"

definition sample_cpu :: "observation \<Rightarrow> ResourceSample option \<Rightarrow> coordinator \<Rightarrow> pyfloat option \<times> coordinator" where
  "sample_cpu ob sample c =
    (case (case sample of None \<Rightarrow> None | Some s \<Rightarrow> s_cpu_load_percent s) of
       Some l \<Rightarrow> (Some l, c)
     | None \<Rightarrow>
         if \<not> using_default_cpu_probe c
            \<or> (case last_cpu_sample_at c of None \<Rightarrow> True
               | Some t \<Rightarrow> lim_sample_interval_seconds (limits c) \<le> obs_now ob - t)
         then (obs_cpu_probe ob, c\<lparr>last_cpu_sample_at := Some (obs_now ob)\<rparr>)
         else (map_option Fin (last_cpu_load c), c))"

definition clamp_load :: "pyfloat option \<Rightarrow> real option" where
  "clamp_load v = (case v of Some (Fin x) \<Rightarrow> Some (max 0 (min 100 x)) | _ \<Rightarrow> None)"

definition record_load :: "real option \<Rightarrow> coordinator \<Rightarrow> coordinator" where
  "record_load load c =
    (case load of None \<Rightarrow> c
     | Some l \<Rightarrow> c\<lparr>max_cpu_load := Some (case max_cpu_load c of None \<Rightarrow> l | Some m \<Rightarrow> max m l)\<rparr>)"

text \<open>The capacity the host grants; the last one when it cannot be told.\<close>

definition detect_capacity :: "observation \<Rightarrow> ResourceSample option \<Rightarrow> coordinator \<Rightarrow> int" where
  "detect_capacity ob sample c =
    (case (case sample of None \<Rightarrow> None | Some s \<Rightarrow> s_effective_cpu_capacity s) of
       Some x \<Rightarrow> (case fl_ceil x of Some n \<Rightarrow> max 1 n | None \<Rightarrow> last_cpu_capacity c)
     | None \<Rightarrow> (case obs_cpu_count ob of Some n \<Rightarrow> max 1 n | None \<Rightarrow> last_cpu_capacity c))"

definition load_is_explicit :: "ResourceSample option \<Rightarrow> coordinator \<Rightarrow> bool" where
  "load_is_explicit sample c \<longleftrightarrow> \<not> using_default_cpu_probe c
     \<or> has_resource_probe c \<and> (case sample of None \<Rightarrow> False | Some s \<Rightarrow> s_cpu_load_percent s \<noteq> None)"

text \<open>\<open>min(float(cpu_capacity), sample.effective_cpu_capacity)\<close>, and the cores the others leave.\<close>

definition effective_capacity :: "int \<Rightarrow> pyfloat option \<Rightarrow> pyfloat" where
  "effective_capacity capacity v =
    (case v of None \<Rightarrow> Fin (real_of_int capacity)
     | Some x \<Rightarrow> if fl_less x (Fin (real_of_int capacity)) then x else Fin (real_of_int capacity))"

definition available_cores :: "pyfloat \<Rightarrow> real \<Rightarrow> real" where
  "available_cores eff external = (case eff of Fin x \<Rightarrow> max 0 (x - external) | _ \<Rightarrow> 0)"

definition recovery_cores :: "pyfloat \<Rightarrow> real \<Rightarrow> real" where
  "recovery_cores eff hysteresis = (case eff of Fin x \<Rightarrow> max 0.05 (x * hysteresis / 100) | _ \<Rightarrow> 0.05)"

definition external_load :: "ResourceSample option \<Rightarrow> real option" where
  "external_load sample =
    (case (case sample of None \<Rightarrow> None | Some s \<Rightarrow> s_external_cpu_cores s) of
       Some (Fin x) \<Rightarrow> if 0 \<le> x then Some x else None
     | _ \<Rightarrow> None)"

definition latch_external :: "real \<Rightarrow> pyfloat \<Rightarrow> bool \<Rightarrow> coordinator \<Rightarrow> coordinator" where
  "latch_external cores eff explicit c =
    (if cores \<le> 0.01 \<and> \<not> cpu_pressure c
       then c\<lparr>cpu_pressure := True, pressure_events := pressure_events c + 1\<rparr>
     else if recovery_cores eff (lim_cpu_hysteresis_percent (limits c)) \<le> cores \<and> cpu_pressure c \<and> \<not> explicit
       then c\<lparr>cpu_pressure := False, pressure_events := pressure_events c + 1\<rparr>
     else c)"

definition attribute_external ::
  "ResourceSample option \<Rightarrow> int \<Rightarrow> bool \<Rightarrow> int \<Rightarrow> coordinator \<Rightarrow> int \<times> coordinator" where
  "attribute_external sample capacity explicit slots c =
    (case external_load sample of
       Some external \<Rightarrow>
         (let eff = effective_capacity capacity (case sample of None \<Rightarrow> None | Some s \<Rightarrow> s_effective_cpu_capacity s);
              cores = available_cores eff external
          in (min slots (max 0 \<lceil>cores\<rceil>),
              latch_external cores eff explicit (c\<lparr>last_external_cpu_cores := Some external\<rparr>)))
     | None \<Rightarrow>
         (if last_external_cpu_cores c \<noteq> None \<and> \<not> explicit then min slots (last_effective_cpu_slots c) else slots, c))"

text \<open>The first half reads the sample, the load and the capacity.\<close>

record observed =
  seen_sample :: "ResourceSample option"
  seen_snapshot :: MemorySnapshot
  seen_load :: "real option"
  seen_capacity :: int

definition observe_capacity :: "observation \<Rightarrow> coordinator \<Rightarrow> observed \<times> coordinator" where
  "observe_capacity ob c =
    (let (sample, c) = read_resource_sample (obs_reading ob) c;
         snap = (case memory_snapshot_from_resource_sample sample of None \<Rightarrow> obs_host ob | Some m \<Rightarrow> m);
         (raw_load, c) = sample_cpu ob sample (record_minima snap c);
         load = clamp_load raw_load;
         c = record_load load c;
         detected = detect_capacity ob sample c;
         capacity = (if automatic_cpu_slots c then detected else min (cpu_slots c) detected)
     in (\<lparr>seen_sample = sample, seen_snapshot = snap, seen_load = load, seen_capacity = capacity\<rparr>,
         c\<lparr>last_memory_budget := effective_memory_budget c snap,
           native_thread_slots := (if automatic_native_thread_slots c then capacity else native_thread_slots c),
           last_cpu_capacity := capacity\<rparr>))"

definition settle_slots :: "real option \<Rightarrow> int \<Rightarrow> coordinator \<Rightarrow> int \<times> coordinator" where
  "settle_slots load slots c =
    (let slots = (if load = None \<and> cpu_pressure c then min slots (max 1 (last_effective_cpu_slots c)) else slots)
     in (slots, c\<lparr>min_effective_cpu_slots := min (min_effective_cpu_slots c) slots,
                  last_cpu_load := load, last_effective_cpu_slots := slots\<rparr>))"

definition observe_live_resources :: "observation \<Rightarrow> coordinator \<Rightarrow> (MemorySnapshot \<times> int) \<times> coordinator" where
  "observe_live_resources ob c =
    (let (seen, c) = observe_capacity ob c;
         explicit = load_is_explicit (seen_sample seen) c;
         c = update_pressure (seen_snapshot seen) (seen_sample seen) (seen_load seen) explicit c;
         slots = effective_cpu_capacity c (if explicit then seen_load seen else None) (Some (seen_capacity seen));
         (slots, c) = attribute_external (seen_sample seen) (seen_capacity seen) explicit slots c;
         (slots, c) = settle_slots (seen_load seen) slots c
     in ((seen_snapshot seen, slots), c))"

section \<open>What an observation leaves alone\<close>

text \<open>Nothing of the ledger changes, and of the configuration at most the automatic thread limit.\<close>

definition same_ledger :: "coordinator \<Rightarrow> coordinator \<Rightarrow> bool" where
  "same_ledger c s \<longleftrightarrow>
     coordinator_ledger.truncate s = (coordinator_ledger.truncate c)\<lparr>native_thread_slots := native_thread_slots s\<rparr>"

lemma same_ledger_refl: "same_ledger c c"
  by (simp add: same_ledger_def coordinator_ledger.defs)

lemma same_ledger_trans: "same_ledger a b \<Longrightarrow> same_ledger b c \<Longrightarrow> same_ledger a c"
  by (simp add: same_ledger_def coordinator_ledger.defs)

lemma same_ledger_parts:
  "same_ledger c (record_minima snap c)" "same_ledger c (record_load load c)"
  "same_ledger c (record_sample snap sample l c)" "same_ledger c (latch_memory snap v c)"
  "same_ledger c (latch_cpu l explicit c)" "same_ledger c (latch_io smp c)" "same_ledger c (latch_external cores eff explicit c)"
  "same_ledger c (snd (read_resource_sample rd c))" "same_ledger c (snd (sample_cpu ob sample c))"
  by (simp_all add: same_ledger_def coordinator_ledger.defs record_minima_def record_load_def record_sample_def Let_def
      latch_memory_def latch_cpu_def latch_io_def latch_external_def read_resource_sample_def sample_cpu_def
      split: option.split reading.split)

lemma same_ledger_update: "same_ledger c (update_pressure snap sample l explicit c)"
  unfolding update_pressure_def Let_def by (meson same_ledger_parts same_ledger_trans)

lemma same_ledger_attribute: "same_ledger c (snd (attribute_external sample capacity explicit slots c))"
proof -
  have "same_ledger c (c\<lparr>last_external_cpu_cores := x\<rparr>)" for x
    by (simp add: same_ledger_def coordinator_ledger.defs)
  then have "same_ledger c (latch_external cores eff explicit (c\<lparr>last_external_cpu_cores := x\<rparr>))" for cores eff x
    using same_ledger_parts(7) same_ledger_trans by blast
  then show ?thesis
    by (cases "external_load sample") (auto simp: attribute_external_def Let_def same_ledger_refl)
qed

lemma same_ledger_settle: "same_ledger c (snd (settle_slots load slots c))"
  by (simp add: settle_slots_def Let_def same_ledger_def coordinator_ledger.defs)

lemma same_ledger_capacity: "same_ledger c (snd (observe_capacity ob c))"
proof -
  define sample where "sample = fst (read_resource_sample (obs_reading ob) c)"
  define c1 where "c1 = snd (read_resource_sample (obs_reading ob) c)"
  define snap where "snap = (case memory_snapshot_from_resource_sample sample of None \<Rightarrow> obs_host ob | Some m \<Rightarrow> m)"
  define c2 where "c2 = snd (sample_cpu ob sample (record_minima snap c1))"
  define c3 where "c3 = record_load (clamp_load (fst (sample_cpu ob sample (record_minima snap c1)))) c2"
  have "same_ledger c c3"
    unfolding c3_def c2_def c1_def by (meson same_ledger_parts same_ledger_trans)
  moreover have "\<exists>b n k. snd (observe_capacity ob c) = c3\<lparr>last_memory_budget := b, native_thread_slots := n, last_cpu_capacity := k\<rparr>"
    unfolding observe_capacity_def Let_def split_beta
    unfolding sample_def[symmetric] c1_def[symmetric] snap_def[symmetric] c2_def[symmetric] c3_def[symmetric]
    by (intro exI) simp
  moreover have "same_ledger c3 (c3\<lparr>last_memory_budget := b, native_thread_slots := n, last_cpu_capacity := k\<rparr>)" for b n k
    by (simp add: same_ledger_def coordinator_ledger.defs)
  ultimately show ?thesis using same_ledger_trans by metis
qed

lemma observe_same_ledger: "same_ledger c (snd (observe_live_resources ob c))"
  unfolding observe_live_resources_def Let_def split_beta snd_conv
  by (meson same_ledger_capacity same_ledger_update same_ledger_attribute same_ledger_settle same_ledger_trans)

section \<open>Bounds\<close>

text \<open>What the coordinator remembers of earlier observations, and keeps from one to the next.\<close>

definition capacity_inv :: "coordinator \<Rightarrow> bool" where
  "capacity_inv c \<longleftrightarrow> 1 \<le> cpu_slots c \<and> 1 \<le> last_cpu_capacity c \<and> 0 \<le> last_effective_cpu_slots c
     \<and> (\<not> automatic_cpu_slots c \<longrightarrow> last_cpu_capacity c \<le> cpu_slots c)
     \<and> (\<not> automatic_memory_budget c \<longrightarrow> last_memory_budget c = memory_budget_bytes c)
     \<and> (automatic_native_thread_slots c \<longrightarrow> 1 \<le> native_thread_slots c)"

lemma same_ledger_config:
  assumes "same_ledger c s"
  shows "cpu_slots s = cpu_slots c" "automatic_cpu_slots s = automatic_cpu_slots c"
    "automatic_memory_budget s = automatic_memory_budget c" "memory_budget_bytes s = memory_budget_bytes c"
    "automatic_native_thread_slots s = automatic_native_thread_slots c" "limits s = limits c"
    "max_cpu_load_percent s = max_cpu_load_percent c" "route_memory_budgets s = route_memory_budgets c"
    "temp_budget_bytes s = temp_budget_bytes c" "gpu_capacity s = gpu_capacity c" "io_device_slots s = io_device_slots c"
  using assms by (simp_all add: same_ledger_def coordinator_ledger.defs)

lemma effective_cpu_capacity_bounds:
  "1 \<le> n \<Longrightarrow> 1 \<le> effective_cpu_capacity c load (Some n) \<and> effective_cpu_capacity c load (Some n) \<le> n"
  by (auto simp: effective_cpu_capacity_def Let_def split: option.split)


definition capacities :: "coordinator \<Rightarrow> int \<times> int \<times> int \<times> int" where
  "capacities c = (last_cpu_capacity c, last_memory_budget c, native_thread_slots c, last_effective_cpu_slots c)"

lemma capacities_parts:
  "capacities (record_minima snap c) = capacities c" "capacities (record_load load c) = capacities c"
  "capacities (snd (read_resource_sample rd c)) = capacities c" "capacities (snd (sample_cpu ob sample c)) = capacities c"
  "capacities (record_sample snap sample l c) = capacities c" "capacities (latch_memory snap v c) = capacities c"
  "capacities (latch_cpu l explicit c) = capacities c" "capacities (latch_io smp c) = capacities c"
  "capacities (latch_external cores eff explicit c) = capacities c"
  "capacities (c\<lparr>last_external_cpu_cores := x\<rparr>) = capacities c"
  by (simp_all add: capacities_def record_minima_def record_load_def record_sample_def Let_def
      latch_memory_def latch_cpu_def latch_io_def latch_external_def read_resource_sample_def sample_cpu_def
      split: option.split reading.split)

lemma capacities_update: "capacities (update_pressure snap sample l explicit c) = capacities c"
  by (simp add: update_pressure_def Let_def capacities_parts)

lemma capacities_attribute: "capacities (snd (attribute_external sample capacity explicit slots c)) = capacities c"
  by (simp add: attribute_external_def Let_def capacities_parts split: option.split)

lemma attribute_external_slots:
  "0 \<le> slots \<Longrightarrow> 0 \<le> last_effective_cpu_slots c \<Longrightarrow>
    0 \<le> fst (attribute_external sample capacity explicit slots c)
    \<and> fst (attribute_external sample capacity explicit slots c) \<le> slots"
  by (auto simp: attribute_external_def Let_def split: option.split)

text \<open>The capacity read is at least one and, with a configured ceiling, at most the ceiling.\<close>

lemma observe_capacity_bounds:
  fixes ob :: observation and c :: coordinator
  assumes inv: "capacity_inv c"
  defines "seen \<equiv> fst (observe_capacity ob c)" and "s \<equiv> snd (observe_capacity ob c)"
  shows "capacity_inv s" "1 \<le> seen_capacity seen" "last_cpu_capacity s = seen_capacity seen"
    "last_effective_cpu_slots s = last_effective_cpu_slots c"
proof -
  define sample where "sample = fst (read_resource_sample (obs_reading ob) c)"
  define c1 where "c1 = snd (read_resource_sample (obs_reading ob) c)"
  define snap where "snap = (case memory_snapshot_from_resource_sample sample of None \<Rightarrow> obs_host ob | Some m \<Rightarrow> m)"
  define c2 where "c2 = snd (sample_cpu ob sample (record_minima snap c1))"
  define c3 where "c3 = record_load (clamp_load (fst (sample_cpu ob sample (record_minima snap c1)))) c2"
  define cap where "cap = (if automatic_cpu_slots c3 then detect_capacity ob sample c3 else min (cpu_slots c3) (detect_capacity ob sample c3))"
  have same: "same_ledger c c3"
    unfolding c3_def c2_def c1_def by (meson same_ledger_parts same_ledger_trans)
  note f = same_ledger_config[OF same]
  have v: "last_cpu_capacity c3 = last_cpu_capacity c" "last_effective_cpu_slots c3 = last_effective_cpu_slots c"
    using capacities_parts unfolding c3_def c2_def c1_def capacities_def by simp_all
  have s: "s = c3\<lparr>last_memory_budget := effective_memory_budget c3 snap,
      native_thread_slots := (if automatic_native_thread_slots c3 then cap else native_thread_slots c3), last_cpu_capacity := cap\<rparr>"
    and seen: "seen_capacity seen = cap"
    unfolding s_def seen_def observe_capacity_def Let_def split_beta
    unfolding sample_def[symmetric] c1_def[symmetric] snap_def[symmetric] c2_def[symmetric] c3_def[symmetric] cap_def[symmetric]
    by simp_all
  have "1 \<le> detect_capacity ob sample c3"
    using inv v by (auto simp: detect_capacity_def capacity_inv_def split: option.split)
  then have cap: "1 \<le> cap" "\<not> automatic_cpu_slots c \<Longrightarrow> cap \<le> cpu_slots c"
    using inv f by (auto simp: cap_def capacity_inv_def)
  show "capacity_inv s"
    using inv cap f v by (simp add: capacity_inv_def s effective_memory_budget_def)
  show "1 \<le> seen_capacity seen" "last_cpu_capacity s = seen_capacity seen"
    "last_effective_cpu_slots s = last_effective_cpu_slots c"
    using cap by (simp_all add: seen s v)
qed

lemma observe_capacity_inv:
  assumes inv: "capacity_inv c" and obs: "observe_live_resources ob c = ((snap, e), s)"
  shows "capacity_inv s" "0 \<le> e" "e \<le> last_cpu_capacity s" "e = last_effective_cpu_slots s"
proof -
  define seen where "seen = fst (observe_capacity ob c)"
  define c1 where "c1 = snd (observe_capacity ob c)"
  define explicit where "explicit = load_is_explicit (seen_sample seen) c1"
  define c2 where "c2 = update_pressure (seen_snapshot seen) (seen_sample seen) (seen_load seen) explicit c1"
  define k where "k = effective_cpu_capacity c2 (if explicit then seen_load seen else None) (Some (seen_capacity seen))"
  define k' where "k' = fst (attribute_external (seen_sample seen) (seen_capacity seen) explicit k c2)"
  define c3 where "c3 = snd (attribute_external (seen_sample seen) (seen_capacity seen) explicit k c2)"
  note b = observe_capacity_bounds[OF inv, of ob, folded seen_def c1_def]
  have es: "e = fst (settle_slots (seen_load seen) k' c3)" "s = snd (settle_slots (seen_load seen) k' c3)"
    using obs unfolding observe_live_resources_def Let_def split_beta
    unfolding seen_def[symmetric] c1_def[symmetric] explicit_def[symmetric]
    unfolding c2_def[symmetric] k_def[symmetric] k'_def[symmetric] c3_def[symmetric] by auto
  have caps: "capacities c3 = capacities c1"
    by (simp add: c3_def capacities_attribute c2_def capacities_update)
  then have v: "last_cpu_capacity c3 = seen_capacity seen" "last_effective_cpu_slots c3 = last_effective_cpu_slots c1"
    "last_memory_budget c3 = last_memory_budget c1" "native_thread_slots c3 = native_thread_slots c1"
    using b(3) by (simp_all add: capacities_def)
  have "same_ledger c1 c3" unfolding c3_def c2_def using same_ledger_update same_ledger_attribute same_ledger_trans by blast
  note f = same_ledger_config[OF this]
  have k: "1 \<le> k" "k \<le> seen_capacity seen" using effective_cpu_capacity_bounds[OF b(2)] by (simp_all add: k_def)
  have "last_effective_cpu_slots c2 = last_effective_cpu_slots c1"
    using capacities_update by (auto simp: capacities_def c2_def)
  then have k': "0 \<le> k'" "k' \<le> k"
    using attribute_external_slots[of k c2] k(1) b(1) by (simp_all add: k'_def capacity_inv_def)
  have le: "0 \<le> last_effective_cpu_slots c3" using b(1) v by (simp add: capacity_inv_def)
  show "0 \<le> e" "e = last_effective_cpu_slots s" using k' le by (simp_all add: es settle_slots_def Let_def le_max_iff_disj)
  show "e \<le> last_cpu_capacity s" using k' k by (auto simp: es settle_slots_def Let_def v min_le_iff_disj)
  show "capacity_inv s"
    using b(1) k' le b(3) by (simp add: es settle_slots_def Let_def capacity_inv_def v f le_max_iff_disj)
qed

text \<open>
  C13. Whatever the host reports - missing, infinite, negative or not-a-number readings, probes that
  raise - one observation gives between zero and the detected capacity of CPU slots; the capacity is
  at least one and never exceeds a configured ceiling; a configured memory budget is not changed; and
  no reservation, queue or counter changes.
\<close>

theorem observation_bounds:
  assumes "capacity_inv c" and "observe_live_resources ob c = ((snap, e), s)"
  shows "0 \<le> e \<and> e \<le> last_cpu_capacity s \<and> 1 \<le> last_cpu_capacity s
    \<and> (\<not> automatic_cpu_slots s \<longrightarrow> last_cpu_capacity s \<le> cpu_slots s)
    \<and> (\<not> automatic_memory_budget s \<longrightarrow> last_memory_budget s = memory_budget_bytes s)
    \<and> same_ledger c s \<and> capacity_inv s"
  using observe_capacity_inv[OF assms] observe_same_ledger[of c ob] assms(2) by (simp add: capacity_inv_def)

definition demo_observation :: observation where
  "demo_observation = \<lparr>obs_reading = Probed (Some (empty_sample\<lparr>s_available_physical := Some 600,
     s_external_cpu_cores := Some (Fin 1.5), s_effective_cpu_capacity := Some PosInf, s_memory_pressure_some_percent := Some (Fin 12)\<rparr>)),
     obs_host = demo_host, obs_now = 3, obs_cpu_probe = Some NaN, obs_cpu_count = None\<rparr>"

theorem observation_bounds_witness:
  "capacity_inv demo \<and> snd (fst (observe_live_resources demo_observation demo)) = 3
    \<and> memory_pressure (snd (observe_live_resources demo_observation demo))
    \<and> capacity_inv (snd (observe_live_resources demo_observation demo))"
proof -
  have inv: "capacity_inv demo" by code_simp
  obtain snap e s where run: "observe_live_resources demo_observation demo = ((snap, e), s)" by (metis surj_pair)
  have "snd (fst (observe_live_resources demo_observation demo)) = 3"
    "memory_pressure (snd (observe_live_resources demo_observation demo))" by code_simp+
  then show ?thesis using observation_bounds[OF inv run] inv run by simp
qed

section \<open>Hysteresis\<close>

text \<open>The inputs of the memory latch do not depend on the latches or on the recorded sample.\<close>

lemma latch_inputs:
  assumes "same_ledger c s" "process_memory s = process_memory c"
  shows "memory_low s snap = memory_low c snap" "memory_recovered s snap = memory_recovered c snap"
    "pressure_high s v = pressure_high c v" "pressure_recovered s v = pressure_recovered c v"
proof -
  have f: "limits s = limits c" "min_free_memory_bytes s = min_free_memory_bytes c"
    "min_free_commit_bytes s = min_free_commit_bytes c" "memory_hysteresis_bytes s = memory_hysteresis_bytes c"
    "reserved_bytes s = reserved_bytes c" "heap s = heap c" "active_reservations s = active_reservations c"
    using assms(1) by (simp_all add: same_ledger_def coordinator_ledger.defs)
  have g: "outstanding_growth s = outstanding_growth c"
    unfolding outstanding_growth_def materialized_credit_def f assms(2) ..
  show "memory_low s snap = memory_low c snap" "memory_recovered s snap = memory_recovered c snap"
    "pressure_high s v = pressure_high c v" "pressure_recovered s v = pressure_recovered c v"
    unfolding memory_low_def memory_recovered_def pressure_high_def pressure_recovered_def f g by simp_all
qed

definition next_memory_pressure :: "coordinator \<Rightarrow> MemorySnapshot \<Rightarrow> pyfloat option \<Rightarrow> bool" where
  "next_memory_pressure c snap v =
    (if memory_pressure c then \<not> (memory_recovered c snap \<and> pressure_recovered c v)
     else memory_low c snap \<or> pressure_high c v)"

definition next_cpu_pressure :: "coordinator \<Rightarrow> real option \<Rightarrow> bool \<Rightarrow> bool" where
  "next_cpu_pressure c load explicit =
    (case load of None \<Rightarrow> cpu_pressure c
     | Some l \<Rightarrow> if \<not> explicit then cpu_pressure c
         else max_cpu_load_percent c \<le> l
            \<or> cpu_pressure c \<and> max_cpu_load_percent c - lim_cpu_hysteresis_percent (limits c) < l)"

lemma update_pressure_flags:
  fixes c :: coordinator and snap :: MemorySnapshot and sample :: "ResourceSample option"
    and load :: "real option" and explicit :: bool
  defines "v \<equiv> pressure_value (current_sample snap sample load)"
  defines "s \<equiv> update_pressure snap sample load explicit c"
  shows "memory_pressure s = next_memory_pressure c snap v" "cpu_pressure s = next_cpu_pressure c load explicit"
    "process_memory s = process_memory c"
    "pressure_events s = pressure_events c + of_bool (memory_pressure s \<noteq> memory_pressure c)
       + of_bool (cpu_pressure s \<noteq> cpu_pressure c)"
proof -
  define c1 where "c1 = record_sample snap sample load c"
  define c2 where "c2 = latch_memory snap v c1"
  define c3 where "c3 = latch_cpu load explicit c2"
  have s: "s = latch_io (current_sample snap sample load) c3"
    by (simp add: s_def update_pressure_def Let_def c3_def c2_def c1_def v_def)
  have c1: "memory_pressure c1 = memory_pressure c" "cpu_pressure c1 = cpu_pressure c" "pressure_events c1 = pressure_events c"
    "process_memory c1 = process_memory c"
    by (simp_all add: c1_def record_sample_def Let_def)
  have "same_ledger c c1" using same_ledger_parts(3) by (simp add: c1_def)
  note inp = latch_inputs[OF this c1(4)]
  have c2: "memory_pressure c2 = next_memory_pressure c snap v" "cpu_pressure c2 = cpu_pressure c"
    "pressure_events c2 = pressure_events c + of_bool (memory_pressure c2 \<noteq> memory_pressure c)" "process_memory c2 = process_memory c"
    by (simp_all add: c2_def latch_memory_def next_memory_pressure_def inp c1)
  have "same_ledger c c2" using \<open>same_ledger c c1\<close> same_ledger_parts(4) same_ledger_trans unfolding c2_def by blast
  note f = same_ledger_config[OF this]
  have c3: "memory_pressure c3 = memory_pressure c2" "cpu_pressure c3 = next_cpu_pressure c load explicit"
    "pressure_events c3 = pressure_events c2 + of_bool (cpu_pressure c3 \<noteq> cpu_pressure c)" "process_memory c3 = process_memory c"
    by (auto simp: c3_def latch_cpu_def next_cpu_pressure_def c2 f split: option.split)
  have io: "memory_pressure s = memory_pressure c3" "cpu_pressure s = cpu_pressure c3" "pressure_events s = pressure_events c3"
    "process_memory s = process_memory c3"
    by (simp_all add: s latch_io_def split: option.split)
  show "memory_pressure s = next_memory_pressure c snap v" "cpu_pressure s = next_cpu_pressure c load explicit"
    "process_memory s = process_memory c"
    "pressure_events s = pressure_events c + of_bool (memory_pressure s \<noteq> memory_pressure c)
       + of_bool (cpu_pressure s \<noteq> cpu_pressure c)"
    using io c3 c2 by simp_all
qed

lemma pressure_value_finite: "pressure_value s = Some p \<Longrightarrow> \<exists>x. p = Fin x"
proof -
  have "list_all is_finite xs \<Longrightarrow> is_finite b \<Longrightarrow> is_finite (fl_max_from b xs)" for b xs
    by (induction xs arbitrary: b) auto
  moreover have "list_all is_finite (finite_of vs)" for vs
    by (auto simp: finite_of_def list_all_iff split: option.splits if_splits)
  ultimately have "fl_max (finite_of vs) = Some p \<Longrightarrow> is_finite p" for vs
    by (cases "finite_of vs") (auto, metis list.pred_inject(2))
  then show "pressure_value s = Some p \<Longrightarrow> \<exists>x. p = Fin x"
    unfolding pressure_value_def by (metis is_finite.elims(2))
qed

lemma memory_low_not_recovered:
  "0 \<le> memory_hysteresis_bytes c \<Longrightarrow> memory_low c snap \<Longrightarrow> \<not> memory_recovered c snap"
  by (auto simp: memory_low_def memory_recovered_def split: option.splits)

lemma pressure_high_not_recovered:
  assumes "lim_memory_pressure_recovery_percent (limits c) < lim_memory_pressure_high_percent (limits c)"
    "pressure_high c (pressure_value s)"
  shows "\<not> pressure_recovered c (pressure_value s)"
  using assms pressure_value_finite[of s]
  by (auto simp: pressure_high_def pressure_recovered_def fl_le_def split: option.splits)

text \<open>
  The pressure latches have hysteresis: observing the same host a second time changes neither
  latch and counts no event, so a constant load never makes admission oscillate, provided the
  recovery threshold is below the high one. Each event counts exactly one change of a latch.
\<close>

theorem pressure_latches_stable:
  fixes c :: coordinator and snap :: MemorySnapshot and sample :: "ResourceSample option"
    and load :: "real option" and explicit :: bool
  assumes "0 \<le> memory_hysteresis_bytes c"
    and "lim_memory_pressure_recovery_percent (limits c) < lim_memory_pressure_high_percent (limits c)"
  defines "s \<equiv> update_pressure snap sample load explicit c"
  defines "t \<equiv> update_pressure snap sample load explicit s"
  shows "memory_pressure t = memory_pressure s \<and> cpu_pressure t = cpu_pressure s \<and> pressure_events t = pressure_events s
    \<and> pressure_events s = pressure_events c + of_bool (memory_pressure s \<noteq> memory_pressure c)
       + of_bool (cpu_pressure s \<noteq> cpu_pressure c)"
proof -
  define v where "v = pressure_value (current_sample snap sample load)"
  note fs = update_pressure_flags[of snap sample load explicit c, folded s_def v_def]
  note ft = update_pressure_flags[of snap sample load explicit s, folded t_def v_def]
  have same: "same_ledger c s" unfolding s_def by (rule same_ledger_update)
  note inp = latch_inputs[OF same fs(3)]
  note f = same_ledger_config[OF same]
  have "memory_pressure t = memory_pressure s"
    using memory_low_not_recovered[OF assms(1)] pressure_high_not_recovered[OF assms(2)]
    unfolding ft(1) next_memory_pressure_def inp fs(1) v_def by auto
  moreover have "cpu_pressure t = cpu_pressure s"
    unfolding ft(2) fs(2) by (auto simp: next_cpu_pressure_def f fs(2) split: option.split)
  ultimately show ?thesis using ft(4) fs(4) by simp
qed

theorem pressure_latches_stable_witness:
  "memory_pressure (update_pressure demo_host (Some (empty_sample\<lparr>s_memory_pressure_some_percent := Some (Fin 12)\<rparr>)) None False demo)
   \<and> memory_pressure (update_pressure demo_host (Some (empty_sample\<lparr>s_memory_pressure_some_percent := Some (Fin 12)\<rparr>)) None False
       (update_pressure demo_host (Some (empty_sample\<lparr>s_memory_pressure_some_percent := Some (Fin 12)\<rparr>)) None False demo))"
proof -
  have h: "0 \<le> memory_hysteresis_bytes demo" by code_simp
  have l: "lim_memory_pressure_recovery_percent (limits demo) < lim_memory_pressure_high_percent (limits demo)" by code_simp
  have "memory_pressure (update_pressure demo_host (Some (empty_sample\<lparr>s_memory_pressure_some_percent := Some (Fin 12)\<rparr>)) None False demo)"
    by code_simp
  then show ?thesis using pressure_latches_stable[OF h l] by blast
qed

text \<open>Construction also accepts equal thresholds; a constant pressure at that value then flips the latch.\<close>

lemma equal_thresholds_oscillate:
  assumes "limits c = default_limits\<lparr>lim_memory_pressure_high_percent := 10, lim_memory_pressure_recovery_percent := 10\<rparr>"
    and "snap = \<lparr>available_physical = None, available_commit = None, total_physical = None, total_commit = None\<rparr>"
    and "sample = Some (empty_sample\<lparr>s_memory_pressure_some_percent := Some (Fin 10)\<rparr>)"
  shows "memory_pressure (update_pressure snap sample None False c) = (\<not> memory_pressure c)"
proof -
  have "pressure_value (current_sample snap sample None) = Some (Fin 10)"
    by (simp add: assms current_sample_def pressure_value_def finite_of_def empty_sample_def)
  then show ?thesis
    by (simp add: update_pressure_flags next_memory_pressure_def memory_low_def memory_recovered_def
        pressure_high_def pressure_recovered_def assms fl_le_def)
qed
end
