(* ===== verification/Resource_Devices.thy ===== *)
theory Resource_Devices
  imports Resource_Observation
begin

text \<open>
  GPU devices and capacity queries of \<open>GlobalResourceCoordinator\<close>: registration of a device, the
  two halves of a GPU observation (reading the probes outside the lock, publishing under it), and
  the worker targets a route asks for. A probe is outside code: what it answers is an argument,
  and an answer that raises is \<open>None\<close>.
\<close>

section \<open>Cancellation\<close>

definition cancel :: "coordinator \<Rightarrow> coordinator" where
  "cancel c = c\<lparr>cancelled := True\<rparr>"

section \<open>GPU devices\<close>

definition add_key :: "string \<Rightarrow> string list \<Rightarrow> string list" where
  "add_key k ks = (if k \<in> set ks then ks else ks @ [k])"

definition register_gpu_device :: "string \<Rightarrow> int \<Rightarrow> bool \<Rightarrow> bool \<Rightarrow> coordinator \<Rightarrow> py_error + coordinator" where
  \<comment> \<open>the Booleans say whether an availability probe and a materialized probe are given\<close>
  "register_gpu_device device memory_bytes available_probe materialized_probe c =
    (if memory_bytes < 1 then Inl (ValueError ''GPU capacity must be positive'')
     else Inr (c\<lparr>gpu_capacity := dict_set (gpu_capacity c) device memory_bytes,
                 gpu_available_probes := (if available_probe then add_key device (gpu_available_probes c)
                                          else gpu_available_probes c),
                 gpu_materialized_probes := (if materialized_probe then add_key device (gpu_materialized_probes c)
                                             else gpu_materialized_probes c),
                 gpu_probe_generations := dict_set (gpu_probe_generations c) device
                   (dict_get_or (gpu_probe_generations c) device 0 + 1)\<rparr>))"

text \<open>
  One observation reads the probes that were registered when it began, without the lock. It keeps
  the generations of that moment.
\<close>

record gpu_reading =
  gpu_generations :: "(string, int) dict"
  gpu_observed :: "(string, int option \<times> real) dict"
  gpu_materialized :: "(string, (int \<times> int, int) dict) dict"

definition read_gpu ::
  "(string \<Rightarrow> int option \<times> real) \<Rightarrow> (string \<Rightarrow> (int \<times> int, int) dict option) \<Rightarrow> coordinator \<Rightarrow> gpu_reading" where
  "read_gpu available materialized c =
    \<lparr>gpu_generations = gpu_probe_generations c,
     gpu_observed = map (\<lambda>d. (d, map_option (max 0) (fst (available d)), snd (available d))) (gpu_available_probes c),
     gpu_materialized = map (\<lambda>d. (d, case materialized d of None \<Rightarrow> [] | Some m \<Rightarrow> m)) (gpu_materialized_probes c)\<rparr>"

text \<open>Publication, for the devices that were not registered again meanwhile.\<close>

fun publish_current :: "(string \<Rightarrow> bool) \<Rightarrow> (string, 'v) dict \<Rightarrow> (string, 'v) dict \<Rightarrow> (string, 'v) dict" where
  "publish_current current [] cache = cache"
| "publish_current current ((device, v) # rest) cache =
     publish_current current rest (if current device then dict_set cache device v else cache)"

definition publish_gpu :: "bool \<Rightarrow> gpu_reading \<Rightarrow> coordinator \<Rightarrow> coordinator" where
  \<comment> \<open>the Boolean says whether the observer's own stop token is set\<close>
  "publish_gpu stopped g c =
    (if stopped then c
     else let current = (\<lambda>d. dict_get (gpu_probe_generations c) d = dict_get (gpu_generations g) d)
          in c\<lparr>gpu_available_cache := publish_current current (gpu_observed g) (gpu_available_cache c),
               gpu_materialized_cache := publish_current current (gpu_materialized g) (gpu_materialized_cache c)\<rparr>)"

section \<open>Capacity queries\<close>

definition gpu_worker_capacity :: "string \<Rightarrow> string \<Rightarrow> int \<Rightarrow> int \<Rightarrow> real \<Rightarrow> coordinator \<Rightarrow> py_error + int" where
  \<comment> \<open>after the observation of the devices that an unmonitored coordinator makes first\<close>
  "gpu_worker_capacity route_name device estimated_bytes reusable_resident_bytes now c =
    (if estimated_bytes \<le> 0 \<or> reusable_resident_bytes < 0
       then Inl (ValueError ''GPU worker memory must be positive and reusable bytes nonnegative'')
     else let configured = dict_get_or (gpu_capacity c) device 0
          in if configured < estimated_bytes
               then Inl (MemoryBudgetExceeded ''GPU worker exceeds the registered device capacity'')
             else let own = sum_list (map rq_gpu_bytes
                        (filter (\<lambda>q. rq_route_name q = route_name \<and> device_or_default (rq_gpu_device q) = device)
                           (map (heap c) (active_reservations c))));
                      reusable = min own reusable_resident_bytes;
                      reserved = dict_get_or (gpu_in_use c) device 0;
                      remaining = configured - reserved + reusable
                  in if device \<in> set (gpu_available_probes c)
                     then (case gpu_available c now device of
                         None \<Rightarrow> Inr 0
                       | Some available \<Rightarrow>
                           (let pending = reserved - gpu_materialized_credit c device
                            in Inr (max 0 (min remaining (available - pending + reusable) div estimated_bytes))))
                     else Inr (max 0 (remaining div estimated_bytes)))"

definition route_memory_budget_bytes :: "string \<Rightarrow> observation \<Rightarrow> coordinator \<Rightarrow> int \<times> coordinator" where
  "route_memory_budget_bytes route_name ob c =
    (let c = snd (observe_live_resources ob c)
     in (min (last_memory_budget c) (dict_get_or (route_memory_budgets c) route_name (last_memory_budget c)), c))"

record worker_demand =
  w_max_workers :: "int option"
  w_estimated_bytes :: int
  w_native_threads :: int
  w_reusable_resident_bytes :: int

definition demand_errors :: "worker_demand \<Rightarrow> py_error option" where
  "demand_errors w =
    (if (case w_max_workers w of None \<Rightarrow> False | Some m \<Rightarrow> m < 1)
       then Some (ValueError ''max_workers must be positive or None'')
     else if w_estimated_bytes w < 0 \<or> w_native_threads w < 0 \<or> w_reusable_resident_bytes w < 0
       then Some (ValueError ''worker resource demand cannot be negative'')
     else None)"

text \<open>The counters of a route, nothing for a caller without one or a route that is not registered.\<close>

definition metrics_of :: "string option \<Rightarrow> coordinator \<Rightarrow> route_metrics" where
  "metrics_of route_name c =
    (case route_name of None \<Rightarrow> zero_metrics
     | Some n \<Rightarrow> if n \<in> set (route_order c) then metrics c n else zero_metrics)"

definition route_budget_of :: "string option \<Rightarrow> coordinator \<Rightarrow> int option" where
  "route_budget_of route_name c = (case route_name of None \<Rightarrow> None | Some n \<Rightarrow> dict_get (route_memory_budgets c) n)"

definition opt_min :: "int \<Rightarrow> int option \<Rightarrow> int" where
  "opt_min x y = (case y of None \<Rightarrow> x | Some b \<Rightarrow> min x b)"

text \<open>The bytes a route may use in all, with what it holds already counted as its own.\<close>

definition worker_remaining :: "route_metrics \<Rightarrow> int option \<Rightarrow> int \<Rightarrow> MemorySnapshot \<Rightarrow> coordinator \<Rightarrow> int" where
  "worker_remaining m route_budget reusable_residence snapshot c =
    (let own = m_transient_bytes m + reusable_residence;
         remaining = opt_min (last_memory_budget c - reserved_bytes c + own)
           (map_option (\<lambda>b. b - m_reserved_bytes m + own) route_budget);
         unmaterialized = reserved_bytes c - materialized_credit c - own;
         remaining = opt_min remaining
           (map_option (\<lambda>a. a - min_free_memory_bytes c - unmaterialized) (available_physical snapshot))
     in opt_min remaining
          (map_option (\<lambda>a. a - min_free_commit_bytes c - unmaterialized) (available_commit snapshot)))"

definition worker_slots :: "string option \<Rightarrow> worker_demand \<Rightarrow> MemorySnapshot \<Rightarrow> int \<Rightarrow> coordinator \<Rightarrow> int" where
  "worker_slots route_name w snapshot cpu_capacity c =
    (let m = metrics_of route_name c;
         reusable_residence = min (m_resident_bytes m) (w_reusable_resident_bytes w);
         slots = max 0 (cpu_capacity - cpu_in_use c + m_cpu_slots m);
         slots = (if w_native_threads w \<noteq> 0
                  then min slots (max 0 ((min (native_thread_slots c) cpu_capacity - native_threads_in_use c + m_native_threads m)
                                         div w_native_threads w))
                  else slots);
         slots = (if w_estimated_bytes w \<noteq> 0
                  then min slots (max 0 (worker_remaining m (route_budget_of route_name c) reusable_residence snapshot c
                                         div w_estimated_bytes w))
                  else slots)
     in max 0 (opt_min slots (w_max_workers w)))"

definition worker_capacity :: "string option \<Rightarrow> worker_demand \<Rightarrow> observation \<Rightarrow> coordinator \<Rightarrow> (py_error + int) \<times> coordinator" where
  "worker_capacity route_name w ob c =
    (case demand_errors w of
       Some e \<Rightarrow> (Inl e, c)
     | None \<Rightarrow>
         (let ((snapshot, cpu_capacity), c) = observe_live_resources ob c
          in if last_memory_budget c < w_estimated_bytes w
               then (Inl (MemoryBudgetExceeded ''one worker exceeds the current memory capacity''), c)
             else if (case route_budget_of route_name c of None \<Rightarrow> False | Some b \<Rightarrow> b < w_estimated_bytes w)
               then (Inl (MemoryBudgetExceeded ''one worker exceeds the configured route memory budget''), c)
             else if memory_pressure c \<or> cpu_pressure c then (Inr 0, c)
             else (Inr (worker_slots route_name w snapshot cpu_capacity c), c)))"

section \<open>What the queries promise\<close>

lemma opt_min_le: "opt_min x y \<le> x" "opt_min x (Some b) \<le> b"
  by (auto simp: opt_min_def split: option.split)

text \<open>Whole units of a positive size within an amount.\<close>

lemma units_fit: "0 < n \<Longrightarrow> n \<le> max 0 (amount div unit) \<Longrightarrow> 0 < unit \<Longrightarrow> n * unit \<le> (amount :: int)"
proof -
  assume "0 < n" "n \<le> max 0 (amount div unit)" "0 < unit"
  then have "n \<le> amount div unit" by linarith
  with \<open>0 < unit\<close> have "n * unit \<le> amount div unit * unit" by (simp add: mult_right_mono)
  also have "\<dots> \<le> amount" using \<open>0 < unit\<close> by (metis div_mult_mod_eq le_add_same_cancel1 pos_mod_sign)
  finally show ?thesis .
qed

lemma worker_remaining_le:
  assumes "own = m_transient_bytes m + residence" and "unmaterialized = reserved_bytes c - materialized_credit c - own"
  shows "worker_remaining m budget residence snap c \<le> last_memory_budget c - reserved_bytes c + own"
    and "budget = Some b \<Longrightarrow> worker_remaining m budget residence snap c \<le> b - m_reserved_bytes m + own"
    and "available_physical snap = Some a \<Longrightarrow> worker_remaining m budget residence snap c \<le> a - min_free_memory_bytes c - unmaterialized"
    and "available_commit snap = Some a \<Longrightarrow> worker_remaining m budget residence snap c \<le> a - min_free_commit_bytes c - unmaterialized"
  unfolding worker_remaining_def Let_def assms by (auto simp: opt_min_def split: option.split)

lemma worker_slots_bounds:
  obtains x where "worker_slots route w snap e c = max 0 (opt_min x (w_max_workers w))"
    "x \<le> max 0 (e - cpu_in_use c + m_cpu_slots (metrics_of route c))"
    "w_native_threads w \<noteq> 0 \<Longrightarrow> x \<le> max 0 ((min (native_thread_slots c) e - native_threads_in_use c
        + m_native_threads (metrics_of route c)) div w_native_threads w)"
    "w_estimated_bytes w \<noteq> 0 \<Longrightarrow> x \<le> max 0 (worker_remaining (metrics_of route c) (route_budget_of route c)
        (min (m_resident_bytes (metrics_of route c)) (w_reusable_resident_bytes w)) snap c div w_estimated_bytes w)"
proof -
  have pick: "(if a then min x y else x) \<le> x" "a \<Longrightarrow> (if a then min x y else x) \<le> y" for a and x y :: int by auto
  show thesis
    by (rule that[OF worker_slots_def[unfolded Let_def]]) (meson pick order.trans)+
qed

lemma positive_max: "0 < n \<Longrightarrow> n \<le> max 0 (x :: int) \<Longrightarrow> n \<le> x"
  by linarith

lemma demand_signs:
  assumes "demand_errors w = None"
  shows "w_max_workers w = Some k \<Longrightarrow> 1 \<le> k" "0 \<le> w_estimated_bytes w" "0 \<le> w_native_threads w"
  using assms by (auto simp: demand_errors_def split: option.splits if_splits)

text \<open>A positive number of workers fits the CPU width, the threads and the bytes that remain.\<close>

lemma worker_slots_widths:
  fixes route w snap e s
  assumes ok: "demand_errors w = None" and n: "n = worker_slots route w snap e s" and pos: "0 < n"
  defines "m \<equiv> metrics_of route s"
  defines "native \<equiv> min (native_thread_slots s) e - native_threads_in_use s + m_native_threads m"
  defines "r \<equiv> worker_remaining m (route_budget_of route s) (min (m_resident_bytes m) (w_reusable_resident_bytes w)) snap s"
  shows "n \<le> e - cpu_in_use s + m_cpu_slots m"
    "0 < w_native_threads w \<Longrightarrow> n * w_native_threads w \<le> native"
    "0 < w_estimated_bytes w \<Longrightarrow> n * w_estimated_bytes w \<le> r"
proof -
  obtain x where x: "worker_slots route w snap e s = max 0 (opt_min x (w_max_workers w))"
      "x \<le> max 0 (e - cpu_in_use s + m_cpu_slots m)"
      "w_native_threads w \<noteq> 0 \<Longrightarrow> x \<le> max 0 (native div w_native_threads w)"
      "w_estimated_bytes w \<noteq> 0 \<Longrightarrow> x \<le> max 0 (r div w_estimated_bytes w)"
    using worker_slots_bounds[of route w snap e s, folded m_def, folded r_def native_def] by blast
  have nx: "n \<le> x" using pos n x(1) opt_min_le(1)[of x "w_max_workers w"] by linarith
  show "n \<le> e - cpu_in_use s + m_cpu_slots m" using order.trans[OF nx x(2)] by (rule positive_max[OF pos])
  show "n * w_native_threads w \<le> native" if "0 < w_native_threads w"
    using units_fit[OF pos order.trans[OF nx x(3)] that] that by simp
  show "n * w_estimated_bytes w \<le> r" if "0 < w_estimated_bytes w"
    using units_fit[OF pos order.trans[OF nx x(4)] that] that by simp
qed

lemma worker_slots_fit:
  fixes route w snap e s
  assumes ok: "demand_errors w = None" and n: "n = worker_slots route w snap e s" and pos: "0 < n"
  defines "m \<equiv> metrics_of route s"
  defines "own \<equiv> m_transient_bytes m + min (m_resident_bytes m) (w_reusable_resident_bytes w)"
  shows "n + (cpu_in_use s - m_cpu_slots m) \<le> e
        \<and> (0 < w_native_threads w \<longrightarrow>
             n * w_native_threads w + (native_threads_in_use s - m_native_threads m) \<le> min (native_thread_slots s) e)
        \<and> (0 < w_estimated_bytes w \<longrightarrow>
             n * w_estimated_bytes w + (reserved_bytes s - own) \<le> last_memory_budget s
           \<and> (\<forall>b. route_budget_of route s = Some b \<longrightarrow> n * w_estimated_bytes w + (m_reserved_bytes m - own) \<le> b)
           \<and> (\<forall>a. available_physical snap = Some a \<longrightarrow>
                n * w_estimated_bytes w + (reserved_bytes s - materialized_credit s - own) + min_free_memory_bytes s \<le> a)
           \<and> (\<forall>a. available_commit snap = Some a \<longrightarrow>
                n * w_estimated_bytes w + (reserved_bytes s - materialized_credit s - own) + min_free_commit_bytes s \<le> a))"
proof (intro conjI impI allI)
  note widths = worker_slots_widths[OF ok n pos, folded m_def]
  note rem = worker_remaining_le[where m = m and residence = "min (m_resident_bytes m) (w_reusable_resident_bytes w)"
      and own = own and c = s and budget = "route_budget_of route s" and snap = snap, OF _ refl]
  show "n + (cpu_in_use s - m_cpu_slots m) \<le> e" using widths(1) by simp
  show "0 < w_native_threads w \<Longrightarrow> n * w_native_threads w + (native_threads_in_use s - m_native_threads m) \<le> min (native_thread_slots s) e"
    using widths(2) by linarith
  assume b: "0 < w_estimated_bytes w"
  note fit = widths(3)[OF b]
  show "n * w_estimated_bytes w + (reserved_bytes s - own) \<le> last_memory_budget s"
    using fit rem(1) by (simp add: own_def)
  show "n * w_estimated_bytes w + (m_reserved_bytes m - own) \<le> x" if "route_budget_of route s = Some x" for x
    using fit rem(2)[OF _ that] by (simp add: own_def)
  show "n * w_estimated_bytes w + (reserved_bytes s - materialized_credit s - own) + min_free_memory_bytes s \<le> a"
    if "available_physical snap = Some a" for a
    using fit rem(3)[OF _ that] by (simp add: own_def)
  show "n * w_estimated_bytes w + (reserved_bytes s - materialized_credit s - own) + min_free_commit_bytes s \<le> a"
    if "available_commit snap = Some a" for a
    using fit rem(4)[OF _ that] by (simp add: own_def)
qed

text \<open>
  C14. A worker target is honest. The query changes nothing of the ledger. The answer is a
  nonnegative number within the caller's ceiling; it is zero under memory or CPU pressure; and a
  positive answer is a number of workers that together fit beside what the other routes hold: their
  CPU slots within the capacity, their native threads within the thread limit, their bytes within the
  budget of the coordinator and of the route, and within the memory the host has free beyond the
  headroom and the promises of the others that are not materialized yet.
\<close>

theorem worker_capacity_sound:
  assumes "worker_capacity route w ob c = (Inr n, s)"
  defines "m \<equiv> metrics_of route s"
  defines "own \<equiv> m_transient_bytes m + min (m_resident_bytes m) (w_reusable_resident_bytes w)"
  shows "0 \<le> n \<and> same_ledger c s
    \<and> (\<forall>k. w_max_workers w = Some k \<longrightarrow> n \<le> k)
    \<and> (memory_pressure s \<or> cpu_pressure s \<longrightarrow> n = 0)
    \<and> (0 < n \<longrightarrow> (\<exists>snap e. observe_live_resources ob c = ((snap, e), s)
        \<and> n + (cpu_in_use s - m_cpu_slots m) \<le> e
        \<and> (0 < w_native_threads w \<longrightarrow>
             n * w_native_threads w + (native_threads_in_use s - m_native_threads m) \<le> min (native_thread_slots s) e)
        \<and> (0 < w_estimated_bytes w \<longrightarrow>
             n * w_estimated_bytes w + (reserved_bytes s - own) \<le> last_memory_budget s
           \<and> (\<forall>b. route_budget_of route s = Some b \<longrightarrow> n * w_estimated_bytes w + (m_reserved_bytes m - own) \<le> b)
           \<and> (\<forall>a. available_physical snap = Some a \<longrightarrow>
                n * w_estimated_bytes w + (reserved_bytes s - materialized_credit s - own) + min_free_memory_bytes s \<le> a)
           \<and> (\<forall>a. available_commit snap = Some a \<longrightarrow>
                n * w_estimated_bytes w + (reserved_bytes s - materialized_credit s - own) + min_free_commit_bytes s \<le> a))))"
proof -
  obtain snap e c1 where ob: "observe_live_resources ob c = ((snap, e), c1)" by (metis surj_pair)
  have ok: "demand_errors w = None" and s: "s = c1"
    and n: "n = (if memory_pressure s \<or> cpu_pressure s then 0 else worker_slots route w snap e s)"
    using assms(1) ob by (auto simp: worker_capacity_def split: option.splits if_splits)
  have same: "same_ledger c s" using observe_same_ledger[of c ob] ob s by simp
  obtain x where x: "worker_slots route w snap e s = max 0 (opt_min x (w_max_workers w))"
    using worker_slots_bounds[of route w snap e s] by blast
  have nn: "0 \<le> n" by (simp add: n x)
  have cap: "n \<le> k" if "w_max_workers w = Some k" for k
    using demand_signs(1)[OF ok that] opt_min_le(2)[of x k] that by (simp add: n x)
  have slots: "n = worker_slots route w snap e s" if "0 < n" using that n by (metis less_irrefl)
  have idle: "memory_pressure s \<or> cpu_pressure s \<longrightarrow> n = 0" by (simp add: n)
  show ?thesis
    using nn same cap idle ob s worker_slots_fit[OF ok slots, folded m_def, folded own_def] by blast
qed

definition demo_workers :: worker_demand where
  "demo_workers = \<lparr>w_max_workers = Some 6, w_estimated_bytes = 100, w_native_threads = 1, w_reusable_resident_bytes = 0\<rparr>"


definition demo_calm :: observation where
  "demo_calm = \<lparr>obs_reading = Probed (Some (empty_sample\<lparr>s_available_physical := Some 600\<rparr>)),
     obs_host = demo_host, obs_now = 3, obs_cpu_probe = None, obs_cpu_count = Some 8\<rparr>"

theorem worker_capacity_sound_witness:
  "\<exists>s. worker_capacity (Some ''pdf'') demo_workers demo_calm demo_admitted = (Inr 4, s)
     \<and> 4 * 100 + (reserved_bytes s - materialized_credit s
         - (m_transient_bytes (metrics_of (Some ''pdf'') s) + min (m_resident_bytes (metrics_of (Some ''pdf'') s)) 0))
         + min_free_memory_bytes s \<le> 600"
proof -
  define s where "s = snd (worker_capacity (Some ''pdf'') demo_workers demo_calm demo_admitted)"
  have "fst (worker_capacity (Some ''pdf'') demo_workers demo_calm demo_admitted) = Inr 4" by code_simp
  then have run: "worker_capacity (Some ''pdf'') demo_workers demo_calm demo_admitted = (Inr 4, s)"
    by (simp add: s_def prod_eq_iff)
  have snap: "available_physical (fst (fst (observe_live_resources demo_calm demo_admitted))) = Some 600" by code_simp
  have w: "w_estimated_bytes demo_workers = 100" "w_reusable_resident_bytes demo_workers = 0" by (simp_all add: demo_workers_def)
  from worker_capacity_sound[OF run] obtain sn e where "observe_live_resources demo_calm demo_admitted = ((sn, e), s)"
    "\<forall>a. available_physical sn = Some a \<longrightarrow> 4 * 100 + (reserved_bytes s - materialized_credit s
         - (m_transient_bytes (metrics_of (Some ''pdf'') s) + min (m_resident_bytes (metrics_of (Some ''pdf'') s)) 0))
         + min_free_memory_bytes s \<le> a"
    unfolding w by auto
  then show ?thesis using run snap by auto
qed

text \<open>
  GPU targets. A positive answer counts model replicas that fit together: their bytes beside
  what other holders reserved are within the registered capacity of the device, and, on a device
  with a probe, within the memory its last fresh observation found free once the promises that are
  not materialized are kept. An unknown or stale observation gives zero.
\<close>

theorem gpu_worker_capacity_sound:
  assumes "gpu_worker_capacity route device bytes reusable now c = Inr n"
  defines "own \<equiv> min (sum_list (map rq_gpu_bytes (filter (\<lambda>q. rq_route_name q = route \<and> device_or_default (rq_gpu_device q) = device)
                           (map (heap c) (active_reservations c))))) reusable"
  shows "0 \<le> n \<and> bytes \<le> dict_get_or (gpu_capacity c) device 0
    \<and> (0 < n \<longrightarrow> n * bytes + (dict_get_or (gpu_in_use c) device 0 - own) \<le> dict_get_or (gpu_capacity c) device 0)
    \<and> (device \<in> set (gpu_available_probes c) \<longrightarrow> 0 < n \<longrightarrow>
        (\<exists>a. gpu_available c now device = Some a
           \<and> n * bytes + (dict_get_or (gpu_in_use c) device 0 - gpu_materialized_credit c device - own) \<le> a))"
proof -
  define cap where "cap = dict_get_or (gpu_capacity c) device 0"
  define used where "used = dict_get_or (gpu_in_use c) device 0"
  define credit where "credit = gpu_materialized_credit c device"
  have pos: "0 < bytes" "bytes \<le> cap"
    using assms(1) by (auto simp: gpu_worker_capacity_def Let_def cap_def split: if_splits)
  have n: "Inr n = (if device \<in> set (gpu_available_probes c)
     then (case gpu_available c now device of None \<Rightarrow> (Inr 0 :: py_error + int)
       | Some a \<Rightarrow> Inr (max 0 (min (cap - used + own) (a - (used - credit) + own) div bytes)))
     else Inr (max 0 ((cap - used + own) div bytes)))"
    using assms(1) unfolding gpu_worker_capacity_def Let_def own_def cap_def used_def credit_def
    by (auto split: if_splits option.splits)
  show ?thesis
  proof (cases "device \<in> set (gpu_available_probes c)")
    case True
    show ?thesis
    proof (cases "gpu_available c now device")
      case None
      then show ?thesis using n True pos by (simp add: cap_def)
    next
      case (Some a)
      then have v: "n = max 0 (min (cap - used + own) (a - (used - credit) + own) div bytes)" using n True by simp
      have "n * bytes \<le> min (cap - used + own) (a - (used - credit) + own)" if "0 < n"
        by (rule units_fit[OF that _ pos(1)]) (simp only: v)
      moreover have "0 \<le> n" using v by simp
      ultimately show ?thesis using Some pos(2) by (fold cap_def used_def credit_def) auto
    qed
  next
    case False
    then have v: "n = max 0 ((cap - used + own) div bytes)" using n by simp
    have "n * bytes \<le> cap - used + own" if "0 < n"
      by (rule units_fit[OF that _ pos(1)]) (simp only: v)
    moreover have "0 \<le> n" using v by simp
    ultimately show ?thesis using False pos(2) by (fold cap_def used_def credit_def) auto
  qed
qed

definition demo_gpu :: coordinator where
  "demo_gpu = demo\<lparr>gpu_capacity := [(''default'', 100)], gpu_available_probes := [''default''],
     gpu_available_cache := [(''default'', (Some 60, 9))]\<rparr>"

theorem gpu_worker_capacity_sound_witness:
  "gpu_worker_capacity ''pdf'' ''default'' 25 0 10 demo_gpu = Inr 2 \<and> gpu_available demo_gpu 10 ''default'' = Some 60
     \<and> gpu_worker_capacity ''pdf'' ''default'' 25 0 12 demo_gpu = Inr 0
     \<and> 2 * 25 + (dict_get_or (gpu_in_use demo_gpu) ''default'' 0
         - min (sum_list (map rq_gpu_bytes (filter (\<lambda>q. rq_route_name q = ''pdf'' \<and> device_or_default (rq_gpu_device q) = ''default'')
                           (map (heap demo_gpu) (active_reservations demo_gpu))))) 0) \<le> dict_get_or (gpu_capacity demo_gpu) ''default'' 0"
proof -
  have a: "gpu_worker_capacity ''pdf'' ''default'' 25 0 10 demo_gpu = Inr 2" "gpu_available demo_gpu 10 ''default'' = Some 60"
    "gpu_worker_capacity ''pdf'' ''default'' 25 0 12 demo_gpu = Inr 0" by code_simp+
  from gpu_worker_capacity_sound[OF a(1)] a show ?thesis by simp
qed

section \<open>What the operations leave alone\<close>

lemma register_gpu_device_state:
  assumes "register_gpu_device device memory_bytes p q c = Inr s"
  obtains a b d where "s = c\<lparr>gpu_capacity := a, gpu_available_probes := b, gpu_materialized_probes := d,
      gpu_probe_generations := dict_set (gpu_probe_generations c) device (dict_get_or (gpu_probe_generations c) device 0 + 1)\<rparr>"
proof (cases "memory_bytes < 1")
  case False
  then show ?thesis
    using assms unfolding register_gpu_device_def by (simp only: if_False sum.inject) (rule that, rule sym)
qed (use assms in \<open>simp add: register_gpu_device_def\<close>)

lemma same_ledger_cancel: "same_ledger c (cancel c)"
  by (simp add: same_ledger_def coordinator_ledger.defs cancel_def)

lemma same_ledger_publish: "same_ledger c (publish_gpu stopped g c)"
  by (simp add: same_ledger_def coordinator_ledger.defs publish_gpu_def Let_def)

lemma capacity_inv_publish: "capacity_inv (publish_gpu stopped g c) = capacity_inv c" "capacity_inv (cancel c) = capacity_inv c"
  by (simp_all add: capacity_inv_def publish_gpu_def Let_def cancel_def)

lemma dict_get_publish_current:
  "distinct (map fst new) \<Longrightarrow> dict_get (publish_current current new cache) d =
     (case dict_get new d of Some v \<Rightarrow> if current d then Some v else dict_get cache d | None \<Rightarrow> dict_get cache d)"
proof (induction current new cache rule: publish_current.induct)
  case (2 current device v rest cache)
  have "device \<notin> set (dict_keys rest)" using 2 by (simp add: dict_keys_def)
  then have "dict_get rest device = None" by (simp add: dict_get_None_iff)
  then show ?case using 2 by (auto split: option.split)
qed simp
end
