(* ===== verification/Resource_Process.thy ===== *)
theory Resource_Process
  imports Resource_Devices
begin

text \<open>
  Binding a child process to a lease, \<open>ResourceGrant.register_process\<close> (\<open>resource_grants.py\<close>): the
  line of \<open>/proc/<pid>/stat\<close> is parsed, the chain of parents is followed up to the coordinator's own
  process, and the identity is read again before it is recorded. The process table is outside and
  changes while it is read: \<open>proc t pid\<close> is what the read number \<open>t\<close> answers.
\<close>

section \<open>Parsing\<close>

text \<open>\<open>str.split()\<close> and the decimal texts \<open>int\<close> accepts: white space around, a sign, single
  underscores between digits.\<close>

function split_ws :: "string \<Rightarrow> string list" where
  "split_ws s = (let t = dropWhile is_space s
     in if t = [] then [] else takeWhile (\<lambda>c. \<not> is_space c) t # split_ws (dropWhile (\<lambda>c. \<not> is_space c) t))"
  by auto
termination
proof (relation "measure length", simp)
  fix s t :: string
  assume t: "t = dropWhile is_space s" and ne: "t \<noteq> []"
  have "\<not> is_space (hd t)" unfolding t using ne hd_dropWhile[of is_space s] t by simp
  then have "length (dropWhile (\<lambda>c. \<not> is_space c) t) < length t"
    using ne by (cases t) (auto simp: le_imp_less_Suc length_dropWhile_le)
  also have "\<dots> \<le> length s" by (simp add: t length_dropWhile_le)
  finally show "(dropWhile (\<lambda>c. \<not> is_space c) t, s) \<in> measure length" by simp
qed

declare split_ws.simps [simp del]

fun underscored :: "string \<Rightarrow> bool" where
  "underscored [] = False"
| "underscored [c] = (c \<in> set ''0123456789'')"
| "underscored (c # d # s) =
     (c \<in> set ''0123456789'' \<and> (if d = CHR ''_'' then underscored s else underscored (d # s)))"

definition py_int :: "string \<Rightarrow> py_error + int" where
  "py_int txt' =
    (let t = strip txt';
         negative = (t \<noteq> [] \<and> hd t = CHR ''-'');
         body = (if t \<noteq> [] \<and> hd t \<in> set ''+-'' then tl t else t);
         digits = filter (\<lambda>c. c \<noteq> CHR ''_'') body
     in if \<not> underscored body \<or> INT_MAX_STR_DIGITS < length digits then Inl (ValueError ''int'')
        else Inr ((if negative then -1 else 1) * int (from_base 10 digits)))"

text \<open>\<open>raw[raw.rfind(")") + 2 :]\<close>; a missing parenthesis is found at \<open>-1\<close>.\<close>

definition after_comm :: "string \<Rightarrow> string" where
  "after_comm raw = drop 1 (rev (takeWhile (\<lambda>c. c \<noteq> CHR '')'') (rev raw)))"

definition field :: "nat \<Rightarrow> string list \<Rightarrow> py_error + string" where
  "field i parts = (if i < length parts then Inr (parts ! i) else Inl IndexError)"

definition parse_stat :: "string \<Rightarrow> py_error + (int \<times> int)" where
  "parse_stat raw =
    (let parts = split_ws (after_comm raw)
     in case field 1 parts of
          Inl e \<Rightarrow> Inl e
        | Inr parent \<Rightarrow> (case py_int parent of
            Inl e \<Rightarrow> Inl e
          | Inr ppid \<Rightarrow> (case field 19 parts of
              Inl e \<Rightarrow> Inl e
            | Inr start \<Rightarrow> (case py_int start of Inl e \<Rightarrow> Inl e | Inr ticks \<Rightarrow> Inr (ppid, ticks)))))"

section \<open>Following the parents\<close>

type_synonym proc_reads = "nat \<Rightarrow> int \<Rightarrow> py_error + (int \<times> int)"

partial_function (option) ancestry :: "proc_reads \<Rightarrow> int \<Rightarrow> nat \<Rightarrow> int \<Rightarrow> int list \<Rightarrow> (py_error + nat) option" where
  "ancestry proc self t current visited =
    (if current = self then Some (Inr t)
     else if current \<le> 1 \<or> current \<in> set visited
       then Some (Inl (ValueError ''resource process is outside this execution tree''))
     else (case proc t current of
         Inl e \<Rightarrow> Some (Inl e)
       | Inr (parent, started) \<Rightarrow> ancestry proc self (Suc t) parent (current # visited)))"

definition bind_process :: "rid \<Rightarrow> int \<times> int \<Rightarrow> coordinator \<Rightarrow> py_error + coordinator" where
  "bind_process r identity c =
    (if \<not> rq_admitted (heap c r) \<or> rq_released (heap c r)
       then Inl (RuntimeError ''cannot register a process on a released grant'')
     else Inr (upd_request r (\<lambda>q. q\<lparr>rq_process_identities :=
            (if identity \<in> set (rq_process_identities q) then rq_process_identities q
             else rq_process_identities q @ [identity])\<rparr>) c))"

definition register_process ::
  "proc_reads \<Rightarrow> int \<Rightarrow> int \<Rightarrow> int option \<Rightarrow> rid \<Rightarrow> coordinator \<Rightarrow> ((py_error + int \<times> int) \<times> coordinator) option" where
  "register_process proc self pid start_time_ticks r c =
    (if pid \<le> 0 \<or> pid = self
       then Some (Inl (ValueError ''a process lease binds a child, not the entire coordinator''), c)
     else (case proc 0 pid of
         Inl e \<Rightarrow> Some (Inl e, c)
       | Inr (parent, started) \<Rightarrow>
           if start_time_ticks \<noteq> None \<and> start_time_ticks \<noteq> Some started
             then Some (Inl (ValueError ''process identity changed before resource registration''), c)
           else (case ancestry proc self 1 parent [pid] of
               None \<Rightarrow> None
             | Some (Inl e) \<Rightarrow> Some (Inl e, c)
             | Some (Inr t) \<Rightarrow> (case proc t pid of
                 Inl e \<Rightarrow> Some (Inl e, c)
               | Inr again \<Rightarrow>
                   if again \<noteq> (parent, started)
                     then Some (Inl (ValueError ''process identity changed during resource registration''), c)
                   else (case bind_process r (pid, started) c of
                       Inl e \<Rightarrow> Some (Inl e, c)
                     | Inr s \<Rightarrow> Some (Inr (pid, started), s))))))"

section \<open>The walk ends\<close>

text \<open>The reads of the table say that every process of the path has the next one as its parent.\<close>

fun parent_path :: "proc_reads \<Rightarrow> nat \<Rightarrow> int list \<Rightarrow> bool" where
  "parent_path proc t (p # q # ps) = ((\<exists>started. proc t p = Inr (q, started)) \<and> parent_path proc (Suc t) (q # ps))"
| "parent_path proc t [p] = True"
| "parent_path proc t [] = False"

text \<open>Every step visits a process that was not visited before, and there are finitely many.\<close>

lemma ancestry_ends:
  assumes "\<And>t p q s. proc t p = Inr (q, s) \<Longrightarrow> q \<le> pid_max" "current \<le> pid_max"
  shows "ancestry proc self t current visited \<noteq> None"
  using assms(2)
proof (induction "card ({2..pid_max} - set visited)" arbitrary: t current visited rule: less_induct)
  case less
  show ?case
  proof (cases "current = self \<or> current \<le> 1 \<or> current \<in> set visited")
    case True
    then show ?thesis by (subst ancestry.simps) auto
  next
    case False
    then have "current \<in> {2..pid_max} - set visited" using less.prems by auto
    moreover have "{2..pid_max} - set (current # visited) = {2..pid_max} - set visited - {current}" by auto
    ultimately have "card ({2..pid_max} - set (current # visited)) < card ({2..pid_max} - set visited)"
      using card_Diff1_less[of "{2..pid_max} - set visited" current] by simp
    then have "ancestry proc self (Suc t) q (current # visited) \<noteq> None" if "proc t current = Inr (q, s)" for q s
      using less.hyps assms(1)[OF that] by blast
    moreover have "ancestry proc self t current visited = (case proc t current of
         Inl e \<Rightarrow> Some (Inl e) | Inr (parent, started) \<Rightarrow> ancestry proc self (Suc t) parent (current # visited))"
      using False by (subst ancestry.simps) simp
    ultimately show ?thesis by (cases "proc t current") auto
  qed
qed

lemma ancestry_path:
  assumes "ancestry proc self t current visited = Some (Inr t')"
  shows "\<exists>ps. parent_path proc t (ps @ [self]) \<and> hd (ps @ [self]) = current \<and> t' = t + length ps"
proof -
  define P where "P = (\<lambda>proc self t current (visited :: int list) (y :: py_error + nat). \<forall>t'. y = Inr t' \<longrightarrow>
      (\<exists>ps. parent_path proc t (ps @ [self]) \<and> hd (ps @ [self]) = current \<and> t' = t + length ps))"
  have "P proc self t current visited (Inr t')"
  proof (rule ancestry.raw_induct[where P = P, OF _ assms])
    fix walk proc self t current visited y
    assume IH: "\<And>proc self t current visited y. walk proc self t current visited = Some y \<Longrightarrow> P proc self t current visited y"
      and body: "(if current = self then Some (Inr t)
         else if current \<le> 1 \<or> current \<in> set visited
           then Some (Inl (ValueError ''resource process is outside this execution tree''))
         else case proc t current of Inl e \<Rightarrow> Some (Inl e)
           | Inr (parent, started) \<Rightarrow> walk proc self (Suc t) parent (current # visited)) = Some y"
    show "P proc self t current visited y"
      unfolding P_def
    proof (intro allI impI)
      fix t' assume y: "y = Inr t'"
      show "\<exists>ps. parent_path proc t (ps @ [self]) \<and> hd (ps @ [self]) = current \<and> t' = t + length ps"
      proof (cases "current = self")
        case True
        then show ?thesis using body y by (intro exI[of _ "[]"]) auto
      next
        case False
        then obtain q s where p: "proc t current = Inr (q, s)" and rec: "walk proc self (Suc t) q (current # visited) = Some y"
          using body y by (auto split: if_splits sum.splits)
        from IH[OF rec] y obtain ps where ps: "parent_path proc (Suc t) (ps @ [self])" "hd (ps @ [self]) = q"
          "t' = Suc t + length ps" unfolding P_def by blast
        then have "parent_path proc t ((current # ps) @ [self])" using p by (cases ps) auto
        then show ?thesis using ps(3) by (intro exI[of _ "current # ps"]) auto
      qed
    qed
  qed
  then show ?thesis by (simp add: P_def)
qed

section \<open>Registration\<close>

text \<open>
  Registration always answers. Process numbers are bounded, so whatever the table says while it
  is read - cycles, processes that vanish, parents that change - the walk over the parents ends with
  a result or an error.
\<close>

theorem register_process_returns:
  assumes "\<And>t p q s. proc t p = Inr (q, s) \<Longrightarrow> q \<le> pid_max"
  shows "\<exists>answer. register_process proc self pid ticks r c = Some answer"
proof -
  have "ancestry proc self 1 q [pid] \<noteq> None" if "proc 0 pid = Inr (q, s)" for q s
    by (rule ancestry_ends[OF assms]) (use assms[OF that] in auto)
  then show ?thesis by (auto simp: register_process_def split: sum.split)
qed

text \<open>
  Only a verified descendant is bound. When registration succeeds the process is a child and not
  the coordinator itself, the reads of the table led from it over parents to the coordinator, its
  identity was the same before and after the walk and is the one the caller expected, and the lease
  was live. The identity is recorded on that lease and nothing else changes; when registration fails
  nothing changes.
\<close>

theorem register_process_sound:
  assumes "register_process proc self pid ticks r c = Some (answer, s)"
  shows "case answer of
      Inl e \<Rightarrow> s = c
    | Inr identity \<Rightarrow> (\<exists>started parent path t.
        identity = (pid, started) \<and> 0 < pid \<and> pid \<noteq> self \<and> (ticks = None \<or> ticks = Some started)
      \<and> proc 0 pid = Inr (parent, started) \<and> proc t pid = Inr (parent, started)
      \<and> parent_path proc 0 (pid # path @ [self]) \<and> rq_admitted (heap c r) \<and> \<not> rq_released (heap c r)
      \<and> (pid, started) \<in> set (rq_process_identities (heap s r))
      \<and> (\<exists>ids. s = c\<lparr>heap := (heap c)(r := (heap c r)\<lparr>rq_process_identities := ids\<rparr>)\<rparr>))"
proof (cases answer)
  case (Inl e)
  then show ?thesis using assms by (auto simp: register_process_def split: if_splits sum.splits option.splits)
next
  case (Inr identity)
  from assms[unfolded Inr] obtain parent started t where pid: "0 < pid" "pid \<noteq> self"
    and p: "proc 0 pid = Inr (parent, started)" "ticks = None \<or> ticks = Some started"
    and walk: "ancestry proc self 1 parent [pid] = Some (Inr t)" and again: "proc t pid = Inr (parent, started)"
    and bind: "bind_process r (pid, started) c = Inr s" and i: "identity = (pid, started)"
    by (auto simp: register_process_def split: if_splits sum.splits option.splits)
  obtain path where path: "parent_path proc 1 (path @ [self])" "hd (path @ [self]) = parent" using ancestry_path[OF walk] by blast
  have chain: "parent_path proc 0 (pid # path @ [self])" using path p by (cases path) auto
  define ids where "ids = (if (pid, started) \<in> set (rq_process_identities (heap c r)) then rq_process_identities (heap c r)
             else rq_process_identities (heap c r) @ [(pid, started)])"
  have live: "rq_admitted (heap c r)" "\<not> rq_released (heap c r)"
    and s: "s = c\<lparr>heap := (heap c)(r := (heap c r)\<lparr>rq_process_identities := ids\<rparr>)\<rparr>"
    using bind by (auto simp: bind_process_def ids_def split: if_splits)
  have "(pid, started) \<in> set (rq_process_identities (heap s r))" by (simp add: s ids_def)
  then show ?thesis using Inr i pid p again chain live s by auto
qed

definition demo_proc :: proc_reads where
  "demo_proc t p = (if p = 30 then Inr (20, 900) else if p = 20 then Inr (10, 500) else if p = 40 then Inr (41, 1)
     else if p = 41 then Inr (40, 2) else Inl OSError)"

lemma demo_walk: "register_process demo_proc 10 30 (Some 900) 1 demo_admitted
    = Some (Inr (30, 900), demo_admitted\<lparr>heap := (heap demo_admitted)(1 := (heap demo_admitted 1)\<lparr>rq_process_identities := [(30, 900)]\<rparr>)\<rparr>)"
proof -
  have a: "ancestry demo_proc 10 1 20 [30] = Some (Inr 2)"
    by (subst ancestry.simps, simp add: demo_proc_def, subst ancestry.simps, simp)
  have h: "rq_admitted (heap demo_admitted 1)" "\<not> rq_released (heap demo_admitted 1)" "rq_process_identities (heap demo_admitted 1) = []"
    by code_simp+
  have p: "demo_proc t 30 = Inr (20, 900)" for t by (simp add: demo_proc_def)
  show ?thesis by (simp add: register_process_def p a[unfolded One_nat_def] bind_process_def h[unfolded One_nat_def])
qed

theorem register_process_sound_witness:
  "\<exists>path s. register_process demo_proc 10 30 (Some 900) 1 demo_admitted = Some (Inr (30, 900), s)
     \<and> parent_path demo_proc 0 (30 # path @ [10]) \<and> (30, 900) \<in> set (rq_process_identities (heap s 1))"
  using register_process_sound[OF demo_walk] demo_walk by auto

theorem register_process_returns_witness:
  "\<exists>answer. register_process demo_proc 10 40 None 1 demo_admitted = Some answer"
proof (rule register_process_returns)
  show "demo_proc t p = Inr (q, s) \<Longrightarrow> q \<le> 41" for t p q s by (auto simp: demo_proc_def split: if_splits)
qed

section \<open>Reading a printed line\<close>

lemma underscored_digits: "ds \<noteq> [] \<Longrightarrow> set ds \<subseteq> set ''0123456789'' \<Longrightarrow> underscored ds"
  by (induction ds rule: underscored.induct) auto

lemma length_dec_of: "n < 10 ^ Suc k \<Longrightarrow> length (dec_of n) \<le> Suc k"
proof (induction k arbitrary: n)
  case (Suc k)
  show ?case
  proof (cases "n < 10")
    case False
    have "n div 10 < 10 ^ Suc k" using Suc.prems by (simp add: less_mult_imp_div_less mult.commute)
    then show ?thesis using Suc.IH[of "n div 10"] False by (subst to_base.simps) simp
  qed (subst to_base.simps, simp)
qed (subst to_base.simps, simp)

lemma py_int_dec_of:
  assumes "n < 2 ^ 64"
  shows "py_int (dec_of n) = Inr (int n)"
proof -
  have dec: "dec_of n \<noteq> []" "set (dec_of n) \<subseteq> set ''0123456789''"
    using is_decimal_dec_of[of n] unfolding is_decimal_def list_all_iff by blast+
  then have "hd (dec_of n) \<in> set ''0123456789''" by (meson hd_in_set subsetD)
  moreover have "c \<in> set ''0123456789'' \<Longrightarrow> c \<notin> set ''+-'' \<and> c \<noteq> CHR ''-''" for c by auto
  ultimately have h: "hd (dec_of n) \<notin> set ''+-''" "hd (dec_of n) \<noteq> CHR ''-''" by blast+
  have "CHR ''_'' \<notin> set ''0123456789''" by simp
  then have "CHR ''_'' \<notin> set (dec_of n)" using dec(2) by blast
  then have f: "filter (\<lambda>c. c \<noteq> CHR ''_'') (dec_of n) = dec_of n"
    by (auto simp: filter_id_conv)
  have len: "length (dec_of n) \<le> INT_MAX_STR_DIGITS" using length_dec_of[of n 19] assms by (simp add: INT_MAX_STR_DIGITS_def)
  have st: "strip (dec_of n) = dec_of n" by (rule to_base_plain(5)) simp_all
  have v: "from_base 10 (dec_of n) = n" by (rule from_to_base) simp_all
  show ?thesis
    unfolding py_int_def Let_def st using h f len v underscored_digits[OF dec] by simp
qed

definition spaced :: "string list \<Rightarrow> string" where
  "spaced ws = concat (map (\<lambda>w. CHR '' '' # w) ws)"

definition word_ok :: "string \<Rightarrow> bool" where
  "word_ok w \<longleftrightarrow> w \<noteq> [] \<and> list_all (\<lambda>c. \<not> is_space c \<and> c \<noteq> CHR '')'') w"

lemma word_ok_dec_of: "word_ok (dec_of n)"
proof -
  have "c \<in> set ''0123456789'' \<Longrightarrow> \<not> is_space c \<and> c \<noteq> CHR '')''" for c by (auto simp: is_space_def)
  then show ?thesis using is_decimal_dec_of[of n] by (simp only: word_ok_def is_decimal_def list_all_iff) blast
qed

lemma split_spaced:
  assumes "list_all word_ok ws" "list_all is_space tail"
  shows "split_ws (spaced ws @ tail) = ws"
  using assms(1)
proof (induction ws)
  case Nil
  have "dropWhile is_space tail = []" using assms(2) by (simp add: list_all_iff)
  then show ?case by (simp add: spaced_def split_ws.simps[of tail])
next
  case (Cons w ws)
  define rest where "rest = spaced ws @ tail"
  obtain c cs where w: "w = c # cs" using Cons.prems by (cases w) (auto simp: word_ok_def)
  have plain: "\<forall>c \<in> set w. \<not> is_space c" using Cons.prems by (simp add: word_ok_def list_all_iff)
  have r: "rest = [] \<or> is_space (hd rest)"
  proof (cases ws)
    case Nil
    then show ?thesis using assms(2) by (cases tail) (auto simp: rest_def spaced_def)
  next
    case (Cons v vs)
    then show ?thesis by (simp add: rest_def spaced_def is_space_def)
  qed
  then have "takeWhile (\<lambda>c. \<not> is_space c) (w @ rest) = w" "dropWhile (\<lambda>c. \<not> is_space c) (w @ rest) = rest"
    using plain by (simp_all add: takeWhile_append2 dropWhile_append2) (cases rest; simp)+
  moreover have "dropWhile is_space (spaced (w # ws) @ tail) = w @ rest"
    using plain by (simp add: spaced_def rest_def is_space_def[of "CHR '' ''"]) (simp add: w)
  ultimately show ?case
    using Cons by (subst split_ws.simps) (simp add: w rest_def)
qed

text \<open>
  The name of a process cannot forge its parent. For every command name - with spaces, brackets
  or closing parentheses in it - parsing the line the kernel prints gives back the parent and the
  start time it printed.
\<close>

theorem parse_stat_roundtrip:
  assumes "list_all word_ok ws" "20 \<le> length ws" "ws ! 1 = dec_of parent" "ws ! 19 = dec_of start"
    "parent < 2 ^ 64" "start < 2 ^ 64"
  shows "parse_stat (dec_of pid @ '' ('' @ comm @ '')'' @ spaced ws @ [CHR 0x0A]) = Inr (int parent, int start)"
proof -
  have no: "list_all (\<lambda>c. c \<noteq> CHR '')'') (spaced ws @ [CHR 0x0A])"
    using assms(1) by (auto simp: spaced_def list_all_iff word_ok_def)
  have "takeWhile (\<lambda>c. c \<noteq> CHR '')'') (rev (spaced ws @ [CHR 0x0A]) @ CHR '')'' # rest) = rev (spaced ws @ [CHR 0x0A])" for rest
    using no by (subst takeWhile_append2) (auto simp: list_all_iff)
  from this[of "rev (dec_of pid @ '' ('' @ comm)"]
  have after: "after_comm (dec_of pid @ '' ('' @ comm @ '')'' @ spaced ws @ [CHR 0x0A]) = drop 1 (spaced ws @ [CHR 0x0A])"
    by (simp add: after_comm_def)
  have "split_ws (drop 1 (spaced ws @ [CHR 0x0A])) = split_ws (spaced ws @ [CHR 0x0A])"
    using assms(2) by (cases ws) (auto simp: spaced_def is_space_def split_ws.simps[of "CHR '' '' # _"] split_ws.simps)
  also have "\<dots> = ws" using assms(1) by (rule split_spaced) (simp add: is_space_def)
  finally have split: "split_ws (drop 1 (spaced ws @ [CHR 0x0A])) = ws" .
  have "py_int (ws ! 1) = Inr (int parent)" "py_int (ws ! 19) = Inr (int start)"
    using assms(3-6) py_int_dec_of by metis+
  then show ?thesis
    unfolding parse_stat_def after split Let_def field_def using assms(2) by simp
qed

theorem parse_stat_roundtrip_witness:
  "parse_stat (dec_of 42 @ '' ('' @ '') R 1 ('' @ '')'' @ spaced ([''S'', dec_of 7] @ replicate 17 ''0'' @ [dec_of 99, ''x'']) @ [CHR 0x0A])
     = Inr (7, 99)"
proof -
  have "list_all word_ok ([''S'', dec_of 7] @ replicate 17 ''0'' @ [dec_of 99, ''x''])"
    by (simp add: word_ok_dec_of list_all_iff) (simp add: word_ok_def is_space_def)
  from parse_stat_roundtrip[OF this, of 7 99 42 "'') R 1 (''"] show ?thesis by (simp add: nth_append)
qed
end
