(* ===== verification/Resource_System.thy ===== *)
theory Resource_System
  imports Resource_Preservation Resource_Scheduling Resource_Process
begin

text \<open>
  The coordinator as a transition system. Threads call it under one lock, so an execution is a
  sequence of the operations below in any order, each of which an asynchronous exception may stop
  at any statement. Two locales state what the clients of an accounting rely on; they are
  interpreted on the totals and on the device tables of the coordinator.
\<close>

section \<open>Accounting interfaces\<close>

text \<open>A system keeps running totals of what a specification computes from the state.\<close>

locale accounting =
  fixes inv :: "'s \<Rightarrow> bool" and step :: "'s \<Rightarrow> 's \<Rightarrow> bool"
    and counter :: "'k \<Rightarrow> 's \<Rightarrow> int" and owed :: "'k \<Rightarrow> 's \<Rightarrow> int"
  assumes step_inv: "inv s \<Longrightarrow> step s t \<Longrightarrow> inv t"
    and counter_owed: "inv s \<Longrightarrow> counter k s = owed k s"
begin

lemma reachable_inv: "step\<^sup>*\<^sup>* s t \<Longrightarrow> inv s \<Longrightarrow> inv t"
  by (induction rule: rtranclp_induct) (auto intro: step_inv)

lemma reachable_counter: "step\<^sup>*\<^sup>* s t \<Longrightarrow> inv s \<Longrightarrow> counter k t = owed k t"
  using reachable_inv counter_owed by blast

end

text \<open>An idle state owes nothing, so no counter can leak.\<close>

locale leak_free = accounting +
  fixes idle :: "'s \<Rightarrow> bool"
  assumes idle_owes_nothing: "inv s \<Longrightarrow> idle s \<Longrightarrow> owed k s = 0"
begin

lemma no_leak: "step\<^sup>*\<^sup>* s t \<Longrightarrow> inv s \<Longrightarrow> idle t \<Longrightarrow> counter k t = 0"
  using reachable_counter reachable_inv idle_owes_nothing by metis

end

section \<open>Steps\<close>

text \<open>A request object as \<open>admission_scope\<close> builds it.\<close>

definition new_request_ok :: "coordinator \<Rightarrow> request \<Rightarrow> bool" where
  "new_request_ok c rq \<longleftrightarrow> rq_route_name rq \<in> set (route_order c) \<and> \<not> rq_admitted rq \<and> \<not> rq_released rq
     \<and> \<not> rq_execution_active rq \<and> amounts_ok rq \<and> canonical_device (rq_io_device rq)
     \<and> (rq_draining_from rq \<noteq> None \<longrightarrow> rq_resident_bytes rq = 0 \<and> rq_transient_bytes rq = 0 \<and> rq_temp_bytes rq = 0)"

definition mark_waited :: "rid \<Rightarrow> coordinator \<Rightarrow> coordinator" where
  "mark_waited r c =
    (if rq_waited (heap c r) then c
     else upd_metrics (rq_route_name (heap c r)) (\<lambda>m. m\<lparr>m_waits := m_waits m + 1\<rparr>)
            (upd_request r (\<lambda>q. q\<lparr>rq_waited := True\<rparr>) c))"

inductive step :: "coordinator \<Rightarrow> coordinator \<Rightarrow> bool" where
  Enqueue: "r \<notin> set (active_reservations c) \<Longrightarrow> (\<And>n. r \<notin> set (queues c n)) \<Longrightarrow> new_request_ok c rq \<Longrightarrow>
    step c (enqueue r rq c)"
| Schedule: "observe_live_resources ob c = ((snap, e), c1) \<Longrightarrow> next_route c1 now free snap e = (choice, c') \<Longrightarrow> step c c'"
| Grant: "observe_live_resources ob c = ((snap, e), c1) \<Longrightarrow> next_route c1 now free snap e = (Some n, c') \<Longrightarrow>
    rq_route_name (heap c' r) = n \<Longrightarrow> grantable r c' \<Longrightarrow> grant_request k r i t c' = (committed, s) \<Longrightarrow> step c s"
| Wait: "rq_queued (heap c r) \<Longrightarrow> r \<notin> set (active_reservations c) \<Longrightarrow> step c (mark_waited r c)"
| Discard: "rq_queued (heap c r) \<Longrightarrow> step c (discard_queued_request t r c)"
| Release: "r \<in> set (active_reservations c) \<Longrightarrow> release_admission k r c = (committed, s) \<Longrightarrow> step c s"
| Release_Execution: "r \<in> set (active_reservations c) \<Longrightarrow> step c (release_execution r c)"
| Shrink: "r \<in> set (active_reservations c) \<Longrightarrow> shrink_transient_bytes r amount c = Inr s \<Longrightarrow> step c s"
| Resize: "r \<in> set (active_reservations c) \<Longrightarrow> resize_temp_bytes r amount fd free stopped c = Inr s \<Longrightarrow> step c s"
| Register: "register_route name c = Inr s \<Longrightarrow> step c s"
| Observe: "observe_live_resources ob c = (answer, s) \<Longrightarrow> step c s"
| Cancel: "step c (cancel c)"
| Register_Gpu: "register_gpu_device device capacity probe1 probe2 c = Inr s \<Longrightarrow> step c s"
| Publish_Gpu: "step c (publish_gpu stopped g c)"
| Bind_Process: "r \<in> set (active_reservations c) \<Longrightarrow> bind_process r identity c = Inr s \<Longrightarrow> step c s"
| Temp_Budget: "lim_temp_budget_bytes (limits c) = None \<Longrightarrow> step c (c\<lparr>temp_budget_bytes := b\<rparr>)"

section \<open>Every step keeps the invariant\<close>

lemma ledger_inv_adapt: "ledger_inv c \<Longrightarrow> ledger_inv (adapt_head e n c)"
proof -
  assume inv: "ledger_inv c"
  have old: "distinct (queues c m)" "\<And>r. r \<in> set (queues c m) \<Longrightarrow> waiting_ok c m r" for m
    using inv by (auto simp: ledger_inv_def)
  define s where "s = adapt_head e n c"
  obtain h where s: "s = c\<lparr>heap := h\<rparr>" using adapt_head_frame[of e n c] s_def by metis
  have hp: "heap s r = heap c r" if "r \<notin> set (queues c n)" for r
    using that by (auto simp: s_def adapt_head_def Let_def split: list.splits)
  have live: "r \<notin> set (queues c n)" if "r \<in> set (active_reservations c)" for r
    using that inv by (auto simp: ledger_inv_def lease_ok_def waiting_ok_def)
  have wait: "waiting_ok s m r" if "waiting_ok c m r" for m r
    using that by (auto simp: s_def adapt_head_def Let_def waiting_ok_def amounts_ok_def split: list.splits)
  have k: "global_counter x s = global_counter x c" for x by (cases x) (simp_all add: s)
  have "ledger_inv s"
    by (rule ledger_inv_queues[OF inv]) (use old wait hp live k in \<open>auto simp: s\<close>)
  then show ?thesis by (simp add: s_def)
qed

lemma ledger_inv_next_route: "ledger_inv c \<Longrightarrow> next_route c now free snap e = (choice, c') \<Longrightarrow> ledger_inv c'"
proof -
  have "ledger_inv c \<Longrightarrow> ledger_inv (fold (adapt_head e) ns c)" for ns c
    by (induction ns arbitrary: c) (auto simp: ledger_inv_adapt)
  then show "ledger_inv c \<Longrightarrow> next_route c now free snap e = (choice, c') \<Longrightarrow> ledger_inv c'"
    by (auto simp: next_route_def Let_def)
qed

lemma ledger_inv_mark_waited:
  assumes inv: "ledger_inv c" and r: "r \<notin> set (active_reservations c)"
  shows "ledger_inv (mark_waited r c)"
proof (rule ledger_inv_queues[OF inv])
  have old: "distinct (queues c m)" "\<And>r. r \<in> set (queues c m) \<Longrightarrow> waiting_ok c m r" for m
    using inv by (auto simp: ledger_inv_def)
  show "global_counter x (mark_waited r c) = global_counter x c" for x
    by (cases x) (simp_all add: mark_waited_def)
  show "route_counter x (metrics (mark_waited r c) n) = route_counter x (metrics c n)" for x n
    by (cases x) (simp_all add: mark_waited_def)
  show "distinct (queues (mark_waited r c) n)" for n using old(1) by (simp add: mark_waited_def)
  show "waiting_ok (mark_waited r c) n r'" if "r' \<in> set (queues (mark_waited r c) n)" for n r'
  proof -
    have "queues (mark_waited r c) = queues c" by (simp add: mark_waited_def)
    then have "waiting_ok c n r'" using old(2) that by simp
    then show ?thesis by (auto simp: mark_waited_def waiting_ok_def amounts_ok_def)
  qed
qed (use r in \<open>auto simp: mark_waited_def\<close>)

lemma same_ledger_fields:
  assumes "same_ledger c s"
  shows "active_reservations s = active_reservations c" "resident_claims s = resident_claims c" "heap s = heap c"
    "metrics s = metrics c" "io_in_use s = io_in_use c" "gpu_in_use s = gpu_in_use c" "route_order s = route_order c"
    "queues s = queues c" "global_counter x s = global_counter x c"
  using assms by (cases x; simp add: same_ledger_def coordinator_ledger.defs)+

lemma ledger_inv_same_ledger:
  assumes inv: "ledger_inv c" and same: "same_ledger c s"
  shows "ledger_inv s"
  by (rule ledger_inv_queues[OF inv])
    (use inv same_ledger_fields[OF same] in \<open>auto simp: ledger_inv_def waiting_ok_def\<close>)

lemma ledger_inv_observe: "ledger_inv c \<Longrightarrow> observe_live_resources ob c = (answer, s) \<Longrightarrow> ledger_inv s"
  using ledger_inv_same_ledger observe_same_ledger[of c ob] by simp

lemma ledger_inv_temp_budget: "ledger_inv c \<Longrightarrow> ledger_inv (c\<lparr>temp_budget_bytes := b\<rparr>)"
proof -
  assume inv: "ledger_inv c"
  have "global_counter x (c\<lparr>temp_budget_bytes := b\<rparr>) = global_counter x c" for x by (cases x) simp_all
  then show ?thesis
    by (intro ledger_inv_queues[OF inv]) (use inv in \<open>auto simp: ledger_inv_def waiting_ok_def\<close>)
qed

lemma ledger_inv_cancel: "ledger_inv c \<Longrightarrow> ledger_inv (cancel c)"
  using ledger_inv_same_ledger same_ledger_cancel by blast

lemma ledger_inv_publish: "ledger_inv c \<Longrightarrow> ledger_inv (publish_gpu stopped g c)"
  using ledger_inv_same_ledger same_ledger_publish by blast

lemma ledger_inv_register_gpu:
  assumes inv: "ledger_inv c" and run: "register_gpu_device device capacity probe1 probe2 c = Inr s"
  shows "ledger_inv s"
proof -
  obtain a b d g where s: "s = c\<lparr>gpu_capacity := a, gpu_available_probes := b, gpu_materialized_probes := d, gpu_probe_generations := g\<rparr>"
    using register_gpu_device_state[OF run] by metis
  have "global_counter x s = global_counter x c" for x by (cases x) (simp_all add: s)
  then show ?thesis
    by (intro ledger_inv_queues[OF inv]) (use inv in \<open>auto simp: s ledger_inv_def waiting_ok_def\<close>)
qed

lemma ledger_inv_bind_process:
  assumes inv: "ledger_inv c" and r: "r \<in> set (active_reservations c)" and run: "bind_process r identity c = Inr s"
  shows "ledger_inv s"
proof -
  define q where "q = heap s r"
  obtain ids where s: "s = c\<lparr>heap := (heap c)(r := (heap c r)\<lparr>rq_process_identities := ids\<rparr>)\<rparr>"
    using run unfolding bind_process_def by (cases "\<not> rq_admitted (heap c r) \<or> rq_released (heap c r)") (simp, simp only: if_False sum.inject, metis)
  have q: "q = (heap c r)\<lparr>rq_process_identities := ids\<rparr>" by (simp add: q_def s)
  have lease: "lease_ok c r" using inv r by (simp add: ledger_inv_def)
  then have "lease_ok s r" by (simp add: lease_ok_def s amounts_ok_def devices_known_def executes_def)
  moreover have "counters_move (\<lambda>x. own_charge x q - own_charge x (heap c r)) (rq_route_name (heap c r)) c s"
    by (simp add: counters_move_def all_resource own_charge_def s q_def)
  ultimately show ?thesis
    by (intro ledger_inv_update[OF inv r, where q = q]) (simp_all add: s q device_add_def)
qed

lemma list_tl_subset: "set (tl xs) \<subseteq> set xs"
  by (cases xs) auto

lemma step_ledger_inv: "step c s \<Longrightarrow> ledger_inv c \<Longrightarrow> ledger_inv s"
proof (induction rule: step.induct)
  case (Enqueue r c rq)
  then show ?case by (intro ledger_inv_enqueue) (auto simp: new_request_ok_def)
next
  case (Grant ob c snap e c1 now free n c' r k i t committed s)
  have inv: "ledger_inv c'" using Grant by (meson ledger_inv_next_route ledger_inv_observe)
  show ?case
  proof (cases committed)
    case True
    then show ?thesis using Grant inv by (auto intro: ledger_inv_grant)
  next
    case False
    then have "grant_request k r i t c' = (False, s)" using Grant by simp
    note rb = grant_rollback_state[OF \<open>grantable r c'\<close> this]
    have "distinct (queues c' (rq_route_name (heap c' r)))" using inv by (simp add: ledger_inv_def)
    then show ?thesis
      by (intro ledger_inv_grant_interrupted[OF inv \<open>grantable r c'\<close> rb]) (simp_all add: distinct_tl list_tl_subset)
  qed
next
  case (Discard c r t)
  then show ?case by (intro ledger_inv_discard) (auto simp: ledger_inv_def lease_ok_def)
next
  case (Release r c k committed s)
  then show ?case by (cases committed) (auto intro: ledger_inv_release ledger_inv_release_interrupted)
next
  case (Schedule ob c snap e c1 now free choice c')
  then show ?case by (meson ledger_inv_next_route ledger_inv_observe)
qed (auto intro: ledger_inv_observe ledger_inv_temp_budget ledger_inv_mark_waited ledger_inv_release_execution ledger_inv_shrink
    ledger_inv_resize_temp ledger_inv_register_route ledger_inv_cancel ledger_inv_publish ledger_inv_register_gpu
    ledger_inv_bind_process)

section \<open>Interpretations\<close>

lemma held_idle:
  assumes "ledger_inv c" "active_reservations c = []"
  shows "held sel x c = 0"
proof -
  have "claim_max cl = 0" if "(key, cl) \<in> set (resident_claims c)" for key cl
  proof -
    have ok: "claims_ok c" using assms(1) by (simp add: ledger_inv_def)
    then have "dict_get (resident_claims c) key = Some cl" using that by (simp add: dict_get_Some_iff claims_ok_def)
    then have cl: "dict_get_or (resident_claims c) key [] = cl" by (simp add: dict_get_or_def)
    have "dict_get (dict_get_or (resident_claims c) key []) r = None" for r
      using ok assms(2) by (cases key) (simp add: claims_ok_def)
    then have "cl = []" unfolding cl by (cases cl) (auto split: if_splits, metis option.distinct(1))
    then show ?thesis by simp
  qed
  then have "claims_total sel (resident_claims c) = 0"
    unfolding claims_total_def by (intro sum_on_zero) auto
  then show ?thesis by (simp add: held_def live_sum_def assms(2))
qed

interpretation totals: leak_free ledger_inv step global_counter "held (\<lambda>n. True)" "\<lambda>c. active_reservations c = []"
proof unfold_locales
  show "ledger_inv s \<Longrightarrow> step s t \<Longrightarrow> ledger_inv t" for s t using step_ledger_inv by blast
  show "ledger_inv s \<Longrightarrow> global_counter k s = held (\<lambda>n. True) k s" for k s by (simp add: ledger_inv_def)
  show "ledger_inv s \<Longrightarrow> active_reservations s = [] \<Longrightarrow> held (\<lambda>n. True) k s = 0" for k s by (rule held_idle)
qed

interpretation io_devices: leak_free ledger_inv step "\<lambda>d c. dict_get_or (io_in_use c) d 0"
  "device_held rq_io_device rq_io_slots" "\<lambda>c. active_reservations c = []"
  by unfold_locales (auto simp: step_ledger_inv, auto simp: ledger_inv_def device_held_def live_sum_def)

interpretation gpu_devices: leak_free ledger_inv step "\<lambda>d c. dict_get_or (gpu_in_use c) d 0"
  "device_held rq_gpu_device rq_gpu_bytes" "\<lambda>c. active_reservations c = []"
  by unfold_locales (auto simp: step_ledger_inv, auto simp: ledger_inv_def device_held_def live_sum_def)

section \<open>Properties\<close>

lemma init_ledger_inv: "init routes lms budgets sample host cpus free p1 p2 stopped = Inr c \<Longrightarrow> ledger_inv c"
  by (auto simp: init_def Let_def ledger_inv_initial split: if_splits sum.splits)



section \<open>Witnesses\<close>

text \<open>No capacity of a GPU is lowered.\<close>

definition keeps_gpu :: "coordinator \<Rightarrow> coordinator \<Rightarrow> bool" where
  "keeps_gpu c s \<longleftrightarrow> (\<forall>d. dict_get_or (gpu_capacity c) d 0 \<le> dict_get_or (gpu_capacity s) d 0)"

lemma keeps_gpu_same: "gpu_capacity s = gpu_capacity c \<Longrightarrow> keeps_gpu c s"
  by (simp add: keeps_gpu_def)

lemma demo_steps:
  obtains s t where "step\<^sup>*\<^sup>* demo s" "active_reservations s = [1]" "step s t" "active_reservations t = []"
    "(\<lambda>a b. step a b \<and> keeps_gpu a b)\<^sup>*\<^sup>* demo s" "io_device_slots s = io_device_slots demo" "gpu_capacity s = gpu_capacity demo"
proof -
  have "new_request_ok demo demo_request" by code_simp
  then have e: "step demo demo_waiting"
    unfolding demo_waiting_def by (intro step.Enqueue) (simp_all add: demo_def initial_state_def)
  define ob where "ob = \<lparr>obs_reading = Probed None, obs_host = demo_host, obs_now = 0, obs_cpu_probe = None, obs_cpu_count = Some 8\<rparr>"
  define c1 where "c1 = snd (observe_live_resources ob demo_waiting)"
  define c' where "c' = snd (next_route c1 0 900 demo_host 4)"
  have "fst (observe_live_resources ob demo_waiting) = (demo_host, 4)" unfolding ob_def by code_simp
  then have obs: "observe_live_resources ob demo_waiting = ((demo_host, 4), c1)" by (simp add: c1_def prod_eq_iff)
  have "fst (next_route c1 0 900 demo_host 4) = Some ''pdf''" unfolding c1_def ob_def by code_simp
  then have nr: "next_route c1 0 900 demo_host 4 = (Some ''pdf'', c')" by (simp add: c'_def prod_eq_iff)
  have g: "grantable 1 c'" and n: "rq_route_name (heap c' 1) = ''pdf''" and a: "active_reservations c' = []"
    unfolding c'_def c1_def ob_def by code_simp+
  obtain s where run: "grant_request 51 1 0 7 c' = (True, s)" using grant_request_commits[OF g, of 51] by auto
  have s: "active_reservations s = [1]" using grant_request_effect(4)[OF run] a by (simp add: table_insert_def)
  have st: "step demo_waiting s" by (rule step.Grant[OF obs nr n g run])
  have inv: "ledger_inv s" using ledger_inv_demo step_ledger_inv[OF st] by simp
  then have lease: "lease_ok s 1" using s by (simp add: ledger_inv_def)
  then obtain t where rel: "release_admission 21 1 s = (True, t)"
    using release_admission_commits[of s 1 21] by (auto simp: lease_ok_def)
  have "active_reservations t = []"
    using release_admission_effect(4)[OF rel] lease s by (simp add: lease_ok_def)
  moreover have "step s t" using s rel by (intro step.Release) simp_all
  moreover have "step\<^sup>*\<^sup>* demo s" using e st by auto
  moreover have same: "gpu_capacity s = gpu_capacity demo" "io_device_slots s = io_device_slots demo"
    "gpu_capacity demo_waiting = gpu_capacity demo"
  proof -
    show "gpu_capacity demo_waiting = gpu_capacity demo" by (simp add: demo_waiting_def enqueue_def Let_def)
    have "gpu_capacity c' = gpu_capacity demo" "io_device_slots c' = io_device_slots demo"
      unfolding c'_def c1_def ob_def by code_simp+
    then show "gpu_capacity s = gpu_capacity demo" "io_device_slots s = io_device_slots demo"
      using surroundings_fields[of s c'] grant_request_surroundings[of 51 1 0 7 c'] run by simp_all
  qed
  moreover have "(\<lambda>a b. step a b \<and> keeps_gpu a b)\<^sup>*\<^sup>* demo s"
    by (rule rtranclp.rtrancl_into_rtrancl[OF r_into_rtranclp]) (use e st same in \<open>auto intro: keeps_gpu_same\<close>)
  ultimately show ?thesis using that s by blast
qed



section \<open>Configured device limits\<close>

text \<open>
  \<open>quiet c s\<close>: the configured limits are the same, but that a GPU may have been registered with
  more memory, the device of every request is the same, no queue has a new member and no device has
  more in use. A driver may also report less memory than a device had, while leases hold what it had:
  the limit of a GPU is for executions in which no registration lowers a capacity.
\<close>

definition quiet :: "coordinator \<Rightarrow> coordinator \<Rightarrow> bool" where
  "quiet c s \<longleftrightarrow> io_device_slots s = io_device_slots c \<and> keeps_gpu c s
     \<and> (\<forall>r. rq_io_device (heap s r) = rq_io_device (heap c r)) \<and> (\<forall>n. set (queues s n) \<subseteq> set (queues c n))
     \<and> (\<forall>d. dict_get_or (io_in_use s) d 0 \<le> dict_get_or (io_in_use c) d 0)
     \<and> (\<forall>d. dict_get_or (gpu_in_use s) d 0 \<le> dict_get_or (gpu_in_use c) d 0)"

lemma quiet_width:
  assumes "width_only c c'"
  shows "quiet c c'"
proof -
  have "rq_io_device (heap c' r) = rq_io_device (heap c r)" for r
  proof -
    obtain a b where "heap c' r = (heap c r)\<lparr>rq_cpu_slots := a, rq_native_threads := b\<rparr>"
      using assms unfolding width_only_def by blast
    then show ?thesis by simp
  qed
  moreover obtain h where "c' = c\<lparr>heap := h\<rparr>" using assms unfolding width_only_def by blast
  ultimately show ?thesis by (simp add: quiet_def keeps_gpu_def)
qed

lemma quiet_release:
  assumes inv: "ledger_inv c" and r: "r \<in> set (active_reservations c)" and run: "release_admission k r c = (committed, s)"
  shows "quiet c s"
proof (cases committed)
  case True
  have lease: "lease_ok c r" using inv r by (simp add: ledger_inv_def)
  then have live: "rq_admitted (heap c r)" "\<not> rq_released (heap c r)" and am: "amounts_ok (heap c r)"
    by (auto simp: lease_ok_def)
  have run': "release_admission k r c = (True, s)" using run True by simp
  note e = release_admission_effect[OF run' live]
  note f = surroundings_fields[of s c]
  have "surroundings s = surroundings c" using release_admission_surroundings[of k r c] run by simp
  then show ?thesis
    using am f by (auto simp: quiet_def keeps_gpu_def e device_add_get amounts_ok_def)
next
  case False
  then have "release_admission k r c = (False, s)" using run by simp
  from release_rollback_state[OF this] show ?thesis by (simp add: quiet_def keeps_gpu_def)
qed

lemma quiet_release_execution:
  assumes inv: "ledger_inv c" and r: "r \<in> set (active_reservations c)"
  shows "quiet c (release_execution r c)"
proof -
  have "amounts_ok (heap c r)" using inv r by (simp add: ledger_inv_def lease_ok_def)
  then show ?thesis
    by (auto simp: quiet_def keeps_gpu_def release_execution_def Let_def amounts_ok_def dict_get_or_set)
qed

lemma quiet_refl: "quiet c c"
  by (simp add: quiet_def keeps_gpu_def)

lemma quiet_discard: "quiet c (discard_queued_request t r c)"
  by (auto simp: quiet_def keeps_gpu_def discard_queued_request_def record_wait_def Let_def dest: set_remove1_subset[THEN subsetD])

lemma quiet_register: "register_route name c = Inr s \<Longrightarrow> quiet c s"
  by (auto simp: quiet_def keeps_gpu_def register_route_def Let_def split: if_splits)

lemma quiet_resize: "resize_temp_bytes r amount fd free stopped c = Inr s \<Longrightarrow> quiet c s"
  by (drule resize_temp_state(2)) (auto simp: quiet_def keeps_gpu_def)

lemma quiet_shrink: "shrink_transient_bytes r amount c = Inr s \<Longrightarrow> quiet c s"
  by (auto simp: quiet_def keeps_gpu_def shrink_transient_bytes_def Let_def split: if_splits)

lemma quiet_observe: "observe_live_resources ob c = (answer, s) \<Longrightarrow> quiet c s"
  using same_ledger_fields[OF observe_same_ledger[of c ob]] same_ledger_config[OF observe_same_ledger[of c ob]]
  by (simp add: quiet_def keeps_gpu_def)

definition caps_inv :: "bool \<Rightarrow> coordinator \<Rightarrow> bool" where
  \<comment> \<open>the Boolean says whether the GPU limits are claimed\<close>
  "caps_inv g c \<longleftrightarrow>
     (\<forall>n. \<forall>r \<in> set (queues c n). canonical_device (rq_io_device (heap c r)))
   \<and> (\<forall>d v. dict_get (io_device_slots c) d = Some v \<longrightarrow> dict_get_or (io_in_use c) d 0 \<le> max 1 v)
   \<and> (g \<longrightarrow> (\<forall>d. dict_get_or (gpu_in_use c) d 0 \<le> max 0 (dict_get_or (gpu_capacity c) d 0)))"

lemma caps_inv_quiet: "caps_inv g c \<Longrightarrow> quiet c s \<Longrightarrow> caps_inv g s"
proof -
  assume caps: "caps_inv g c" and q: "quiet c s"
  have "dict_get_or (gpu_in_use s) d 0 \<le> max 0 (dict_get_or (gpu_capacity s) d 0)" if g for d
  proof -
    have "dict_get_or (gpu_in_use c) d 0 \<le> max 0 (dict_get_or (gpu_capacity c) d 0)" using caps that by (simp add: caps_inv_def)
    moreover have "dict_get_or (gpu_in_use s) d 0 \<le> dict_get_or (gpu_in_use c) d 0"
      "dict_get_or (gpu_capacity c) d 0 \<le> dict_get_or (gpu_capacity s) d 0" using q by (simp_all add: quiet_def keeps_gpu_def)
    ultimately show ?thesis by linarith
  qed
  then show ?thesis using caps q unfolding caps_inv_def quiet_def by (metis order.trans subsetD)
qed

lemma next_route_head_fits:
  assumes "next_route c now free snap e = (Some n, c')" "grantable r c'" "rq_route_name (heap c' r) = n"
  shows "fits c' now free (heap c' r) snap e"
proof -
  have "head_fits c' now free snap e n"
    using assms(1) pick_route_Some(1) by (fastforce simp: next_route_def Let_def)
  then show ?thesis
    using assms(2,3) by (auto simp: head_fits_def grantable_def split: list.splits)
qed

lemma caps_inv_grant:
  assumes caps: "caps_inv g c" and g: "grantable r c" and fit: "fits c now free (heap c r) snap e"
    and run: "grant_request k r i t c = (True, s)"
  shows "caps_inv g s"
proof -
  note ef = grant_request_effect[OF run]
  have sur: "surroundings s = surroundings c" using grant_request_surroundings[of k r i t c] run by simp
  note f = surroundings_fields[OF sur]
  define q where "q = heap c r"
  have obj: "rq_io_device (granted_object c q) = rq_io_device q" "rq_io_slots (granted_object c q) = rq_io_slots q"
    "rq_gpu_device (granted_object c q) = rq_gpu_device q" "rq_gpu_bytes (granted_object c q) = rq_gpu_bytes q"
    by (simp_all add: granted_object_def Let_def)
  obtain qs where qs: "queues c (rq_route_name q) = r # qs" using grantable_queue[OF g] by (auto simp: q_def)
  have key: "io_key (rq_io_device q) = device_or_default (rq_io_device q)"
  proof (rule io_key_canonical)
    have "r \<in> set (queues c (rq_route_name q))" using qs by simp
    then show "canonical_device (rq_io_device q)" using caps unfolding caps_inv_def q_def by blast
  qed
  have io: "fits_io c q" and gpu: "fits_gpu c now q" using fit by (auto simp: fits_def Let_def q_def)
  have "dict_get_or (io_in_use s) d 0 \<le> max 1 v" if "dict_get (io_device_slots s) d = Some v" for d v
  proof -
    have v: "dict_get (io_device_slots c) d = Some v" using that f by simp
    then have old: "dict_get_or (io_in_use c) d 0 \<le> max 1 v" using caps by (simp add: caps_inv_def)
    show ?thesis
    proof (cases "d = device_or_default (rq_io_device q) \<and> rq_io_slots q \<noteq> 0")
      case True
      then show ?thesis
        using io v by (simp add: ef(5) obj q_def[symmetric] device_add_get fits_io_def key io_capacity_def)
    next
      case False
      then show ?thesis using old by (auto simp: ef(5) obj q_def[symmetric] device_add_get)
    qed
  qed
  moreover have "dict_get_or (gpu_in_use s) d 0 \<le> max 0 (dict_get_or (gpu_capacity s) d 0)" if g for d
  proof -
    have old: "dict_get_or (gpu_in_use c) d 0 \<le> max 0 (dict_get_or (gpu_capacity c) d 0)" using caps that by (simp add: caps_inv_def)
    show ?thesis
    proof (cases "d = device_or_default (rq_gpu_device q) \<and> rq_gpu_bytes q \<noteq> 0")
      case True
      then show ?thesis
        using gpu by (auto simp: ef(6) obj q_def[symmetric] device_add_get fits_gpu_def Let_def f)
    next
      case False
      then show ?thesis using old by (auto simp: ef(6) obj q_def[symmetric] device_add_get f)
    qed
  qed
  moreover have "canonical_device (rq_io_device (heap s r'))" if "r' \<in> set (queues s n)" for n r'
  proof -
    have "r' \<in> set (queues c n)" using that by (auto simp: ef(7) list_tl_subset[THEN subsetD] split: if_splits)
    then have "canonical_device (rq_io_device (heap c r'))" using caps unfolding caps_inv_def by blast
    then show ?thesis by (cases "r' = r") (simp_all add: ef(2) granted_object_def Let_def)
  qed
  ultimately show ?thesis by (simp add: caps_inv_def)
qed

lemma quiet_cancel: "quiet c (cancel c)"
  by (simp add: quiet_def keeps_gpu_def cancel_def)

lemma quiet_publish: "quiet c (publish_gpu stopped g c)"
  by (simp add: quiet_def keeps_gpu_def publish_gpu_def Let_def)

lemma quiet_bind: "bind_process r identity c = Inr s \<Longrightarrow> quiet c s"
  by (auto simp: quiet_def keeps_gpu_def bind_process_def split: if_splits)

lemma quiet_register_gpu: "register_gpu_device device capacity probe1 probe2 c = Inr s \<Longrightarrow> keeps_gpu c s \<Longrightarrow> quiet c s"
  by (auto simp: quiet_def register_gpu_device_def split: if_splits)

lemma caps_inv_register_gpu:
  assumes "caps_inv g c" "register_gpu_device device capacity probe1 probe2 c = Inr s" "g \<Longrightarrow> keeps_gpu c s"
  shows "caps_inv g s"
proof (cases g)
  case True
  then show ?thesis using assms quiet_register_gpu caps_inv_quiet by blast
next
  case False
  then show ?thesis using assms by (auto simp: caps_inv_def register_gpu_device_def split: if_splits)
qed

lemma step_caps_inv: "step c s \<Longrightarrow> (g \<Longrightarrow> keeps_gpu c s) \<Longrightarrow> ledger_inv c \<Longrightarrow> caps_inv g c \<Longrightarrow> caps_inv g s"
proof (induction rule: step.induct)
  case (Enqueue r c rq)
  then show ?case by (auto simp: caps_inv_def enqueue_def Let_def new_request_ok_def)
next
  case (Schedule ob c snap e c1 now free choice c')
  then show ?case by (meson caps_inv_quiet quiet_width next_route_width quiet_observe)
next
  case (Grant ob c snap e c1 now free n c' r k i t committed s)
  have caps: "caps_inv g c'" using Grant by (meson caps_inv_quiet quiet_width next_route_width quiet_observe)
  show ?case
  proof (cases committed)
    case True
    then show ?thesis
      using caps_inv_grant[OF caps \<open>grantable r c'\<close> next_route_head_fits] Grant by auto
  next
    case False
    then have "grant_request k r i t c' = (False, s)" using Grant by simp
    from grant_rollback_state[OF \<open>grantable r c'\<close> this]
    have "quiet c' s" by (auto simp: quiet_def keeps_gpu_def list_tl_subset[THEN subsetD])
    then show ?thesis using caps caps_inv_quiet by blast
  qed
next
  case (Wait c r)
  have "quiet c (mark_waited r c)" by (simp add: quiet_def keeps_gpu_def mark_waited_def)
  then show ?case using Wait caps_inv_quiet by blast
next
  case (Temp_Budget c b)
  have "quiet c (c\<lparr>temp_budget_bytes := b\<rparr>)" by (simp add: quiet_def keeps_gpu_def)
  then show ?case using Temp_Budget caps_inv_quiet by blast
qed (auto intro: caps_inv_quiet quiet_observe quiet_discard quiet_release quiet_release_execution quiet_shrink quiet_resize quiet_register
    quiet_cancel quiet_publish quiet_bind caps_inv_register_gpu)

text \<open>
  C6. Device limits hold at every moment: after any sequence of operations, the I/O slots in use on
  a device with a configured limit never exceed that limit. As long as no registration lowers the
  capacity of a GPU, the memory in use on a GPU never exceeds its capacity either; a GPU that was
  neither configured nor registered has none in use.
\<close>

theorem device_limits_hold:
  assumes "init routes lms budgets sample host cpus free p1 p2 stopped = Inr c0" and "step\<^sup>*\<^sup>* c0 c"
  shows "(dict_get (io_device_slots c) d = Some v \<longrightarrow> device_held rq_io_device rq_io_slots d c \<le> max 1 v)
    \<and> ((\<lambda>a b. step a b \<and> keeps_gpu a b)\<^sup>*\<^sup>* c0 c \<longrightarrow>
        device_held rq_gpu_device rq_gpu_bytes d c \<le> max 0 (dict_get_or (gpu_capacity c) d 0))"
proof -
  have base: "ledger_inv c0" "caps_inv g c0" for g
  proof -
    show "ledger_inv c0" using init_ledger_inv[OF assms(1)] .
    obtain cfg smp where "c0 = initial_state routes cfg smp stopped"
      using assms(1) by (auto simp: init_def Let_def split: if_splits sum.splits)
    then show "caps_inv g c0" by (auto simp: caps_inv_def initial_state_def dict_get_or_def)
  qed
  have "ledger_inv c \<and> caps_inv False c"
    using assms(2) base by (induction rule: rtranclp_induct) (auto intro: step_ledger_inv step_caps_inv)
  moreover have "ledger_inv c \<and> caps_inv True c" if "(\<lambda>a b. step a b \<and> keeps_gpu a b)\<^sup>*\<^sup>* c0 c"
    using that base by (induction rule: rtranclp_induct) (auto intro: step_ledger_inv step_caps_inv)
  ultimately show ?thesis
    by (auto simp: caps_inv_def io_devices.counter_owed[symmetric] gpu_devices.counter_owed[symmetric])
qed

theorem device_limits_hold_witness:
  "\<exists>c. step\<^sup>*\<^sup>* demo c \<and> active_reservations c = [1] \<and> device_held rq_io_device rq_io_slots ''dev:5'' c \<le> 2
     \<and> device_held rq_gpu_device rq_gpu_bytes ''default'' c \<le> 100"
proof -
  obtain c t where c: "step\<^sup>*\<^sup>* demo c" "active_reservations c = [1]" "step c t" "active_reservations t = []"
      "(\<lambda>a b. step a b \<and> keeps_gpu a b)\<^sup>*\<^sup>* demo c" "io_device_slots c = io_device_slots demo" "gpu_capacity c = gpu_capacity demo"
    by (rule demo_steps)
  have "dict_get (io_device_slots c) ''dev:5'' = Some 2" "dict_get_or (gpu_capacity c) ''default'' 0 = 100"
    unfolding c(6,7) by code_simp+
  then have "device_held rq_io_device rq_io_slots ''dev:5'' c \<le> max 1 2" "device_held rq_gpu_device rq_gpu_bytes ''default'' c \<le> max 0 100"
    using device_limits_hold[OF demo_init c(1)] c(5) by metis+
  then show ?thesis using c(1,2) by (intro exI[of _ c]) simp
qed

section \<open>Stale GPU results\<close>

abbreviation generation :: "string \<Rightarrow> coordinator \<Rightarrow> int" where
  "generation d c \<equiv> dict_get_or (gpu_probe_generations c) d 0"

lemma same_ledger_generations: "same_ledger c s \<Longrightarrow> gpu_probe_generations s = gpu_probe_generations c"
  by (simp add: same_ledger_def coordinator_ledger.defs)

lemma surroundings_generations: "surroundings s = surroundings c \<Longrightarrow> gpu_probe_generations s = gpu_probe_generations c"
  by (simp add: surroundings_def coordinator_config.defs)

lemma width_generations: "width_only c s \<Longrightarrow> gpu_probe_generations s = gpu_probe_generations c"
proof -
  assume "width_only c s"
  then obtain h where "s = c\<lparr>heap := h\<rparr>" unfolding width_only_def by blast
  then show ?thesis by simp
qed

lemma step_generations:
  "step c s \<Longrightarrow> gpu_probe_generations s = gpu_probe_generations c
     \<or> (\<exists>device m p q. register_gpu_device device m p q c = Inr s)"
proof (induction rule: step.induct)
  case (Schedule ob c snap e c1 now free choice c')
  then have "gpu_probe_generations c1 = gpu_probe_generations c" "gpu_probe_generations c' = gpu_probe_generations c1"
    using same_ledger_generations[OF observe_same_ledger[of c ob]] width_generations[OF next_route_width] by auto
  then show ?case by simp
next
  case (Grant ob c snap e c1 now free n c' r k i t committed s)
  have "gpu_probe_generations c1 = gpu_probe_generations c" "gpu_probe_generations c' = gpu_probe_generations c1"
    using same_ledger_generations[OF observe_same_ledger[of c ob]] \<open>observe_live_resources ob c = ((snap, e), c1)\<close>
      width_generations[OF next_route_width[OF \<open>next_route c1 now free snap e = (Some n, c')\<close>]] by simp_all
  moreover have "gpu_probe_generations s = gpu_probe_generations c'"
    using surroundings_generations[OF grant_request_surroundings[of k r i t c']] \<open>grant_request k r i t c' = (committed, s)\<close> by simp
  ultimately show ?case by simp
next
  case (Release r c k committed s)
  then show ?case using surroundings_generations[OF release_admission_surroundings[of k r c]] by simp
next
  case (Observe ob c answer s)
  then show ?case using same_ledger_generations[OF observe_same_ledger[of c ob]] by simp
next
  case (Resize r c amount fd free stopped s)
  from resize_temp_state(2)[OF Resize(2)] show ?case by auto
next
  case (Register_Gpu device capacity probe1 probe2 c s)
  then show ?case by blast
next
  case (Shrink r c amount s)
  then have "gpu_probe_generations s = gpu_probe_generations c"
    by (auto simp: shrink_transient_bytes_def Let_def split: if_splits)
  then show ?case ..
next
  case (Register name c s)
  then have "gpu_probe_generations s = gpu_probe_generations c"
    by (auto simp: register_route_def Let_def split: if_splits)
  then show ?case ..
next
  case (Bind_Process r c identity s)
  then have "gpu_probe_generations s = gpu_probe_generations c" by (auto simp: bind_process_def split: if_splits)
  then show ?case ..
qed (rule disjI1, simp add: enqueue_def Let_def mark_waited_def discard_queued_request_def record_wait_def release_execution_def
    cancel_def publish_gpu_def)+

lemma register_generation:
  "register_gpu_device device m p q c = Inr s \<Longrightarrow> generation d s = generation d c + (if d = device then 1 else 0)"
  by (auto simp: register_gpu_device_def dict_get_or_set split: if_splits)

lemma generation_grows: "step\<^sup>*\<^sup>* c s \<Longrightarrow> generation d c \<le> generation d s"
proof (induction rule: rtranclp_induct)
  case (step s t)
  then show ?case using step_generations[OF step(2)] register_generation[of _ _ _ _ s t d] by auto
qed simp

text \<open>
  No late GPU result. An observation that began before a device was registered again does not
  publish its value for that device, whatever happened before, between and after; the value that
  was in the cache stays. An observation that no registration overtook publishes what the probe
  answered, a negative answer as zero.
\<close>

theorem stale_gpu_results_dropped:
  assumes "step\<^sup>*\<^sup>* c s" "distinct (gpu_available_probes c)"
  shows "(\<forall>m p q s' t. register_gpu_device d m p q s = Inr s' \<longrightarrow> step\<^sup>*\<^sup>* s' t \<longrightarrow>
        dict_get (gpu_available_cache (publish_gpu stop (read_gpu available materialized c) t)) d = dict_get (gpu_available_cache t) d)
    \<and> (dict_get (gpu_probe_generations s) d = dict_get (gpu_probe_generations c) d \<longrightarrow> d \<in> set (gpu_available_probes c) \<longrightarrow>
        dict_get (gpu_available_cache (publish_gpu False (read_gpu available materialized c) s)) d
          = Some (map_option (max 0) (fst (available d)), snd (available d)))"
proof -
  define new where "new = gpu_observed (read_gpu available materialized c)"
  have keys: "map fst new = gpu_available_probes c" by (simp add: new_def read_gpu_def o_def)
  have gens: "gpu_generations (read_gpu available materialized c) = gpu_probe_generations c" by (simp add: read_gpu_def)
  note get = dict_get_publish_current[where new = new, unfolded keys, OF assms(2)]
  have pub: "gpu_available_cache (publish_gpu False (read_gpu available materialized c) t) =
      publish_current (\<lambda>d. dict_get (gpu_probe_generations t) d = dict_get (gpu_probe_generations c) d) new (gpu_available_cache t)" for t
    by (simp add: publish_gpu_def new_def gens Let_def)
  have "dict_get (gpu_available_cache (publish_gpu stop (read_gpu available materialized c) t)) d = dict_get (gpu_available_cache t) d"
    if "register_gpu_device d m p q s = Inr s'" "step\<^sup>*\<^sup>* s' t" for m p q s' t
  proof (cases stop)
    case False
    have "generation d c < generation d t"
      using generation_grows[OF assms(1), of d] register_generation[OF that(1), of d] generation_grows[OF that(2), of d] by simp
    then have "dict_get (gpu_probe_generations t) d \<noteq> dict_get (gpu_probe_generations c) d" by (auto simp: dict_get_or_def)
    then show ?thesis using False by (simp add: pub get split: option.split)
  qed (simp add: publish_gpu_def)
  moreover have "dict_get new d = Some (map_option (max 0) (fst (available d)), snd (available d))" if "d \<in> set (gpu_available_probes c)"
  proof -
    have "dict_get (map (\<lambda>d. (d, f d)) ks) d = (if d \<in> set ks then Some (f d) else None)" for ks and f :: "string \<Rightarrow> int option \<times> real"
      by (induction ks) auto
    then show ?thesis using that by (simp add: new_def read_gpu_def)
  qed
  ultimately show ?thesis by (simp add: pub get)
qed

theorem stale_gpu_results_dropped_witness:
  "\<exists>t. step\<^sup>*\<^sup>* demo_gpu t \<and> dict_get (gpu_available_cache (publish_gpu False (read_gpu (\<lambda>d. (Some 7, 11)) (\<lambda>d. None) demo_gpu) t)) ''default''
      = Some (Some 60, 9)"
proof -
  obtain t where t: "register_gpu_device ''default'' 100 False False demo_gpu = Inr t" by (simp add: register_gpu_device_def)
  have "distinct (gpu_available_probes demo_gpu)" by (simp add: demo_gpu_def)
  from stale_gpu_results_dropped[OF rtranclp.rtrancl_refl this, of "''default''" False "\<lambda>d. (Some 7, 11)" "\<lambda>d. None"] t
  have "dict_get (gpu_available_cache (publish_gpu False (read_gpu (\<lambda>d. (Some 7, 11)) (\<lambda>d. None) demo_gpu) t)) ''default''
      = dict_get (gpu_available_cache t) ''default''" by blast
  moreover have "gpu_available_cache t = gpu_available_cache demo_gpu" using t by (auto simp: register_gpu_device_def)
  moreover have "dict_get (gpu_available_cache demo_gpu) ''default'' = Some (Some 60, 9)" by code_simp
  ultimately show ?thesis using step.Register_Gpu[OF t] by auto
qed
end
