(* ===== verification/Resource_Ceilings.thy ===== *)
theory Resource_Ceilings
  imports Resource_System
begin

text \<open>
  Configured ceilings over whole executions: with an explicit number of CPU slots, memory budget
  or temporary budget, no reachable state holds more.
\<close>

definition drains_free :: "request \<Rightarrow> bool" where
  "drains_free q \<longleftrightarrow> (rq_draining_from q \<noteq> None \<longrightarrow> rq_resident_bytes q = 0 \<and> rq_transient_bytes q = 0 \<and> rq_temp_bytes q = 0)"

definition ceilings :: "coordinator \<Rightarrow> bool" where
  "ceilings c \<longleftrightarrow> capacity_inv c
     \<and> (\<not> automatic_cpu_slots c \<longrightarrow> cpu_in_use c \<le> cpu_slots c)
     \<and> (\<not> automatic_memory_budget c \<longrightarrow> reserved_bytes c \<le> memory_budget_bytes c)
     \<and> (\<forall>b. lim_temp_budget_bytes (limits c) = Some b \<longrightarrow> temp_budget_bytes c = b \<and> temp_bytes c \<le> b)
     \<and> (\<forall>n. \<forall>r \<in> set (queues c n). drains_free (heap c r))"

text \<open>\<open>calm c s\<close>: the configuration is the same and nothing that is limited has grown.\<close>

definition calm :: "coordinator \<Rightarrow> coordinator \<Rightarrow> bool" where
  "calm c s \<longleftrightarrow> cpu_slots s = cpu_slots c \<and> automatic_cpu_slots s = automatic_cpu_slots c
     \<and> automatic_memory_budget s = automatic_memory_budget c \<and> memory_budget_bytes s = memory_budget_bytes c
     \<and> limits s = limits c \<and> (capacity_inv c \<longrightarrow> capacity_inv s)
     \<and> cpu_in_use s \<le> cpu_in_use c \<and> reserved_bytes s \<le> reserved_bytes c
     \<and> (\<forall>b. lim_temp_budget_bytes (limits c) = Some b \<longrightarrow>
          temp_budget_bytes s = temp_budget_bytes c \<and> temp_bytes s \<le> max b (temp_bytes c))
     \<and> (\<forall>n. \<forall>r \<in> set (queues s n). r \<in> set (queues c n) \<and> (drains_free (heap c r) \<longrightarrow> drains_free (heap s r)))"

lemma ceilings_calm: "ceilings c \<Longrightarrow> calm c s \<Longrightarrow> ceilings s"
  unfolding ceilings_def calm_def by (auto intro: order.trans) (metis max.absorb1 max_def order.trans)+

lemma calm_same_ledger:
  assumes "same_ledger c s" "capacity_inv c \<Longrightarrow> capacity_inv s"
  shows "calm c s"
proof -
  have "cpu_in_use s = cpu_in_use c" "reserved_bytes s = reserved_bytes c" "temp_bytes s = temp_bytes c"
    using same_ledger_fields(9)[OF assms(1), of Cpu] same_ledger_fields(9)[OF assms(1), of Reserved]
      same_ledger_fields(9)[OF assms(1), of Temporary] by simp_all
  then show ?thesis
    using assms(2) by (simp add: calm_def same_ledger_fields(3,8)[OF assms(1)] same_ledger_config[OF assms(1)])
qed

lemma calm_observe:
  assumes "observe_live_resources ob c = (answer, s)"
  shows "calm c s"
proof -
  obtain snap e where a: "answer = (snap, e)" by fastforce
  show ?thesis
    using calm_same_ledger[of c s] observe_same_ledger[of c ob] observe_capacity_inv(1)[of c ob snap e s] assms a by simp
qed

lemma calm_width:
  assumes "width_only c c'"
  shows "calm c c'"
proof -
  have "drains_free (heap c' r) = drains_free (heap c r)" for r
  proof -
    obtain a b where "heap c' r = (heap c r)\<lparr>rq_cpu_slots := a, rq_native_threads := b\<rparr>"
      using assms unfolding width_only_def by blast
    then show ?thesis by (simp add: drains_free_def)
  qed
  moreover obtain h where "c' = c\<lparr>heap := h\<rparr>" using assms unfolding width_only_def by blast
  ultimately show ?thesis by (simp add: calm_def capacity_inv_def)
qed

lemma calm_release:
  assumes inv: "ledger_inv c" and r: "r \<in> set (active_reservations c)" and run: "release_admission k r c = (committed, s)"
  shows "calm c s"
proof (cases committed)
  case True
  have lease: "lease_ok c r" using inv r by (simp add: ledger_inv_def)
  then have live: "rq_admitted (heap c r)" "\<not> rq_released (heap c r)" and am: "amounts_ok (heap c r)"
    by (auto simp: lease_ok_def)
  have run': "release_admission k r c = (True, s)" using run True by simp
  note e = release_admission_effect[OF run' live]
  have sur: "surroundings s = surroundings c" using release_admission_surroundings[of k r c] run by simp
  note f = surroundings_fields[OF sur]
  have "0 \<le> fst (release_claims r (heap c r) (resident_claims c))"
    using am by (auto simp: release_claims_def amounts_ok_def Let_def split: option.split)
  then have "cpu_in_use s \<le> cpu_in_use c" "reserved_bytes s \<le> reserved_bytes c" "temp_bytes s \<le> temp_bytes c"
    using e(1) am unfolding counters_move_def all_resource by (simp_all add: amounts_ok_def)
  moreover have "r' \<noteq> r" if "r' \<in> set (queues c n)" for n r'
    using that inv r by (auto simp: ledger_inv_def lease_ok_def waiting_ok_def)
  ultimately show ?thesis by (auto simp: calm_def f capacity_inv_def e(2,7))
next
  case False
  then have "release_admission k r c = (False, s)" using run by simp
  from release_rollback_state[OF this] show ?thesis by (simp add: calm_def capacity_inv_def)
qed

lemma calm_release_execution:
  assumes inv: "ledger_inv c" and r: "r \<in> set (active_reservations c)"
  shows "calm c (release_execution r c)"
proof -
  have "amounts_ok (heap c r)" using inv r by (simp add: ledger_inv_def lease_ok_def)
  moreover have "drains_free (heap (release_execution r c) r') = drains_free (heap c r')" for r'
    by (simp add: release_execution_def Let_def drains_free_def)
  ultimately show ?thesis
    by (auto simp: calm_def capacity_inv_def release_execution_def Let_def amounts_ok_def)
qed

lemma calm_discard: "calm c (discard_queued_request t r c)"
  by (auto simp: calm_def capacity_inv_def discard_queued_request_def record_wait_def Let_def drains_free_def
      dest: set_remove1_subset[THEN subsetD])

lemma calm_register: "register_route name c = Inr s \<Longrightarrow> calm c s"
  by (auto simp: calm_def capacity_inv_def register_route_def Let_def split: if_splits)

lemma calm_live:
  assumes inv: "ledger_inv c" and r: "r \<in> set (active_reservations c)"
    and s: "heap s = (heap c)(r := q)" "queues s = queues c" "cpu_slots s = cpu_slots c"
      "automatic_cpu_slots s = automatic_cpu_slots c" "automatic_memory_budget s = automatic_memory_budget c"
      "memory_budget_bytes s = memory_budget_bytes c" "limits s = limits c" "capacity_inv c \<Longrightarrow> capacity_inv s"
      "cpu_in_use s \<le> cpu_in_use c" "reserved_bytes s \<le> reserved_bytes c"
      "\<And>b. lim_temp_budget_bytes (limits c) = Some b \<Longrightarrow>
          temp_budget_bytes s = temp_budget_bytes c \<and> temp_bytes s \<le> max b (temp_bytes c)"
  shows "calm c s"
proof -
  have "r' \<noteq> r" if "r' \<in> set (queues c n)" for n r'
    using that inv r by (auto simp: ledger_inv_def lease_ok_def waiting_ok_def)
  then show ?thesis using s by (auto simp: calm_def)
qed

lemma calm_shrink:
  assumes "ledger_inv c" "r \<in> set (active_reservations c)" "shrink_transient_bytes r amount c = Inr s"
  shows "calm c s"
  using assms(3)
  by (intro calm_live[OF assms(1,2)])
    (auto simp: shrink_transient_bytes_def Let_def capacity_inv_def split: if_splits)

lemma calm_resize:
  assumes inv: "ledger_inv c" "r \<in> set (active_reservations c)" and run: "resize_temp_bytes r amount fd free stopped c = Inr s"
  shows "calm c s"
proof -
  obtain b m f where s: "s = c\<lparr>temp_budget_bytes := b,
       heap := (heap c)(r := (heap c r)\<lparr>rq_temp_materialized_bytes := m, rq_temp_file_identity := f, rq_temp_bytes := amount\<rparr>),
       temp_bytes := temp_bytes c + (amount - rq_temp_bytes (heap c r)),
       peak_temp_bytes := max (peak_temp_bytes c) (temp_bytes c + (amount - rq_temp_bytes (heap c r))),
       metrics := (metrics c)(rq_route_name (heap c r) := (metrics c (rq_route_name (heap c r)))
         \<lparr>m_temp_bytes := m_temp_bytes (metrics c (rq_route_name (heap c r))) + (amount - rq_temp_bytes (heap c r)),
          m_peak_temp_bytes := max (m_peak_temp_bytes (metrics c (rq_route_name (heap c r))))
            (m_temp_bytes (metrics c (rq_route_name (heap c r))) + (amount - rq_temp_bytes (heap c r)))\<rparr>)\<rparr>"
    using resize_temp_state(2)[OF run] by blast
  show ?thesis
    using resize_temp_budget[OF run] by (intro calm_live[OF inv]) (auto simp: s capacity_inv_def)
qed

lemma calm_cancel: "calm c (cancel c)"
  by (rule calm_same_ledger[OF same_ledger_cancel]) (simp add: capacity_inv_publish)

lemma calm_publish: "calm c (publish_gpu stopped g c)"
  by (rule calm_same_ledger[OF same_ledger_publish]) (simp add: capacity_inv_publish)

lemma calm_register_gpu: "register_gpu_device device capacity probe1 probe2 c = Inr s \<Longrightarrow> calm c s"
  by (auto simp: calm_def capacity_inv_def register_gpu_device_def split: if_splits)

lemma calm_bind: "bind_process r identity c = Inr s \<Longrightarrow> calm c s"
  by (auto simp: calm_def capacity_inv_def bind_process_def drains_free_def split: if_splits)

lemma ceilings_grant:
  assumes ceil: "ceilings c" and g: "grantable r c" and fit: "fits c now free (heap c r) snap e"
    and e: "e \<le> last_cpu_capacity c" and run: "grant_request k r i t c = (True, s)"
  shows "ceilings s"
proof -
  note ef = grant_request_effect[OF run]
  have sur: "surroundings s = surroundings c" using grant_request_surroundings[of k r i t c] run by simp
  note f = surroundings_fields[OF sur]
  define q where "q = heap c r"
  obtain qs where qs: "queues c (rq_route_name q) = r # qs" using grantable_queue[OF g] by (auto simp: q_def)
  then have "r \<in> set (queues c (rq_route_name q))" by simp
  then have free: "drains_free q" using ceil unfolding ceilings_def q_def by blast
  define b where "b = resident_charge_for_request c q"
  have add: "cpu_in_use s = cpu_in_use c + rq_cpu_slots q" "reserved_bytes s = reserved_bytes c + (b + rq_transient_bytes q)"
    "temp_bytes s = temp_bytes c + rq_temp_bytes q"
    using ef(1) unfolding counters_move_def all_resource by (simp_all add: granted_object_def Let_def q_def b_def)
  note fit' = fit[unfolded fits_def Let_def, folded q_def]
  have cap: "capacity_inv c" using ceil by (simp add: ceilings_def)
  have cpu: "\<not> automatic_cpu_slots c \<Longrightarrow> cpu_in_use s \<le> cpu_slots c"
    using fit' cap e unfolding capacity_inv_def add by (auto split: if_splits)
  have mem: "\<not> automatic_memory_budget c \<Longrightarrow> reserved_bytes s \<le> memory_budget_bytes c"
  proof (cases "rq_draining_from q = None")
    case True
    assume "\<not> automatic_memory_budget c"
    then show ?thesis using True fit' cap by (simp add: add fits_memory_def Let_def b_def capacity_inv_def)
  next
    case False
    assume a: "\<not> automatic_memory_budget c"
    have "b = 0" "rq_transient_bytes q = 0"
      using free False by (auto simp: drains_free_def b_def resident_charge_for_request_def split: option.split)
    then show ?thesis using a ceil by (simp add: add ceilings_def)
  qed
  have temp: "temp_budget_bytes s = x \<and> temp_bytes s \<le> x" if "lim_temp_budget_bytes (limits c) = Some x" for x
    using fit' ceil that by (auto simp: add f fits_temp_def ceilings_def)
  have "drains_free (heap s r')" if "r' \<in> set (queues s n)" for n r'
  proof -
    have "r' \<in> set (queues c n)" using that by (auto simp: ef(7) list_tl_subset[THEN subsetD] split: if_splits)
    then have "drains_free (heap c r')" using ceil by (auto simp: ceilings_def)
    then show ?thesis by (auto simp: ef(2) drains_free_def granted_object_def Let_def)
  qed
  moreover have "capacity_inv s" using cap by (simp add: capacity_inv_def f)
  ultimately show ?thesis using cpu mem temp by (simp add: ceilings_def f)
qed

lemma step_ceilings: "step c s \<Longrightarrow> ledger_inv c \<Longrightarrow> ceilings c \<Longrightarrow> ceilings s"
proof (induction rule: step.induct)
  case (Enqueue r c rq)
  then show ?case
    by (auto simp: ceilings_def enqueue_def Let_def capacity_inv_def new_request_ok_def drains_free_def)
next
  case (Schedule ob c snap e c1 now free choice c')
  then show ?case by (meson ceilings_calm calm_observe calm_width next_route_width)
next
  case (Grant ob c snap e c1 now free n c' r k i t committed s)
  note w = next_route_width[OF \<open>next_route c1 now free snap e = (Some n, c')\<close>]
  have c1: "ceilings c1" using Grant by (meson ceilings_calm calm_observe)
  then have ceil: "ceilings c'" using w by (meson ceilings_calm calm_width)
  have "e \<le> last_cpu_capacity c1" using Grant observe_capacity_inv(3)[of c ob snap e c1] by (simp add: ceilings_def)
  moreover obtain h where "c' = c1\<lparr>heap := h\<rparr>" using w unfolding width_only_def by blast
  ultimately have e: "e \<le> last_cpu_capacity c'" by simp
  show ?case
  proof (cases committed)
    case True
    then show ?thesis
      using ceilings_grant[OF ceil \<open>grantable r c'\<close> next_route_head_fits e] Grant by auto
  next
    case False
    then have "grant_request k r i t c' = (False, s)" using Grant by simp
    from grant_rollback_state[OF \<open>grantable r c'\<close> this]
    have "calm c' s" by (auto simp: calm_def capacity_inv_def drains_free_def list_tl_subset[THEN subsetD])
    then show ?thesis using ceil ceilings_calm by blast
  qed
next
  case (Wait c r)
  have "calm c (mark_waited r c)" by (auto simp: calm_def capacity_inv_def mark_waited_def drains_free_def)
  then show ?case using Wait ceilings_calm by blast
next
  case (Temp_Budget c b)
  have "calm c (c\<lparr>temp_budget_bytes := b\<rparr>)" using Temp_Budget(1) by (simp add: calm_def capacity_inv_def)
  then show ?case using Temp_Budget ceilings_calm by blast
qed (auto intro: ceilings_calm calm_observe calm_discard calm_release calm_release_execution calm_shrink calm_resize calm_register
    calm_cancel calm_publish calm_register_gpu calm_bind)

lemma init_ceilings:
  assumes "init routes lms budgets sample host cpus free p1 p2 stopped = Inr c"
  shows "ceilings c"
proof -
  obtain cfg smp slots rl snap where cfg: "cfg = init_config lms slots rl snap cpus free p1 p2"
    and ok: "check_all (limit_checks lms slots) = Inr ()" "check_all (config_checks cfg) = Inr ()"
    and c: "c = initial_state routes cfg smp stopped"
    using assms by (auto simp: init_def Let_def split: if_splits sum.splits)
  have conf: "1 \<le> cpu_slots cfg" "1 \<le> memory_budget_bytes cfg"
    using ok(2)[unfolded check_all_ok config_checks_def] by auto
  have temp: "\<not> opt_below (lim_temp_budget_bytes lms) 1"
    using ok(1)[unfolded check_all_ok limit_checks_def] by simp
  have "automatic_native_thread_slots cfg \<Longrightarrow> native_thread_slots cfg = cpu_slots cfg"
    by (simp add: cfg init_config_def Let_def)
  then show ?thesis
    using conf temp by (auto simp: ceilings_def capacity_inv_def c initial_state_def)
      (auto simp: cfg init_config_def Let_def opt_below_def)
qed

text \<open>
  C4. Configured ceilings hold at every moment of every execution: with an explicit CPU ceiling the
  live leases together never hold more CPU slots than it, with an explicit memory budget never more
  reserved bytes, and with an explicit temporary budget never more temporary bytes - through
  admissions, finalizers, resizing, interruptions and any sequence of host readings.
\<close>

theorem explicit_ceilings_hold:
  assumes "init routes lms budgets sample host cpus free p1 p2 stopped = Inr c0" and "step\<^sup>*\<^sup>* c0 c"
  shows "(\<not> automatic_cpu_slots c \<longrightarrow> held (\<lambda>_. True) Cpu c \<le> cpu_slots c)
    \<and> (\<not> automatic_memory_budget c \<longrightarrow> held (\<lambda>_. True) Reserved c \<le> memory_budget_bytes c)
    \<and> (\<forall>b. lim_temp_budget_bytes (limits c) = Some b \<longrightarrow> held (\<lambda>_. True) Temporary c \<le> b)"
proof -
  have "ledger_inv c \<and> ceilings c"
    using assms(2) init_ledger_inv[OF assms(1)] init_ceilings[OF assms(1)]
    by (induction rule: rtranclp_induct) (auto intro: step_ledger_inv step_ceilings)
  then have inv: "ledger_inv c" and ceil: "ceilings c" by auto
  have "cpu_in_use c = held (\<lambda>_. True) Cpu c" "reserved_bytes c = held (\<lambda>_. True) Reserved c"
    "temp_bytes c = held (\<lambda>_. True) Temporary c"
    using totals.counter_owed[OF inv, of Cpu] totals.counter_owed[OF inv, of Reserved]
      totals.counter_owed[OF inv, of Temporary] by simp_all
  then show ?thesis using ceil by (simp add: ceilings_def)
qed

theorem explicit_ceilings_hold_witness:
  "\<exists>c. step\<^sup>*\<^sup>* demo c \<and> active_reservations c = [1] \<and> (\<not> automatic_cpu_slots c \<longrightarrow> held (\<lambda>_. True) Cpu c \<le> cpu_slots c)"
proof -
  obtain c t where c: "step\<^sup>*\<^sup>* demo c" "active_reservations c = [1]" using demo_steps by metis
  from explicit_ceilings_hold[OF demo_init c(1)] c show ?thesis by blast
qed
end
