(* ===== verification/Resource_Admission.thy ===== *)
theory Resource_Admission
  imports Resource_Ceilings
begin

text \<open>
  Admission, \<open>admission_scope\<close> of \<open>resource_admission.py\<close>: validation of the demand, the ceilings,
  the request object, queueing, one round of the waiting loop, and the exit of the scope. Numeric
  arguments are integers already, so the conversions do not raise. What the outside does is in the
  arguments: the host's answers, the clock, the free space, the state of the cancellation tokens and
  the statement at which an asynchronous exception stops a commit.
\<close>

section \<open>Arguments and demand\<close>

record admission_args =
  a_route :: string
  a_memory_bytes :: "int option"
  a_cpu_slots :: int
  a_resident_bytes :: int
  a_transient_bytes :: "int option"
  a_temp_bytes :: int
  a_native_threads :: int
  a_phase :: "string option"
  a_resident_key :: "string option"
  a_io_slots :: int
  a_io_device :: io_value
  a_gpu_bytes :: int
  a_gpu_device :: "string option"
  a_draining_from :: "rid option"
  a_adaptive_native_threads :: bool
  a_native_thread_limit :: "int option"
  a_renewing_from :: "rid option"

fun first_error :: "(bool \<times> py_error) list \<Rightarrow> py_error option" where
  "first_error [] = None"
| "first_error ((bad, e) # rest) = (if bad then Some e else first_error rest)"

definition aggregate_memory :: "admission_args \<Rightarrow> int" where
  "aggregate_memory a = (case a_memory_bytes a of None \<Rightarrow> 0 | Some m \<Rightarrow> m)"

definition component_mode :: "admission_args \<Rightarrow> bool" where
  "component_mode a \<longleftrightarrow> 0 < a_resident_bytes a \<or> 0 < a_temp_bytes a \<or> 0 < a_native_threads a
     \<or> a_transient_bytes a \<noteq> None \<or> a_phase a \<noteq> None \<or> a_resident_key a \<noteq> None"

record demand =
  d_resident :: int
  d_transient :: int
  d_temp :: int
  d_io_device :: "string option"

definition sign_errors :: "admission_args \<Rightarrow> (bool \<times> py_error) list" where
  "sign_errors a =
   [(aggregate_memory a < 0, ValueError ''global memory reservation cannot be negative''),
    (a_resident_bytes a < 0 \<or> a_temp_bytes a < 0 \<or> a_native_threads a < 0 \<or> a_io_slots a < 0 \<or> a_gpu_bytes a < 0,
       ValueError ''global resource components cannot be negative''),
    (case a_transient_bytes a of None \<Rightarrow> False | Some t \<Rightarrow> t < 0,
       ValueError ''global transient reservation cannot be negative'')]"

definition component_transient :: "admission_args \<Rightarrow> int" where
  "component_transient a =
    (if \<not> component_mode a then max 1 (aggregate_memory a)
     else case a_transient_bytes a of
            Some t \<Rightarrow> t
          | None \<Rightarrow> max 0 (aggregate_memory a - a_resident_bytes a - a_temp_bytes a))"

definition admission_demand :: "admission_args \<Rightarrow> py_error + demand" where
  "admission_demand a =
    (case first_error (sign_errors a) of
       Some e \<Rightarrow> Inl e
     | None \<Rightarrow>
         (let transient = component_transient a;
              resident = (if component_mode a then a_resident_bytes a else 0);
              temp = (if component_mode a then a_temp_bytes a else 0);
              total = a_resident_bytes a + transient + a_temp_bytes a
          in if component_mode a \<and> aggregate_memory a \<noteq> 0 \<and> aggregate_memory a \<noteq> total
               then Inl (ValueError ''memory_bytes is an aggregate alias when resource components are supplied'')
             else (case canonical_io_device (a_io_device a) of
                 Inl e \<Rightarrow> Inl e
               | Inr device \<Rightarrow>
                   if a_renewing_from a \<noteq> None \<and>
                      (resident + transient \<noteq> 0 \<or> temp \<noteq> 0 \<or> a_gpu_bytes a \<noteq> 0 \<or> a_draining_from a \<noteq> None
                       \<or> a_adaptive_native_threads a)
                     then Inl (ValueError ''execution renewal cannot grow memory or change its native width'')
                   else if a_cpu_slots a < 0 then Inl (ValueError ''CPU slots cannot be negative'')
                   else Inr \<lparr>d_resident = resident, d_transient = transient, d_temp = temp, d_io_device = device\<rparr>)))"

section \<open>Ceilings\<close>

definition ceiling_errors :: "admission_args \<Rightarrow> demand \<Rightarrow> coordinator \<Rightarrow> (bool \<times> py_error) list" where
  "ceiling_errors a d c =
    (let memory = d_resident d + d_transient d;
         memory_ceiling = (if automatic_memory_budget c then last_memory_budget c else memory_budget_bytes c);
         cpu_ceiling = (if automatic_cpu_slots c then last_cpu_capacity c else cpu_slots c)
     in [(memory_ceiling < memory, MemoryBudgetExceeded ''global budget''),
         (case dict_get (route_memory_budgets c) (a_route a) of None \<Rightarrow> False | Some b \<Rightarrow> b < memory,
            MemoryBudgetExceeded ''route budget''),
         (cpu_ceiling < a_cpu_slots a \<and> (a_renewing_from a = None \<or> \<not> automatic_cpu_slots c),
            MemoryBudgetExceeded ''CPU slots''),
         (native_thread_slots c < a_native_threads a \<and> (a_renewing_from a = None \<or> \<not> automatic_native_thread_slots c),
            NativeThreadBudgetExceeded)])"

definition refresh_temp_budget :: "demand \<Rightarrow> int \<Rightarrow> coordinator \<Rightarrow> coordinator" where
  "refresh_temp_budget d free c =
    (if d_temp d \<noteq> 0 \<and> lim_temp_budget_bytes (limits c) = None
     then c\<lparr>temp_budget_bytes := free
            + sum_list (map (\<lambda>r. rq_temp_materialized_bytes (heap c r)) (active_reservations c))\<rparr>
     else c)"

definition device_errors :: "admission_args \<Rightarrow> demand \<Rightarrow> coordinator \<Rightarrow> (bool \<times> py_error) list" where
  "device_errors a d c =
   [(temp_budget_bytes c < d_temp d, MemoryBudgetExceeded ''temporary bytes''),
    (io_capacity c (io_key (d_io_device d)) < a_io_slots a,
       MemoryBudgetExceeded ''one request exceeds the device I/O concurrency limit''),
    (dict_get_or (gpu_capacity c) (device_or_default (a_gpu_device a)) 0 < a_gpu_bytes a,
       MemoryBudgetExceeded ''GPU device is unregistered or its memory budget is exceeded''),
    (case a_phase a of None \<Rightarrow> False | Some p \<Rightarrow> strip p = [], ValueError ''global resource phase cannot be empty''),
    (case a_resident_key a of None \<Rightarrow> False | Some k \<Rightarrow> strip k = [], ValueError ''global resident key cannot be empty'')]"

definition build_request :: "admission_args \<Rightarrow> demand \<Rightarrow> real \<Rightarrow> request" where
  "build_request a d started =
    (new_request (a_route a) (d_resident d + d_transient d) (a_cpu_slots a) started (int_trunc (started * 1000000000)))
      \<lparr>rq_resident_bytes := d_resident d, rq_transient_bytes := d_transient d, rq_temp_bytes := d_temp d,
       rq_native_threads := a_native_threads a, rq_phase := map_option strip (a_phase a),
       rq_resident_key := map_option strip (a_resident_key a), rq_io_slots := a_io_slots a,
       rq_io_device := d_io_device d, rq_gpu_bytes := a_gpu_bytes a, rq_gpu_device := a_gpu_device a,
       rq_draining_from := a_draining_from a, rq_renewing_from := a_renewing_from a,
       rq_adaptive_native_threads := a_adaptive_native_threads a,
       rq_native_thread_limit := a_native_thread_limit a\<rparr>"

text \<open>
  What the outside answers while a demand is validated: whether the caller's token or checkpoint
  stops it, whether a GPU monitor runs and what the GPU probes say, the observation of the host, the
  free temporary space and the clock.
\<close>

record entry =
  e_stopped :: bool
  e_gpu_monitored :: bool
  e_available :: "string \<Rightarrow> int option \<times> real"
  e_materialized :: "string \<Rightarrow> (int \<times> int, int) dict option"
  e_observation :: observation
  e_free :: int
  e_started :: real

text \<open>An unmonitored GPU request needs a current device observation; it is made before the transient
  amount is checked.\<close>

definition refresh_gpu :: "admission_args \<Rightarrow> entry \<Rightarrow> coordinator \<Rightarrow> coordinator" where
  "refresh_gpu a en c =
    (if first_error (take 2 (sign_errors a)) = None \<and> a_gpu_bytes a \<noteq> 0 \<and> gpu_available_probes c \<noteq> [] \<and> \<not> e_gpu_monitored en
     then publish_gpu False (read_gpu (e_available en) (e_materialized en) c) c else c)"

definition refresh_host :: "entry \<Rightarrow> coordinator \<Rightarrow> coordinator" where
  "refresh_host en c =
    (if automatic_memory_budget c \<or> automatic_cpu_slots c then snd (observe_live_resources (e_observation en) c) else c)"

text \<open>Validation, up to the request object. The host is observed only when a ceiling is automatic.\<close>

definition prepare :: "admission_args \<Rightarrow> entry \<Rightarrow> coordinator \<Rightarrow> (py_error + request) \<times> coordinator" where
  "prepare a en c =
    (if cancelled c \<or> e_stopped en then (Inl CancellationRequested, c)
     else if a_route a \<notin> set (route_order c) then (Inl (ValueError ''route is not coordinated''), c)
     else let c = refresh_gpu a en c
          in case admission_demand a of
               Inl e \<Rightarrow> (Inl e, c)
             | Inr d \<Rightarrow>
                 (let c = refresh_host en c
                  in case first_error (ceiling_errors a d c) of
                       Some e \<Rightarrow> (Inl e, c)
                     | None \<Rightarrow>
                         (let c = refresh_temp_budget d (e_free en) c
                          in case first_error (device_errors a d c) of
                               Some e \<Rightarrow> (Inl e, c)
                             | None \<Rightarrow> (Inr (build_request a d (e_started en)), c))))"

section \<open>Joining the queue\<close>

definition lease_errors :: "request \<Rightarrow> coordinator \<Rightarrow> (bool \<times> py_error) list" where
  "lease_errors rq c =
   [(case rq_renewing_from rq of None \<Rightarrow> False
     | Some l \<Rightarrow> l \<notin> set (active_reservations c) \<or> rq_route_name (heap c l) \<noteq> rq_route_name rq,
       RuntimeError ''execution renewal requires its original live lease''),
    (case rq_draining_from rq of None \<Rightarrow> False
     | Some l \<Rightarrow> l \<notin> set (active_reservations c) \<or> rq_route_name (heap c l) \<noteq> rq_route_name rq
         \<or> rq_memory_bytes rq \<noteq> 0 \<or> rq_temp_bytes rq \<noteq> 0 \<or> rq_gpu_bytes rq \<noteq> 0
         \<or> 1 < max (max (rq_cpu_slots rq) (rq_native_threads rq)) (rq_io_slots rq),
       ValueError ''drain admission must finalize a live lease without resource growth'')]"

definition join_queue :: "rid \<Rightarrow> request \<Rightarrow> coordinator \<Rightarrow> py_error + coordinator" where
  "join_queue r rq c = (case first_error (lease_errors rq c) of Some e \<Rightarrow> Inl e | None \<Rightarrow> Inr (enqueue r rq c))"

section \<open>Waiting\<close>

text \<open>
  One round of the waiting loop: what the other threads did while the condition was waited for, what
  the host and the clocks say, whether the caller's token or its checkpoint stops the wait (when the
  round begins, or just before the commit), and the statement of the commit an exception arrives at.
\<close>

record poll =
  p_others :: "coordinator \<Rightarrow> coordinator"
  p_observation :: observation
  p_now :: real
  p_free :: int
  p_stopped :: bool
  p_stopped_late :: bool
  p_clock :: real
  p_clock_ns :: int
  p_interrupt :: nat

datatype outcome = Waiting "real option" | Granted | Failed py_error

fun position :: "string \<Rightarrow> string list \<Rightarrow> int" where
  "position n [] = 0"
| "position n (m # ms) = (if m = n then 0 else 1 + position n ms)"

definition timeout_reason :: "rid \<Rightarrow> coordinator \<Rightarrow> string" where
  "timeout_reason r c =
    (let rq = heap c r;
         route_blocked = (case dict_get (route_memory_budgets c) (rq_route_name rq) of
            None \<Rightarrow> False
          | Some b \<Rightarrow> b < m_reserved_bytes (metrics c (rq_route_name rq)) + resident_charge_for_request c rq + rq_transient_bytes rq)
     in if memory_pressure c \<or> route_blocked then ''memory'' else ''cpu'')"

definition is_head :: "rid \<Rightarrow> coordinator \<Rightarrow> bool" where
  "is_head r c = (case queues c (rq_route_name (heap c r)) of [] \<Rightarrow> False | h # _ \<Rightarrow> h = r)"

definition lost_lease :: "rid \<Rightarrow> coordinator \<Rightarrow> bool" where
  "lost_lease r c = (case rq_renewing_from (heap c r) of None \<Rightarrow> False | Some l \<Rightarrow> l \<notin> set (active_reservations c))"

definition keep_waiting :: "rid \<Rightarrow> poll \<Rightarrow> real option \<Rightarrow> bool \<Rightarrow> coordinator \<Rightarrow> outcome" where
  "keep_waiting r p blocked nobody c =
    (case lim_wait_timeout_seconds (limits c) of
       Some limit \<Rightarrow>
         if nobody \<and> active_execution_requests c = 0
         then let since = (case blocked of None \<Rightarrow> p_clock p | Some t \<Rightarrow> t)
              in if limit - (p_clock p - since) \<le> 0 then Failed (ResourceWaitTimeout (timeout_reason r c))
                 else Waiting (Some since)
         else Waiting None
     | None \<Rightarrow> Waiting None)"

definition poll_once :: "rid \<Rightarrow> poll \<Rightarrow> real option \<Rightarrow> coordinator \<Rightarrow> outcome \<times> coordinator" where
  "poll_once r p blocked c =
    (if cancelled c \<or> p_stopped p then (Failed CancellationRequested, c)
     else if lost_lease r c then (Failed (RuntimeError ''original lease was released while renewing execution''), c)
     else (case observe_live_resources (p_observation p) c of
       ((snap, e), c1) \<Rightarrow>
         (case next_route c1 (p_now p) (p_free p) snap e of
           (choice, c2) \<Rightarrow>
             if choice = Some (rq_route_name (heap c2 r)) \<and> is_head r c2
             then if cancelled c2 \<or> p_stopped_late p then (Failed CancellationRequested, c2)
                  else (case grant_request (p_interrupt p) r (position (rq_route_name (heap c2 r)) (route_order c2)) (p_clock_ns p) c2 of
                          (True, s) \<Rightarrow> (Granted, s)
                        | (False, s) \<Rightarrow> (Failed Interrupted, s))
             else (let c3 = mark_waited r c2 in (keep_waiting r p blocked (choice = None) c3, c3)))))"

fun wait_loop :: "rid \<Rightarrow> poll list \<Rightarrow> real option \<Rightarrow> coordinator \<Rightarrow> outcome \<times> coordinator" where
  "wait_loop r [] blocked c = (Waiting blocked, c)"
| "wait_loop r (p # ps) blocked c =
     (case poll_once r p blocked (p_others p c) of
        (Waiting b, s) \<Rightarrow> wait_loop r ps b s
      | (out, s) \<Rightarrow> (out, s))"

text \<open>A failure is cleaned up before it is raised again; the cleanup may itself be interrupted.\<close>

definition await :: "rid \<Rightarrow> poll list \<Rightarrow> nat \<Rightarrow> int \<Rightarrow> coordinator \<Rightarrow> outcome \<times> coordinator" where
  "await r ps k now_ns c =
    (case wait_loop r ps None c of
       (Failed e, s) \<Rightarrow> (Failed e, snd (cleanup_request k now_ns r s))
     | (out, s) \<Rightarrow> (out, s))"

section \<open>Leaving the scope\<close>

definition leave_scope :: "nat \<Rightarrow> int \<Rightarrow> rid \<Rightarrow> coordinator \<Rightarrow> bool \<times> coordinator" where
  "leave_scope k now_ns r c =
    (let c = release_execution r c
     in if rq_admitted (heap c r) \<and> \<not> rq_released (heap c r) then cleanup_request k now_ns r c else (True, c))"

section \<open>Validation is sound\<close>

lemma first_error_None: "first_error es = None \<longleftrightarrow> (\<forall>(bad, e) \<in> set es. \<not> bad)"
  by (induction es rule: first_error.induct) auto

lemma admission_demand_sound:
  assumes "admission_demand a = Inr d"
  shows "0 \<le> d_resident d" "0 \<le> d_transient d" "0 \<le> d_temp d" "0 \<le> a_native_threads a" "0 \<le> a_io_slots a"
    "0 \<le> a_gpu_bytes a" "0 \<le> a_cpu_slots a" "canonical_device (d_io_device d)"
    "component_mode a \<Longrightarrow> aggregate_memory a \<noteq> 0 \<Longrightarrow> d_resident d + d_transient d + d_temp d = aggregate_memory a"
    "\<not> component_mode a \<Longrightarrow> d_resident d = 0 \<and> d_temp d = 0 \<and> d_transient d = max 1 (aggregate_memory a)"
proof -
  have ok: "first_error (sign_errors a) = None"
    using assms by (auto simp: admission_demand_def split: option.splits)
  then have signs: "0 \<le> aggregate_memory a" "0 \<le> a_resident_bytes a" "0 \<le> a_temp_bytes a" "0 \<le> a_native_threads a"
    "0 \<le> a_io_slots a" "0 \<le> a_gpu_bytes a" "\<And>t. a_transient_bytes a = Some t \<Longrightarrow> 0 \<le> t"
    unfolding first_error_None sign_errors_def by auto
  have d: "d_resident d = (if component_mode a then a_resident_bytes a else 0)"
    "d_transient d = component_transient a" "d_temp d = (if component_mode a then a_temp_bytes a else 0)"
    "canonical_io_device (a_io_device a) = Inr (d_io_device d)" "0 \<le> a_cpu_slots a"
    "component_mode a \<Longrightarrow> aggregate_memory a \<noteq> 0 \<Longrightarrow> aggregate_memory a = a_resident_bytes a + component_transient a + a_temp_bytes a"
    using assms ok by (auto simp: admission_demand_def Let_def split: if_splits sum.splits)
  show "0 \<le> d_resident d" "0 \<le> d_temp d" "0 \<le> a_native_threads a" "0 \<le> a_io_slots a" "0 \<le> a_gpu_bytes a" "0 \<le> a_cpu_slots a"
    using signs d by auto
  show "0 \<le> d_transient d"
    using signs by (auto simp: d component_transient_def split: option.split)
  show "canonical_device (d_io_device d)"
    using d(4) canonical_idem by (auto simp: canonical_device_def split: option.split)
  show "component_mode a \<Longrightarrow> aggregate_memory a \<noteq> 0 \<Longrightarrow> d_resident d + d_transient d + d_temp d = aggregate_memory a"
    using d by simp
  show "\<not> component_mode a \<Longrightarrow> d_resident d = 0 \<and> d_temp d = 0 \<and> d_transient d = max 1 (aggregate_memory a)"
    using d by (simp add: component_transient_def)
qed

lemma admission_demand_aggregate: "admission_demand a = Inr d \<Longrightarrow> 0 \<le> aggregate_memory a"
  by (auto simp: admission_demand_def sign_errors_def split: option.splits if_splits)

lemma prepare_Inr:
  assumes "prepare a en c = (Inr rq, s)"
  obtains d c1 where "admission_demand a = Inr d" "rq = build_request a d (e_started en)" "\<not> cancelled c" "\<not> e_stopped en"
    "a_route a \<in> set (route_order c)" "c1 = refresh_host en (refresh_gpu a en c)"
    "s = refresh_temp_budget d (e_free en) c1" "first_error (ceiling_errors a d c1) = None" "first_error (device_errors a d s) = None"
  using assms by (auto simp: prepare_def Let_def split: if_splits sum.splits option.splits)

text \<open>Whether it succeeds or fails, validation is a few steps of the coordinator.\<close>

lemma refresh_steps:
  "step\<^sup>*\<^sup>* c (refresh_gpu a en c)" "step\<^sup>*\<^sup>* c (refresh_host en c)" "step\<^sup>*\<^sup>* c (refresh_temp_budget d free c)"
proof -
  show "step\<^sup>*\<^sup>* c (refresh_gpu a en c)" by (auto simp: refresh_gpu_def intro: step.Publish_Gpu)
  show "step\<^sup>*\<^sup>* c (refresh_host en c)" by (auto simp: refresh_host_def intro!: r_into_rtranclp step.Observe surjective_pairing)
  show "step\<^sup>*\<^sup>* c (refresh_temp_budget d free c)" by (auto simp: refresh_temp_budget_def intro: step.Temp_Budget)
qed

lemma prepare_steps: "step\<^sup>*\<^sup>* c (snd (prepare a en c))"
proof -
  have "step\<^sup>*\<^sup>* c (refresh_host en (refresh_gpu a en c))" "step\<^sup>*\<^sup>* c (refresh_temp_budget d free (refresh_host en (refresh_gpu a en c)))" for d free
    using refresh_steps rtranclp_trans by metis+
  then show ?thesis using refresh_steps(1) by (auto simp: prepare_def Let_def split: sum.split option.split)
qed

lemma refresh_fields:
  "route_order (refresh_gpu a en c) = route_order c" "route_order (refresh_host en c) = route_order c"
  "route_order (refresh_temp_budget d free c) = route_order c"
  using same_ledger_fields(7)[OF observe_same_ledger] by (simp_all add: refresh_gpu_def publish_gpu_def Let_def refresh_host_def refresh_temp_budget_def)

lemma build_request_fields:
  "rq_route_name (build_request a d started) = a_route a" "rq_memory_bytes (build_request a d started) = d_resident d + d_transient d"
  "rq_resident_bytes (build_request a d started) = d_resident d" "rq_transient_bytes (build_request a d started) = d_transient d"
  "rq_temp_bytes (build_request a d started) = d_temp d" "rq_cpu_slots (build_request a d started) = a_cpu_slots a"
  "rq_native_threads (build_request a d started) = a_native_threads a" "rq_io_slots (build_request a d started) = a_io_slots a"
  "rq_gpu_bytes (build_request a d started) = a_gpu_bytes a" "rq_io_device (build_request a d started) = d_io_device d"
  "rq_draining_from (build_request a d started) = a_draining_from a" "rq_renewing_from (build_request a d started) = a_renewing_from a"
  "\<not> rq_admitted (build_request a d started)" "\<not> rq_released (build_request a d started)" "\<not> rq_execution_active (build_request a d started)"
  "rq_resident_charge_bytes (build_request a d started) = 0" "rq_gpu_device (build_request a d started) = a_gpu_device a"
  by (simp_all add: build_request_def new_request_def)

lemma prepare_new_request_ok:
  assumes "prepare a en c = (Inr rq, s)" "join_queue r rq s = Inr u"
  shows "new_request_ok s rq"
proof -
  from assms(1) obtain d c1 where d: "admission_demand a = Inr d" and rq: "rq = build_request a d (e_started en)"
    and route: "a_route a \<in> set (route_order c)" and s: "s = refresh_temp_budget d (e_free en) (refresh_host en (refresh_gpu a en c))"
    by (rule prepare_Inr) blast
  note b = build_request_fields[of a d "e_started en", folded rq]
  note sound = admission_demand_sound[OF d]
  have "rq_memory_bytes rq = 0 \<and> rq_temp_bytes rq = 0" if "rq_draining_from rq \<noteq> None"
    using assms(2) that by (auto simp: join_queue_def lease_errors_def split: option.splits if_splits)
  then show ?thesis
    using sound route b by (auto simp: new_request_ok_def amounts_ok_def s refresh_fields)
qed

text \<open>
  C9. Validation admits only what can be served. When a demand is accepted its amounts are
  nonnegative, resident and transient bytes are what was asked for and, with an aggregate given, add
  up to it together with the temporary bytes; memory is within the ceiling in force and the budget of
  the route, CPU slots, native threads, temporary bytes, I/O slots and GPU memory are within theirs.
  A renewal of execution brings no memory, temporary or GPU demand. So a request that waits is never
  one that could not be served by an idle host of the current capacity.
\<close>

theorem prepare_sound:
  assumes "prepare a en c = (Inr rq, s)"
  shows "amounts_ok rq \<and> rq_memory_bytes rq = rq_resident_bytes rq + rq_transient_bytes rq \<and> rq_route_name rq \<in> set (route_order s)
    \<and> (aggregate_memory a \<noteq> 0 \<longrightarrow> rq_memory_bytes rq + rq_temp_bytes rq = aggregate_memory a)
    \<and> rq_memory_bytes rq \<le> (if automatic_memory_budget s then last_memory_budget s else memory_budget_bytes s)
    \<and> (\<forall>b. dict_get (route_memory_budgets s) (rq_route_name rq) = Some b \<longrightarrow> rq_memory_bytes rq \<le> b)
    \<and> (rq_renewing_from rq = None \<longrightarrow> rq_cpu_slots rq \<le> (if automatic_cpu_slots s then last_cpu_capacity s else cpu_slots s)
         \<and> rq_native_threads rq \<le> native_thread_slots s)
    \<and> rq_temp_bytes rq \<le> temp_budget_bytes s \<and> rq_io_slots rq \<le> io_capacity s (io_key (rq_io_device rq))
    \<and> rq_gpu_bytes rq \<le> dict_get_or (gpu_capacity s) (device_or_default (rq_gpu_device rq)) 0
    \<and> (rq_renewing_from rq \<noteq> None \<longrightarrow> rq_memory_bytes rq = 0 \<and> rq_temp_bytes rq = 0 \<and> rq_gpu_bytes rq = 0)"
proof -
  from assms obtain d c1 where d: "admission_demand a = Inr d" and rq: "rq = build_request a d (e_started en)"
    and route: "a_route a \<in> set (route_order c)" and c1: "c1 = refresh_host en (refresh_gpu a en c)"
    and s: "s = refresh_temp_budget d (e_free en) c1"
    and ceil: "first_error (ceiling_errors a d c1) = None" and dev: "first_error (device_errors a d s) = None"
    by (rule prepare_Inr)
  note b = build_request_fields[of a d "e_started en", folded rq]
  note sound = admission_demand_sound[OF d]
  have same: "automatic_memory_budget s = automatic_memory_budget c1" "last_memory_budget s = last_memory_budget c1"
    "memory_budget_bytes s = memory_budget_bytes c1" "automatic_cpu_slots s = automatic_cpu_slots c1" "cpu_slots s = cpu_slots c1"
    "last_cpu_capacity s = last_cpu_capacity c1" "native_thread_slots s = native_thread_slots c1"
    "route_memory_budgets s = route_memory_budgets c1" "route_order s = route_order c"
    by (simp_all add: s refresh_temp_budget_def c1 refresh_fields[unfolded refresh_temp_budget_def])
  have mem: "d_resident d + d_transient d \<le> (if automatic_memory_budget s then last_memory_budget s else memory_budget_bytes s)"
    "dict_get (route_memory_budgets s) (a_route a) = Some x \<Longrightarrow> d_resident d + d_transient d \<le> x"
    "a_renewing_from a = None \<Longrightarrow> a_cpu_slots a \<le> (if automatic_cpu_slots s then last_cpu_capacity s else cpu_slots s)
       \<and> a_native_threads a \<le> native_thread_slots s" for x
    using ceil unfolding first_error_None ceiling_errors_def Let_def same by (auto simp: not_less split: if_splits)
  have res: "d_temp d \<le> temp_budget_bytes s" "a_io_slots a \<le> io_capacity s (io_key (d_io_device d))"
    "a_gpu_bytes a \<le> dict_get_or (gpu_capacity s) (device_or_default (a_gpu_device a)) 0"
    using dev unfolding first_error_None device_errors_def by (auto simp: not_less)
  have agg: "aggregate_memory a \<noteq> 0 \<Longrightarrow> d_resident d + d_transient d + d_temp d = aggregate_memory a"
    using sound(9) sound(10) admission_demand_aggregate[OF d] by (cases "component_mode a") auto
  have renew: "a_renewing_from a \<noteq> None \<Longrightarrow> d_resident d + d_transient d = 0 \<and> d_temp d = 0 \<and> a_gpu_bytes a = 0"
    using d by (auto simp: admission_demand_def Let_def split: option.splits if_splits sum.splits)
  show ?thesis
    unfolding amounts_ok_def b same(9) using sound(1-7) route mem res agg renew by auto
qed

definition demo_args :: admission_args where
  "demo_args = \<lparr>a_route = ''pdf'', a_memory_bytes = Some 300, a_cpu_slots = 1, a_resident_bytes = 100, a_transient_bytes = None,
     a_temp_bytes = 50, a_native_threads = 1, a_phase = Some '' parse '', a_resident_key = Some ''model'', a_io_slots = 1,
     a_io_device = IoInt 5, a_gpu_bytes = 0, a_gpu_device = None, a_draining_from = None,
     a_adaptive_native_threads = False, a_native_thread_limit = None, a_renewing_from = None\<rparr>"

definition demo_entry :: entry where
  "demo_entry = \<lparr>e_stopped = False, e_gpu_monitored = False, e_available = (\<lambda>d. (None, 0)), e_materialized = (\<lambda>d. None),
     e_observation = demo_calm, e_free = 900, e_started = 0\<rparr>"

theorem prepare_sound_witness:
  "\<exists>rq s. prepare demo_args demo_entry demo = (Inr rq, s) \<and> rq_transient_bytes rq = 150 \<and> rq_io_device rq = Some ''dev:5''
     \<and> rq_memory_bytes rq + rq_temp_bytes rq = 300 \<and> rq_io_slots rq \<le> io_capacity s (io_key (rq_io_device rq))"
proof -
  obtain out s where run: "prepare demo_args demo_entry demo = (out, s)" by fastforce
  have v: "case fst (prepare demo_args demo_entry demo) of
      Inl e \<Rightarrow> False | Inr rq \<Rightarrow> rq_transient_bytes rq = 150 \<and> rq_io_device rq = Some ''dev:5''" by code_simp
  then obtain rq where rq: "out = Inr rq" "rq_transient_bytes rq = 150" "rq_io_device rq = Some ''dev:5''"
    using run by (cases out) auto
  have "aggregate_memory demo_args = 300" by (simp add: aggregate_memory_def demo_args_def)
  with prepare_sound[OF run[unfolded rq(1)]] run rq show ?thesis by auto
qed
end
