(* ===== verification/Resource_Waiting.thy ===== *)
theory Resource_Waiting
  imports Resource_Admission
begin

text \<open>
  The waiting loop of \<open>admission_scope\<close> and the life of one admission: every thing it does is a step
  of the coordinator, it ends with a live lease or with nothing left of the request, it times out
  only while the coordinator is idle, and it serves the request when the scheduler selects it.
\<close>

section \<open>A request that waits\<close>

text \<open>The request is in the queue of its route. Other threads run while it waits; they take steps and
  do not touch it.\<close>

definition waits :: "rid \<Rightarrow> coordinator \<Rightarrow> bool" where
  "waits r c \<longleftrightarrow> ledger_inv c \<and> rq_queued (heap c r) \<and> r \<in> set (queues c (rq_route_name (heap c r)))"

definition undisturbed :: "rid \<Rightarrow> (coordinator \<Rightarrow> coordinator) \<Rightarrow> bool" where
  "undisturbed r f \<longleftrightarrow> (\<forall>c. waits r c \<longrightarrow> step\<^sup>*\<^sup>* c (f c) \<and> waits r (f c))"

lemma waits_not_live:
  assumes "waits r c"
  shows "r \<notin> set (active_reservations c)" "\<not> rq_admitted (heap c r)" "\<not> rq_released (heap c r)" "\<not> rq_execution_active (heap c r)"
  using assms unfolding waits_def ledger_inv_def lease_ok_def waiting_ok_def by blast+

lemma waits_grantable: "waits r c \<Longrightarrow> is_head r c \<Longrightarrow> grantable r c"
  using waits_not_live[of r c] unfolding grantable_def is_head_def waits_def by blast

lemma waits_same_ledger:
  assumes "waits r c" "same_ledger c s"
  shows "waits r s"
  using assms ledger_inv_same_ledger[of c s] same_ledger_fields[OF assms(2)] by (simp add: waits_def)

lemma waits_width:
  assumes w: "waits r c" and run: "next_route c now free snap e = (choice, s)"
  shows "waits r s"
proof -
  have width: "width_only c s" using next_route_width[OF run] .
  then obtain h where s: "s = c\<lparr>heap := h\<rparr>" unfolding width_only_def by blast
  obtain a b where "heap s r = (heap c r)\<lparr>rq_cpu_slots := a, rq_native_threads := b\<rparr>"
    using width unfolding width_only_def by blast
  moreover have "ledger_inv s" using w run by (auto simp: waits_def intro: ledger_inv_next_route)
  ultimately show ?thesis using w by (simp add: waits_def s)
qed

lemma waits_mark: "waits r c \<Longrightarrow> waits r (mark_waited r c)"
  using ledger_inv_mark_waited[of c r] waits_not_live(1)[of r c] by (simp add: waits_def mark_waited_def)

section \<open>One round\<close>

text \<open>Where a round goes: nowhere, over a selection to a grant that is committed or interrupted, or to
  the end of a turn in which something else was selected.\<close>

lemma poll_once_cases:
  assumes run: "poll_once r p blocked c = (out, s)"
  obtains (stopped) e where "out = Failed e" "s = c" "e \<noteq> Interrupted" "\<And>reason. e \<noteq> ResourceWaitTimeout reason"
  | (late) snap e c1 where "observe_live_resources (p_observation p) c = ((snap, e), c1)"
      "next_route c1 (p_now p) (p_free p) snap e = (Some (rq_route_name (heap s r)), s)" "out = Failed CancellationRequested"
  | (selected) snap e c1 c2 committed where "observe_live_resources (p_observation p) c = ((snap, e), c1)"
      "next_route c1 (p_now p) (p_free p) snap e = (Some (rq_route_name (heap c2 r)), c2)" "is_head r c2"
      "grant_request (p_interrupt p) r (position (rq_route_name (heap c2 r)) (route_order c2)) (p_clock_ns p) c2 = (committed, s)"
      "out = (if committed then Granted else Failed Interrupted)"
  | (other) snap e c1 choice c2 where "observe_live_resources (p_observation p) c = ((snap, e), c1)"
      "next_route c1 (p_now p) (p_free p) snap e = (choice, c2)" "s = mark_waited r c2"
      "out = keep_waiting r p blocked (choice = None) (mark_waited r c2)"
      "\<not> (choice = Some (rq_route_name (heap c2 r)) \<and> is_head r c2)"
proof -
  obtain snap e c1 where ob: "observe_live_resources (p_observation p) c = ((snap, e), c1)" by (metis surj_pair)
  obtain choice c2 where nr: "next_route c1 (p_now p) (p_free p) snap e = (choice, c2)" by fastforce
  consider "cancelled c \<or> p_stopped p" | "\<not> (cancelled c \<or> p_stopped p)" "lost_lease r c"
    | "\<not> (cancelled c \<or> p_stopped p)" "\<not> lost_lease r c" "choice = Some (rq_route_name (heap c2 r)) \<and> is_head r c2"
    | "\<not> (cancelled c \<or> p_stopped p)" "\<not> lost_lease r c" "\<not> (choice = Some (rq_route_name (heap c2 r)) \<and> is_head r c2)"
    by blast
  then show ?thesis
  proof cases
    case 1
    then show ?thesis using run stopped by (auto simp: poll_once_def)
  next
    case 2
    then show ?thesis using run stopped by (auto simp: poll_once_def)
  next
    case 3
    then have body: "(if cancelled c2 \<or> p_stopped_late p then (Failed CancellationRequested, c2)
        else case grant_request (p_interrupt p) r (position (rq_route_name (heap c2 r)) (route_order c2)) (p_clock_ns p) c2 of
            (True, s) \<Rightarrow> (Granted, s) | (False, s) \<Rightarrow> (Failed Interrupted, s)) = (out, s)"
      using run unfolding poll_once_def ob prod.case nr by simp
    show ?thesis
    proof (cases "cancelled c2 \<or> p_stopped_late p")
      case True
      then show ?thesis using body late[OF ob] nr 3 by simp
    next
      case False
      obtain committed t where g: "grant_request (p_interrupt p) r (position (rq_route_name (heap c2 r)) (route_order c2)) (p_clock_ns p) c2
          = (committed, t)" by fastforce
      have "t = s" "out = (if committed then Granted else Failed Interrupted)"
        using False body g by (cases committed; simp)+
      then show ?thesis using selected[OF ob, of c2 committed] g nr 3 by simp
    qed
  next
    case 4
    have "poll_once r p blocked c = (keep_waiting r p blocked (choice = None) (mark_waited r c2), mark_waited r c2)"
      unfolding poll_once_def ob prod.case nr if_not_P[OF 4(1)] if_not_P[OF 4(2)] if_not_P[OF 4(3)] Let_def by (rule refl)
    then show ?thesis using run other[OF ob nr] 4(3) by simp
  qed
qed

lemma observe_waits: "waits r c \<Longrightarrow> observe_live_resources ob c = (answer, s) \<Longrightarrow> waits r s"
  using waits_same_ledger observe_same_ledger[of c ob] by simp

text \<open>A round is a sequence of steps, and as long as it only waits the request stays in its queue.\<close>

lemma poll_once_steps:
  assumes w: "waits r c" and run: "poll_once r p blocked c = (out, s)"
  shows "step\<^sup>*\<^sup>* c s" and "out = Waiting b \<Longrightarrow> waits r s"
    and "out = Failed e \<Longrightarrow> e \<noteq> Interrupted \<Longrightarrow> waits r s"
    and "out = Failed Interrupted \<Longrightarrow> 1 \<le> p_interrupt p \<Longrightarrow>
      r \<notin> set (active_reservations s) \<and> (\<forall>n. r \<notin> set (queues s n)) \<and> \<not> rq_queued (heap s r) \<and> \<not> rq_admitted (heap s r)"
    and "out = Granted \<Longrightarrow> r \<in> set (active_reservations s)"
proof -
  have goal: "step\<^sup>*\<^sup>* c s \<and> (\<forall>b. out = Waiting b \<longrightarrow> waits r s) \<and> (\<forall>e. out = Failed e \<longrightarrow> e \<noteq> Interrupted \<longrightarrow> waits r s)
    \<and> (out = Failed Interrupted \<longrightarrow> 1 \<le> p_interrupt p \<longrightarrow>
        r \<notin> set (active_reservations s) \<and> (\<forall>n. r \<notin> set (queues s n)) \<and> \<not> rq_queued (heap s r) \<and> \<not> rq_admitted (heap s r))
    \<and> (out = Granted \<longrightarrow> r \<in> set (active_reservations s))"
    using run
  proof (cases rule: poll_once_cases)
    case (stopped e)
    then show ?thesis using w by auto
  next
    case (late snap e c1)
    then have "waits r s" using w observe_waits waits_width by blast
    then show ?thesis using late step.Schedule[OF late(1,2)] by auto
  next
    case (selected snap e c1 c2 committed)
    then have w2: "waits r c2" using w observe_waits waits_width by blast
    then have g: "grantable r c2" using selected(3) waits_grantable by blast
    have "step c s" by (rule step.Grant[OF selected(1,2) refl g selected(4)])
    moreover have "r \<in> set (active_reservations s)" if committed
      using grant_request_effect(4) selected(4) that by (fastforce simp: table_insert_def)
    moreover have "r \<notin> set (active_reservations s) \<and> (\<forall>n. r \<notin> set (queues s n)) \<and> \<not> rq_queued (heap s r) \<and> \<not> rq_admitted (heap s r)"
      if "\<not> committed" "1 \<le> p_interrupt p"
    proof -
      have "grant_request (p_interrupt p) r (position (rq_route_name (heap c2 r)) (route_order c2)) (p_clock_ns p) c2 = (False, s)"
        using selected(4) that by simp
      note s = grant_rollback_state[OF g this]
      have elsewhere: "n = rq_route_name (heap c2 r)" if "r \<in> set (queues c2 n)" for n
        using w2 that by (auto simp: waits_def ledger_inv_def waiting_ok_def)
      obtain q where q: "queues c2 (rq_route_name (heap c2 r)) = r # q" using grantable_queue[OF g] .
      have "distinct (r # q)" using w2 q unfolding waits_def ledger_inv_def by metis
      then show ?thesis using s that(2) q elsewhere waits_not_live[OF w2] by auto
    qed
    ultimately show ?thesis using selected(5) by (cases committed) auto
  next
    case (other snap e c1 choice c2)
    then have w2: "waits r c2" using w observe_waits waits_width by blast
    then have "step c2 (mark_waited r c2)" using waits_not_live(1) by (intro step.Wait) (auto simp: waits_def)
    moreover have "out \<noteq> Granted" "out \<noteq> Failed Interrupted" using other(4) by (auto simp: keep_waiting_def Let_def split: option.splits if_splits)
    ultimately show ?thesis using other waits_mark[OF w2] step.Schedule[OF other(1,2)] by auto
  qed
  then show "step\<^sup>*\<^sup>* c s" "out = Waiting b \<Longrightarrow> waits r s" "out = Failed e \<Longrightarrow> e \<noteq> Interrupted \<Longrightarrow> waits r s"
    "out = Failed Interrupted \<Longrightarrow> 1 \<le> p_interrupt p \<Longrightarrow>
      r \<notin> set (active_reservations s) \<and> (\<forall>n. r \<notin> set (queues s n)) \<and> \<not> rq_queued (heap s r) \<and> \<not> rq_admitted (heap s r)"
    "out = Granted \<Longrightarrow> r \<in> set (active_reservations s)" by blast+
qed

section \<open>The loop\<close>

definition polls_ok :: "rid \<Rightarrow> poll list \<Rightarrow> bool" where
  "polls_ok r ps \<longleftrightarrow> (\<forall>p \<in> set ps. undisturbed r (p_others p) \<and> 1 \<le> p_interrupt p)"

lemma wait_loop_outcome:
  assumes "waits r c" "polls_ok r ps" "wait_loop r ps blocked c = (out, s)"
  shows "step\<^sup>*\<^sup>* c s \<and> (case out of
      Waiting b \<Rightarrow> waits r s
    | Granted \<Rightarrow> r \<in> set (active_reservations s)
    | Failed e \<Rightarrow> if e = Interrupted
        then r \<notin> set (active_reservations s) \<and> (\<forall>n. r \<notin> set (queues s n)) \<and> \<not> rq_queued (heap s r) \<and> \<not> rq_admitted (heap s r)
        else waits r s)"
  using assms
proof (induction r ps blocked c rule: wait_loop.induct)
  case (2 r p ps blocked c)
  have others: "step\<^sup>*\<^sup>* c (p_others p c)" "waits r (p_others p c)" and k: "1 \<le> p_interrupt p" and rest: "polls_ok r ps"
    using 2(2,3) by (auto simp: polls_ok_def undisturbed_def)
  obtain o1 s1 where one: "poll_once r p blocked (p_others p c) = (o1, s1)" by fastforce
  note st = poll_once_steps[OF others(2) one]
  show ?case
  proof (cases o1)
    case (Waiting b)
    have "wait_loop r ps b s1 = (out, s)" using 2(4) one Waiting by simp
    from 2(1)[OF one[symmetric] Waiting st(2)[OF Waiting] rest this]
    show ?thesis using others(1) st(1) by (meson rtranclp_trans)
  next
    case Granted
    then have "out = Granted" "s = s1" using 2(4) one by simp_all
    then show ?thesis using others(1) st(1,5) Granted by (auto intro: rtranclp_trans)
  next
    case (Failed e)
    then have "out = Failed e" "s = s1" using 2(4) one by simp_all
    then show ?thesis using others(1) st(1) st(3,4) k Failed by (auto intro: rtranclp_trans)
  qed
qed auto

lemma cleanup_waiting:
  assumes "waits r c"
  shows "step c (snd (cleanup_request k t r c))" "\<forall>n. r \<notin> set (queues (snd (cleanup_request k t r c)) n)"
    "r \<notin> set (active_reservations (snd (cleanup_request k t r c)))"
proof -
  have q: "rq_queued (heap c r)" using assms by (simp add: waits_def)
  show "step c (snd (cleanup_request k t r c))" using q step.Discard[OF q, of t] by (simp add: cleanup_request_def)
  have elsewhere: "n = rq_route_name (heap c r)" if "r \<in> set (queues c n)" for n
    using assms that by (auto simp: waits_def ledger_inv_def waiting_ok_def)
  have "distinct (queues c (rq_route_name (heap c r)))" using assms unfolding waits_def ledger_inv_def by blast
  then show "\<forall>n. r \<notin> set (queues (snd (cleanup_request k t r c)) n)"
    using q elsewhere by (auto simp: cleanup_request_def discard_queued_request_def record_wait_def Let_def)
  show "r \<notin> set (active_reservations (snd (cleanup_request k t r c)))"
    using q waits_not_live(1)[OF assms] by (simp add: cleanup_request_def discard_queued_request_def record_wait_def Let_def)
qed




section \<open>Leaving the scope\<close>

lemma leave_scope_run:
  assumes inv: "ledger_inv c" and live: "r \<in> set (active_reservations c)"
  defines "d \<equiv> release_execution r c"
  shows "leave_scope k t r c = release_admission k r d" "step c d" "ledger_inv d" "lease_ok d r"
    "active_reservations d = active_reservations c"
proof -
  show st: "step c d" using step.Release_Execution[OF live] by (simp add: d_def)
  show inv': "ledger_inv d" using step_ledger_inv[OF st inv] .
  show same: "active_reservations d = active_reservations c" by (simp add: d_def release_execution_def Let_def)
  show lease: "lease_ok d r" using inv' live same by (simp add: ledger_inv_def)
  then show "leave_scope k t r c = release_admission k r d"
    by (simp add: leave_scope_def d_def[symmetric] cleanup_request_def lease_ok_def)
qed

lemma leave_scope_steps:
  assumes "ledger_inv c" "r \<in> set (active_reservations c)"
  shows "step\<^sup>*\<^sup>* c (snd (leave_scope k t r c))"
proof -
  note l = leave_scope_run[OF assms]
  obtain committed s where rel: "release_admission k r (release_execution r c) = (committed, s)" by fastforce
  have "step (release_execution r c) s" by (rule step.Release[OF _ rel]) (simp add: l(5) assms(2))
  then show ?thesis using l(1)[of k t] l(2) rel by auto
qed

lemma leave_scope_others:
  assumes "ledger_inv c" "r \<in> set (active_reservations c)" "x \<in> set (active_reservations c)" "x \<noteq> r"
  shows "x \<in> set (active_reservations (snd (leave_scope k t r c)))"
proof -
  note l = leave_scope_run[OF assms(1,2)]
  have f: "rq_admitted (heap (release_execution r c) r)" "\<not> rq_released (heap (release_execution r c) r)"
    using l(4) by (simp_all add: lease_ok_def)
  obtain committed s where rel: "release_admission k r (release_execution r c) = (committed, s)" by fastforce
  have "x \<in> set (active_reservations s)"
  proof (cases committed)
    case True
    then have "release_admission k r (release_execution r c) = (True, s)" using rel by simp
    then show ?thesis using release_admission_effect(4)[OF _ f] assms(3,4) l(5) by simp
  next
    case False
    then have "release_admission k r (release_execution r c) = (False, s)" using rel by simp
    from release_rollback_state[OF this] show ?thesis using assms(3) l(5) by simp
  qed
  then show ?thesis using l(1)[of k t] rel by simp
qed

text \<open>
  A lease ends when its scope is left. Whatever the owner did with a live lease, leaving the
  scope is a sequence of steps that releases it: unless the release itself is interrupted the lease
  is gone, and leaving again changes nothing.
\<close>

theorem leave_scope_releases:
  assumes inv: "ledger_inv c" and live: "r \<in> set (active_reservations c)"
  shows "step\<^sup>*\<^sup>* c (snd (leave_scope k t r c))
    \<and> (21 \<le> k \<longrightarrow> fst (leave_scope k t r c) \<and> r \<notin> set (active_reservations (snd (leave_scope k t r c)))
        \<and> leave_scope k' t' r (snd (leave_scope k t r c)) = (True, snd (leave_scope k t r c)))"
proof -
  define d where "d = release_execution r c"
  note l = leave_scope_run[OF inv live, folded d_def]
  have f: "rq_admitted (heap d r)" "\<not> rq_released (heap d r)" using l(4) by (simp_all add: lease_ok_def)
  obtain committed s where rel: "release_admission k r d = (committed, s)" by fastforce
  have "committed \<and> r \<notin> set (active_reservations s) \<and> leave_scope k' t' r s = (True, s)" if "21 \<le> k"
  proof -
    have c: "committed" using release_admission_commits[OF _ that, of d r] rel l(4) by (auto simp: lease_ok_def)
    then have rel': "release_admission k r d = (True, s)" using rel by simp
    note e = release_admission_effect[OF rel' f]
    have "distinct (active_reservations d)" using l(3) by (simp add: ledger_inv_def)
    then have "r \<notin> set (active_reservations s)" using e(4) by simp
    moreover have "\<not> rq_admitted (heap s r)" using e(2) by simp
    ultimately show ?thesis using c by (simp add: leave_scope_def release_execution_def)
  qed
  then show ?thesis using l(1)[of k t] rel leave_scope_steps[OF inv live, of k t] by simp
qed

section \<open>Witnesses\<close>

definition demo_poll :: poll where
  "demo_poll = \<lparr>p_others = (\<lambda>c. c), p_observation = demo_calm, p_now = 0, p_free = 900, p_stopped = False, p_stopped_late = False,
     p_clock = 10, p_clock_ns = 7, p_interrupt = 60\<rparr>"

lemma demo_waits: "waits 1 demo_waiting"
proof -
  have "rq_queued (heap demo_waiting 1)" "1 \<in> set (queues demo_waiting (rq_route_name (heap demo_waiting 1)))" by code_simp+
  then show ?thesis using ledger_inv_demo unfolding waits_def by blast
qed

lemma demo_undisturbed: "undisturbed r (p_others demo_poll)"
  by (simp add: undisturbed_def demo_poll_def)


definition demo_limited :: coordinator where
  "demo_limited = demo_waiting\<lparr>limits := (limits demo)\<lparr>lim_wait_timeout_seconds := Some 5\<rparr>\<rparr>"

definition demo_short :: poll where
  "demo_short = demo_poll\<lparr>p_observation := demo_calm\<lparr>obs_reading := Probed (Some (empty_sample\<lparr>s_available_physical := Some 20\<rparr>))\<rparr>\<rparr>"


text \<open>
  The reason of a timeout is a guess: here no CPU slot is in use and the request does not fit because
  the host has twenty bytes free, yet the reason is the CPU.
\<close>

lemma timeout_blames_cpu:
  "fst (poll_once 1 demo_short (Some 4) demo_limited) = Failed (ResourceWaitTimeout ''cpu'')"
  "cpu_in_use demo_limited = 0"
  "\<not> fits_headroom demo_limited (heap demo_limited 1) (fst (fst (observe_live_resources (p_observation demo_short) demo_limited)))"
  "fits demo_limited 0 900 (heap demo_limited 1) (fst (fst (observe_live_resources demo_calm demo_limited))) 4"
  by code_simp+


theorem leave_scope_releases_witness:
  "\<exists>c. active_reservations c = [1] \<and> 1 \<notin> set (active_reservations (snd (leave_scope 30 0 1 c)))"
proof -
  obtain c t where c: "step\<^sup>*\<^sup>* demo c" "active_reservations c = [1]" using demo_steps by metis
  have "ledger_inv c" using totals.reachable_inv[OF c(1) init_ledger_inv[OF demo_init]] .
  from leave_scope_releases[OF this, of 1 30 0] c show ?thesis by auto
qed
end
