(* ===== verification/Cancel_Tokens.thy ===== *)
theory Cancel_Tokens
  imports Neo_Prelude
begin

text \<open>
  Cooperative cancellation, \<open>cancellation.py\<close>, and the combined token of \<open>resource_grants.py\<close>. An
  event has an identity; the state of the program is the list of events that are set, which only
  grows. A token is its own event, an event with a parent, or the combination of an owner's token
  with a temporary one.
\<close>

type_synonym event = nat

datatype token = Token event "token option" | Combined event "token option" token

text \<open>\<open>CancellationToken.is_cancelled\<close>; a combined token also asks its owner.\<close>

fun is_cancelled :: "event list \<Rightarrow> token \<Rightarrow> bool" where
  "is_cancelled set_events (Token e parent) =
     (e \<in> set set_events \<or> (case parent of None \<Rightarrow> False | Some p \<Rightarrow> is_cancelled set_events p))"
| "is_cancelled set_events (Combined e owner extra) =
     ((e \<in> set set_events \<or> is_cancelled set_events extra)
      \<or> (case owner of None \<Rightarrow> False | Some p \<Rightarrow> is_cancelled set_events p))"

fun own_event :: "token \<Rightarrow> event" where
  "own_event (Token e parent) = e"
| "own_event (Combined e owner extra) = e"

definition cancel_token :: "token \<Rightarrow> event list \<Rightarrow> event list" where
  "cancel_token t set_events = (if own_event t \<in> set set_events then set_events else own_event t # set_events)"

text \<open>\<open>checkpoint\<close> raises when the token is cancelled. The combined token checks its owner, the
  temporary token and then itself.\<close>

fun checkpoint_token :: "event list \<Rightarrow> token \<Rightarrow> py_error + unit" where
  "checkpoint_token set_events (Token e parent) =
     (if is_cancelled set_events (Token e parent) then Inl CancellationRequested else Inr ())"
| "checkpoint_token set_events (Combined e owner extra) =
     (case (case owner of None \<Rightarrow> Inr () | Some p \<Rightarrow> checkpoint_token set_events p) of
        Inl err \<Rightarrow> Inl err
      | Inr _ \<Rightarrow> (case checkpoint_token set_events extra of
          Inl err \<Rightarrow> Inl err
        | Inr _ \<Rightarrow> if is_cancelled set_events (Combined e owner extra) then Inl CancellationRequested else Inr ()))"

text \<open>
  \<open>wait\<close> of a token with a parent. A round has the events that are set when it begins, the clock
  reading it makes, and the events that are set when the remaining time is found used up. Every round
  sleeps at most a tenth of a second; \<open>None\<close> is a wait that did not end within the given rounds.
\<close>

record wait_round =
  w_events :: "event list"
  w_clock :: real
  w_late_events :: "event list"

fun wait_token :: "token \<Rightarrow> real option \<Rightarrow> wait_round list \<Rightarrow> bool option" where
  "wait_token t deadline [] = None"
| "wait_token t deadline (w # ws) =
     (if is_cancelled (w_events w) t then Some True
      else case deadline of
             None \<Rightarrow> wait_token t deadline ws
           | Some d \<Rightarrow> if max 0 (d - w_clock w) \<le> 0 then Some (is_cancelled (w_late_events w) t)
                       else wait_token t deadline ws)"

section \<open>Lemmas\<close>

text \<open>The events a token listens to.\<close>

fun listens :: "token \<Rightarrow> event set" where
  "listens (Token e parent) = insert e (case parent of None \<Rightarrow> {} | Some p \<Rightarrow> listens p)"
| "listens (Combined e owner extra) = insert e (listens extra \<union> (case owner of None \<Rightarrow> {} | Some p \<Rightarrow> listens p))"

lemma is_cancelled_listens: "is_cancelled evs t \<longleftrightarrow> set evs \<inter> listens t \<noteq> {}"
  by (induction evs t rule: is_cancelled.induct) (auto split: option.splits)

lemma set_cancel_token: "set (cancel_token t evs) = insert (own_event t) (set evs)"
  by (auto simp: cancel_token_def)

lemma own_event_listens: "own_event t \<in> listens t"
  by (cases t) auto

lemma checkpoint_token_iff: "checkpoint_token evs t = (if is_cancelled evs t then Inl CancellationRequested else Inr ())"
  by (induction evs t rule: checkpoint_token.induct) (auto split: option.splits)

lemma wait_token_ends:
  assumes "d \<le> w_clock w"
  shows "\<exists>answer. wait_token t (Some d) (ws @ [w]) = Some answer"
  using assms by (induction ws) auto

section \<open>Properties\<close>

text \<open>
  Cancellation is one way and scoped. Cancelling a token cancels it and every token that listens
  to it, it never becomes uncancelled by further events, and a token that does not listen to the
  event - a sibling, an owner - is not affected. A checkpoint raises exactly when its token is
  cancelled, for combined tokens too.
\<close>

theorem cancellation_scoped:
  "is_cancelled (cancel_token t evs) t
   \<and> (is_cancelled evs u \<longrightarrow> is_cancelled (later @ evs) u)
   \<and> (is_cancelled (cancel_token t evs) u \<longleftrightarrow> is_cancelled evs u \<or> own_event t \<in> listens u)
   \<and> (checkpoint_token evs u = Inr () \<longleftrightarrow> \<not> is_cancelled evs u)
   \<and> (own_event (Token e (Some t)) \<notin> listens t \<longrightarrow> is_cancelled (cancel_token (Token e (Some t)) evs) t = is_cancelled evs t)"
  by (auto simp: is_cancelled_listens set_cancel_token own_event_listens checkpoint_token_iff)

text \<open>
  An interruptible wait ends. With a deadline it answers in the first round whose clock has
  reached it, at the latest; it answers true only if the token was seen cancelled; and once a round
  begins with the token cancelled the wait answers true.
\<close>

theorem wait_token_sound:
  "(d \<le> w_clock w \<longrightarrow> (\<exists>answer. wait_token t (Some d) (ws @ [w]) = Some answer))
   \<and> (wait_token t deadline ws = Some True \<longrightarrow>
        (\<exists>v \<in> set ws. is_cancelled (w_events v) t \<or> is_cancelled (w_late_events v) t))
   \<and> (is_cancelled (w_events w) t \<longrightarrow> wait_token t None (ws @ [w]) = Some True)"
proof -
  have "wait_token t deadline ws = Some True \<Longrightarrow> \<exists>v \<in> set ws. is_cancelled (w_events v) t \<or> is_cancelled (w_late_events v) t"
    by (induction t deadline ws rule: wait_token.induct) (auto split: if_splits option.splits)
  moreover have "is_cancelled (w_events w) t \<Longrightarrow> wait_token t None (ws @ [w]) = Some True"
    by (induction ws) auto
  ultimately show ?thesis using wait_token_ends by blast
qed

theorem cancellation_scoped_witness:
  "is_cancelled (cancel_token (Token 2 (Some (Token 1 None))) []) (Combined 3 (Some (Token 2 None)) (Token 4 None))
   \<and> \<not> is_cancelled (cancel_token (Token 2 (Some (Token 1 None))) []) (Token 1 None)"
  using cancellation_scoped[of "Token 2 (Some (Token 1 None))" "[]" "Combined 3 (Some (Token 2 None)) (Token 4 None)"]
    cancellation_scoped[of "Token 1 None" "[]" _ _ 2] by simp

theorem wait_token_sound_witness:
  "wait_token (Token 2 (Some (Token 1 None))) (Some 5) [\<lparr>w_events = [], w_clock = 3, w_late_events = []\<rparr>,
      \<lparr>w_events = [], w_clock = 5, w_late_events = [1]\<rparr>] = Some True
   \<and> (\<exists>v \<in> set [\<lparr>w_events = [], w_clock = 3, w_late_events = []\<rparr>, \<lparr>w_events = [], w_clock = 5, w_late_events = [1]\<rparr>].
        is_cancelled (w_events v) (Token 2 (Some (Token 1 None))) \<or> is_cancelled (w_late_events v) (Token 2 (Some (Token 1 None))))"
proof -
  have run: "wait_token (Token 2 (Some (Token 1 None))) (Some 5) [\<lparr>w_events = [], w_clock = 3, w_late_events = []\<rparr>,
      \<lparr>w_events = [], w_clock = 5, w_late_events = [1]\<rparr>] = Some True" by simp
  show ?thesis using wait_token_sound run by blast
qed
end
