(* ===== verification/Resource_Grants.thy ===== *)
theory Resource_Grants
  imports Resource_Waiting Cancel_Tokens
begin

text \<open>
  The lease object \<open>ResourceGrant\<close> (\<open>resource_grants.py\<close>) and the route adapter
  \<open>CoordinatedMemoryGate\<close> (\<open>global_resources.py\<close>). A lease knows its request, the execution it was
  granted with, and the admission that renewed its execution. Every operation that allocates is an
  admission with particular arguments; those arguments are the model of the operation.
\<close>

section \<open>Model\<close>

record resource_grant =
  g_request :: rid
  g_execution_demand :: "int \<times> int \<times> int"
  g_resumed :: "rid option"

definition new_grant :: "rid \<Rightarrow> coordinator \<Rightarrow> resource_grant" where
  "new_grant r c = \<lparr>g_request = r,
     g_execution_demand = (rq_cpu_slots (heap c r), rq_native_threads (heap c r), rq_io_slots (heap c r)), g_resumed = None\<rparr>"

definition grant_native_threads :: "resource_grant \<Rightarrow> coordinator \<Rightarrow> int" where
  "grant_native_threads g c = rq_native_threads (heap c (case g_resumed g of None \<Rightarrow> g_request g | Some r \<Rightarrow> r))"

definition NATIVE_VARIABLES :: "string list" where
  "NATIVE_VARIABLES = [''OMP_NUM_THREADS'', ''OMP_THREAD_LIMIT'', ''OPENBLAS_NUM_THREADS'', ''MKL_NUM_THREADS'',
     ''NUMEXPR_NUM_THREADS'', ''VECLIB_MAXIMUM_THREADS'', ''BLIS_NUM_THREADS'']"

definition native_env :: "resource_grant \<Rightarrow> coordinator \<Rightarrow> (string, string) dict" where
  "native_env g c = map (\<lambda>v. (v, dec_of (nat (max 1 (grant_native_threads g c))))) NATIVE_VARIABLES"

definition subprocess_env :: "(string, string) dict \<Rightarrow> resource_grant \<Rightarrow> coordinator \<Rightarrow> (string, string) dict" where
  "subprocess_env base g c = fold (\<lambda>(k, v) env. dict_set env k v) (native_env g c) base"

text \<open>\<open>release_cpu\<close>: the renewal's scope is left first, then the lease's own execution is returned. An
  exception while the renewal is left keeps the rest from running.\<close>

definition release_cpu :: "nat \<Rightarrow> int \<Rightarrow> resource_grant \<Rightarrow> coordinator \<Rightarrow> bool \<times> resource_grant \<times> coordinator" where
  "release_cpu k now_ns g c =
    (case g_resumed g of
       None \<Rightarrow> (True, g, release_execution (g_request g) c)
     | Some r \<Rightarrow>
         (case leave_scope k now_ns r c of
            (True, s) \<Rightarrow> (True, g\<lparr>g_resumed := None\<rparr>, release_execution (g_request g) s)
          | (False, s) \<Rightarrow> (False, g\<lparr>g_resumed := None\<rparr>, s)))"

definition no_demand :: "string \<Rightarrow> admission_args" where
  "no_demand route_name =
    \<lparr>a_route = route_name, a_memory_bytes = None, a_cpu_slots = 1, a_resident_bytes = 0, a_transient_bytes = None,
     a_temp_bytes = 0, a_native_threads = 0, a_phase = None, a_resident_key = None, a_io_slots = 0, a_io_device = IoNone,
     a_gpu_bytes = 0, a_gpu_device = None, a_draining_from = None, a_adaptive_native_threads = False,
     a_native_thread_limit = None, a_renewing_from = None\<rparr>"

definition text_or :: "string option \<Rightarrow> string \<Rightarrow> string" where
  "text_or s other = (case s of None \<Rightarrow> other | Some t \<Rightarrow> if t = [] then other else t)"

definition drain_admission_args ::
  "resource_grant \<Rightarrow> int \<Rightarrow> io_value \<Rightarrow> string option \<Rightarrow> coordinator \<Rightarrow> py_error + admission_args" where
  "drain_admission_args g io_slots io_device phase c =
    (let rq = heap c (g_request g)
     in if \<not> (0 \<le> io_slots \<and> io_slots \<le> 1) then Inl (ValueError ''drain admission permits at most one I/O unit'')
        else Inr ((no_demand (rq_route_name rq))
          \<lparr>a_memory_bytes := Some 0, a_cpu_slots := 1, a_native_threads := 1, a_transient_bytes := Some 0,
           a_io_slots := io_slots, a_io_device := io_device,
           a_phase := Some (text_or phase (text_or (rq_phase rq) ''resident'' @ '':drain'')),
           a_draining_from := Some (g_request g)\<rparr>))"

text \<open>
  \<open>checkpoint\<close>, up to the admission it asks for. \<open>Inr (g, c, None)\<close> is a lease without execution,
  which has nothing to renew. \<open>stopped\<close> says whether one of the tokens it checks is cancelled.
\<close>

definition checkpoint_demand :: "resource_grant \<Rightarrow> bool \<Rightarrow> int \<times> int \<times> int" where
  "checkpoint_demand g draining = (if draining then (1, 1, 1) else g_execution_demand g)"

definition checkpoint_args :: "resource_grant \<Rightarrow> bool \<Rightarrow> coordinator \<Rightarrow> admission_args" where
  "checkpoint_args g draining c =
    (let rq = heap c (g_request g); (cpu, native, io) = checkpoint_demand g draining
     in (no_demand (rq_route_name rq))
          \<lparr>a_memory_bytes := Some 0, a_cpu_slots := cpu, a_native_threads := native, a_transient_bytes := Some 0,
           a_io_slots := io, a_io_device := (case rq_io_device rq of None \<Rightarrow> IoNone | Some d \<Rightarrow> IoText d),
           a_phase := Some (text_or (rq_phase rq) ''work'' @ '':checkpoint''),
           a_draining_from := (if draining then Some (g_request g) else None),
           a_renewing_from := (if draining then None else Some (g_request g))\<rparr>)"

definition checkpoint_begin ::
  "bool \<Rightarrow> nat \<Rightarrow> int \<Rightarrow> resource_grant \<Rightarrow> bool \<Rightarrow> coordinator
     \<Rightarrow> (py_error + admission_args option) \<times> resource_grant \<times> coordinator" where
  "checkpoint_begin stopped k now_ns g draining c =
    (if cancelled c \<or> stopped then (Inl CancellationRequested, g, c)
     else if \<not> rq_admitted (heap c (g_request g)) \<or> rq_released (heap c (g_request g))
       then (Inl (RuntimeError ''cannot renew a released resource grant''), g, c)
     else if checkpoint_demand g draining = (0, 0, 0) then (Inr None, g, c)
     else (case release_cpu k now_ns g c of
         (False, g', s) \<Rightarrow> (Inl Interrupted, g', s)
       | (True, g', s) \<Rightarrow> (Inr (Some (checkpoint_args g' draining s)), g', s)))"

text \<open>The route adapter: what its three admissions ask the coordinator for.\<close>

record gate_demand =
  gd_cpu_slots :: int
  gd_native_threads :: int
  gd_resident_bytes :: int
  gd_temp_bytes :: int
  gd_io_slots :: int
  gd_io_device :: io_value
  gd_gpu_bytes :: int
  gd_gpu_device :: "string option"
  gd_phase :: "string option"
  gd_resident_key :: "string option"

definition gate_admit :: "string \<Rightarrow> int \<Rightarrow> gate_demand \<Rightarrow> admission_args" where
  "gate_admit route_name estimated_bytes d =
    (no_demand route_name)
      \<lparr>a_cpu_slots := gd_cpu_slots d, a_resident_bytes := gd_resident_bytes d, a_transient_bytes := Some estimated_bytes,
       a_temp_bytes := gd_temp_bytes d, a_native_threads := gd_native_threads d, a_io_slots := gd_io_slots d,
       a_io_device := gd_io_device d, a_gpu_bytes := gd_gpu_bytes d, a_gpu_device := gd_gpu_device d,
       a_phase := gd_phase d, a_resident_key := gd_resident_key d\<rparr>"

definition gate_resident :: "string \<Rightarrow> int \<Rightarrow> string \<Rightarrow> string \<Rightarrow> int \<Rightarrow> string option \<Rightarrow> admission_args" where
  "gate_resident route_name estimated_bytes resident_key phase gpu_bytes gpu_device =
    gate_admit route_name 0
      \<lparr>gd_cpu_slots = 0, gd_native_threads = 0, gd_resident_bytes = estimated_bytes, gd_temp_bytes = 0, gd_io_slots = 0,
       gd_io_device = IoNone, gd_gpu_bytes = gpu_bytes, gd_gpu_device = gpu_device, gd_phase = Some phase,
       gd_resident_key = Some resident_key\<rparr>"

definition gate_native_budget :: "string \<Rightarrow> int \<Rightarrow> int option \<Rightarrow> py_error + admission_args" where
  "gate_native_budget route_name estimated_bytes max_threads =
    (if (case max_threads of None \<Rightarrow> False | Some m \<Rightarrow> m < 1) then Inl (ValueError ''max_threads must be positive or None'')
     else Inr ((no_demand route_name)
       \<lparr>a_cpu_slots := 1, a_transient_bytes := Some estimated_bytes, a_native_threads := 1,
        a_adaptive_native_threads := True, a_native_thread_limit := max_threads\<rparr>))"

text \<open>\<open>current_resource_grant\<close> follows the owners of renewals to the original lease.\<close>

datatype grant_link = Original resource_grant | Renewal resource_grant grant_link

fun owner_grant :: "grant_link \<Rightarrow> resource_grant" where
  "owner_grant (Original g) = g"
| "owner_grant (Renewal g owner) = owner_grant owner"

section \<open>Lemmas\<close>

lemma no_demand_fields [simp]:
  "a_route (no_demand n) = n" "a_resident_bytes (no_demand n) = 0" "a_temp_bytes (no_demand n) = 0" "a_gpu_bytes (no_demand n) = 0"
  "a_gpu_device (no_demand n) = None" "a_resident_key (no_demand n) = None" "a_adaptive_native_threads (no_demand n) = False"
  "a_memory_bytes (no_demand n) = None" "a_draining_from (no_demand n) = None" "a_renewing_from (no_demand n) = None"
  by (simp_all add: no_demand_def)

text \<open>An admission that asks for no memory in components gets a request without any.\<close>

lemma admission_demand_free:
  assumes "admission_demand a = Inr d" "a_transient_bytes a = Some 0" "a_resident_bytes a = 0" "a_temp_bytes a = 0"
  shows "d_resident d = 0" "d_transient d = 0" "d_temp d = 0"
  using assms by (auto simp: admission_demand_def Let_def component_mode_def component_transient_def split: option.splits if_splits sum.splits)

lemma checkpoint_args_fields:
  assumes "checkpoint_demand g draining = (cpu, native, io)"
  shows "a_transient_bytes (checkpoint_args g draining c) = Some 0" "a_resident_bytes (checkpoint_args g draining c) = 0"
    "a_temp_bytes (checkpoint_args g draining c) = 0" "a_gpu_bytes (checkpoint_args g draining c) = 0"
    "a_cpu_slots (checkpoint_args g draining c) = cpu" "a_native_threads (checkpoint_args g draining c) = native"
    "a_io_slots (checkpoint_args g draining c) = io" "a_route (checkpoint_args g draining c) = rq_route_name (heap c (g_request g))"
    "a_draining_from (checkpoint_args g draining c) = (if draining then Some (g_request g) else None)"
    "a_renewing_from (checkpoint_args g draining c) = (if draining then None else Some (g_request g))"
  by (simp_all add: checkpoint_args_def assms Let_def)

lemma granted_free:
  assumes "grant_request k r i t c = (True, s)" "rq_resident_bytes (heap c r) = 0" "rq_transient_bytes (heap c r) = 0"
  shows "reserved_bytes s = reserved_bytes c" "temp_bytes s = temp_bytes c + rq_temp_bytes (heap c r)"
proof -
  note ef = grant_request_effect[OF assms(1)]
  have z: "resident_charge_for_request c (heap c r) = 0"
    using assms(2) by (auto simp: resident_charge_for_request_def split: option.split)
  show "reserved_bytes s = reserved_bytes c" "temp_bytes s = temp_bytes c + rq_temp_bytes (heap c r)"
    using ef(1) assms(3) z unfolding counters_move_def all_resource by (simp_all add: granted_object_def Let_def)
qed

lemma release_cpu_steps:
  assumes "ledger_inv c" "g_request g \<in> set (active_reservations c)"
    "\<And>r. g_resumed g = Some r \<Longrightarrow> r \<in> set (active_reservations c) \<and> r \<noteq> g_request g"
  shows "step\<^sup>*\<^sup>* c (snd (snd (release_cpu k t g c)))"
proof (cases "g_resumed g")
  case None
  then show ?thesis using step.Release_Execution[OF assms(2)] by (auto simp: release_cpu_def)
next
  case (Some r)
  obtain ok s where l: "leave_scope k t r c = (ok, s)" by fastforce
  have st: "step\<^sup>*\<^sup>* c s" using leave_scope_steps[OF assms(1), of r k t] assms(3)[OF Some] l by simp
  have "g_request g \<in> set (active_reservations s)"
    using leave_scope_others[OF assms(1), of r "g_request g" k t] assms(2) assms(3)[OF Some] l by simp
  then show ?thesis
    using st step.Release_Execution[of "g_request g" s] by (cases ok) (auto simp: release_cpu_def Some l intro: rtranclp.rtrancl_into_rtrancl)
qed

section \<open>Properties\<close>

text \<open>
  A checkpoint renews execution and nothing else. The admission it asks for, as a renewal or as a
  finalizer, has no memory, temporary or GPU demand and exactly the CPU, native and I/O width the
  lease was granted with (one of each for a finalizer), on the same route and bound to the same lease;
  when it is granted, the reserved memory, the temporary bytes and the GPU memory are what they were.
  Getting there only takes steps of the coordinator.
\<close>

theorem checkpoint_renews_execution_only:
  assumes "checkpoint_begin stopped k now_ns g draining c = (Inr (Some a), g', s)"
    and inv: "ledger_inv c" "g_request g \<in> set (active_reservations c)"
      "\<And>r. g_resumed g = Some r \<Longrightarrow> r \<in> set (active_reservations c) \<and> r \<noteq> g_request g"
  shows "step\<^sup>*\<^sup>* c s \<and> g_request g' = g_request g \<and> g_resumed g' = None
    \<and> (\<forall>en u rq. prepare a en s = (Inr rq, u) \<longrightarrow>
        rq_memory_bytes rq = 0 \<and> rq_temp_bytes rq = 0 \<and> rq_gpu_bytes rq = 0
      \<and> (rq_cpu_slots rq, rq_native_threads rq, rq_io_slots rq) = checkpoint_demand g draining
      \<and> rq_route_name rq = rq_route_name (heap s (g_request g))
      \<and> (if draining then rq_draining_from rq else rq_renewing_from rq) = Some (g_request g)
      \<and> (\<forall>v w i r t j waited. heap v r = rq\<lparr>rq_queued := True, rq_waited := waited\<rparr> \<longrightarrow> grant_request j r i t v = (True, w) \<longrightarrow>
           reserved_bytes w = reserved_bytes v \<and> temp_bytes w = temp_bytes v \<and> gpu_in_use w = gpu_in_use v))"
proof -
  have rel: "release_cpu k now_ns g c = (True, g', s)" and a: "a = checkpoint_args g' draining s"
    using assms(1) by (auto simp: checkpoint_begin_def split: if_splits prod.splits bool.splits)
  have g: "g_request g' = g_request g" "g_resumed g' = None" "g_execution_demand g' = g_execution_demand g"
    using rel by (auto simp: release_cpu_def split: option.splits prod.splits bool.splits)
  obtain cpu native io where d: "checkpoint_demand g' draining = (cpu, native, io)" by (metis prod_cases3)
  have d': "checkpoint_demand g draining = (cpu, native, io)" using d unfolding checkpoint_demand_def g(3) .
  note f = checkpoint_args_fields[OF d, of s, folded a]
  have "rq_memory_bytes rq = 0 \<and> rq_temp_bytes rq = 0 \<and> rq_gpu_bytes rq = 0
      \<and> (rq_cpu_slots rq, rq_native_threads rq, rq_io_slots rq) = checkpoint_demand g draining
      \<and> rq_route_name rq = rq_route_name (heap s (g_request g))
      \<and> (if draining then rq_draining_from rq else rq_renewing_from rq) = Some (g_request g)
      \<and> rq_resident_bytes rq = 0 \<and> rq_transient_bytes rq = 0" if run: "prepare a en s = (Inr rq, u)" for en u rq
  proof -
    from run obtain d c1 where dm: "admission_demand a = Inr d" and rq: "rq = build_request a d (e_started en)"
      by (rule prepare_Inr)
    show ?thesis
      unfolding rq build_request_fields using admission_demand_free[OF dm] f g(1) d' by simp
  qed
  moreover have "reserved_bytes w = reserved_bytes v \<and> temp_bytes w = temp_bytes v \<and> gpu_in_use w = gpu_in_use v"
    if "heap v r = rq\<lparr>rq_queued := True, rq_waited := waited\<rparr>" "grant_request j r i t v = (True, w)"
      "rq_temp_bytes rq = 0" "rq_gpu_bytes rq = 0" "rq_resident_bytes rq = 0" "rq_transient_bytes rq = 0" for v w i r t j waited rq
    using granted_free[OF that(2)] grant_request_effect(6)[OF that(2)] that
    by (simp add: granted_object_def Let_def device_add_def)
  moreover have "step\<^sup>*\<^sup>* c s" using release_cpu_steps[OF inv, of k now_ns] rel by simp
  ultimately show ?thesis using g by blast
qed

text \<open>
  A child process is told its width. Every thread-count variable of a subprocess environment is
  the decimal text of the granted native threads, at least one and that of the renewal when execution
  was renewed; every other variable is the one of the base environment.
\<close>

theorem subprocess_env_width:
  "dict_get (subprocess_env base g c) v =
    (if v \<in> set NATIVE_VARIABLES then Some (dec_of (nat (max 1 (grant_native_threads g c)))) else dict_get base v)"
proof -
  have "dict_get (fold (\<lambda>(k, v) env. dict_set env k v) (map (\<lambda>v. (v, x)) vs) base) v
      = (if v \<in> set vs then Some x else dict_get base v)" for vs x and base :: "(string, string) dict"
    by (induction vs arbitrary: base) auto
  then show ?thesis by (simp add: subprocess_env_def native_env_def)
qed

text \<open>
  The route adapter charges each component once. A gate admission charges its explicit resident
  and temporary bytes and takes its first argument as transient memory; a resident admission holds its
  bytes without any execution; a native budget asks for one CPU slot and one thread as the minimum of
  an adaptive width with the caller's ceiling.
\<close>

theorem gate_demands_exact:
  "(admission_demand (gate_admit n estimated gd) = Inr d \<longrightarrow>
      d_resident d = gd_resident_bytes gd \<and> d_transient d = estimated \<and> d_temp d = gd_temp_bytes gd)
   \<and> (admission_demand (gate_resident n estimated key phase gpu dev) = Inr d \<longrightarrow>
      d_resident d = estimated \<and> d_transient d = 0 \<and> d_temp d = 0
      \<and> \<not> executes (build_request (gate_resident n estimated key phase gpu dev) d started))
   \<and> (gate_native_budget n estimated limit = Inr a \<longrightarrow> admission_demand a = Inr d \<longrightarrow>
      d_resident d = 0 \<and> d_transient d = estimated \<and> d_temp d = 0
      \<and> rq_adaptive_native_threads (build_request a d started) \<and> rq_native_thread_limit (build_request a d started) = limit
      \<and> rq_cpu_slots (build_request a d started) = 1 \<and> rq_native_threads (build_request a d started) = 1
      \<and> (\<forall>m. limit = Some m \<longrightarrow> 1 \<le> m))"
proof -
  have comp: "d_resident d = a_resident_bytes a \<and> d_transient d = t \<and> d_temp d = a_temp_bytes a"
    if "admission_demand a = Inr d" "a_transient_bytes a = Some t" for a t
    using that by (auto simp: admission_demand_def Let_def component_mode_def component_transient_def split: option.splits if_splits sum.splits)
  show ?thesis
  proof (intro conjI impI allI)
    show "admission_demand (gate_admit n estimated gd) = Inr d \<Longrightarrow> d_resident d = gd_resident_bytes gd"
      "admission_demand (gate_admit n estimated gd) = Inr d \<Longrightarrow> d_transient d = estimated"
      "admission_demand (gate_admit n estimated gd) = Inr d \<Longrightarrow> d_temp d = gd_temp_bytes gd"
      using comp[of "gate_admit n estimated gd" estimated] by (simp_all add: gate_admit_def)
    show "admission_demand (gate_resident n estimated key phase gpu dev) = Inr d \<Longrightarrow> d_resident d = estimated"
      "admission_demand (gate_resident n estimated key phase gpu dev) = Inr d \<Longrightarrow> d_transient d = 0"
      "admission_demand (gate_resident n estimated key phase gpu dev) = Inr d \<Longrightarrow> d_temp d = 0"
      using comp[of "gate_resident n estimated key phase gpu dev" 0] by (simp_all add: gate_resident_def gate_admit_def)
    show "\<not> executes (build_request (gate_resident n estimated key phase gpu dev) d started)"
      by (simp add: executes_def build_request_fields gate_resident_def gate_admit_def)
  next
    assume "gate_native_budget n estimated limit = Inr a" and d: "admission_demand a = Inr d"
    then have a: "a = (no_demand n)\<lparr>a_cpu_slots := 1, a_transient_bytes := Some estimated, a_native_threads := 1,
        a_adaptive_native_threads := True, a_native_thread_limit := limit\<rparr>" and l: "\<And>m. limit = Some m \<Longrightarrow> 1 \<le> m"
      by (auto simp: gate_native_budget_def split: if_splits option.splits)
    show "d_resident d = 0" "d_transient d = estimated" "d_temp d = 0" using comp[OF d, of estimated] by (simp_all add: a)
    show "rq_adaptive_native_threads (build_request a d started)" "rq_native_thread_limit (build_request a d started) = limit"
      "rq_cpu_slots (build_request a d started) = 1" "rq_native_threads (build_request a d started) = 1"
      by (simp_all add: a build_request_def new_request_def)
    show "1 \<le> m" if "limit = Some m" for m using l that .
  qed
qed

section \<open>Witnesses\<close>

definition demo_grant :: resource_grant where
  "demo_grant = \<lparr>g_request = 1, g_execution_demand = (1, 1, 1), g_resumed = None\<rparr>"

theorem gate_demands_exact_witness:
  "\<exists>d. admission_demand (gate_resident ''pdf'' 70 ''model'' ''resident'' 0 None) = Inr d \<and> d_resident d = 70 \<and> d_transient d = 0"
proof -
  have "\<exists>d. admission_demand (gate_resident ''pdf'' 70 ''model'' ''resident'' 0 None) = Inr d"
    by (simp add: gate_resident_def gate_admit_def admission_demand_def sign_errors_def aggregate_memory_def Let_def
        component_transient_def component_mode_def no_demand_def)
  then obtain d where d: "admission_demand (gate_resident ''pdf'' 70 ''model'' ''resident'' 0 None) = Inr d" by blast
  with gate_demands_exact show ?thesis by blast
qed

theorem checkpoint_renews_execution_only_witness:
  "\<exists>c a g s. active_reservations c = [1] \<and> checkpoint_begin False 30 0 demo_grant True c = (Inr (Some a), g, s)
     \<and> step\<^sup>*\<^sup>* c s \<and> g_request g = 1"
proof -
  obtain b t where b: "step\<^sup>*\<^sup>* demo b" "active_reservations b = [1]" using demo_steps by metis
  define c where "c = b\<lparr>cancelled := False\<rparr>"
  have "same_ledger b c" by (simp add: c_def same_ledger_def coordinator_ledger.defs)
  then have inv: "ledger_inv c"
    using ledger_inv_same_ledger totals.reachable_inv[OF b(1) init_ledger_inv[OF demo_init]] by blast
  have c: "active_reservations c = [1]" "\<not> cancelled c" using b by (simp_all add: c_def)
  then have "lease_ok c 1" using inv by (simp add: ledger_inv_def)
  then have live: "rq_admitted (heap c 1)" "\<not> rq_released (heap c 1)" by (simp_all add: lease_ok_def)
  define s where "s = release_execution 1 c"
  have run: "checkpoint_begin False 30 0 demo_grant True c = (Inr (Some (checkpoint_args demo_grant True s)), demo_grant, s)"
    using c(2) live unfolding checkpoint_begin_def release_cpu_def checkpoint_demand_def by (simp add: demo_grant_def s_def)
  have g: "g_request demo_grant \<in> set (active_reservations c)"
    "\<And>r. g_resumed demo_grant = Some r \<Longrightarrow> r \<in> set (active_reservations c) \<and> r \<noteq> g_request demo_grant"
    unfolding c(1) by (simp_all add: demo_grant_def)
  have "g_request demo_grant = 1" by (simp add: demo_grant_def)
  then show ?thesis using checkpoint_renews_execution_only[OF run inv g] run c(1) by metis
qed

section \<open>A renewal that does not wait\<close>

text \<open>
  A comment in \<open>admission_scope\<close> says that a renewal waits for its width after a temporary contraction
  of the CPU capacity. The I/O width is an exception: without a configured I/O limit the capacity of a
  device is the detected CPU capacity, and a renewal that was granted four I/O slots is refused, not
  queued, when the capacity has contracted to two.
\<close>

definition contracted :: coordinator where
  "contracted = demo_admitted\<lparr>automatic_cpu_slots := True, automatic_native_thread_slots := True, last_cpu_capacity := 2,
     heap := (heap demo_admitted)(1 := (heap demo_admitted 1)\<lparr>rq_cpu_slots := 4, rq_native_threads := 4, rq_io_slots := 4,
       rq_io_device := Some ''dev:6''\<rparr>)\<rparr>"

definition contracted_entry :: entry where
  "contracted_entry = demo_entry\<lparr>e_observation := demo_calm\<lparr>obs_cpu_count := Some 2\<rparr>\<rparr>"

lemma renewal_refused_after_contraction:
  "fst (prepare (checkpoint_args \<lparr>g_request = 1, g_execution_demand = (4, 4, 4), g_resumed = None\<rparr> False contracted) contracted_entry contracted)
     = Inl (MemoryBudgetExceeded ''one request exceeds the device I/O concurrency limit'')"
  "isl (fst (prepare (checkpoint_args \<lparr>g_request = 1, g_execution_demand = (4, 4, 2), g_resumed = None\<rparr> False contracted) contracted_entry contracted)) = False"
  by code_simp+
end
