(* ===== verification/Resource_Summary.thy ===== *)
theory Resource_Summary
  imports Resource_Ceilings
begin

text \<open>
  The read-only views of the coordinator: \<open>RouteResourceSummary\<close>, \<open>GlobalResourceSummary\<close>
  (\<open>resource_models.py\<close>), \<open>summary\<close> and the usage queries (\<open>global_resources.py\<close>).
\<close>

section \<open>Model\<close>

text \<open>\<open>round(x, digits)\<close>: to the nearest decimal of that many digits, ties to the even one.\<close>

definition round_half_even :: "real \<Rightarrow> int" where
  "round_half_even x =
    (let f = \<lfloor>x\<rfloor>; d = x - of_int f
     in if d < 1 / 2 then f else if 1 / 2 < d then f + 1 else if even f then f else f + 1)"

definition py_round :: "real \<Rightarrow> nat \<Rightarrow> real" where
  "py_round x digits = of_int (round_half_even (x * 10 ^ digits)) / 10 ^ digits"

fun fl_round :: "pyfloat \<Rightarrow> nat \<Rightarrow> pyfloat" where
  "fl_round (Fin x) digits = Fin (py_round x digits)"
| "fl_round x digits = x"

record RouteResourceSummary =
  rs_admissions :: int
  rs_waits :: int
  rs_wait_seconds :: real
  rs_peak_reserved_bytes :: int
  rs_peak_cpu_slots :: int
  rs_wait_ns :: int
  rs_resident_bytes :: int
  rs_transient_bytes :: int
  rs_temp_bytes :: int
  rs_native_threads :: int
  rs_peak_resident_bytes :: int
  rs_peak_transient_bytes :: int
  rs_peak_temp_bytes :: int
  rs_peak_native_threads :: int
  rs_phases :: "(string, int) dict"
  rs_io_slots :: int
  rs_peak_io_slots :: int
  rs_gpu_bytes :: int
  rs_peak_gpu_bytes :: int
  rs_active_execution_requests :: int
  rs_cpu_slots_in_use :: int

definition route_summary :: "route_metrics \<Rightarrow> RouteResourceSummary" where
  "route_summary m =
    \<lparr>rs_admissions = m_admissions m, rs_waits = m_waits m, rs_wait_seconds = py_round (m_wait_seconds m) 6,
     rs_peak_reserved_bytes = m_peak_reserved_bytes m, rs_peak_cpu_slots = m_peak_cpu_slots m, rs_wait_ns = m_wait_ns m,
     rs_resident_bytes = m_resident_bytes m, rs_transient_bytes = m_transient_bytes m, rs_temp_bytes = m_temp_bytes m,
     rs_native_threads = m_native_threads m, rs_peak_resident_bytes = m_peak_resident_bytes m,
     rs_peak_transient_bytes = m_peak_transient_bytes m, rs_peak_temp_bytes = m_peak_temp_bytes m,
     rs_peak_native_threads = m_peak_native_threads m, rs_phases = m_phase_admissions m, rs_io_slots = m_io_slots m,
     rs_peak_io_slots = m_peak_io_slots m, rs_gpu_bytes = m_gpu_bytes m, rs_peak_gpu_bytes = m_peak_gpu_bytes m,
     rs_active_execution_requests = m_active_execution_requests m, rs_cpu_slots_in_use = m_cpu_slots m\<rparr>"

record GlobalResourceSummary =
  gs_memory_budget_bytes :: int
  gs_min_free_memory_bytes :: int
  gs_min_free_commit_bytes :: int
  gs_cpu_slots :: int
  gs_max_cpu_load_percent :: real
  gs_peak_reserved_bytes :: int
  gs_peak_cpu_slots :: int
  gs_peak_active_requests :: int
  gs_min_observed_available_memory_bytes :: "int option"
  gs_min_observed_available_commit_bytes :: "int option"
  gs_max_observed_cpu_load_percent :: "real option"
  gs_min_effective_cpu_slots :: int
  gs_routes :: "(string, RouteResourceSummary) dict"
  gs_native_thread_slots :: int
  gs_temp_budget_bytes :: int
  gs_resident_bytes :: int
  gs_transient_bytes :: int
  gs_temp_bytes :: int
  gs_native_threads :: int
  gs_peak_resident_bytes :: int
  gs_peak_transient_bytes :: int
  gs_peak_temp_bytes :: int
  gs_peak_native_threads :: int
  gs_admission_paused :: bool
  gs_pressure_events :: int
  gs_sample_count :: int
  gs_last_available_memory_delta_bytes :: "int option"
  gs_last_available_commit_delta_bytes :: "int option"
  gs_memory_pressure_some_percent :: "pyfloat option"
  gs_memory_pressure_full_percent :: "pyfloat option"
  gs_last_memory_pressure_delta_percent :: "pyfloat option"
  gs_last_memory_pressure_total_delta_us :: "int option"
  gs_effective_cpu_slots :: int
  gs_effective_memory_budget_bytes :: int
  gs_own_cpu_cores :: "pyfloat option"
  gs_external_cpu_cores :: "pyfloat option"
  gs_materialized_credit_bytes :: int
  gs_io_slots :: int
  gs_peak_io_slots :: int
  gs_gpu_bytes :: int
  gs_peak_gpu_bytes :: int
  gs_active_execution_requests :: int
  gs_cpu_slots_in_use :: int

definition summary :: "coordinator \<Rightarrow> GlobalResourceSummary" where
  "summary c =
    \<lparr>gs_memory_budget_bytes = memory_budget_bytes c, gs_min_free_memory_bytes = min_free_memory_bytes c,
     gs_min_free_commit_bytes = min_free_commit_bytes c, gs_cpu_slots = cpu_slots c,
     gs_max_cpu_load_percent = max_cpu_load_percent c, gs_peak_reserved_bytes = peak_reserved_bytes c,
     gs_peak_cpu_slots = peak_cpu_slots c, gs_peak_active_requests = peak_active_requests c,
     gs_min_observed_available_memory_bytes = min_available_memory c,
     gs_min_observed_available_commit_bytes = min_available_commit c,
     gs_max_observed_cpu_load_percent = map_option (\<lambda>x. py_round x 3) (max_cpu_load c),
     gs_min_effective_cpu_slots = min_effective_cpu_slots c,
     gs_routes = map (\<lambda>n. (n, route_summary (metrics c n))) (route_order c),
     gs_native_thread_slots = native_thread_slots c, gs_temp_budget_bytes = temp_budget_bytes c,
     gs_resident_bytes = resident_bytes c, gs_transient_bytes = transient_bytes c, gs_temp_bytes = temp_bytes c,
     gs_native_threads = native_threads_in_use c, gs_peak_resident_bytes = peak_resident_bytes c,
     gs_peak_transient_bytes = peak_transient_bytes c, gs_peak_temp_bytes = peak_temp_bytes c,
     gs_peak_native_threads = peak_native_threads c, gs_admission_paused = (memory_pressure c \<or> cpu_pressure c),
     gs_pressure_events = pressure_events c, gs_sample_count = sample_count c,
     gs_last_available_memory_delta_bytes = last_available_memory_delta c,
     gs_last_available_commit_delta_bytes = last_available_commit_delta c,
     gs_memory_pressure_some_percent = map_option (\<lambda>x. fl_round x 3) (s_memory_pressure_some_percent (previous_sample c)),
     gs_memory_pressure_full_percent = map_option (\<lambda>x. fl_round x 3) (s_memory_pressure_full_percent (previous_sample c)),
     gs_last_memory_pressure_delta_percent = map_option (\<lambda>x. fl_round x 3) (last_memory_pressure_delta c),
     gs_last_memory_pressure_total_delta_us = last_memory_pressure_total_delta_us c,
     gs_effective_cpu_slots = last_effective_cpu_slots c, gs_effective_memory_budget_bytes = last_memory_budget c,
     gs_own_cpu_cores = s_own_cpu_cores (previous_sample c), gs_external_cpu_cores = s_external_cpu_cores (previous_sample c),
     gs_materialized_credit_bytes = materialized_credit c, gs_io_slots = sum_list (dict_values (io_in_use c)),
     gs_peak_io_slots = peak_io_slots c, gs_gpu_bytes = sum_list (dict_values (gpu_in_use c)),
     gs_peak_gpu_bytes = peak_gpu_bytes c, gs_active_execution_requests = active_execution_requests c,
     gs_cpu_slots_in_use = cpu_in_use c\<rparr>"

definition route_resource_usage :: "string \<Rightarrow> coordinator \<Rightarrow> py_error + ResourceSample" where
  "route_resource_usage n c =
    (if n \<in> set (route_order c)
     then Inr (empty_sample\<lparr>s_resident_bytes := Some (m_resident_bytes (metrics c n)),
            s_transient_bytes := Some (m_transient_bytes (metrics c n)), s_temp_bytes := Some (m_temp_bytes (metrics c n)),
            s_native_threads := Some (m_native_threads (metrics c n))\<rparr>)
     else Inl (KeyError n))"

definition resource_usage :: "coordinator \<Rightarrow> ResourceSample" where
  "resource_usage c =
     empty_sample\<lparr>s_resident_bytes := Some (resident_bytes c), s_transient_bytes := Some (transient_bytes c),
       s_temp_bytes := Some (temp_bytes c), s_native_threads := Some (native_threads_in_use c),
       s_cpu_load_percent := map_option Fin (last_cpu_load c)\<rparr>"

definition route_active_request_count :: "string \<Rightarrow> coordinator \<Rightarrow> py_error + int" where
  "route_active_request_count n c =
    (if n \<in> set (route_order c) then Inr (m_active_requests (metrics c n)) else Inl (KeyError n))"

section \<open>Routes add up\<close>

lemma sum_on_add: "sum_on (\<lambda>n. a n + b n) ns = sum_on a ns + sum_on b ns"
  by (induction ns) auto

lemma sum_on_partition:
  assumes "distinct ns" "\<And>x. x \<in> set xs \<Longrightarrow> f x = 0 \<or> g x \<in> set ns"
  shows "sum_on (\<lambda>n. sum_on (\<lambda>x. if g x = n then f x else 0) xs) ns = sum_on f xs"
  using assms(2)
proof (induction xs)
  case Nil
  show ?case by (simp add: sum_on_zero)
next
  case (Cons x xs)
  have "sum_on (\<lambda>n. if g x = n then f x else 0) ns = (if g x \<in> set ns then f x else 0)"
    using assms(1) by (induction ns) (auto simp: sum_on_zero)
  then show ?case using Cons by (auto simp: sum_on_add)
qed

lemma claims_live:
  assumes "claims_ok c" "(key, cl) \<in> set (resident_claims c)"
  shows "claim_max cl = 0 \<or> (\<exists>r \<in> set (active_reservations c). rq_route_name (heap c r) = fst key)"
proof (cases cl)
  case (Cons p ps)
  obtain r v where p: "p = (r, v)" by fastforce
  have "dict_get (resident_claims c) key = Some cl" using assms by (simp add: dict_get_Some_iff claims_ok_def)
  then have "dict_get (dict_get_or (resident_claims c) key []) r = Some v" by (simp add: dict_get_or_def Cons p)
  moreover have "dict_get (dict_get_or (resident_claims c) key []) r =
      (if r \<in> set (active_reservations c) \<and> claim_key (heap c r) = Some key then Some (rq_resident_bytes (heap c r)) else None)"
    using assms(1) unfolding claims_ok_def by blast
  ultimately have "r \<in> set (active_reservations c)" "claim_key (heap c r) = Some key" by (auto split: if_splits)
  then show ?thesis by (auto simp: claim_key_def)
qed simp

lemma held_partition:
  assumes inv: "ledger_inv c" and routes: "distinct (route_order c)"
  shows "sum_on (\<lambda>n. held (\<lambda>m. m = n) x c) (route_order c) = held (\<lambda>m. True) x c"
proof -
  have route: "rq_route_name (heap c r) \<in> set (route_order c)" if "r \<in> set (active_reservations c)" for r
    using inv that by (simp add: ledger_inv_def lease_ok_def)
  have live: "sum_on (\<lambda>n. live_sum (\<lambda>q. if rq_route_name q = n then own_charge x q else 0) c) (route_order c)
      = live_sum (own_charge x) c"
    unfolding live_sum_def
    by (rule sum_on_partition[OF routes, where g = "\<lambda>r. rq_route_name (heap c r)" and f = "\<lambda>r. own_charge x (heap c r)"]) (simp add: route)
  have ok: "claims_ok c" using inv by (simp add: ledger_inv_def)
  have claims: "sum_on (\<lambda>n. claims_total (\<lambda>m. m = n) (resident_claims c)) (route_order c) = claims_total (\<lambda>m. True) (resident_claims c)"
  proof -
    have "claims_total (\<lambda>m. m = n) (resident_claims c) = sum_on (\<lambda>e. if fst (fst e) = n then claim_max (snd e) else 0) (resident_claims c)" for n
      unfolding claims_total_def by (rule sum_on_cong) auto
    moreover have "claims_total (\<lambda>m. True) (resident_claims c) = sum_on (\<lambda>e. claim_max (snd e)) (resident_claims c)"
      unfolding claims_total_def by (rule sum_on_cong) auto
    moreover have "claim_max (snd e) = 0 \<or> fst (fst e) \<in> set (route_order c)" if "e \<in> set (resident_claims c)" for e
      using claims_live[OF ok, of "fst e" "snd e"] that route by (metis prod.collapse)
    ultimately show ?thesis
      using sum_on_partition[OF routes, where g = "\<lambda>e. fst (fst e)" and f = "\<lambda>e. claim_max (snd e)" and xs = "resident_claims c"] by simp
  qed
  show ?thesis
    using live claims by (cases "x = Resident \<or> x = Reserved") (simp_all add: held_def sum_on_add)
qed

section \<open>Routes stay distinct\<close>

lemma step_routes:
  "step c s \<Longrightarrow> ledger_inv c \<Longrightarrow> route_order s = route_order c
     \<or> (\<exists>n. n \<notin> set (route_order c) \<and> route_order s = route_order c @ [n])"
proof (induction rule: step.induct)
  case (Schedule ob c snap e c1 now free choice c')
  have "route_order c1 = route_order c" "route_order c' = route_order c1"
    using same_ledger_fields(7)[OF observe_same_ledger[of c ob]] Schedule(1) width_only_fields(3)[OF next_route_width[OF Schedule(2)]] by simp_all
  then show ?case by simp
next
  case (Grant ob c snap e c1 now free n c' r k i t committed s)
  have "route_order c1 = route_order c" "route_order c' = route_order c1"
    using same_ledger_fields(7)[OF observe_same_ledger[of c ob]] Grant(1) width_only_fields(3)[OF next_route_width[OF Grant(2)]] by simp_all
  moreover have "route_order s = route_order c'"
  proof (cases committed)
    case True
    then show ?thesis using grant_request_effect(1)[of k r i t c' s] Grant(5) by (simp add: counters_move_def)
  next
    case False
    then have "grant_request k r i t c' = (False, s)" using Grant(5) by simp
    from grant_rollback_state[OF Grant(4) this] show ?thesis by simp
  qed
  ultimately show ?case by simp
next
  case (Release r c k committed s)
  have "route_order s = route_order c"
  proof (cases committed)
    case True
    have "lease_ok c r" using Release by (simp add: ledger_inv_def)
    then show ?thesis using release_admission_effect(1)[of k r c s] Release(2) True by (simp add: counters_move_def lease_ok_def)
  next
    case False
    then have "release_admission k r c = (False, s)" using Release(2) by simp
    from release_rollback_state[OF this] show ?thesis by simp
  qed
  then show ?case ..
next
  case (Observe ob c answer s)
  then show ?case using same_ledger_fields(7)[OF observe_same_ledger[of c ob]] by simp
next
  case (Resize r c amount fd free stopped s)
  from resize_temp_state(2)[OF Resize(2)] show ?case by auto
next
  case (Shrink r c amount s)
  then have "route_order s = route_order c" by (auto simp: shrink_transient_bytes_def Let_def split: if_splits)
  then show ?case ..
next
  case (Register name c s)
  then show ?case by (auto simp: register_route_def Let_def split: if_splits)
next
  case (Register_Gpu device capacity probe1 probe2 c s)
  have "route_order s = route_order c" by (rule register_gpu_device_state[OF Register_Gpu(1)]) simp
  then show ?case ..
next
  case (Bind_Process r c identity s)
  then have "route_order s = route_order c" by (auto simp: bind_process_def split: if_splits)
  then show ?case ..
qed (rule disjI1, simp add: enqueue_def Let_def mark_waited_def discard_queued_request_def record_wait_def release_execution_def
    cancel_def publish_gpu_def)+

lemma reachable_routes:
  assumes "init routes lms budgets sample host cpus free p1 p2 stopped = Inr c0" "step\<^sup>*\<^sup>* c0 c"
  shows "ledger_inv c" "distinct (route_order c)"
proof -
  have start: "ledger_inv c0" "distinct (route_order c0)"
    using init_ledger_inv[OF assms(1)] assms(1) by (auto simp: init_def Let_def initial_state_def split: if_splits sum.splits)
  have "ledger_inv c \<and> distinct (route_order c)"
    using assms(2) start
  proof (induction rule: rtranclp_induct)
    case (step y z)
    then show ?case using step_ledger_inv[OF step(2)] step_routes[OF step(2)] by auto
  qed simp
  then show "ledger_inv c" "distinct (route_order c)" by auto
qed

text \<open>
  The summary adds up. In the summary of any reachable state every route appears once, and the
  resident, transient, temporary, native-thread, CPU, I/O, GPU and execution figures of the routes
  sum to the totals it reports; admission is reported as paused exactly when memory or CPU pressure
  is latched.
\<close>

theorem summary_adds_up:
  assumes "init routes lms budgets sample host cpus free p1 p2 stopped = Inr c0" "step\<^sup>*\<^sup>* c0 c"
  defines "rs \<equiv> dict_values (gs_routes (summary c))"
  shows "dict_wf (gs_routes (summary c))
    \<and> sum_on rs_resident_bytes rs = gs_resident_bytes (summary c)
    \<and> sum_on rs_transient_bytes rs = gs_transient_bytes (summary c)
    \<and> sum_on rs_temp_bytes rs = gs_temp_bytes (summary c)
    \<and> sum_on rs_native_threads rs = gs_native_threads (summary c)
    \<and> sum_on rs_cpu_slots_in_use rs = gs_cpu_slots_in_use (summary c)
    \<and> sum_on rs_io_slots rs = gs_io_slots (summary c)
    \<and> sum_on rs_gpu_bytes rs = gs_gpu_bytes (summary c)
    \<and> sum_on rs_active_execution_requests rs = gs_active_execution_requests (summary c)
    \<and> (gs_admission_paused (summary c) \<longleftrightarrow> memory_pressure c \<or> cpu_pressure c)"
proof -
  note r = reachable_routes[OF assms(1,2)]
  have wf: "dict_wf (gs_routes (summary c))" using r(2) by (simp add: summary_def dict_wf_def dict_keys_def o_def)
  have route: "route_counter x (metrics c n) = held (\<lambda>m. m = n) x c" if "n \<in> set (route_order c)" for x n
    using r(1) that unfolding ledger_inv_def by blast
  have "sum_on (\<lambda>n. route_counter x (metrics c n)) (route_order c) = global_counter x c" for x
  proof -
    have "sum_on (\<lambda>n. route_counter x (metrics c n)) (route_order c) = sum_on (\<lambda>n. held (\<lambda>m. m = n) x c) (route_order c)"
      by (rule sum_on_cong) (rule route)
    then show ?thesis using held_partition[OF r, of x] totals.counter_owed[OF r(1), of x] by simp
  qed
  from this[of Resident] this[of Transient] this[of Temporary] this[of Native] this[of Cpu] this[of Io] this[of Gpu] this[of Executions]
  show ?thesis
    using wf by (simp add: rs_def summary_def dict_values_def sum_on_def o_def route_summary_def)
qed

theorem summary_adds_up_witness:
  "\<exists>c. step\<^sup>*\<^sup>* demo c \<and> active_reservations c = [1]
     \<and> sum_on rs_cpu_slots_in_use (dict_values (gs_routes (summary c))) = gs_cpu_slots_in_use (summary c)"
proof -
  obtain c t where c: "step\<^sup>*\<^sup>* demo c" "active_reservations c = [1]" using demo_steps by metis
  from summary_adds_up[OF demo_init c(1)] c show ?thesis by blast
qed
end
