(* ===== verification/Dedup_Models.thy ===== *)
theory Dedup_Models
  imports Py_Text "HOL-Library.Word"
begin

text \<open>
  The values duplicate planning works with: file snapshots, keeper policies,
  content proofs, duplicate groups and plans (\<open>deduplication/domain\<close>), the
  counters of a planning run, the exceptions that abstain from evidence, and
  the size admission shared by its owners (\<open>deduplication/admission.py\<close>).
  Python's dynamic type tests disappear in the types of the records; what is
  left of the validation are the tests on values.
\<close>

type_synonym byte = "8 word"

text \<open>\<open>bytes.hex\<close>.\<close>

definition digest_hex :: "byte list \<Rightarrow> string" where
  "digest_hex b = concat (map (\<lambda>w. [digit_char (unat w div 16), digit_char (unat w mod 16)]) b)"

section \<open>Snapshots and observed metadata\<close>

record file_snapshot =
  fs_path :: string
  fs_volume :: int
  fs_file :: int
  fs_size :: int
  fs_mtime :: int
  fs_birthtime :: int

definition snap_identity :: "file_snapshot \<Rightarrow> int \<times> int" where
  "snap_identity s = (fs_volume s, fs_file s)"

text \<open>
  The part of \<open>os.stat_result\<close> the planner reads. On Linux \<open>st_birthtime_ns\<close>
  is normally absent.
\<close>

record stat_result =
  st_dev :: int
  st_ino :: int
  st_size :: int
  st_mtime :: int
  st_ctime :: int
  st_birthtime :: "int option"
  st_regular :: bool
  st_nlink :: int

definition UNAVAILABLE_BIRTHTIME :: int where
  "UNAVAILABLE_BIRTHTIME = -1"

definition stat_birthtime :: "stat_result \<Rightarrow> int" where
  "stat_birthtime st = (case st_birthtime st of Some b \<Rightarrow> b | None \<Rightarrow> UNAVAILABLE_BIRTHTIME)"

section \<open>Policies and proofs\<close>

datatype verification_mode = Mode_Unknown | Mode_Fast | Mode_Partial | Mode_Full_Hash

datatype dedup_policy = Policy_Unknown | Policy_Fast | Policy_Exact

datatype plan_coverage = Coverage_Unknown | Coverage_Complete | Coverage_Partial

datatype comparison_method = Method_Not_Recorded | Sha256_Full | Byte_For_Byte

datatype comparison_result = Result_Not_Recorded | Result_Reference | Fingerprint_Match | Result_Equal

datatype fingerprint_source = Source_Not_Recorded | Source_Computed | Source_Cached

definition PROOF_VERSION :: string where
  "PROOF_VERSION = ''neocortex.duplicate-content-proof/v1''"

definition KEEPER_POLICY_VERSION :: string where
  "KEEPER_POLICY_VERSION = ''neocortex.duplicate-keeper/v1''"

definition FULL_ALGORITHM :: string where
  "FULL_ALGORITHM = ''sha256_full_v1''"

record keeper_policy =
  explicit_keep :: "(int \<times> int) list"
  preferred_roots :: "string list"
  verified_references :: "(int \<times> int) list"
  reference_evidence :: "((int \<times> int) \<times> string list) list"

definition identity_ok :: "int \<times> int \<Rightarrow> bool" where
  "identity_ok i \<longleftrightarrow> 0 \<le> fst i \<and> 0 \<le> snd i"

text \<open>
  Unicode categories \<open>Cc\<close>, \<open>Cf\<close> and \<open>Cs\<close> among the first 256 code points: the
  C0 and C1 controls and the soft hyphen.
\<close>

definition is_control :: "char \<Rightarrow> bool" where
  "is_control c = (let n = (of_char c :: nat) in n < 32 \<or> 127 \<le> n \<and> n \<le> 159 \<or> n = 173)"

definition evidence_id_ok :: "string \<Rightarrow> bool" where
  "evidence_id_ok e \<longleftrightarrow> strip e \<noteq> [] \<and> length e \<le> 512 \<and> \<not> list_ex is_control e"

text \<open>\<open>KeeperPolicy.__post_init__\<close>, in the order of its checks.\<close>

fun evidence_error :: "(int \<times> int) list \<Rightarrow> ((int \<times> int) \<times> string list) list \<Rightarrow> py_error option" where
  "evidence_error verified [] = None"
| "evidence_error verified ((i, ids) # es) =
     (if \<not> identity_ok i \<or> i \<notin> set verified
      then Some (ValueError ''reference evidence identity must be a verified physical reference'')
      else if ids = []
      then Some (ValueError ''verified reference evidence IDs must be a nonempty immutable tuple'')
      else if \<not> list_all evidence_id_ok ids
      then Some (ValueError ''reference evidence IDs must contain 1-512 characters without controls'')
      else evidence_error verified es)"

definition keeper_policy_error :: "keeper_policy \<Rightarrow> py_error option" where
  "keeper_policy_error p =
     (if \<not> list_all identity_ok (explicit_keep p) \<or> \<not> list_all identity_ok (verified_references p)
      then Some (ValueError ''keeper preferences require physical (volume_id, file_id)'')
      else if list_ex (\<lambda>root. root = [] \<or> CHR 0x00 \<in> set root) (preferred_roots p)
      then Some (ValueError ''preferred roots must be an immutable tuple of nonempty paths'')
      else evidence_error (verified_references p) (reference_evidence p))"

definition keeper_policy_ok :: "keeper_policy \<Rightarrow> bool" where
  "keeper_policy_ok p \<longleftrightarrow>
     list_all identity_ok (explicit_keep p) \<and> list_all identity_ok (verified_references p)
   \<and> list_all (\<lambda>root. root \<noteq> [] \<and> CHR 0x00 \<notin> set root) (preferred_roots p)
   \<and> list_all (\<lambda>(i, ids). i \<in> set (verified_references p) \<and> ids \<noteq> [] \<and> list_all evidence_id_ok ids)
       (reference_evidence p)"

definition default_keeper_policy :: keeper_policy where
  "default_keeper_policy = \<lparr>explicit_keep = [], preferred_roots = [], verified_references = [], reference_evidence = []\<rparr>"

record member_proof =
  mp_version :: string
  mp_method :: comparison_method
  mp_result :: comparison_result
  mp_compared_to :: "(int \<times> int) option"
  mp_bytes :: "int option"
  mp_algorithm :: "string option"
  mp_source :: fingerprint_source
  mp_missing :: "string list"
  mp_aliases :: "string list"
  mp_alias_count :: "int option"
  mp_truncated :: bool
  mp_links :: "int option"

record group_proof =
  gp_version :: string
  gp_policy :: dedup_policy
  gp_method :: comparison_method
  gp_result :: comparison_result
  gp_missing :: "string list"
  gp_keeper_version :: string
  gp_keeper_reason :: string
  gp_keeper_factors :: "string list"

section \<open>Groups and plans\<close>

record duplicate_group =
  g_size :: int
  g_keep :: file_snapshot
  g_redundant :: "file_snapshot list"
  g_fingerprint :: string
  g_mode :: verification_mode
  g_proof :: "group_proof option"
  g_member_proofs :: "member_proof list"

definition nominal_redundant_bytes :: "duplicate_group \<Rightarrow> int" where
  "nominal_redundant_bytes g = g_size g * int (length (g_redundant g))"

definition group_members :: "duplicate_group \<Rightarrow> file_snapshot list" where
  "group_members g = g_keep g # g_redundant g"

record plan_statistics =
  ps_inventory_files :: int
  ps_size_candidates :: int
  ps_partial_hash :: int
  ps_full_hash :: int
  ps_exact_compare :: int
  ps_failures :: int
  ps_hash_read_bytes :: int
  ps_validation_reads :: int
  ps_validation_bytes :: int
  ps_cache_hits :: int
  ps_digest_reuses :: int
  ps_exact_bytes :: int

record dedup_plan =
  dp_scan :: int
  dp_groups :: "duplicate_group list"
  dp_statistics :: plan_statistics
  dp_total_groups :: "int option"
  dp_total_redundant :: "int option"
  dp_total_reclaimable :: "int option"
  dp_mode :: verification_mode
  dp_policy :: dedup_policy
  dp_coverage :: plan_coverage

definition plan_group_count :: "dedup_plan \<Rightarrow> int" where
  "plan_group_count p = (case dp_total_groups p of None \<Rightarrow> int (length (dp_groups p)) | Some n \<Rightarrow> n)"

definition plan_redundant_files :: "dedup_plan \<Rightarrow> int" where
  "plan_redundant_files p = (case dp_total_redundant p of
     Some n \<Rightarrow> n | None \<Rightarrow> sum_on (\<lambda>g. int (length (g_redundant g))) (dp_groups p))"

definition plan_reclaimable_bytes :: "dedup_plan \<Rightarrow> int" where
  "plan_reclaimable_bytes p = (case dp_total_reclaimable p of
     Some n \<Rightarrow> n | None \<Rightarrow> sum_on nominal_redundant_bytes (dp_groups p))"

section \<open>Content observations and abstentions\<close>

record fingerprint_observation =
  fo_snapshot :: file_snapshot
  fo_algorithm :: string
  fo_digest :: "byte list"
  fo_full_digest :: "byte list option"
  fo_ctime :: int
  fo_computed :: bool
  fo_cache_hit :: bool
  fo_full_reads :: int
  fo_partial_reads :: int
  fo_full_read_bytes :: int
  fo_partial_read_bytes :: int
  fo_validation_read_bytes :: int
  fo_reused :: bool

record comparison_observation =
  co_equal :: bool
  co_read_bytes :: int

record read_failure =
  rf_full_reads :: int
  rf_partial_reads :: int
  rf_full_read_bytes :: int
  rf_partial_read_bytes :: int
  rf_validation_read_bytes :: int
  rf_exact_bytes :: int

record keeper_conflict =
  kc_policy :: keeper_policy
  kc_identities :: "(int \<times> int) list"
  kc_fingerprint :: string
  kc_proof :: group_proof

text \<open>
  The exceptions of \<open>domain/errors.py\<close>. A \<open>FingerprintReadFailure\<close> is a
  \<open>FileChangedError\<close>; \<open>Os_Error\<close> stands for an \<open>OSError\<close> the file system
  raises and \<open>Raised\<close> for every other exception.
\<close>

datatype dedup_error =
    FileChangedError
  | FingerprintReadFailure read_failure
  | InventoryError string
  | KeeperConflictError keeper_conflict
  | Os_Error
  | Raised py_error

definition is_file_changed :: "dedup_error \<Rightarrow> bool" where
  "is_file_changed e = (case e of FileChangedError \<Rightarrow> True | FingerprintReadFailure _ \<Rightarrow> True | _ \<Rightarrow> False)"

section \<open>Size admission\<close>

definition validate_max_file_bytes :: "int option \<Rightarrow> py_error + int option" where
  "validate_max_file_bytes v = (case v of
     None \<Rightarrow> Inr None
   | Some n \<Rightarrow> if n < 1 then Inl (ValueError ''max_file_bytes must be a positive integer or None'') else Inr (Some n))"

definition size_is_admitted :: "int \<Rightarrow> int option \<Rightarrow> py_error + bool" where
  "size_is_admitted n max_file_bytes =
     (if n < 0 then Inl (ValueError ''file size must be a non-negative integer'')
      else case validate_max_file_bytes max_file_bytes of
        Inl e \<Rightarrow> Inl e
      | Inr None \<Rightarrow> Inr True
      | Inr (Some limit) \<Rightarrow> Inr (n \<le> limit))"

section \<open>Well-formed policies\<close>

lemma evidence_error_None:
  "list_all identity_ok verified \<Longrightarrow> evidence_error verified es = None \<longleftrightarrow>
     list_all (\<lambda>(i, ids). i \<in> set verified \<and> ids \<noteq> [] \<and> list_all evidence_id_ok ids) es"
  by (induction verified es rule: evidence_error.induct) (auto simp: list_all_iff)


end
