(* ===== verification/Py_Path.thy ===== *)
theory Py_Path
  imports Py_Text
begin

text \<open>
  The POSIX path functions duplicate planning calls: \<open>os.path.normpath\<close>,
  \<open>abspath\<close> and \<open>commonpath\<close>, and \<open>pathlib\<close>'s \<open>parts\<close> and \<open>stem\<close>. The current
  directory is an argument of \<open>abspath\<close>.
\<close>

fun split_on :: "char \<Rightarrow> string \<Rightarrow> string list" where
  "split_on sep [] = [[]]"
| "split_on sep (c # s) = (if c = sep then [] # split_on sep s
     else case split_on sep s of [] \<Rightarrow> [[c]] | w # ws \<Rightarrow> (c # w) # ws)"

fun join_with :: "string \<Rightarrow> string list \<Rightarrow> string" where
  "join_with sep [] = []"
| "join_with sep [w] = w"
| "join_with sep (w # ws) = w @ sep @ join_with sep ws"

text \<open>The components \<open>normpath\<close> keeps, collected in reverse.\<close>

fun norm_comps :: "bool \<Rightarrow> string list \<Rightarrow> string list \<Rightarrow> string list" where
  "norm_comps rooted [] acc = rev acc"
| "norm_comps rooted (c # cs) acc =
     (if c = [] \<or> c = ''.'' then norm_comps rooted cs acc
      else if c \<noteq> ''..'' \<or> (\<not> rooted \<and> acc = []) \<or> (acc \<noteq> [] \<and> hd acc = ''..'')
      then norm_comps rooted cs (c # acc)
      else norm_comps rooted cs (tl acc))"

definition initial_slashes :: "string \<Rightarrow> nat" where
  "initial_slashes p =
     (if \<not> starts_with p ''/'' then 0
      else if starts_with p ''//'' \<and> \<not> starts_with p ''///'' then 2 else 1)"

definition normpath :: "string \<Rightarrow> string" where
  "normpath p = (if p = [] then ''.'' else
     let n = initial_slashes p;
         r = replicate n CHR ''/'' @ join_with ''/'' (norm_comps (n \<noteq> 0) (split_on CHR ''/'' p) [])
     in if r = [] then ''.'' else r)"

definition abspath :: "string \<Rightarrow> string \<Rightarrow> string" where
  "abspath cwd p = normpath (if starts_with p ''/'' then p
     else if cwd = [] \<or> last cwd = CHR ''/'' then cwd @ p else cwd @ ''/'' @ p)"

text \<open>Components as \<open>commonpath\<close> and \<open>pathlib\<close> see them.\<close>

definition path_comps :: "string \<Rightarrow> string list" where
  "path_comps p = filter (\<lambda>c. c \<noteq> [] \<and> c \<noteq> ''.'') (split_on CHR ''/'' p)"

definition path_parts :: "string \<Rightarrow> string list" where
  "path_parts p = (case initial_slashes p of
     0 \<Rightarrow> path_comps p
   | Suc 0 \<Rightarrow> ''/'' # path_comps p
   | _ \<Rightarrow> ''//'' # path_comps p)"

fun common_prefix :: "'a list \<Rightarrow> 'a list \<Rightarrow> 'a list" where
  "common_prefix (x # xs) (y # ys) = (if x = y then x # common_prefix xs ys else [])"
| "common_prefix _ _ = []"

text \<open>\<open>commonpath\<close> of two absolute paths.\<close>

definition commonpath2 :: "string \<Rightarrow> string \<Rightarrow> string" where
  "commonpath2 p q = ''/'' @ join_with ''/'' (common_prefix (path_comps p) (path_comps q))"

text \<open>\<open>PurePath.name\<close> and \<open>PurePath.stem\<close>.\<close>

definition path_name :: "string \<Rightarrow> string" where
  "path_name p = (if path_comps p = [] then [] else last (path_comps p))"

definition dot_split :: "string \<Rightarrow> (string \<times> string) option" where
  "dot_split name = (if CHR ''.'' \<notin> set name then None
     else let ext = takeWhile (\<lambda>c. c \<noteq> CHR ''.'') (rev name)
          in Some (take (length name - length ext - 1) name, rev ext))"

definition path_stem :: "string \<Rightarrow> string" where
  "path_stem p = (case dot_split (path_name p) of
     None \<Rightarrow> path_name p
   | Some (stem, ext) \<Rightarrow> if stem \<noteq> [] \<and> ext \<noteq> [] then stem else path_name p)"

section \<open>Normal paths\<close>

definition comp_ok :: "string \<Rightarrow> bool" where
  "comp_ok c \<longleftrightarrow> c \<noteq> [] \<and> c \<noteq> ''.'' \<and> CHR ''/'' \<notin> set c"

lemma common_prefix_prefix: "common_prefix xs ys = ys \<longleftrightarrow> prefix ys xs"
  by (induction xs ys rule: common_prefix.induct) (auto simp: prefix_Cons)

lemma list_all_common_prefix: "list_all P ys \<Longrightarrow> list_all P (common_prefix xs ys)"
  by (induction xs ys rule: common_prefix.induct) auto

lemma split_on_plain: "sep \<notin> set w \<Longrightarrow> split_on sep w = [w]"
  by (induction w) auto

lemma split_on_append: "sep \<notin> set w \<Longrightarrow> split_on sep (w @ sep # s) = w # split_on sep s"
  by (induction w) auto

lemma split_on_join:
  "list_all comp_ok ws \<Longrightarrow> ws \<noteq> [] \<Longrightarrow> split_on CHR ''/'' (join_with ''/'' ws) = ws"
  by (induction "''/''" ws rule: join_with.induct) (auto simp: comp_ok_def split_on_plain split_on_append)

lemma path_comps_join:
  assumes "list_all comp_ok ws"
  shows "path_comps (replicate n CHR ''/'' @ join_with ''/'' ws) = ws"
proof -
  have keep: "filter (\<lambda>c. c \<noteq> [] \<and> c \<noteq> ''.'') ws = ws"
    using assms by (induction ws) (auto simp: comp_ok_def)
  have "filter (\<lambda>c. c \<noteq> [] \<and> c \<noteq> ''.'') (split_on CHR ''/'' (join_with ''/'' ws)) = ws"
    using split_on_join[OF assms] keep by (cases "ws = []") auto
  then show ?thesis by (induction n) (auto simp: path_comps_def)
qed

lemma split_on_comps: "c \<in> set (split_on sep s) \<Longrightarrow> sep \<notin> set c"
  by (induction s arbitrary: c) (auto split: if_splits list.splits)

lemma list_all_tl: "list_all P xs \<Longrightarrow> list_all P (tl xs)"
  by (cases xs) auto

lemma norm_comps_ok:
  "list_all (\<lambda>c. CHR ''/'' \<notin> set c) cs \<Longrightarrow> list_all comp_ok acc \<Longrightarrow> list_all comp_ok (norm_comps rooted cs acc)"
  by (induction rooted cs acc rule: norm_comps.induct) (simp_all add: comp_ok_def list_all_tl list_all_rev)

text \<open>
  An absolute path in normal form with one leading slash is determined by its
  components.
\<close>

lemma abspath_rooted:
  assumes "initial_slashes p = 1"
  obtains ws where "list_all comp_ok ws" "abspath cwd p = ''/'' @ join_with ''/'' ws"
proof
  let ?ws = "norm_comps True (split_on CHR ''/'' p) []"
  show "list_all comp_ok ?ws" by (rule norm_comps_ok) (auto simp: list_all_iff dest: split_on_comps)
  have "starts_with p ''/''" using assms by (simp add: initial_slashes_def split: if_splits)
  then show "abspath cwd p = ''/'' @ join_with ''/'' ?ws"
    using assms by (auto simp: abspath_def normpath_def Let_def starts_with_def)
qed

text \<open>
  A path lies under a root, in the sense of \<open>commonpath\<close>, exactly when the
  components of the root begin those of the path.
\<close>

lemma commonpath_under:
  assumes "initial_slashes q = 1"
  shows "commonpath2 p (abspath cwd q) = abspath cwd q \<longleftrightarrow>
    prefix (path_comps (abspath cwd q)) (path_comps p)"
proof -
  obtain ws where ws: "list_all comp_ok ws" "abspath cwd q = ''/'' @ join_with ''/'' ws"
    using abspath_rooted[OF assms] .
  have pc: "path_comps (abspath cwd q) = ws" using path_comps_join[OF ws(1), of 1] ws(2) by simp
  have "list_all comp_ok (common_prefix (path_comps p) ws)"
    by (rule list_all_common_prefix[OF ws(1)])
  then have "commonpath2 p (abspath cwd q) = abspath cwd q \<longleftrightarrow> common_prefix (path_comps p) ws = ws"
    using path_comps_join[OF ws(1), of 1] path_comps_join[of "common_prefix (path_comps p) ws" 1] ws(2)
    by (auto simp: commonpath2_def pc)
  then show ?thesis by (simp add: pc common_prefix_prefix)
qed

end
