(* ===== verification/Dedup_Keeper.thy ===== *)
theory Dedup_Keeper
  imports Dedup_Models Py_Path "HOL-Library.List_Lexorder" "HOL-Library.Char_ord" "HOL-Library.Product_Lexorder"
begin

text \<open>
  Keeper preference (\<open>deduplication/planning/keeper.py\<close>): the rank of a
  snapshot under a policy, lower first, and the reason and factors a group
  records for its keeper. Ranks are compared as tuples.
\<close>

section \<open>Names of copies\<close>

text \<open>
  \<open>_COPY_SUFFIX.search\<close>: a match of one of the two alternatives that ends at
  the end of the text or before a final newline.
\<close>

definition digits_only :: "string \<Rightarrow> bool" where
  "digits_only s \<longleftrightarrow> s \<noteq> [] \<and> list_all (\<lambda>c. c \<in> set ''0123456789'') s"

definition separator :: "char \<Rightarrow> bool" where
  "separator c \<longleftrightarrow> c \<in> set '' _-''"

definition paren_number :: "string \<Rightarrow> bool" where
  "paren_number s = (let t = dropWhile is_space s in
     t \<noteq> [] \<and> hd t = CHR ''('' \<and> last t = CHR '')'' \<and> digits_only (butlast (tl t)))"

definition optional_number :: "string \<Rightarrow> bool" where
  "optional_number s \<longleftrightarrow> s = [] \<or> digits_only s \<or> (separator (hd s) \<and> digits_only (tl s))"

definition copy_word :: "string \<Rightarrow> bool" where
  "copy_word s = (s \<noteq> [] \<and> separator (hd s) \<and>
     (let t = casefold (tl s) in
        starts_with t ''copy'' \<and> optional_number (drop 4 (tl s))
      \<or> starts_with t ''copia'' \<and> optional_number (drop 5 (tl s))))"

definition copy_suffix_at_end :: "string \<Rightarrow> bool" where
  "copy_suffix_at_end s = list_ex (\<lambda>t. paren_number t \<or> copy_word t) (suffixes s)"

definition has_copy_suffix :: "string \<Rightarrow> bool" where
  "has_copy_suffix s \<longleftrightarrow> copy_suffix_at_end s
     \<or> (s \<noteq> [] \<and> last s = CHR 0x0A \<and> copy_suffix_at_end (butlast s))"

section \<open>Ranks\<close>

type_synonym keeper_rank = "nat \<times> nat \<times> nat \<times> nat \<times> string \<times> string"

text \<open>\<open>f"{n:032x}"\<close>.\<close>

definition hex32 :: "int \<Rightarrow> string" where
  "hex32 n = (let d = hex_of (nat \<bar>n\<bar>) in
     if n < 0 then ''-'' @ replicate (31 - length d) CHR ''0'' @ d else replicate (32 - length d) CHR ''0'' @ d)"

fun location_rank :: "string \<Rightarrow> string \<Rightarrow> string list \<Rightarrow> nat" where
  "location_rank cwd path [] = 0"
| "location_rank cwd path (r # roots) =
     (let preferred = abspath cwd r in
      if commonpath2 path preferred = preferred then 0 else Suc (location_rank cwd path roots))"

definition keeper_rank :: "string \<Rightarrow> keeper_policy \<Rightarrow> file_snapshot \<Rightarrow> keeper_rank" where
  "keeper_rank cwd policy s =
     (if snap_identity s \<in> set (explicit_keep policy) then 0 else 1,
      location_rank cwd (abspath cwd (fs_path s)) (preferred_roots policy),
      if snap_identity s \<in> set (verified_references policy) then 0 else 1,
      of_bool (has_copy_suffix (path_stem (fs_path s))),
      hex32 (fs_volume s) @ '':'' @ hex32 (fs_file s),
      fs_path s)"

definition differ_in :: "('a \<Rightarrow> 'b) \<Rightarrow> 'a list \<Rightarrow> bool" where
  "differ_in f xs \<longleftrightarrow> 1 < length (remdups (map f xs))"

definition keeper_reason :: "keeper_rank list \<Rightarrow> string" where
  "keeper_reason ranks =
     (if differ_in (\<lambda>(a, b, c, d, e, f). a) ranks then ''explicit_user_decision''
      else if differ_in (\<lambda>(a, b, c, d, e, f). b) ranks then ''preferred_location''
      else if differ_in (\<lambda>(a, b, c, d, e, f). c) ranks then ''verified_reference''
      else if differ_in (\<lambda>(a, b, c, d, e, f). d) ranks then ''clean_name_tiebreak''
      else if differ_in (\<lambda>(a, b, c, d, e, f). e) ranks then ''stable_identity''
      else if differ_in (\<lambda>(a, b, c, d, e, f). f) ranks then ''stable_path''
      else ''stable_identity'')"

text \<open>\<open>dict.fromkeys\<close> keeps the first occurrence of every value.\<close>

definition first_occurrences :: "'a list \<Rightarrow> 'a list" where
  "first_occurrences xs = rev (remdups (rev xs))"

definition keeper_factors :: "string \<Rightarrow> keeper_policy \<Rightarrow> file_snapshot \<Rightarrow> string list" where
  "keeper_factors cwd policy s = (case keeper_rank cwd policy s of (a, b, c, d, _) \<Rightarrow>
     let factors = concat [if a = 0 then [''explicit_user_decision''] else [],
           if b < length (preferred_roots policy) then [''preferred_location''] else [],
           if c = 0 then [''verified_reference''] else [],
           if d = 0 then [''clean_name''] else []];
         evidence_ids = first_occurrences (concat (map snd (filter (\<lambda>(i, _). i = snap_identity s) (reference_evidence policy))))
     in if snap_identity s \<notin> set (verified_references policy) then factors
        else factors @ map (\<lambda>e. ''verified_reference_evidence:'' @ e) evidence_ids)"

section \<open>Reasons\<close>

lemma location_rank_le: "location_rank cwd path roots \<le> length roots"
  by (induction roots) (auto simp: Let_def)

lemma differ_in_iff: "differ_in f xs \<longleftrightarrow> (\<exists>x\<in>set xs. \<exists>y\<in>set xs. f x \<noteq> f y)"
  using card_le_Suc0_iff_eq[of "f ` set xs"]
  by (auto simp: differ_in_def length_remdups_card_conv not_le[symmetric])

lemma differ_in_keep: "differ_in f (k # ks) \<longleftrightarrow> (\<exists>x\<in>set ks. f x \<noteq> f k)"
  by (auto simp: differ_in_iff) metis+

lemma keeper_reason_cases:
  "keeper_reason ranks = ''explicit_user_decision'' \<Longrightarrow> differ_in (\<lambda>(a, b, c, d, e, f). a) ranks"
  "keeper_reason ranks = ''preferred_location'' \<Longrightarrow>
    \<not> differ_in (\<lambda>(a, b, c, d, e, f). a) ranks \<and> differ_in (\<lambda>(a, b, c, d, e, f). b) ranks"
  "keeper_reason ranks = ''verified_reference'' \<Longrightarrow>
    \<not> differ_in (\<lambda>(a, b, c, d, e, f). a) ranks \<and> \<not> differ_in (\<lambda>(a, b, c, d, e, f). b) ranks
    \<and> differ_in (\<lambda>(a, b, c, d, e, f). c) ranks"
  "keeper_reason ranks = ''clean_name_tiebreak'' \<Longrightarrow>
    \<not> differ_in (\<lambda>(a, b, c, d, e, f). a) ranks \<and> \<not> differ_in (\<lambda>(a, b, c, d, e, f). b) ranks
    \<and> \<not> differ_in (\<lambda>(a, b, c, d, e, f). c) ranks \<and> differ_in (\<lambda>(a, b, c, d, e, f). d) ranks"
  by (simp_all add: keeper_reason_def split: if_splits)

lemma keeper_rank_least:
  fixes cwd policy
  assumes "keeper_rank cwd policy keep \<le> keeper_rank cwd policy s"
  defines "selected \<equiv> \<lambda>s. snap_identity s \<in> set (explicit_keep policy)"
  defines "place \<equiv> \<lambda>s. location_rank cwd (abspath cwd (fs_path s)) (preferred_roots policy)"
  defines "verified \<equiv> \<lambda>s. snap_identity s \<in> set (verified_references policy)"
  defines "copied \<equiv> \<lambda>s. has_copy_suffix (path_stem (fs_path s))"
  shows "selected s \<le> selected keep" "selected s = selected keep \<Longrightarrow> place keep \<le> place s"
    "selected s = selected keep \<Longrightarrow> place s = place keep \<Longrightarrow> verified s \<le> verified keep"
    "selected s = selected keep \<Longrightarrow> place s = place keep \<Longrightarrow> verified s = verified keep \<Longrightarrow> copied keep \<le> copied s"
  using assms(1) unfolding keeper_rank_def by (auto simp: less_eq_prod_simp assms(2-) split: if_splits)

text \<open>
  When the keeper has the least rank of its group, the recorded reason
  is justified: an explicit decision means that the keeper was explicitly
  selected and some other member was not, a preferred location that no member
  differs in being selected and the keeper lies under an earlier root than some
  member, and likewise down to the clean name.
\<close>

theorem keeper_reason_justified:
  assumes "\<forall>s\<in>set redundant. keeper_rank cwd policy keep \<le> keeper_rank cwd policy s"
  defines "reason \<equiv> keeper_reason (map (keeper_rank cwd policy) (keep # redundant))"
  defines "selected \<equiv> \<lambda>s. snap_identity s \<in> set (explicit_keep policy)"
  defines "place \<equiv> \<lambda>s. location_rank cwd (abspath cwd (fs_path s)) (preferred_roots policy)"
  defines "verified \<equiv> \<lambda>s. snap_identity s \<in> set (verified_references policy)"
  defines "copied \<equiv> \<lambda>s. has_copy_suffix (path_stem (fs_path s))"
  shows "(reason = ''explicit_user_decision'' \<longrightarrow> selected keep \<and> (\<exists>s\<in>set redundant. \<not> selected s))
    \<and> (reason = ''preferred_location'' \<longrightarrow> (\<forall>s\<in>set redundant. selected s = selected keep \<and> place keep \<le> place s)
         \<and> (\<exists>s\<in>set redundant. place keep < place s))
    \<and> (reason = ''verified_reference'' \<longrightarrow> (\<forall>s\<in>set redundant. selected s = selected keep \<and> place s = place keep)
         \<and> verified keep \<and> (\<exists>s\<in>set redundant. \<not> verified s))
    \<and> (reason = ''clean_name_tiebreak'' \<longrightarrow>
         (\<forall>s\<in>set redundant. selected s = selected keep \<and> place s = place keep \<and> verified s = verified keep)
         \<and> \<not> copied keep \<and> (\<exists>s\<in>set redundant. copied s))"
proof -
  let ?rank = "keeper_rank cwd policy"
  have r: "?rank s = (of_bool (\<not> selected s), place s, of_bool (\<not> verified s), of_bool (copied s),
      hex32 (fs_volume s) @ '':'' @ hex32 (fs_file s), fs_path s)" for s
    by (simp add: keeper_rank_def selected_def place_def verified_def copied_def)
  have le: "selected s \<le> selected keep" "selected s = selected keep \<Longrightarrow> place keep \<le> place s"
    "selected s = selected keep \<Longrightarrow> place s = place keep \<Longrightarrow> verified s \<le> verified keep"
    "selected s = selected keep \<Longrightarrow> place s = place keep \<Longrightarrow> verified s = verified keep \<Longrightarrow> copied keep \<le> copied s"
    if "s \<in> set redundant" for s
    using keeper_rank_least[OF assms(1)[rule_format, OF that]]
    unfolding selected_def place_def verified_def copied_def by blast+
  have why: "reason = ''explicit_user_decision'' \<Longrightarrow> \<exists>s\<in>set redundant. selected s \<noteq> selected keep"
    "reason = ''preferred_location'' \<Longrightarrow> (\<forall>s\<in>set redundant. selected s = selected keep)
      \<and> (\<exists>s\<in>set redundant. place s \<noteq> place keep)"
    "reason = ''verified_reference'' \<Longrightarrow> (\<forall>s\<in>set redundant. selected s = selected keep \<and> place s = place keep)
      \<and> (\<exists>s\<in>set redundant. verified s \<noteq> verified keep)"
    "reason = ''clean_name_tiebreak'' \<Longrightarrow> (\<forall>s\<in>set redundant. selected s = selected keep \<and> place s = place keep
      \<and> verified s = verified keep) \<and> (\<exists>s\<in>set redundant. copied s \<noteq> copied keep)"
    using keeper_reason_cases[of "map ?rank (keep # redundant)", folded reason_def]
    by (auto simp: differ_in_keep r of_bool_eq_iff)
  show ?thesis
  proof (intro conjI[OF impI] conjI[OF impI] impI)
    assume "reason = ''explicit_user_decision''"
    then show "selected keep \<and> (\<exists>s\<in>set redundant. \<not> selected s)" using why(1) le(1) by fastforce
  next
    assume "reason = ''preferred_location''"
    then show "(\<forall>s\<in>set redundant. selected s = selected keep \<and> place keep \<le> place s) \<and> (\<exists>s\<in>set redundant. place keep < place s)"
      using why(2) le(2) by (metis order.not_eq_order_implies_strict)
  next
    assume "reason = ''verified_reference''"
    then show "(\<forall>s\<in>set redundant. selected s = selected keep \<and> place s = place keep)
         \<and> verified keep \<and> (\<exists>s\<in>set redundant. \<not> verified s)"
      using why(3) le(3) by (metis le_boolD)
  next
    assume "reason = ''clean_name_tiebreak''"
    then show "(\<forall>s\<in>set redundant. selected s = selected keep \<and> place s = place keep \<and> verified s = verified keep)
         \<and> \<not> copied keep \<and> (\<exists>s\<in>set redundant. copied s)"
      using why(4) le(4) by (metis le_boolD)
  qed
qed

definition demo_original :: file_snapshot where
  "demo_original = \<lparr>fs_path = ''/d/b.txt'', fs_volume = 7, fs_file = 41, fs_size = 3, fs_mtime = 100, fs_birthtime = -1\<rparr>"

definition demo_duplicate :: file_snapshot where
  "demo_duplicate = \<lparr>fs_path = ''/d/b (1).txt'', fs_volume = 7, fs_file = 40, fs_size = 3, fs_mtime = 90, fs_birthtime = -1\<rparr>"

lemma demo_ranks:
  "keeper_rank ''/'' default_keeper_policy demo_original \<le> keeper_rank ''/'' default_keeper_policy demo_duplicate"
  "keeper_reason (map (keeper_rank ''/'' default_keeper_policy) [demo_original, demo_duplicate]) = ''clean_name_tiebreak''"
  by code_simp+

theorem keeper_reason_justified_witness:
  "\<not> has_copy_suffix (path_stem (fs_path demo_original)) \<and> has_copy_suffix (path_stem (fs_path demo_duplicate))"
  using keeper_reason_justified[where redundant = "[demo_duplicate]" and cwd = "''/''" and policy = default_keeper_policy
      and keep = demo_original] demo_ranks by simp

end
