(* ===== verification/Dedup_Index.thy ===== *)
theory Dedup_Index
  imports Dedup_Keeper "HOL-Library.Option_ord"
begin

text \<open>
  The planning tables and the persisted groups of the inventory database
  (\<open>inventory/repository_plans.py\<close>, \<open>inventory/plan_evidence.py\<close>), as lists of
  rows. A query is the list of rows it answers, in its \<open>ORDER BY\<close> order; texts
  and blobs are ordered by their bytes. A statement that raises inside
  \<open>with self._connection\<close> leaves the tables as they were: the operations
  return the new index only when they succeed.
\<close>

section \<open>Identities\<close>

definition blob16 :: "int \<Rightarrow> byte list" where
  "blob16 n = map (\<lambda>i. word_of_int (n div 256 ^ i)) [0..<16]"

definition id_fits :: "int \<Rightarrow> bool" where
  "id_fits n \<longleftrightarrow> 0 \<le> n \<and> n < 2 ^ 128"

definition id_blob :: "int \<Rightarrow> dedup_error + byte list" where
  "id_blob n = (if id_fits n then Inr (blob16 n)
     else Inl (InventoryError ''filesystem identity does not fit an unsigned 128-bit value''))"

definition from_blob :: "byte list \<Rightarrow> int" where
  "from_blob b = foldr (\<lambda>w a. uint w + 256 * a) b 0"

definition identity_fits :: "file_snapshot \<Rightarrow> bool" where
  "identity_fits s \<longleftrightarrow> id_fits (fs_volume s) \<and> id_fits (fs_file s)"

definition identity_blobs :: "file_snapshot \<Rightarrow> byte list \<times> byte list" where
  "identity_blobs s = (blob16 (fs_volume s), blob16 (fs_file s))"

section \<open>Tables\<close>

record observation_row =
  or_snapshot :: file_snapshot
  or_rank :: "nat \<times> nat \<times> nat \<times> nat \<times> string"
  or_links :: int

record fingerprint_row =
  fr_stage :: string
  fr_digest :: "byte list"
  fr_snapshot :: file_snapshot
  fr_computed :: bool

record plan_summary =
  su_groups :: int
  su_redundant :: int
  su_reclaimable :: int
  su_mode :: verification_mode
  su_policy :: dedup_policy
  su_coverage :: plan_coverage
  su_comparisons :: int
  su_failures :: int

record dedup_index =
  ix_scan_complete :: bool
  ix_files :: "file_snapshot list"
  ix_observations :: "observation_row list"
  ix_fingerprints :: "fingerprint_row list"
  ix_groups :: "duplicate_group list"
  ix_summary :: "plan_summary option"

definition invalid_id :: dedup_error where
  "invalid_id = InventoryError ''filesystem identity does not fit an unsigned 128-bit value''"

definition begin_planning_fingerprints :: "dedup_index \<Rightarrow> dedup_index" where
  "begin_planning_fingerprints ix = ix\<lparr>ix_observations := [], ix_fingerprints := []\<rparr>"

definition clear_planning_fingerprints :: "dedup_index \<Rightarrow> dedup_index" where
  "clear_planning_fingerprints ix = ix\<lparr>ix_observations := [], ix_fingerprints := []\<rparr>"

text \<open>\<open>INSERT\<close> into a table whose primary key is the path.\<close>

fun insert_observations :: "observation_row list \<Rightarrow> observation_row list \<Rightarrow> dedup_error + observation_row list" where
  "insert_observations table [] = Inr table"
| "insert_observations table (r # rs) =
     (if \<not> identity_fits (or_snapshot r) then Inl invalid_id
      else if fs_path (or_snapshot r) \<in> set (map (\<lambda>q. fs_path (or_snapshot q)) table)
      then Inl (Raised (RuntimeError ''UNIQUE constraint failed: planning_observations.path''))
      else insert_observations (table @ [r]) rs)"

definition store_planning_observations ::
    "(file_snapshot \<times> keeper_rank \<times> int) list \<Rightarrow> dedup_index \<Rightarrow> dedup_error + dedup_index" where
  "store_planning_observations rows ix =
     (case insert_observations (ix_observations ix)
        (map (\<lambda>(s, (a, b, c, d, e, _), links). \<lparr>or_snapshot = s, or_rank = (a, b, c, d, e), or_links = links\<rparr>) rows) of
        Inl e \<Rightarrow> Inl e
      | Inr table \<Rightarrow> Inr (ix\<lparr>ix_observations := table\<rparr>))"

text \<open>
  A row beyond the least identity; row values compare column by column. The
  subquery is empty on an empty table.
\<close>

definition planning_has_multiple_identities :: "dedup_index \<Rightarrow> bool" where
  "planning_has_multiple_identities ix =
     (let ids = map (\<lambda>r. identity_blobs (or_snapshot r)) (ix_observations ix) in
      case sort ids of [] \<Rightarrow> False | least # _ \<Rightarrow> list_ex (\<lambda>i. i > least) ids)"

text \<open>\<open>ROW_NUMBER() OVER (PARTITION BY \<dots> ORDER BY \<dots>) = 1\<close>: the first of every class.\<close>

fun first_of :: "('a \<Rightarrow> 'b) \<Rightarrow> 'a list \<Rightarrow> 'a list" where
  "first_of f [] = []"
| "first_of f (x # xs) = x # first_of f (filter (\<lambda>y. f y \<noteq> f x) xs)"

abbreviation row_key :: "observation_row \<Rightarrow> (nat \<times> nat \<times> nat \<times> nat \<times> string) \<times> string" where
  "row_key r \<equiv> (or_rank r, fs_path (or_snapshot r))"

definition iter_planning_identities :: "dedup_index \<Rightarrow> file_snapshot list" where
  "iter_planning_identities ix =
     sort_key fs_path (map or_snapshot
       (first_of (\<lambda>r. snap_identity (or_snapshot r)) (sort_key row_key (ix_observations ix))))"

text \<open>\<open>INSERT OR REPLACE\<close> into a table whose primary key is the stage and the identity.\<close>

fun replace_fingerprints :: "fingerprint_row list \<Rightarrow> fingerprint_row list \<Rightarrow> dedup_error + fingerprint_row list" where
  "replace_fingerprints table [] = Inr table"
| "replace_fingerprints table (r # rs) =
     (if \<not> identity_fits (fr_snapshot r) then Inl invalid_id
      else replace_fingerprints
        (filter (\<lambda>q. \<not> (fr_stage q = fr_stage r \<and> snap_identity (fr_snapshot q) = snap_identity (fr_snapshot r))) table @ [r]) rs)"

definition store_planning_fingerprints ::
    "string \<Rightarrow> (file_snapshot \<times> byte list) list \<Rightarrow> (int \<times> int) set \<Rightarrow> dedup_index \<Rightarrow> dedup_error + dedup_index" where
  "store_planning_fingerprints stage rows computed ix =
     (case replace_fingerprints (ix_fingerprints ix)
        (map (\<lambda>(s, d). \<lparr>fr_stage = stage, fr_digest = d, fr_snapshot = s, fr_computed = (snap_identity s \<in> computed)\<rparr>) rows) of
        Inl e \<Rightarrow> Inl e
      | Inr table \<Rightarrow> Inr (ix\<lparr>ix_fingerprints := table\<rparr>))"

text \<open>The rank the left join adds to a fingerprint; a missing one is \<open>NULL\<close>, which sorts first.\<close>

definition joined_rank :: "observation_row list \<Rightarrow> string \<Rightarrow> (nat \<times> nat \<times> nat \<times> nat \<times> string) option" where
  "joined_rank table p = map_option or_rank (find (\<lambda>r. fs_path (or_snapshot r) = p) table)"

definition collision_rows :: "string \<Rightarrow> fingerprint_row list \<Rightarrow> fingerprint_row list" where
  "collision_rows stage table =
     (let rows = filter (\<lambda>r. fr_stage r = stage) table
      in filter (\<lambda>r. 1 < length (filter (\<lambda>q. fr_digest q = fr_digest r) rows)) rows)"

definition iter_planning_collision_members :: "string \<Rightarrow> dedup_index \<Rightarrow> (byte list \<times> file_snapshot) list" where
  "iter_planning_collision_members stage ix =
     map (\<lambda>r. (fr_digest r, fr_snapshot r))
       (sort_key (\<lambda>r. (fr_digest r, joined_rank (ix_observations ix) (fs_path (fr_snapshot r)), fs_path (fr_snapshot r)))
         (collision_rows stage (ix_fingerprints ix)))"

section \<open>Evidence about a member\<close>

definition MAX_PLANNING_ALIAS_SAMPLE :: nat where
  "MAX_PLANNING_ALIAS_SAMPLE = 128"

type_synonym member_metadata = "string list \<times> int \<times> int \<times> bool"

definition incomplete_observations :: dedup_error where
  "incomplete_observations = InventoryError ''duplicate member lacks complete planning observations''"

definition planning_member_metadata :: "dedup_index \<Rightarrow> file_snapshot \<Rightarrow> dedup_error + member_metadata" where
  "planning_member_metadata ix s =
     (if \<not> identity_fits s then Inl invalid_id
      else
        let rows = filter (\<lambda>r. snap_identity (or_snapshot r) = snap_identity s) (ix_observations ix);
            paths = map (\<lambda>r. fs_path (or_snapshot r)) rows;
            computed = find (\<lambda>r. fr_stage r = ''full'' \<and> snap_identity (fr_snapshot r) = snap_identity s) (ix_fingerprints ix);
            sample = take MAX_PLANNING_ALIAS_SAMPLE (sort (filter (\<lambda>p. p \<noteq> fs_path s) paths));
            aliases = (if fs_path s \<in> set paths then fs_path s # take (MAX_PLANNING_ALIAS_SAMPLE - 1) sample else sample)
        in case computed of
             None \<Rightarrow> Inl incomplete_observations
           | Some f \<Rightarrow>
               if rows = [] \<or> aliases = [] then Inl incomplete_observations
               else Inr (aliases, int (length rows), foldr max (map or_links (tl rows)) (or_links (hd rows)), fr_computed f))"

fun map_results :: "('a \<Rightarrow> 'e + 'b) \<Rightarrow> 'a list \<Rightarrow> 'e + 'b list" where
  "map_results f [] = Inr []"
| "map_results f (x # xs) = (case f x of Inl e \<Rightarrow> Inl e | Inr y \<Rightarrow>
     (case map_results f xs of Inl e \<Rightarrow> Inl e | Inr ys \<Rightarrow> Inr (y # ys)))"

definition iter_planning_member_metadata :: "dedup_index \<Rightarrow> file_snapshot list \<Rightarrow> dedup_error + member_metadata list" where
  "iter_planning_member_metadata ix members = map_results (planning_member_metadata ix) members"

section \<open>Serialized proofs\<close>

text \<open>
  \<open>encode_proof\<close> refuses a proof that its own decoder would refuse. The
  checks are those of \<open>_payload\<close>, \<open>decode_group_proof\<close> and
  \<open>decode_member_proof\<close> on the values of a proof; the JSON text in between is
  not modelled, nor are the shape tests it makes necessary.
\<close>

definition payload_error :: "string \<Rightarrow> comparison_method \<Rightarrow> comparison_result \<Rightarrow> dedup_error option" where
  "payload_error version method result =
     (if version \<noteq> PROOF_VERSION then Some (InventoryError ''duplicate proof version is unsupported'')
      else if method = Method_Not_Recorded then Some (InventoryError ''duplicate proof comparison method is invalid'')
      else if result = Result_Not_Recorded then Some (InventoryError ''duplicate proof comparison result is invalid'')
      else None)"

definition group_proof_error :: "group_proof \<Rightarrow> dedup_error option" where
  "group_proof_error p = (case payload_error (gp_version p) (gp_method p) (gp_result p) of
     Some e \<Rightarrow> Some e
   | None \<Rightarrow>
       if gp_policy p = Policy_Unknown then Some (InventoryError ''duplicate group proof policy is invalid'')
       else if (gp_method p, gp_result p) \<noteq>
          (if gp_policy p = Policy_Exact then (Byte_For_Byte, Result_Equal) else (Sha256_Full, Fingerprint_Match))
       then Some (InventoryError ''duplicate group proof does not match its requested policy'')
       else None)"

definition receipt_ok :: "member_proof \<Rightarrow> bool" where
  "receipt_ok p = (case mp_result p of
     Result_Reference \<Rightarrow> mp_method p = Sha256_Full \<and> mp_compared_to p = None \<and> mp_bytes p = None
   | Fingerprint_Match \<Rightarrow> mp_method p = Sha256_Full \<and> mp_compared_to p \<noteq> None \<and> mp_bytes p = None
       \<and> ''byte_for_byte_comparison'' \<in> set (mp_missing p)
   | _ \<Rightarrow> mp_method p = Byte_For_Byte \<and> mp_compared_to p \<noteq> None \<and> mp_bytes p \<noteq> None)"

definition topology_ok :: "member_proof \<Rightarrow> bool" where
  "topology_ok p = (case (mp_alias_count p, mp_links p) of
     (Some n, Some links) \<Rightarrow> 1 \<le> n \<and> int (length (mp_aliases p)) \<le> n \<and> list_all (\<lambda>a. strip a \<noteq> []) (mp_aliases p)
       \<and> distinct (mp_aliases p) \<and> n \<le> links
   | _ \<Rightarrow> False)"

definition negative :: "int option \<Rightarrow> bool" where
  "negative x = (case x of None \<Rightarrow> False | Some n \<Rightarrow> n < 0)"

definition member_proof_error :: "member_proof \<Rightarrow> dedup_error option" where
  "member_proof_error p = (case payload_error (mp_version p) (mp_method p) (mp_result p) of
     Some e \<Rightarrow> Some e
   | None \<Rightarrow>
       if (case mp_compared_to p of None \<Rightarrow> False | Some i \<Rightarrow> \<not> identity_ok i)
       then Some (InventoryError ''duplicate proof comparison identity is invalid'')
       else if negative (mp_bytes p) \<or> negative (mp_alias_count p) \<or> negative (mp_links p)
       then Some (InventoryError ''duplicate proof number is invalid'')
       else if \<not> topology_ok p then Some (InventoryError ''duplicate proof alias topology is inconsistent'')
       else if mp_truncated p \<noteq> (the (mp_alias_count p) > int (length (mp_aliases p)))
       then Some (InventoryError ''duplicate proof alias truncation is inconsistent'')
       else if mp_source p = Source_Not_Recorded \<or> mp_algorithm p = None
       then Some (InventoryError ''duplicate proof fingerprint evidence is invalid'')
       else if \<not> receipt_ok p then Some (InventoryError ''duplicate proof comparison receipt is inconsistent'')
       else None)"

section \<open>Persisted groups\<close>

definition begin_duplicate_plan :: "dedup_index \<Rightarrow> dedup_error + dedup_index" where
  "begin_duplicate_plan ix =
     (if \<not> ix_scan_complete ix then Inl (InventoryError ''duplicate planning requires a complete inventory scan'')
      else Inr (ix\<lparr>ix_groups := [], ix_summary := None\<rparr>))"

definition inconsistent_membership :: "duplicate_group \<Rightarrow> bool" where
  "inconsistent_membership g = (let members = group_members g in
     g_size g \<le> 0 \<or> g_redundant g = [] \<or> list_ex (\<lambda>m. fs_size m \<noteq> g_size g) members
     \<or> \<not> distinct (map snap_identity members) \<or> \<not> distinct (map fs_path members))"

fun first_problem :: "('a \<Rightarrow> 'e option) \<Rightarrow> 'a list \<Rightarrow> 'e option" where
  "first_problem f [] = None"
| "first_problem f (x # xs) = (case f x of Some e \<Rightarrow> Some e | None \<Rightarrow> first_problem f xs)"

definition expected_mode :: "group_proof \<Rightarrow> verification_mode" where
  "expected_mode p = (if gp_policy p = Policy_Exact then Mode_Full_Hash else Mode_Fast)"

definition member_receipt_error :: "duplicate_group \<Rightarrow> verification_mode \<Rightarrow> nat \<times> file_snapshot \<times> member_proof \<Rightarrow> dedup_error option" where
  "member_receipt_error g mode x = (case x of (position, member, proof) \<Rightarrow>
     let expected_result = (if position = 0 then Result_Reference
           else if mode = Mode_Full_Hash then Result_Equal else Fingerprint_Match)
     in if mp_result proof \<noteq> expected_result \<or> fs_path member \<notin> set (mp_aliases proof)
          \<or> (0 < position \<and> mp_compared_to proof \<noteq> Some (snap_identity (g_keep g)))
          \<or> (mp_result proof = Result_Equal \<and> mp_bytes proof \<noteq> Some (fs_size member))
        then Some (InventoryError ''duplicate member proof does not match the keeper'') else None)"

definition group_evidence_error :: "duplicate_group \<Rightarrow> dedup_error option" where
  "group_evidence_error g = (case g_proof g of
     None \<Rightarrow> None
   | Some p \<Rightarrow>
       (case group_proof_error p of Some e \<Rightarrow> Some e | None \<Rightarrow>
         if g_mode g \<noteq> expected_mode p \<or> g_member_proofs g = []
         then Some (InventoryError ''duplicate group proof does not cover its members'')
         else first_problem (member_receipt_error g (expected_mode p))
           (zip [0..<length (group_members g)] (zip (group_members g) (g_member_proofs g)))))"

definition group_error :: "file_snapshot list \<Rightarrow> duplicate_group \<Rightarrow> dedup_error option" where
  "group_error files g =
     (if inconsistent_membership g then Some (InventoryError ''duplicate group physical membership is inconsistent'')
      else case first_problem (\<lambda>m. if \<not> identity_fits m then Some invalid_id
             else if m \<notin> set files then Some (InventoryError ''duplicate group member is not an observed member of the inventory'')
             else None) (group_members g) of
        Some e \<Rightarrow> Some e
      | None \<Rightarrow>
          if g_member_proofs g \<noteq> [] \<and> length (g_member_proofs g) \<noteq> 1 + length (g_redundant g)
          then Some (InventoryError ''duplicate member proof count is inconsistent'')
          else case group_evidence_error g of
            Some e \<Rightarrow> Some e
          | None \<Rightarrow> first_problem member_proof_error (g_member_proofs g))"

text \<open>One transaction: a refused group refuses its batch.\<close>

definition store_duplicate_groups :: "duplicate_group list \<Rightarrow> dedup_index \<Rightarrow> dedup_error + dedup_index" where
  "store_duplicate_groups groups ix = (case first_problem (group_error (ix_files ix)) groups of
     Some e \<Rightarrow> Inl e
   | None \<Rightarrow> Inr (ix\<lparr>ix_groups := ix_groups ix @ groups\<rparr>))"

section \<open>Publication\<close>

definition coverage_error :: "plan_summary \<Rightarrow> bool" where
  "coverage_error s \<longleftrightarrow>
     su_comparisons s < 0 \<or> su_failures s < 0
   \<or> su_coverage s \<noteq> (if su_failures s \<noteq> 0 then Coverage_Partial else Coverage_Complete)
   \<or> su_mode s \<noteq> (if su_failures s \<noteq> 0 then Mode_Partial else if su_policy s = Policy_Exact then Mode_Full_Hash else Mode_Fast)
   \<or> (su_policy s = Policy_Fast \<and> su_comparisons s \<noteq> 0)
   \<or> (su_policy s = Policy_Exact \<and> su_comparisons s < su_redundant s)"

definition malformed_group :: "file_snapshot list \<Rightarrow> duplicate_group \<Rightarrow> bool" where
  "malformed_group files g \<longleftrightarrow> g_size g \<le> 0 \<or> g_redundant g = [] \<or> list_ex (\<lambda>m. fs_size m \<noteq> g_size g) (group_members g)
     \<or> \<not> distinct (map snap_identity (group_members g)) \<or> list_ex (\<lambda>m. m \<notin> set files) (group_members g)"

text \<open>
  The checks of \<open>complete_duplicate_plan\<close> in their order, then its summary.
  The head row with the digests of inventory and plan is not modelled.
\<close>

definition complete_duplicate_plan :: "plan_summary \<Rightarrow> dedup_index \<Rightarrow> dedup_error + dedup_index" where
  "complete_duplicate_plan s ix =
     (if \<not> ix_scan_complete ix
      then Inl (InventoryError ''duplicate plan cannot publish without a complete inventory scan'')
      else if (int (length (ix_groups ix)), sum_on (\<lambda>g. int (length (g_redundant g))) (ix_groups ix),
               sum_on nominal_redundant_bytes (ix_groups ix)) \<noteq> (su_groups s, su_redundant s, su_reclaimable s)
            \<or> sum_on (\<lambda>g. int (length (group_members g))) (ix_groups ix) \<noteq> su_groups s + su_redundant s
      then Inl (InventoryError ''duplicate plan cannot publish incomplete owner evidence'')
      else if list_ex (malformed_group (ix_files ix)) (ix_groups ix)
      then Inl (InventoryError ''duplicate plan cannot publish inconsistent group membership'')
      else if su_policy s \<noteq> Policy_Unknown \<and> coverage_error s
      then Inl (InventoryError ''duplicate plan comparison coverage is inconsistent'')
      else if su_policy s \<noteq> Policy_Unknown \<and> list_ex (\<lambda>g. g_proof g = None \<or> g_member_proofs g = []
             \<or> g_mode g \<noteq> (if su_policy s = Policy_Exact then Mode_Full_Hash else Mode_Fast)) (ix_groups ix)
      then Inl (InventoryError ''duplicate plan cannot publish missing member proofs'')
      else Inr (ix\<lparr>ix_summary := Some s\<rparr>))"

text \<open>Groups are read back by nominal bytes, largest first, then by the path of the keeper.\<close>

definition iter_duplicate_groups :: "dedup_index \<Rightarrow> duplicate_group list" where
  "iter_duplicate_groups ix = (case ix_summary ix of
     None \<Rightarrow> []
   | Some _ \<Rightarrow> sort_key (\<lambda>g. (- nominal_redundant_bytes g, fs_path (g_keep g))) (ix_groups ix))"

section \<open>Identities survive their encoding\<close>

definition low_bytes :: "nat \<Rightarrow> int \<Rightarrow> byte list" where
  "low_bytes k n = map (\<lambda>i. word_of_int (n div 256 ^ i)) [0..<k]"

lemma low_bytes_Suc: "low_bytes (Suc k) n = word_of_int n # low_bytes k (n div 256)"
  unfolding low_bytes_def upt_conv_Cons[OF zero_less_Suc] map_Suc_upt[symmetric]
  by (simp add: comp_def zdiv_zmult2_eq)

lemma from_low_bytes: "from_blob (low_bytes k n) = n mod 256 ^ k"
proof (induction k arbitrary: n)
  case (Suc k)
  have "from_blob (low_bytes (Suc k) n) = n mod 256 + 256 * (n div 256 mod 256 ^ k)"
    using Suc[of "n div 256"] by (simp add: from_blob_def low_bytes_Suc uint_word_of_int)
  then show ?case by (simp add: zmod_zmult2_eq)
qed (simp add: from_blob_def low_bytes_def)

lemma blob_roundtrip: "id_fits n \<Longrightarrow> from_blob (blob16 n) = n"
  using from_low_bytes[of 16 n] by (simp add: blob16_def low_bytes_def id_fits_def)

lemma identity_blobs_inj:
  "identity_fits s \<Longrightarrow> identity_fits t \<Longrightarrow> identity_blobs s = identity_blobs t \<longleftrightarrow> snap_identity s = snap_identity t"
  unfolding identity_fits_def identity_blobs_def snap_identity_def by (metis blob_roundtrip prod.inject)

text \<open>The index probe finds a second identity exactly when there is one.\<close>

lemma multiple_identities_iff:
  assumes "\<forall>r\<in>set (ix_observations ix). identity_fits (or_snapshot r)"
  shows "planning_has_multiple_identities ix \<longleftrightarrow> (\<exists>r\<in>set (ix_observations ix). \<exists>q\<in>set (ix_observations ix).
    snap_identity (or_snapshot r) \<noteq> snap_identity (or_snapshot q))"
proof -
  define ids where "ids = map (\<lambda>r. identity_blobs (or_snapshot r)) (ix_observations ix)"
  have "planning_has_multiple_identities ix \<longleftrightarrow> (\<exists>i\<in>set ids. \<exists>j\<in>set ids. i \<noteq> j)"
  proof (cases "sort ids")
    case Nil
    then have "ids = []" by (metis set_empty set_sort)
    then show ?thesis by (simp add: planning_has_multiple_identities_def ids_def[symmetric])
  next
    case (Cons least rest)
    then have "least \<in> set ids" and "\<forall>i\<in>set ids. least \<le> i"
      using sorted_sort_key[of "\<lambda>x. x" ids] set_sort[of "\<lambda>x. x" ids] by auto
    then have "(\<exists>i\<in>set ids. least < i) \<longleftrightarrow> (\<exists>i\<in>set ids. \<exists>j\<in>set ids. i \<noteq> j)"
      by (metis order.not_eq_order_implies_strict order_less_irrefl)
    moreover have "planning_has_multiple_identities ix \<longleftrightarrow> (\<exists>i\<in>set ids. least < i)"
      unfolding planning_has_multiple_identities_def Let_def ids_def[symmetric] Cons by (simp add: list_ex_iff)
    ultimately show ?thesis by simp
  qed
  also have "\<dots> \<longleftrightarrow> (\<exists>r\<in>set (ix_observations ix). \<exists>q\<in>set (ix_observations ix).
      snap_identity (or_snapshot r) \<noteq> snap_identity (or_snapshot q))"
    using assms identity_blobs_inj by (auto simp: ids_def)
  finally show ?thesis .
qed

end
