(* ===== verification/Dedup_Planning.thy ===== *)
theory Dedup_Planning
  imports Dedup_Index
begin

text \<open>
  Bounded accumulation and collision grouping (\<open>planning/pipeline.py\<close>): the
  plan accumulator that persists groups in bounded batches, and the builder
  that separates equal digests into byte-identical groups. The accumulator, the
  counters and the builder share one state record; the progress reporter only
  displays and is left out. An operation that raises returns the exception.
\<close>

section \<open>Counters and configuration\<close>

definition PLAN_GROUP_BATCH_SIZE :: nat where "PLAN_GROUP_BATCH_SIZE = 256"

definition PLAN_MEMBER_BATCH_SIZE :: nat where "PLAN_MEMBER_BATCH_SIZE = 2048"

definition PLAN_ALIAS_BATCH_SIZE :: nat where "PLAN_ALIAS_BATCH_SIZE = 4096"

definition MAX_REDUNDANT_MEMBERS_PER_GROUP :: nat where "MAX_REDUNDANT_MEMBERS_PER_GROUP = 1024"

definition MAX_EXACT_HASH_COLLISION_SETS :: nat where "MAX_EXACT_HASH_COLLISION_SETS = 128"

record plan_counters =
  pc_size_candidates :: int
  pc_partial :: int
  pc_full :: int
  pc_comparisons :: int
  pc_failures :: int
  pc_hash_read_bytes :: int
  pc_validation_reads :: int
  pc_validation_bytes :: int
  pc_cache_hits :: int
  pc_digest_reuses :: int
  pc_exact_bytes :: int

definition no_counts :: plan_counters where
  "no_counts = \<lparr>pc_size_candidates = 0, pc_partial = 0, pc_full = 0, pc_comparisons = 0, pc_failures = 0,
     pc_hash_read_bytes = 0, pc_validation_reads = 0, pc_validation_bytes = 0, pc_cache_hits = 0,
     pc_digest_reuses = 0, pc_exact_bytes = 0\<rparr>"

definition record_failed_reads :: "dedup_error \<Rightarrow> plan_counters \<Rightarrow> plan_counters" where
  "record_failed_reads e c = (case e of
     FingerprintReadFailure f \<Rightarrow> c\<lparr>pc_full := pc_full c + rf_full_reads f,
       pc_partial := pc_partial c + rf_partial_reads f,
       pc_hash_read_bytes := pc_hash_read_bytes c + rf_full_read_bytes f + rf_partial_read_bytes f,
       pc_validation_reads := pc_validation_reads c + of_bool (rf_validation_read_bytes f > 0),
       pc_validation_bytes := pc_validation_bytes c + rf_validation_read_bytes f,
       pc_exact_bytes := pc_exact_bytes c + rf_exact_bytes f\<rparr>
   | _ \<Rightarrow> c)"

definition count_failure :: "plan_counters \<Rightarrow> plan_counters" where
  "count_failure c = c\<lparr>pc_failures := pc_failures c + 1\<rparr>"

text \<open>What a session is given: policy, requested exactness and the exact matcher.\<close>

record planning_config =
  cf_cwd :: string
  cf_exact :: bool
  cf_policy :: keeper_policy
  cf_matcher :: "file_snapshot \<Rightarrow> file_snapshot \<Rightarrow> dedup_error + comparison_observation"

record planning =
  pl_index :: dedup_index
  pl_batch :: "duplicate_group list"
  pl_batch_members :: nat
  pl_batch_aliases :: nat
  pl_group_count :: int
  pl_redundant_files :: int
  pl_reclaimable_bytes :: int
  pl_counters :: plan_counters
  pl_digest :: "byte list option"
  pl_representatives :: "file_snapshot list"
  pl_chunks :: "file_snapshot list list"

section \<open>The plan accumulator\<close>

definition member_proof_of :: "planning_config \<Rightarrow> file_snapshot \<Rightarrow> file_snapshot \<Rightarrow> member_metadata \<Rightarrow> member_proof" where
  "member_proof_of cf keep member metadata = (case metadata of (aliases, alias_count, links, computed) \<Rightarrow>
     let reference = (snap_identity member = snap_identity keep);
         missing = (if \<not> reference \<and> \<not> cf_exact cf then [''byte_for_byte_comparison''] else [])
           @ (if links > alias_count then [''aliases_outside_inventory''] else [])
     in \<lparr>mp_version = PROOF_VERSION,
         mp_method = (if reference \<or> \<not> cf_exact cf then Sha256_Full else Byte_For_Byte),
         mp_result = (if reference then Result_Reference else if cf_exact cf then Result_Equal else Fingerprint_Match),
         mp_compared_to = (if reference then None else Some (snap_identity keep)),
         mp_bytes = (if cf_exact cf \<and> \<not> reference then Some (fs_size member) else None),
         mp_algorithm = Some FULL_ALGORITHM,
         mp_source = (if computed then Source_Computed else Source_Cached),
         mp_missing = missing, mp_aliases = aliases, mp_alias_count = Some alias_count,
         mp_truncated = (alias_count > int (length aliases)), mp_links = Some links\<rparr>)"

definition flush_groups :: "planning \<Rightarrow> dedup_error + planning" where
  "flush_groups p =
     (if pl_batch p = [] then Inr p
      else case store_duplicate_groups (pl_batch p) (pl_index p) of
        Inl e \<Rightarrow> Inl e
      | Inr ix \<Rightarrow> Inr (p\<lparr>pl_index := ix, pl_batch := [], pl_batch_members := 0, pl_batch_aliases := 0\<rparr>))"

definition group_missing :: "bool \<Rightarrow> string list" where
  "group_missing exact = (if exact then [] else [''byte_for_byte_comparison'']) @
     [''path_disposability_not_verified'', ''authorization_not_granted'', ''physical_reclamation_not_verified'']"

definition proof_of_group :: "planning_config \<Rightarrow> file_snapshot \<Rightarrow> file_snapshot list \<Rightarrow> group_proof" where
  "proof_of_group cf keep redundant =
     \<lparr>gp_version = PROOF_VERSION, gp_policy = (if cf_exact cf then Policy_Exact else Policy_Fast),
      gp_method = (if cf_exact cf then Byte_For_Byte else Sha256_Full),
      gp_result = (if cf_exact cf then Result_Equal else Fingerprint_Match),
      gp_missing = group_missing (cf_exact cf), gp_keeper_version = KEEPER_POLICY_VERSION,
      gp_keeper_reason = keeper_reason (map (keeper_rank (cf_cwd cf) (cf_policy cf)) (keep # redundant)),
      gp_keeper_factors = keeper_factors (cf_cwd cf) (cf_policy cf) keep\<rparr>"

definition conflict_of :: "planning_config \<Rightarrow> byte list \<Rightarrow> (int \<times> int) list \<Rightarrow> keeper_conflict" where
  "conflict_of cf digest identities =
     \<lparr>kc_policy = cf_policy cf, kc_identities = sort (remdups identities), kc_fingerprint = digest_hex digest,
      kc_proof = \<lparr>gp_version = PROOF_VERSION, gp_policy = (if cf_exact cf then Policy_Exact else Policy_Fast),
        gp_method = (if cf_exact cf then Byte_For_Byte else Sha256_Full),
        gp_result = (if cf_exact cf then Result_Equal else Fingerprint_Match),
        gp_missing = (if cf_exact cf then [] else [''byte_for_byte_comparison'']) @
          [''keeper_decision_conflict'', ''path_disposability_not_verified'', ''authorization_not_granted'',
           ''physical_reclamation_not_verified''],
        gp_keeper_version = KEEPER_POLICY_VERSION, gp_keeper_reason = ''conflicting_explicit_keepers'',
        gp_keeper_factors = []\<rparr>\<rparr>"

definition build_group :: "planning_config \<Rightarrow> byte list \<Rightarrow> file_snapshot \<Rightarrow> file_snapshot list \<Rightarrow> member_metadata list \<Rightarrow> duplicate_group" where
  "build_group cf digest keep redundant metadata =
     \<lparr>g_size = fs_size keep, g_keep = keep, g_redundant = redundant, g_fingerprint = digest_hex digest,
      g_mode = (if cf_exact cf then Mode_Full_Hash else Mode_Fast),
      g_proof = Some (proof_of_group cf keep redundant),
      g_member_proofs = map2 (member_proof_of cf keep) (keep # redundant) metadata\<rparr>"

definition group_aliases :: "duplicate_group \<Rightarrow> nat" where
  "group_aliases g = sum_list (map (\<lambda>q. length (mp_aliases q)) (g_member_proofs g))"

text \<open>Appending a finished group, flushing before and after as the budgets demand.\<close>

definition append_group :: "duplicate_group \<Rightarrow> planning \<Rightarrow> planning" where
  "append_group g p = p\<lparr>pl_batch := pl_batch p @ [g],
     pl_batch_members := pl_batch_members p + length (group_members g),
     pl_batch_aliases := pl_batch_aliases p + group_aliases g,
     pl_group_count := pl_group_count p + 1,
     pl_redundant_files := pl_redundant_files p + int (length (g_redundant g)),
     pl_reclaimable_bytes := pl_reclaimable_bytes p + nominal_redundant_bytes g\<rparr>"

definition flush_when :: "bool \<Rightarrow> planning \<Rightarrow> dedup_error + planning" where
  "flush_when full p = (if full then flush_groups p else Inr p)"

definition batch_full :: "planning \<Rightarrow> bool" where
  "batch_full p \<longleftrightarrow> PLAN_GROUP_BATCH_SIZE \<le> length (pl_batch p) \<or> PLAN_MEMBER_BATCH_SIZE \<le> pl_batch_members p
     \<or> PLAN_ALIAS_BATCH_SIZE \<le> pl_batch_aliases p"

definition selected_keepers :: "planning_config \<Rightarrow> file_snapshot list \<Rightarrow> (int \<times> int) list" where
  "selected_keepers cf members = filter (\<lambda>i. i \<in> set (explicit_keep (cf_policy cf))) (map snap_identity members)"

definition store :: "planning_config \<Rightarrow> byte list \<Rightarrow> file_snapshot \<Rightarrow> file_snapshot list \<Rightarrow> planning \<Rightarrow> dedup_error + planning" where
  "store cf digest keep redundant p =
     (if redundant = [] then Inr p
      else let members = keep # redundant; selected = selected_keepers cf members in
      if 1 < length (remdups selected) then Inl (KeeperConflictError (conflict_of cf digest selected))
      else case flush_when (PLAN_MEMBER_BATCH_SIZE < pl_batch_members p + length members) p of
        Inl e \<Rightarrow> Inl e
      | Inr p1 \<Rightarrow> (case iter_planning_member_metadata (pl_index p1) members of
          Inl e \<Rightarrow> Inl e
        | Inr metadata \<Rightarrow>
            let g = build_group cf digest keep redundant metadata in
            (case flush_when (PLAN_ALIAS_BATCH_SIZE < pl_batch_aliases p1 + group_aliases g) p1 of
               Inl e \<Rightarrow> Inl e
             | Inr p2 \<Rightarrow> let p3 = append_group g p2 in flush_when (batch_full p3) p3)))"

section \<open>The collision group builder\<close>

datatype placement = Placed nat | Unmatched | Abstained

fun match_representatives ::
    "planning_config \<Rightarrow> file_snapshot \<Rightarrow> file_snapshot list \<Rightarrow> nat \<Rightarrow> plan_counters \<Rightarrow> dedup_error + placement \<times> plan_counters" where
  "match_representatives cf s [] position c = Inr (Unmatched, c)"
| "match_representatives cf s (r # reps) position c =
     (let c1 = c\<lparr>pc_comparisons := pc_comparisons c + 1\<rparr> in
      case cf_matcher cf r s of
        Inr ob \<Rightarrow>
          let c2 = c1\<lparr>pc_exact_bytes := pc_exact_bytes c1 + co_read_bytes ob\<rparr> in
          if co_equal ob then Inr (Placed position, c2) else match_representatives cf s reps (Suc position) c2
      | Inl e \<Rightarrow>
          if is_file_changed e then Inr (Abstained, count_failure (record_failed_reads e c1)) else Inl e)"

definition place_with_representative :: "planning_config \<Rightarrow> file_snapshot \<Rightarrow> planning \<Rightarrow> dedup_error + placement \<times> plan_counters" where
  "place_with_representative cf s p =
     (if \<not> cf_exact cf \<and> pl_representatives p \<noteq> [] then Inr (Placed 0, pl_counters p)
      else match_representatives cf s (pl_representatives p) 0 (pl_counters p))"

definition add_representative :: "planning_config \<Rightarrow> file_snapshot \<Rightarrow> planning \<Rightarrow> planning" where
  "add_representative cf s p =
     (if cf_exact cf \<and> MAX_EXACT_HASH_COLLISION_SETS \<le> length (pl_representatives p)
      then p\<lparr>pl_counters := count_failure (pl_counters p)\<rparr>
      else p\<lparr>pl_representatives := pl_representatives p @ [s], pl_chunks := pl_chunks p @ [[]]\<rparr>)"

text \<open>Storing the chunks that a test selects, in order; a stored chunk becomes empty.\<close>

fun store_chunks :: "planning_config \<Rightarrow> byte list \<Rightarrow> (file_snapshot list \<Rightarrow> bool) \<Rightarrow> (file_snapshot \<times> file_snapshot list) list
    \<Rightarrow> planning \<Rightarrow> dedup_error + file_snapshot list list \<times> planning" where
  "store_chunks cf digest due [] p = Inr ([], p)"
| "store_chunks cf digest due ((keep, redundant) # rest) p =
     (if due redundant
      then (case store cf digest keep redundant p of
          Inl e \<Rightarrow> Inl e
        | Inr p1 \<Rightarrow> (case store_chunks cf digest due rest p1 of Inl e \<Rightarrow> Inl e | Inr (cs, p2) \<Rightarrow> Inr ([] # cs, p2)))
      else (case store_chunks cf digest due rest p of Inl e \<Rightarrow> Inl e | Inr (cs, p2) \<Rightarrow> Inr (redundant # cs, p2)))"

definition run_store_chunks :: "planning_config \<Rightarrow> (file_snapshot list \<Rightarrow> bool) \<Rightarrow> planning \<Rightarrow> dedup_error + planning" where
  "run_store_chunks cf due p = (case pl_digest p of
     None \<Rightarrow> Inr p
   | Some digest \<Rightarrow> (case store_chunks cf digest due (zip (pl_representatives p) (pl_chunks p)) p of
        Inl e \<Rightarrow> Inl e
      | Inr (cs, p1) \<Rightarrow> Inr (p1\<lparr>pl_chunks := cs\<rparr>)))"

definition flush_complete_chunks :: "planning_config \<Rightarrow> planning \<Rightarrow> dedup_error + planning" where
  "flush_complete_chunks cf p = run_store_chunks cf (\<lambda>redundant. MAX_REDUNDANT_MEMBERS_PER_GROUP \<le> length redundant) p"

definition flush_builder :: "planning_config \<Rightarrow> planning \<Rightarrow> dedup_error + planning" where
  "flush_builder cf p = run_store_chunks cf (\<lambda>_. True) p"

definition activate :: "planning_config \<Rightarrow> byte list \<Rightarrow> planning \<Rightarrow> dedup_error + planning" where
  "activate cf digest p =
     (if pl_digest p = Some digest then Inr p
      else case flush_builder cf p of
        Inl e \<Rightarrow> Inl e
      | Inr p1 \<Rightarrow> Inr (p1\<lparr>pl_digest := Some digest, pl_representatives := [], pl_chunks := []\<rparr>))"

definition add :: "planning_config \<Rightarrow> byte list \<times> file_snapshot \<Rightarrow> planning \<Rightarrow> dedup_error + planning" where
  "add cf x p = (case activate cf (fst x) p of
     Inl e \<Rightarrow> Inl e
   | Inr p1 \<Rightarrow> (case place_with_representative cf (snd x) p1 of
       Inl e \<Rightarrow> Inl e
     | Inr (Abstained, c) \<Rightarrow> Inr (p1\<lparr>pl_counters := c\<rparr>)
     | Inr (Unmatched, c) \<Rightarrow> Inr (add_representative cf (snd x) (p1\<lparr>pl_counters := c\<rparr>))
     | Inr (Placed i, c) \<Rightarrow>
         flush_complete_chunks cf (p1\<lparr>pl_counters := c, pl_chunks := (pl_chunks p1)[i := pl_chunks p1 ! i @ [snd x]]\<rparr>)))"

fun add_all :: "planning_config \<Rightarrow> (byte list \<times> file_snapshot) list \<Rightarrow> planning \<Rightarrow> dedup_error + planning" where
  "add_all cf [] p = Inr p"
| "add_all cf (x # xs) p = (case add cf x p of Inl e \<Rightarrow> Inl e | Inr p1 \<Rightarrow> add_all cf xs p1)"

text \<open>\<open>PlanningSession._group_full_collisions\<close>: a fresh builder over the collision members.\<close>

definition group_full_collisions :: "planning_config \<Rightarrow> planning \<Rightarrow> dedup_error + planning" where
  "group_full_collisions cf p =
     (let p0 = p\<lparr>pl_digest := None, pl_representatives := [], pl_chunks := []\<rparr> in
      case add_all cf (iter_planning_collision_members ''full'' (pl_index p)) p0 of
        Inl e \<Rightarrow> Inl e
      | Inr p1 \<Rightarrow> flush_builder cf p1)"

end
