(* ===== verification/Dedup_Groups.thy ===== *)
theory Dedup_Groups
  imports Dedup_Planning "HOL-Library.Multiset"
begin

text \<open>
  What grouping guarantees: the accumulator adds exactly the groups it is given
  and keeps its totals and its batch within the budgets, and the builder makes
  groups of members that were all found equal to their keeper, none of which is
  redundant twice or also a keeper.
\<close>

section \<open>The accumulator\<close>

text \<open>Persisted and pending groups, in the order they were stored.\<close>

definition all_groups :: "planning \<Rightarrow> duplicate_group list" where
  "all_groups p = ix_groups (pl_index p) @ pl_batch p"

text \<open>What accumulation leaves alone.\<close>

definition same_builder :: "planning \<Rightarrow> planning \<Rightarrow> bool" where
  "same_builder p q \<longleftrightarrow> pl_counters q = pl_counters p \<and> pl_digest q = pl_digest p
     \<and> pl_representatives q = pl_representatives p \<and> pl_chunks q = pl_chunks p
     \<and> ix_groups_update (\<lambda>_. []) (pl_index q) = ix_groups_update (\<lambda>_. []) (pl_index p)"

lemma same_builder_refl [simp]: "same_builder p p"
  by (simp add: same_builder_def)

lemma same_builder_trans [trans]: "same_builder p q \<Longrightarrow> same_builder q r \<Longrightarrow> same_builder p r"
  by (simp add: same_builder_def)

lemma same_builder_fields:
  assumes "same_builder p q"
  shows "pl_counters q = pl_counters p" "pl_digest q = pl_digest p"
    "pl_representatives q = pl_representatives p" "pl_chunks q = pl_chunks p"
    "ix_files (pl_index q) = ix_files (pl_index p)" "ix_scan_complete (pl_index q) = ix_scan_complete (pl_index p)"
    "ix_observations (pl_index q) = ix_observations (pl_index p)"
    "ix_fingerprints (pl_index q) = ix_fingerprints (pl_index p)" "ix_summary (pl_index q) = ix_summary (pl_index p)"
proof -
  show "pl_counters q = pl_counters p" "pl_digest q = pl_digest p"
    "pl_representatives q = pl_representatives p" "pl_chunks q = pl_chunks p"
    using assms by (simp_all add: same_builder_def)
  have e: "ix_groups_update (\<lambda>_. []) (pl_index q) = ix_groups_update (\<lambda>_. []) (pl_index p)"
    using assms by (simp add: same_builder_def)
  show "ix_files (pl_index q) = ix_files (pl_index p)" using arg_cong[OF e, of ix_files] by simp
  show "ix_scan_complete (pl_index q) = ix_scan_complete (pl_index p)" using arg_cong[OF e, of ix_scan_complete] by simp
  show "ix_observations (pl_index q) = ix_observations (pl_index p)" using arg_cong[OF e, of ix_observations] by simp
  show "ix_fingerprints (pl_index q) = ix_fingerprints (pl_index p)" using arg_cong[OF e, of ix_fingerprints] by simp
  show "ix_summary (pl_index q) = ix_summary (pl_index p)" using arg_cong[OF e, of ix_summary] by simp
qed

text \<open>
  The totals count every group, the batch counters are those of the batch,
  between two operations the batch is below all three budgets, and what is
  persisted passed the checks of the database.
\<close>

definition persisted_ok :: "dedup_index \<Rightarrow> bool" where
  "persisted_ok ix \<longleftrightarrow> (\<forall>g\<in>set (ix_groups ix). group_error (ix_files ix) g = None)"

definition accumulator_inv :: "planning \<Rightarrow> bool" where
  "accumulator_inv p \<longleftrightarrow>
     pl_group_count p = int (length (all_groups p))
   \<and> pl_redundant_files p = sum_on (\<lambda>g. int (length (g_redundant g))) (all_groups p)
   \<and> pl_reclaimable_bytes p = sum_on nominal_redundant_bytes (all_groups p)
   \<and> pl_batch_members p = sum_list (map (\<lambda>g. length (group_members g)) (pl_batch p))
   \<and> pl_batch_aliases p = sum_list (map group_aliases (pl_batch p))
   \<and> length (pl_batch p) < PLAN_GROUP_BATCH_SIZE \<and> pl_batch_members p < PLAN_MEMBER_BATCH_SIZE
   \<and> pl_batch_aliases p < PLAN_ALIAS_BATCH_SIZE \<and> persisted_ok (pl_index p)"

lemma first_problem_None: "first_problem f xs = None \<longleftrightarrow> (\<forall>x\<in>set xs. f x = None)"
  by (induction xs) (auto split: option.splits)

text \<open>Every transaction of the database: the groups of one call of \<open>store_duplicate_groups\<close>.\<close>

lemma flush_groups_Inr:
  assumes "flush_groups p = Inr q"
  shows "all_groups q = all_groups p" "same_builder p q" "pl_batch q = []"
    "pl_group_count q = pl_group_count p" "pl_redundant_files q = pl_redundant_files p"
    "pl_reclaimable_bytes q = pl_reclaimable_bytes p"
    "first_problem (group_error (ix_files (pl_index p))) (pl_batch p) = None"
    "pl_batch p \<noteq> [] \<Longrightarrow> pl_batch_members q = 0 \<and> pl_batch_aliases q = 0"
    "persisted_ok (pl_index p) \<Longrightarrow> persisted_ok (pl_index q)"
  using assms
  by (auto simp: flush_groups_def store_duplicate_groups_def all_groups_def same_builder_def persisted_ok_def
      first_problem_None split: if_splits option.splits)

lemma flush_when_Inr:
  assumes "flush_when full p = Inr q"
  shows "all_groups q = all_groups p" "same_builder p q" "pl_group_count q = pl_group_count p"
    "pl_redundant_files q = pl_redundant_files p" "pl_reclaimable_bytes q = pl_reclaimable_bytes p"
    "full \<Longrightarrow> pl_batch q = []" "persisted_ok (pl_index p) \<Longrightarrow> persisted_ok (pl_index q)"
  using assms flush_groups_Inr[of p q] by (auto simp: flush_when_def split: if_splits)

lemma accumulator_inv_flush:
  assumes "accumulator_inv p" "flush_when full p = Inr q"
  shows "accumulator_inv q"
proof (cases "full \<and> pl_batch p \<noteq> []")
  case True
  then have f: "flush_groups p = Inr q" using assms(2) by (simp add: flush_when_def)
  note g = flush_groups_Inr[OF f]
  show ?thesis
    using assms(1) True g(1,3-6,8,9)
    by (simp add: accumulator_inv_def PLAN_GROUP_BATCH_SIZE_def PLAN_MEMBER_BATCH_SIZE_def PLAN_ALIAS_BATCH_SIZE_def)
next
  case False
  then have "q = p" using assms(2) by (auto simp: flush_when_def flush_groups_def split: if_splits)
  then show ?thesis using assms(1) by simp
qed

lemma all_groups_append [simp]: "all_groups (append_group g p) = all_groups p @ [g]"
  by (simp add: all_groups_def append_group_def)

lemma same_builder_append [simp]: "same_builder p (append_group g p)"
  by (simp add: same_builder_def append_group_def)

lemma metadata_same_builder:
  "same_builder p q \<Longrightarrow> iter_planning_member_metadata (pl_index q) ms = iter_planning_member_metadata (pl_index p) ms"
proof -
  assume "same_builder p q"
  then have "planning_member_metadata (pl_index q) = planning_member_metadata (pl_index p)"
    by (intro ext) (simp add: planning_member_metadata_def same_builder_fields)
  then show ?thesis by (simp add: iter_planning_member_metadata_def)
qed

lemma accumulator_inv_append:
  assumes "accumulator_inv p" "flush_when (batch_full (append_group g p)) (append_group g p) = Inr q"
  shows "accumulator_inv q"
proof (cases "batch_full (append_group g p)")
  case True
  note f = flush_when_Inr[OF assms(2)]
  have "pl_batch (append_group g p) \<noteq> []" by (simp add: append_group_def)
  then have "pl_batch q = []" "pl_batch_members q = 0" "pl_batch_aliases q = 0"
    using flush_groups_Inr(3,8)[of "append_group g p" q] assms(2) True by (simp_all add: flush_when_def)
  moreover have "pl_group_count (append_group g p) = pl_group_count p + 1"
    "pl_redundant_files (append_group g p) = pl_redundant_files p + int (length (g_redundant g))"
    "pl_reclaimable_bytes (append_group g p) = pl_reclaimable_bytes p + nominal_redundant_bytes g"
    "pl_index (append_group g p) = pl_index p"
    by (simp_all add: append_group_def)
  ultimately show ?thesis
    using assms(1) f(1,3-5,7)
    by (simp add: accumulator_inv_def PLAN_GROUP_BATCH_SIZE_def PLAN_MEMBER_BATCH_SIZE_def PLAN_ALIAS_BATCH_SIZE_def)
next
  case False
  then have "q = append_group g p" using assms(2) by (simp add: flush_when_def)
  then show ?thesis
    using assms(1) False by (auto simp: accumulator_inv_def batch_full_def append_group_def all_groups_def)
qed

lemma store_Inr:
  assumes "store cf d keep redundant p = Inr q"
  shows "redundant = [] \<and> q = p \<or>
      redundant \<noteq> [] \<and> (\<exists>metadata. iter_planning_member_metadata (pl_index p) (keep # redundant) = Inr metadata
        \<and> all_groups q = all_groups p @ [build_group cf d keep redundant metadata])"
    and "same_builder p q" and "accumulator_inv p \<Longrightarrow> accumulator_inv q"
proof -
  have "(redundant = [] \<and> q = p \<or>
      redundant \<noteq> [] \<and> (\<exists>metadata. iter_planning_member_metadata (pl_index p) (keep # redundant) = Inr metadata
        \<and> all_groups q = all_groups p @ [build_group cf d keep redundant metadata]))
    \<and> same_builder p q \<and> (accumulator_inv p \<longrightarrow> accumulator_inv q)"
  proof (cases "redundant = []")
    case False
    then obtain p1 p2 metadata where p1: "flush_when (PLAN_MEMBER_BATCH_SIZE < pl_batch_members p + length (keep # redundant)) p = Inr p1"
      and md: "iter_planning_member_metadata (pl_index p1) (keep # redundant) = Inr metadata"
      and p2: "flush_when (PLAN_ALIAS_BATCH_SIZE < pl_batch_aliases p1 + group_aliases (build_group cf d keep redundant metadata)) p1 = Inr p2"
      and q: "flush_when (batch_full (append_group (build_group cf d keep redundant metadata) p2))
        (append_group (build_group cf d keep redundant metadata) p2) = Inr q"
      using assms by (auto simp: store_def Let_def split: if_splits sum.splits)
    note f1 = flush_when_Inr[OF p1] and f2 = flush_when_Inr[OF p2] and f3 = flush_when_Inr[OF q]
    have "same_builder p q"
      using f1(2) f2(2) same_builder_append f3(2) by (meson same_builder_trans)
    moreover have "accumulator_inv p \<longrightarrow> accumulator_inv q"
      using accumulator_inv_flush[OF _ p1] accumulator_inv_flush[OF _ p2] accumulator_inv_append[OF _ q] by blast
    ultimately show ?thesis
      using False md metadata_same_builder[OF f1(2)] f1(1) f2(1) f3(1) by auto
  qed (use assms in \<open>simp add: store_def\<close>)
  then show "redundant = [] \<and> q = p \<or>
      redundant \<noteq> [] \<and> (\<exists>metadata. iter_planning_member_metadata (pl_index p) (keep # redundant) = Inr metadata
        \<and> all_groups q = all_groups p @ [build_group cf d keep redundant metadata])"
    "same_builder p q" "accumulator_inv p \<Longrightarrow> accumulator_inv q" by blast+
qed

section \<open>The builder\<close>

definition built_by :: "planning_config \<Rightarrow> byte list \<Rightarrow> duplicate_group \<Rightarrow> bool" where
  "built_by cf d g \<longleftrightarrow> (\<exists>keep redundant metadata. redundant \<noteq> [] \<and> length metadata = Suc (length redundant)
     \<and> g = build_group cf d keep redundant metadata)"

abbreviation group_sets :: "duplicate_group list \<Rightarrow> (file_snapshot \<times> file_snapshot list) list" where
  "group_sets gs \<equiv> map (\<lambda>g. (g_keep g, g_redundant g)) gs"

lemma map_results_length: "map_results f xs = Inr ys \<Longrightarrow> length ys = length xs"
  by (induction xs arbitrary: ys) (auto split: sum.splits)

lemma store_chunks_Inr:
  assumes "store_chunks cf d due kcs p = Inr (cs, q)"
  shows "cs = map (\<lambda>(k, r). if due r then [] else r) kcs
    \<and> (\<exists>gs. all_groups q = all_groups p @ gs \<and> group_sets gs = filter (\<lambda>(k, r). due r \<and> r \<noteq> []) kcs
         \<and> (\<forall>g\<in>set gs. built_by cf d g))
    \<and> same_builder p q \<and> (accumulator_inv p \<longrightarrow> accumulator_inv q)"
  using assms
proof (induction kcs arbitrary: p cs)
  case (Cons kc kcs)
  obtain k r where kc: "kc = (k, r)" by fastforce
  show ?case
  proof (cases "due r")
    case True
    then obtain p1 cs' where st: "store cf d k r p = Inr p1" and rec: "store_chunks cf d due kcs p1 = Inr (cs', q)"
      and cs: "cs = [] # cs'" using Cons.prems kc by (auto split: sum.splits)
    note s = store_Inr[OF st] and IH = Cons.IH[OF rec]
    obtain g1 where g1: "all_groups p1 = all_groups p @ g1" "group_sets g1 = (if r \<noteq> [] then [(k, r)] else [])"
      "\<forall>g\<in>set g1. built_by cf d g"
    proof (cases "r = []")
      case False
      then obtain md where md: "iter_planning_member_metadata (pl_index p) (k # r) = Inr md"
        "all_groups p1 = all_groups p @ [build_group cf d k r md]" using s(1) by blast
      have "length md = Suc (length r)" using map_results_length[OF md(1)[unfolded iter_planning_member_metadata_def]] by simp
      then have "built_by cf d (build_group cf d k r md)" using False by (auto simp: built_by_def)
      then show thesis using that[of "[build_group cf d k r md]"] md(2) False by (simp add: build_group_def)
    qed (use s(1) that[of "[]"] in auto)
    obtain gs where gs: "all_groups q = all_groups p1 @ gs" "group_sets gs = filter (\<lambda>(k, r). due r \<and> r \<noteq> []) kcs"
      "\<forall>g\<in>set gs. built_by cf d g" using IH by blast
    have "all_groups q = all_groups p @ (g1 @ gs) \<and> group_sets (g1 @ gs) = filter (\<lambda>(k, r). due r \<and> r \<noteq> []) (kc # kcs)
         \<and> (\<forall>g\<in>set (g1 @ gs). built_by cf d g)" using g1 gs kc True by auto
    then show ?thesis using IH cs kc True s(2,3) same_builder_trans[of p p1 q] by auto
  qed (use Cons kc in \<open>auto split: sum.splits\<close>)
qed simp

definition related :: "planning_config \<Rightarrow> file_snapshot \<Rightarrow> file_snapshot \<Rightarrow> bool" where
  "related cf a b \<longleftrightarrow> (cf_exact cf \<longrightarrow> (\<exists>ob. cf_matcher cf a b = Inr ob \<and> co_equal ob))"

text \<open>
  A keeper with candidates for its group: all with one digest, and each
  compared equal to the keeper when comparison was requested.
\<close>

definition collects :: "planning_config \<Rightarrow> (byte list \<times> file_snapshot) list \<Rightarrow> byte list \<Rightarrow> file_snapshot \<Rightarrow> file_snapshot list \<Rightarrow> bool" where
  "collects cf seen d keep redundant \<longleftrightarrow> (d, keep) \<in> set seen \<and> (\<forall>s\<in>set redundant. (d, s) \<in> set seen \<and> related cf keep s)"

text \<open>
  The builder after some of the stream. The list \<open>K\<close> holds every
  representative so far: representatives, stored redundant members and waiting
  members are separate parts of the stream.
\<close>

definition builder_inv :: "planning_config \<Rightarrow> duplicate_group list \<Rightarrow> (byte list \<times> file_snapshot) list \<Rightarrow> planning \<Rightarrow> bool" where
  "builder_inv cf base seen p \<longleftrightarrow> length (pl_chunks p) = length (pl_representatives p)
   \<and> (\<forall>(k, r)\<in>set (zip (pl_representatives p) (pl_chunks p)). \<exists>d. pl_digest p = Some d \<and> collects cf seen d k r)
   \<and> (\<exists>gs K. all_groups p = base @ gs
        \<and> (\<forall>g\<in>set gs. \<exists>d. built_by cf d g \<and> g_keep g \<in> set K \<and> collects cf seen d (g_keep g) (g_redundant g))
        \<and> set (pl_representatives p) \<subseteq> set K
        \<and> mset K + mset (concat (map g_redundant gs)) + mset (concat (pl_chunks p)) \<subseteq># mset (map snd seen))"

text \<open>The members that are redundant in a group or waiting to be.\<close>

definition placed :: "planning \<Rightarrow> file_snapshot list" where
  "placed p = concat (map g_redundant (all_groups p)) @ concat (pl_chunks p)"

lemma mset_due_chunks:
  "mset (concat (map snd (filter (\<lambda>(k, r). due r \<and> r \<noteq> []) kcs)))
     + mset (concat (map (\<lambda>(k, r). if due r then [] else r) kcs)) = mset (concat (map snd kcs))"
  by (induction kcs) (auto simp: ac_simps split: if_splits)

lemma map_snd_group_sets: "map g_redundant gs = map snd (group_sets gs)"
  by (simp add: comp_def)

lemma run_store_chunks_inv:
  assumes inv: "builder_inv cf base seen p" and run: "run_store_chunks cf due p = Inr q"
  shows "builder_inv cf base seen q \<and> pl_digest q = pl_digest p \<and> pl_representatives q = pl_representatives p
    \<and> pl_counters q = pl_counters p \<and> (accumulator_inv p \<longrightarrow> accumulator_inv q) \<and> mset (placed q) = mset (placed p)
    \<and> ix_groups_update (\<lambda>_. []) (pl_index q) = ix_groups_update (\<lambda>_. []) (pl_index p)"
proof (cases "pl_digest p")
  case (Some d)
  let ?kcs = "zip (pl_representatives p) (pl_chunks p)"
  obtain cs p1 where sc: "store_chunks cf d due ?kcs p = Inr (cs, p1)" and q: "q = p1\<lparr>pl_chunks := cs\<rparr>"
    using run Some by (auto simp: run_store_chunks_def split: sum.splits)
  note s = store_chunks_Inr[OF sc]
  have f: "pl_digest p1 = Some d" "pl_representatives p1 = pl_representatives p" "pl_counters p1 = pl_counters p"
    using same_builder_fields[of p p1] s Some by auto
  have cs: "cs = map (\<lambda>(k, r). if due r then [] else r) ?kcs" using s by blast
  obtain gs where gs: "all_groups p1 = all_groups p @ gs" "group_sets gs = filter (\<lambda>(k, r). due r \<and> r \<noteq> []) ?kcs"
    "\<forall>g\<in>set gs. built_by cf d g" using s by blast
  have len: "length (pl_chunks p) = length (pl_representatives p)"
    and waiting: "\<forall>(k, r)\<in>set ?kcs. collects cf seen d k r" using inv Some by (auto simp: builder_inv_def)
  obtain os K where K: "all_groups p = base @ os" "set (pl_representatives p) \<subseteq> set K"
      "\<forall>g\<in>set os. \<exists>d. built_by cf d g \<and> g_keep g \<in> set K \<and> collects cf seen d (g_keep g) (g_redundant g)"
      "mset K + mset (concat (map g_redundant os)) + mset (concat (pl_chunks p)) \<subseteq># mset (map snd seen)"
    using inv by (auto simp: builder_inv_def)
  have new: "g_keep g \<in> set K \<and> collects cf seen d (g_keep g) (g_redundant g)" if "g \<in> set gs" for g
  proof -
    have "(g_keep g, g_redundant g) \<in> set (group_sets gs)" using that by auto
    then have "(g_keep g, g_redundant g) \<in> set ?kcs" unfolding gs(2) by auto
    then show ?thesis using waiting K(2) by (auto dest: set_zip_leftD)
  qed
  have mset: "mset (concat (map g_redundant gs)) + mset (concat cs) = mset (concat (pl_chunks p))"
    using mset_due_chunks[of due ?kcs] len unfolding map_snd_group_sets gs(2) cs by simp
  have "builder_inv cf base seen q"
    unfolding builder_inv_def
  proof (intro conjI exI[of _ "os @ gs"] exI[of _ K])
    show "length (pl_chunks q) = length (pl_representatives q)" using q cs f len by simp
    show "\<forall>(k, r)\<in>set (zip (pl_representatives q) (pl_chunks q)). \<exists>d. pl_digest q = Some d \<and> collects cf seen d k r"
      using waiting len q cs f by (fastforce simp: set_zip collects_def split: if_splits)
    show "all_groups q = base @ os @ gs" using gs(1) K(1) q by (simp add: all_groups_def)
    show "\<forall>g\<in>set (os @ gs). \<exists>d. built_by cf d g \<and> g_keep g \<in> set K \<and> collects cf seen d (g_keep g) (g_redundant g)"
      using K(3) gs(3) new by auto
    show "set (pl_representatives q) \<subseteq> set K" using K(2) f q by simp
    show "mset K + mset (concat (map g_redundant (os @ gs))) + mset (concat (pl_chunks q)) \<subseteq># mset (map snd seen)"
      using K(4) q unfolding mset[symmetric] by (simp add: ac_simps)
  qed
  moreover have "accumulator_inv q" if "accumulator_inv p" using s that q by (simp add: accumulator_inv_def all_groups_def)
  moreover have "mset (placed q) = mset (placed p)"
    using gs(1) mset[symmetric] q by (simp add: placed_def all_groups_def)
  moreover have "ix_groups_update (\<lambda>_. []) (pl_index q) = ix_groups_update (\<lambda>_. []) (pl_index p)"
    using s q by (simp add: same_builder_def)
  ultimately show ?thesis using f q Some by simp
qed (use assms in \<open>simp add: run_store_chunks_def\<close>)

text \<open>Enough comparisons for every member placed, none when none was requested.\<close>

definition counts_ok :: "planning_config \<Rightarrow> planning \<Rightarrow> bool" where
  "counts_ok cf p \<longleftrightarrow> 0 \<le> pc_failures (pl_counters p)
     \<and> (if cf_exact cf then int (length (placed p)) \<le> pc_comparisons (pl_counters p) else pc_comparisons (pl_counters p) = 0)"

lemma record_failed_reads_counts [simp]:
  "pc_comparisons (record_failed_reads e c) = pc_comparisons c" "pc_failures (record_failed_reads e c) = pc_failures c"
  by (simp_all add: record_failed_reads_def split: dedup_error.splits)

lemma match_representatives_Inr:
  assumes "match_representatives cf s reps n c = Inr (pl, c')" "cf_exact cf"
  shows "(case pl of Placed i \<Rightarrow> n \<le> i \<and> i - n < length reps \<and> related cf (reps ! (i - n)) s | _ \<Rightarrow> True)
    \<and> pc_comparisons c + of_bool (\<exists>i. pl = Placed i) \<le> pc_comparisons c' \<and> pc_failures c \<le> pc_failures c'"
  using assms
proof (induction cf s reps n c rule: match_representatives.induct)
  case (2 cf s r reps n c)
  show ?case
  proof (cases "cf_matcher cf r s")
    case (Inr ob)
    show ?thesis
    proof (cases "co_equal ob")
      case True
      then show ?thesis using 2 Inr by (auto simp: Let_def related_def)
    next
      case False
      have rec: "match_representatives cf s reps (Suc n) (c\<lparr>pc_comparisons := pc_comparisons c + 1,
          pc_exact_bytes := pc_exact_bytes c + co_read_bytes ob\<rparr>) = Inr (pl, c')"
        using "2.prems"(1) Inr False by (simp add: Let_def)
      show ?thesis
        using "2.IH"[OF refl Inr refl False _ "2.prems"(2)] rec
        by (auto simp: Suc_diff_Suc split: placement.splits)
    qed
  next
    case (Inl e)
    then show ?thesis using "2.prems" by (auto simp: Let_def count_failure_def split: if_splits)
  qed
qed auto

lemma collects_mono: "collects cf seen d k r \<Longrightarrow> collects cf (seen @ xs) d k r"
  by (auto simp: collects_def)

lemma builder_inv_mono: 
  assumes "builder_inv cf base seen p"
  shows "builder_inv cf base (seen @ xs) p"
proof -
  have sub: "mset (map snd seen) \<subseteq># mset (map snd (seen @ xs))" by simp
  show ?thesis
    using assms unfolding builder_inv_def
    by (blast intro: collects_mono subset_mset.order_trans[OF _ sub])
qed

lemma builder_inv_no_digest: "builder_inv cf base seen p \<Longrightarrow> pl_digest p = None \<Longrightarrow> pl_chunks p = []"
  by (cases "pl_representatives p"; cases "pl_chunks p") (auto simp: builder_inv_def)

lemma flush_builder_empties:
  assumes "builder_inv cf base seen p" "flush_builder cf p = Inr q"
  shows "concat (pl_chunks q) = []"
proof (cases "pl_digest p")
  case (Some d)
  then show ?thesis
    using assms(2) by (auto simp: flush_builder_def run_store_chunks_def split: sum.splits dest!: store_chunks_Inr)
qed (use assms builder_inv_no_digest[of cf base seen p] in \<open>auto simp: flush_builder_def run_store_chunks_def\<close>)

text \<open>What every operation of the builder keeps.\<close>

definition kept :: "planning_config \<Rightarrow> planning \<Rightarrow> planning \<Rightarrow> bool" where
  "kept cf p q \<longleftrightarrow> (accumulator_inv p \<longrightarrow> accumulator_inv q) \<and> (counts_ok cf p \<longrightarrow> counts_ok cf q)
     \<and> ix_groups_update (\<lambda>_. []) (pl_index q) = ix_groups_update (\<lambda>_. []) (pl_index p)"

lemma kept_refl [simp]: "kept cf p p"
  by (simp add: kept_def)

lemma kept_trans: "kept cf p q \<Longrightarrow> kept cf q r \<Longrightarrow> kept cf p r"
  by (auto simp: kept_def)

lemma run_store_chunks_kept:
  assumes "builder_inv cf base seen p" "run_store_chunks cf due p = Inr q"
  shows "kept cf p q"
  using run_store_chunks_inv[OF assms] by (auto simp: kept_def counts_ok_def dest: mset_eq_length)

lemma activate_inv:
  assumes inv: "builder_inv cf base seen p" and run: "activate cf d p = Inr q"
  shows "builder_inv cf base seen q \<and> pl_digest q = Some d \<and> kept cf p q"
proof (cases "pl_digest p = Some d")
  case False
  then obtain p1 where f: "flush_builder cf p = Inr p1"
    and q: "q = p1\<lparr>pl_digest := Some d, pl_representatives := [], pl_chunks := []\<rparr>"
    using run by (auto simp: activate_def split: sum.splits)
  note r = run_store_chunks_inv[OF inv f[unfolded flush_builder_def]]
    and k = run_store_chunks_kept[OF inv f[unfolded flush_builder_def]]
    and e = flush_builder_empties[OF inv f]
  have "all_groups q = all_groups p1" "pl_counters q = pl_counters p1" "pl_index q = pl_index p1"
    using q by (simp_all add: all_groups_def)
  moreover have "accumulator_inv q = accumulator_inv p1" using q by (simp add: accumulator_inv_def all_groups_def)
  moreover have "placed q = placed p1" using q e by (simp add: placed_def all_groups_def)
  moreover have "builder_inv cf base seen q"
    using r e q unfolding builder_inv_def by (simp add: all_groups_def) blast
  ultimately show ?thesis using k q by (simp add: kept_def counts_ok_def)
qed (use assms in \<open>simp add: activate_def\<close>)

lemma mset_concat_update:
  "i < length xs \<Longrightarrow> mset (concat (xs[i := xs ! i @ [x]])) = add_mset x (mset (concat xs))"
proof (induction xs arbitrary: i)
  case (Cons y ys)
  then show ?case by (cases i) (auto simp: ac_simps)
qed simp

lemma builder_inv_counters [simp]: "builder_inv cf base seen (p\<lparr>pl_counters := c\<rparr>) = builder_inv cf base seen p"
  by (simp add: builder_inv_def all_groups_def)

lemma place_Inr:
  assumes "place_with_representative cf s p = Inr (pl, c)"
  shows "(case pl of Placed i \<Rightarrow> i < length (pl_representatives p) \<and> related cf (pl_representatives p ! i) s | _ \<Rightarrow> True)
    \<and> pc_failures (pl_counters p) \<le> pc_failures c
    \<and> (if cf_exact cf then pc_comparisons (pl_counters p) + of_bool (\<exists>i. pl = Placed i) \<le> pc_comparisons c
       else pc_comparisons c = pc_comparisons (pl_counters p))"
proof (cases "cf_exact cf")
  case True
  then have "match_representatives cf s (pl_representatives p) 0 (pl_counters p) = Inr (pl, c)"
    using assms by (simp add: place_with_representative_def)
  from match_representatives_Inr[OF this True] True show ?thesis by (simp split: placement.splits)
next
  case False
  then show ?thesis
    using assms by (cases "pl_representatives p") (auto simp: place_with_representative_def related_def)
qed

lemma add_representative_inv:
  assumes inv: "builder_inv cf base seen p" and d: "pl_digest p = Some d"
  shows "builder_inv cf base (seen @ [(d, s)]) (add_representative cf s p) \<and> kept cf p (add_representative cf s p)"
proof (cases "cf_exact cf \<and> MAX_EXACT_HASH_COLLISION_SETS \<le> length (pl_representatives p)")
  case True
  then show ?thesis
    using builder_inv_mono[OF inv]
    by (auto simp: add_representative_def kept_def counts_ok_def count_failure_def accumulator_inv_def all_groups_def placed_def)
next
  case False
  then have q: "add_representative cf s p = p\<lparr>pl_representatives := pl_representatives p @ [s], pl_chunks := pl_chunks p @ [[]]\<rparr>"
    by (auto simp: add_representative_def)
  have len: "length (pl_chunks p) = length (pl_representatives p)" using inv by (simp add: builder_inv_def)
  obtain gs K where K: "all_groups p = base @ gs" "set (pl_representatives p) \<subseteq> set K"
      "\<forall>g\<in>set gs. \<exists>d. built_by cf d g \<and> g_keep g \<in> set K \<and> collects cf seen d (g_keep g) (g_redundant g)"
      "mset K + mset (concat (map g_redundant gs)) + mset (concat (pl_chunks p)) \<subseteq># mset (map snd seen)"
    using inv by (auto simp: builder_inv_def)
  have "builder_inv cf base (seen @ [(d, s)]) (add_representative cf s p)"
    unfolding builder_inv_def q
  proof (intro conjI exI[of _ gs] exI[of _ "K @ [s]"])
    show "\<forall>(k, r)\<in>set (zip (pl_representatives (p\<lparr>pl_representatives := pl_representatives p @ [s], pl_chunks := pl_chunks p @ [[]]\<rparr>))
          (pl_chunks (p\<lparr>pl_representatives := pl_representatives p @ [s], pl_chunks := pl_chunks p @ [[]]\<rparr>))).
        \<exists>d'. pl_digest (p\<lparr>pl_representatives := pl_representatives p @ [s], pl_chunks := pl_chunks p @ [[]]\<rparr>) = Some d'
          \<and> collects cf (seen @ [(d, s)]) d' k r"
      using builder_inv_mono[OF inv, of "[(d, s)]"] len d by (auto simp: builder_inv_def collects_def)
    show "\<forall>g\<in>set gs. \<exists>d'. built_by cf d' g \<and> g_keep g \<in> set (K @ [s]) \<and> collects cf (seen @ [(d, s)]) d' (g_keep g) (g_redundant g)"
      using K(3) collects_mono by fastforce
    show "mset (K @ [s]) + mset (concat (map g_redundant gs))
        + mset (concat (pl_chunks (p\<lparr>pl_representatives := pl_representatives p @ [s], pl_chunks := pl_chunks p @ [[]]\<rparr>)))
        \<subseteq># mset (map snd (seen @ [(d, s)]))"
      using K(4) by (simp add: ac_simps)
  qed (use K len in \<open>auto simp: all_groups_def\<close>)
  then show ?thesis
    by (simp add: q kept_def counts_ok_def accumulator_inv_def all_groups_def placed_def)
qed

lemma place_inv:
  assumes inv: "builder_inv cf base seen p" and d: "pl_digest p = Some d"
    and i: "i < length (pl_representatives p)" "related cf (pl_representatives p ! i) s"
  shows "builder_inv cf base (seen @ [(d, s)]) (p\<lparr>pl_chunks := (pl_chunks p)[i := pl_chunks p ! i @ [s]]\<rparr>)"
proof -
  have len: "length (pl_chunks p) = length (pl_representatives p)" using inv by (simp add: builder_inv_def)
  note m = builder_inv_mono[OF inv, of "[(d, s)]"]
  have waiting: "collects cf (seen @ [(d, s)]) d (pl_representatives p ! j) (pl_chunks p ! j)" if "j < length (pl_representatives p)" for j
    using m that len d by (auto simp: builder_inv_def set_zip)
  obtain gs K where K: "all_groups p = base @ gs" "set (pl_representatives p) \<subseteq> set K"
      "\<forall>g\<in>set gs. \<exists>d'. built_by cf d' g \<and> g_keep g \<in> set K \<and> collects cf seen d' (g_keep g) (g_redundant g)"
      "mset K + mset (concat (map g_redundant gs)) + mset (concat (pl_chunks p)) \<subseteq># mset (map snd seen)"
    using inv by (auto simp: builder_inv_def)
  show ?thesis
    unfolding builder_inv_def
  proof (intro conjI exI[of _ gs] exI[of _ K])
    show "\<forall>(k, r)\<in>set (zip (pl_representatives (p\<lparr>pl_chunks := (pl_chunks p)[i := pl_chunks p ! i @ [s]]\<rparr>))
          (pl_chunks (p\<lparr>pl_chunks := (pl_chunks p)[i := pl_chunks p ! i @ [s]]\<rparr>))).
        \<exists>d'. pl_digest (p\<lparr>pl_chunks := (pl_chunks p)[i := pl_chunks p ! i @ [s]]\<rparr>) = Some d'
          \<and> collects cf (seen @ [(d, s)]) d' k r"
      using waiting len d i by (auto simp: set_zip nth_list_update collects_def split: if_splits) blast+
    show "\<forall>g\<in>set gs. \<exists>d'. built_by cf d' g \<and> g_keep g \<in> set K \<and> collects cf (seen @ [(d, s)]) d' (g_keep g) (g_redundant g)"
      using K(3) collects_mono by fastforce
    show "mset K + mset (concat (map g_redundant gs)) + mset (concat (pl_chunks (p\<lparr>pl_chunks := (pl_chunks p)[i := pl_chunks p ! i @ [s]]\<rparr>)))
        \<subseteq># mset (map snd (seen @ [(d, s)]))"
      using K(4) mset_concat_update[of i "pl_chunks p" s] i len by (simp add: ac_simps)
  qed (use K len in \<open>auto simp: all_groups_def\<close>)
qed

lemma add_inv:
  assumes inv: "builder_inv cf base seen p" and run: "add cf x p = Inr q"
  shows "builder_inv cf base (seen @ [x]) q \<and> kept cf p q"
proof -
  obtain d s where x: "x = (d, s)" by fastforce
  obtain p1 where act: "activate cf d p = Inr p1" using run x by (auto simp: add_def split: sum.splits)
  obtain pl c where pl: "place_with_representative cf s p1 = Inr (pl, c)"
    using run x act by (auto simp: add_def split: sum.splits prod.splits)
  have p1: "builder_inv cf base seen p1" "pl_digest p1 = Some d" "kept cf p p1" using activate_inv[OF inv act] by auto
  note place = place_Inr[OF pl]
  let ?p2 = "p1\<lparr>pl_counters := c\<rparr>"
  have "kept cf p1 ?p2" if "\<forall>i. pl \<noteq> Placed i"
    using place that by (auto simp: kept_def counts_ok_def accumulator_inv_def all_groups_def placed_def split: if_splits)
  note idle = kept_trans[OF p1(3) this]
  show ?thesis
  proof (cases pl)
    case Abstained
    then have "q = ?p2" using run x act pl by (simp add: add_def)
    then show ?thesis using builder_inv_mono[OF p1(1)] x idle Abstained by simp
  next
    case Unmatched
    then have "q = add_representative cf s ?p2" using run x act pl by (simp add: add_def)
    moreover have "builder_inv cf base (seen @ [(d, s)]) (add_representative cf s ?p2) \<and> kept cf ?p2 (add_representative cf s ?p2)"
      using add_representative_inv[of cf base seen ?p2 d s] p1 by simp
    ultimately show ?thesis using x kept_trans[OF idle] Unmatched by blast
  next
    case (Placed i)
    define p3 where "p3 = ?p2\<lparr>pl_chunks := (pl_chunks p1)[i := pl_chunks p1 ! i @ [s]]\<rparr>"
    have i: "i < length (pl_representatives p1)" "related cf (pl_representatives p1 ! i) s" using place Placed by auto
    have fl: "flush_complete_chunks cf p3 = Inr q" using run x act pl Placed by (simp add: add_def p3_def)
    have inv3: "builder_inv cf base (seen @ [x]) p3" using place_inv[of cf base seen ?p2 d i s] p1 i x by (simp add: p3_def)
    have "length (placed p3) = Suc (length (placed p1))"
      using mset_concat_update[of i "pl_chunks p1" s, THEN arg_cong[of _ _ size]] i p1(1)
      by (simp add: p3_def placed_def all_groups_def builder_inv_def)
    then have "kept cf p1 p3"
      using place Placed
      by (auto simp: kept_def counts_ok_def accumulator_inv_def all_groups_def p3_def split: if_splits)
    from kept_trans[OF kept_trans[OF p1(3) this] run_store_chunks_kept[OF inv3 fl[unfolded flush_complete_chunks_def]]]
    show ?thesis using run_store_chunks_inv[OF inv3 fl[unfolded flush_complete_chunks_def]] by blast
  qed
qed

lemma add_all_inv:
  "builder_inv cf base seen p \<Longrightarrow> add_all cf xs p = Inr q \<Longrightarrow> builder_inv cf base (seen @ xs) q \<and> kept cf p q"
proof (induction xs arbitrary: seen p)
  case (Cons x xs)
  then obtain p1 where a: "add cf x p = Inr p1" "add_all cf xs p1 = Inr q" by (auto split: sum.splits)
  from add_inv[OF Cons.prems(1) a(1)] have 1: "builder_inv cf base (seen @ [x]) p1" "kept cf p p1" by auto
  from Cons.IH[OF 1(1) a(2)] show ?case using kept_trans[OF 1(2)] by simp
qed simp

lemma group_full_collisions_inv:
  assumes "group_full_collisions cf p = Inr q"
  shows "builder_inv cf (all_groups p) (iter_planning_collision_members ''full'' (pl_index p)) q
    \<and> concat (pl_chunks q) = [] \<and> (accumulator_inv p \<longrightarrow> accumulator_inv q)
    \<and> (concat (pl_chunks p) = [] \<longrightarrow> counts_ok cf p \<longrightarrow> counts_ok cf q)
    \<and> ix_groups_update (\<lambda>_. []) (pl_index q) = ix_groups_update (\<lambda>_. []) (pl_index p)"
proof -
  let ?p0 = "p\<lparr>pl_digest := None, pl_representatives := [], pl_chunks := []\<rparr>"
  obtain p1 where a: "add_all cf (iter_planning_collision_members ''full'' (pl_index p)) ?p0 = Inr p1"
    and f: "flush_builder cf p1 = Inr q" using assms by (auto simp: group_full_collisions_def Let_def split: sum.splits)
  have 0: "builder_inv cf (all_groups p) [] ?p0"
    by (auto simp: builder_inv_def all_groups_def intro: exI[of _ "[]"])
  have 1: "builder_inv cf (all_groups p) (iter_planning_collision_members ''full'' (pl_index p)) p1" "kept cf ?p0 p1"
    using add_all_inv[OF 0 a] by auto
  have "kept cf ?p0 q"
    using 1(2) run_store_chunks_kept[OF 1(1) f[unfolded flush_builder_def]] by (rule kept_trans)
  moreover have "accumulator_inv ?p0 = accumulator_inv p" by (simp add: accumulator_inv_def all_groups_def)
  moreover have "concat (pl_chunks p) = [] \<Longrightarrow> counts_ok cf ?p0 = counts_ok cf p"
    by (simp add: counts_ok_def placed_def all_groups_def del: concat_eq_Nil_conv)
  ultimately show ?thesis
    using run_store_chunks_inv[OF 1(1) f[unfolded flush_builder_def]] flush_builder_empties[OF 1(1) f] by (auto simp: kept_def)
qed

end
