(* ===== verification/Dedup_Fingerprint.thy ===== *)
theory Dedup_Fingerprint
  imports Dedup_Models Py_Path
begin

text \<open>
  Content evidence (\<open>deduplication/fingerprinting.py\<close> and
  \<open>content_observation.py\<close>): opening a snapshot without following links,
  streaming a file through SHA-256, comparing two files byte for byte, and the
  fences that tie a digest to one physical change version.

  What the operating system answers to the calls on one descriptor is a record;
  \<open>None\<close> is an \<open>OSError\<close>. The answers may come from a file that changes while
  it is read: nothing relates them to each other. SHA-256 is a parameter, a
  function of the bytes fed to the hasher (\<open>update\<close> appends, as \<open>hashlib\<close>
  documents). The checkpoint that precedes a read may raise.
\<close>

section \<open>Snapshots against metadata\<close>

definition stat_matches_snapshot :: "file_snapshot \<Rightarrow> stat_result \<Rightarrow> bool" where
  "stat_matches_snapshot s st \<longleftrightarrow>
     (let b = stat_birthtime st;
          birthtime_matches = (b = fs_birthtime s \<or> (b = -1 \<and> 0 \<le> fs_birthtime s \<and> fs_birthtime s = st_ctime st))
      in st_dev st = fs_volume s \<and> st_ino st = fs_file s \<and> st_size st = fs_size s
       \<and> st_mtime st = fs_mtime s \<and> birthtime_matches)"

definition assert_unchanged :: "file_snapshot \<Rightarrow> stat_result \<Rightarrow> dedup_error + unit" where
  "assert_unchanged s st = (if stat_matches_snapshot s st then Inr () else Inl FileChangedError)"

definition snapshot_of :: "string \<Rightarrow> string \<Rightarrow> stat_result \<Rightarrow> file_snapshot" where
  "snapshot_of cwd path st = \<lparr>fs_path = abspath cwd path, fs_volume = st_dev st, fs_file = st_ino st,
     fs_size = st_size st, fs_mtime = st_mtime st, fs_birthtime = stat_birthtime st\<rparr>"

section \<open>Opening a regular file\<close>

datatype read_event = Bytes "byte list" | Read_Fails | Cancelled

record descriptor_io =
  opens :: "nat \<Rightarrow> bool"
  first_checkpoint :: bool
  fstat_open :: "stat_result option"
  fstat_before :: "stat_result option"
  events :: "read_event list"
  fstat_after :: "stat_result option"

text \<open>
  A descriptor is the ordinal of the \<open>os.open\<close> call that made it; the list
  holds the descriptors that are open. The loop opens the next directory
  relative to the previous one and closes that.
\<close>

fun open_ancestors :: "(nat \<Rightarrow> bool) \<Rightarrow> string list \<Rightarrow> nat \<Rightarrow> nat list \<Rightarrow> (dedup_error + nat) \<times> nat list" where
  "open_ancestors ok [] d fds = (Inr d, fds)"
| "open_ancestors ok (c # cs) d fds =
     (if ok (Suc d) then open_ancestors ok cs (Suc d) (Suc d # remove1 d fds)
      else (Inl Os_Error, remove1 d fds))"

definition check_regular :: "file_snapshot \<Rightarrow> stat_result option \<Rightarrow> dedup_error + unit" where
  "check_regular s st = (case st of
     None \<Rightarrow> Inl Os_Error
   | Some observed \<Rightarrow> if \<not> st_regular observed then Inl FileChangedError else assert_unchanged s observed)"

definition open_regular_descriptor ::
    "string \<Rightarrow> file_snapshot \<Rightarrow> descriptor_io \<Rightarrow> (dedup_error + nat) \<times> nat list" where
  "open_regular_descriptor cwd s io =
     (let components = path_parts (abspath cwd (fs_path s)) in
      if components = [] \<or> hd components \<noteq> ''/'' \<or> length components = 1 then (Inl FileChangedError, [])
      else if \<not> opens io 0 then (Inl Os_Error, [])
      else case open_ancestors (opens io) (butlast (tl components)) 0 [0] of
        (Inl e, fds) \<Rightarrow> (Inl e, fds)
      | (Inr d, fds) \<Rightarrow>
          if \<not> opens io (Suc d) then (Inl Os_Error, remove1 d fds)
          else (case check_regular s (fstat_open io) of
             Inl e \<Rightarrow> (Inl e, remove1 d (remove1 (Suc d) (Suc d # fds)))
           | Inr _ \<Rightarrow> (Inr (Suc d), remove1 d (Suc d # fds))))"

definition fingerprint_change_version :: "string \<Rightarrow> file_snapshot \<Rightarrow> descriptor_io \<Rightarrow> dedup_error + int" where
  "fingerprint_change_version cwd s io = (case fst (open_regular_descriptor cwd s io) of
     Inl e \<Rightarrow> Inl e
   | Inr _ \<Rightarrow> (case fstat_before io of None \<Rightarrow> Inl Os_Error | Some st \<Rightarrow> Inr (st_ctime st)))"

definition require_fingerprint_change_version ::
    "string \<Rightarrow> file_snapshot \<Rightarrow> int \<Rightarrow> descriptor_io \<Rightarrow> dedup_error + unit" where
  "require_fingerprint_change_version cwd s ctime io = (case fingerprint_change_version cwd s io of
     Inl e \<Rightarrow> Inl e
   | Inr v \<Rightarrow> if v \<noteq> ctime then Inl FileChangedError else Inr ())"

section \<open>Streaming\<close>

definition MIN_IO_CHUNK_SIZE :: int where
  "MIN_IO_CHUNK_SIZE = 64 * 1024"

definition DEFAULT_IO_CHUNK_SIZE :: int where
  "DEFAULT_IO_CHUNK_SIZE = 16 * 1024 * 1024"

definition validated_io_chunk_size :: "int \<Rightarrow> dedup_error + int" where
  "validated_io_chunk_size n =
     (if n < MIN_IO_CHUNK_SIZE then Inl (Raised (ValueError ''chunk_size must be at least 64 KiB'')) else Inr n)"

definition adaptive_buffer_capacity :: "int \<Rightarrow> int \<Rightarrow> int" where
  "adaptive_buffer_capacity file_size chunk_size = min chunk_size (max 1 file_size)"

text \<open>\<open>readinto\<close> overwrites a prefix of the buffer and answers its length.\<close>

definition read_count :: "byte list \<Rightarrow> byte list \<Rightarrow> nat" where
  "read_count buffer bs = min (length buffer) (length bs)"

definition readinto :: "byte list \<Rightarrow> byte list \<Rightarrow> byte list" where
  "readinto buffer bs = take (length buffer) bs @ drop (length bs) buffer"

text \<open>
  The loop of \<open>full_fingerprint\<close>. The hasher is the bytes it was fed; the last
  component is the sum reported to the read observer.
\<close>

fun hash_loop :: "int \<Rightarrow> byte list \<Rightarrow> read_event list \<Rightarrow> int \<Rightarrow> byte list \<Rightarrow> int \<Rightarrow> (dedup_error + int \<times> byte list) \<times> int" where
  "hash_loop n buffer [] bytes_read hasher observed = (Inr (bytes_read, hasher), observed)"
| "hash_loop n buffer (Cancelled # evs) bytes_read hasher observed = (Inl (Raised CancellationRequested), observed)"
| "hash_loop n buffer (Read_Fails # evs) bytes_read hasher observed = (Inl Os_Error, observed)"
| "hash_loop n buffer (Bytes bs # evs) bytes_read hasher observed =
     (let count = read_count buffer bs; buffer' = readinto buffer bs; bytes_read' = bytes_read + int count;
          observed' = observed + int count
      in if count = 0 then (Inr (bytes_read, hasher), observed)
         else if bytes_read' > n then (Inl FileChangedError, observed')
         else hash_loop n buffer' evs bytes_read' (hasher @ take count buffer') observed')"

text \<open>An \<open>OSError\<close> inside the guarded block becomes a \<open>FileChangedError\<close>.\<close>

definition os_as_changed :: "dedup_error + 'a \<Rightarrow> dedup_error + 'a" where
  "os_as_changed r = (case r of Inl Os_Error \<Rightarrow> Inl FileChangedError | _ \<Rightarrow> r)"

definition finish_read :: "file_snapshot \<Rightarrow> int \<Rightarrow> stat_result option \<Rightarrow> dedup_error + unit" where
  "finish_read s before_ctime after = (case after of
     None \<Rightarrow> Inl Os_Error
   | Some st \<Rightarrow> (case assert_unchanged s st of
        Inl e \<Rightarrow> Inl e
      | Inr _ \<Rightarrow> if st_ctime st \<noteq> before_ctime then Inl FileChangedError else Inr ()))"

definition hash_stream :: "(byte list \<Rightarrow> byte list) \<Rightarrow> int \<Rightarrow> file_snapshot \<Rightarrow> descriptor_io \<Rightarrow> (dedup_error + byte list) \<times> int" where
  "hash_stream sha256 chunk_size s io = (case fstat_before io of
     None \<Rightarrow> (Inl Os_Error, 0)
   | Some before \<Rightarrow>
       let buffer = replicate (nat (adaptive_buffer_capacity (fs_size s) chunk_size)) 0 in
       (case hash_loop (fs_size s) buffer (events io) 0 [] 0 of
          (Inl e, observed) \<Rightarrow> (Inl e, observed)
        | (Inr (bytes_read, hasher), observed) \<Rightarrow>
            if bytes_read \<noteq> fs_size s then (Inl FileChangedError, observed)
            else (case finish_read s (st_ctime before) (fstat_after io) of
               Inl e \<Rightarrow> (Inl e, observed)
             | Inr _ \<Rightarrow> (Inr (sha256 hasher), observed))))"

definition full_fingerprint ::
    "(byte list \<Rightarrow> byte list) \<Rightarrow> string \<Rightarrow> int \<Rightarrow> file_snapshot \<Rightarrow> descriptor_io \<Rightarrow> (dedup_error + byte list) \<times> int" where
  "full_fingerprint sha256 cwd chunk_size s io = (case validated_io_chunk_size chunk_size of
     Inl e \<Rightarrow> (Inl e, 0)
   | Inr n \<Rightarrow>
       if first_checkpoint io then (Inl (Raised CancellationRequested), 0)
       else (case fst (open_regular_descriptor cwd s io) of
          Inl e \<Rightarrow> (os_as_changed (Inl e), 0)
        | Inr _ \<Rightarrow> (case hash_stream sha256 n s io of (r, observed) \<Rightarrow> (os_as_changed r, observed))))"

section \<open>Exact comparison\<close>

text \<open>
  One iteration reads both files; an answer \<open>None\<close> is an \<open>OSError\<close> of that
  read. The answers of the checkpoint, the opening and the two \<open>fstat\<close> calls
  are those of the descriptor records, whose own events are not used here.
\<close>

datatype compare_event = Reads "byte list option" "byte list option" | Compare_Cancelled

fun compare_loop :: "nat \<Rightarrow> byte list \<Rightarrow> byte list \<Rightarrow> compare_event list \<Rightarrow> int \<Rightarrow> int \<Rightarrow> (dedup_error + bool \<times> int) \<times> int" where
  "compare_loop capacity lb rb [] bytes_compared observed = (Inr (True, bytes_compared), observed)"
| "compare_loop capacity lb rb (Compare_Cancelled # evs) bytes_compared observed =
     (Inl (Raised CancellationRequested), observed)"
| "compare_loop capacity lb rb (Reads None r # evs) bytes_compared observed = (Inl Os_Error, observed)"
| "compare_loop capacity lb rb (Reads (Some l) None # evs) bytes_compared observed = (Inl Os_Error, observed)"
| "compare_loop capacity lb rb (Reads (Some l) (Some r) # evs) bytes_compared observed =
     (let left_count = read_count lb l; right_count = read_count rb r;
          lb' = readinto lb l; rb' = readinto rb r;
          observed' = observed + int left_count + int right_count;
          bytes_compared' = bytes_compared + int left_count;
          buffers_differ = (if left_count = capacity then lb' \<noteq> rb' else take left_count lb' \<noteq> take right_count rb')
      in if left_count \<noteq> right_count then (Inr (False, bytes_compared), observed')
         else if left_count = 0 then (Inr (True, bytes_compared), observed')
         else if buffers_differ then (Inr (False, bytes_compared'), observed')
         else compare_loop capacity lb' rb' evs bytes_compared' observed')"

definition finish_compare ::
    "file_snapshot \<Rightarrow> file_snapshot \<Rightarrow> int \<Rightarrow> int \<Rightarrow> descriptor_io \<Rightarrow> descriptor_io \<Rightarrow> dedup_error + unit" where
  "finish_compare left right lc rc lio rio = (case (fstat_after lio, fstat_after rio) of
     (Some ls, Some rs) \<Rightarrow>
       if \<not> stat_matches_snapshot left ls \<or> \<not> stat_matches_snapshot right rs then Inl FileChangedError
       else if st_ctime ls \<noteq> lc \<or> st_ctime rs \<noteq> rc then Inl FileChangedError else Inr ()
   | _ \<Rightarrow> Inl Os_Error)"

definition compare_streams :: "int \<Rightarrow> file_snapshot \<Rightarrow> file_snapshot \<Rightarrow> descriptor_io \<Rightarrow> descriptor_io
    \<Rightarrow> compare_event list \<Rightarrow> (dedup_error + bool) \<times> int" where
  "compare_streams chunk_size left right lio rio evs = (case (fstat_before lio, fstat_before rio) of
     (Some ls, Some rs) \<Rightarrow>
       let capacity = nat (adaptive_buffer_capacity (fs_size left) chunk_size) in
       (case compare_loop capacity (replicate capacity 0) (replicate capacity 0) evs 0 0 of
          (Inl e, observed) \<Rightarrow> (Inl e, observed)
        | (Inr (equal, bytes_compared), observed) \<Rightarrow>
            if equal \<and> bytes_compared \<noteq> fs_size left then (Inl FileChangedError, observed)
            else (case finish_compare left right (st_ctime ls) (st_ctime rs) lio rio of
               Inl e \<Rightarrow> (Inl e, observed)
             | Inr _ \<Rightarrow> (Inr equal, observed)))
   | _ \<Rightarrow> (Inl Os_Error, 0))"

definition files_equal_exact :: "string \<Rightarrow> int \<Rightarrow> file_snapshot \<Rightarrow> file_snapshot \<Rightarrow> descriptor_io \<Rightarrow> descriptor_io
    \<Rightarrow> compare_event list \<Rightarrow> (dedup_error + bool) \<times> int" where
  "files_equal_exact cwd chunk_size left right lio rio evs = (case validated_io_chunk_size chunk_size of
     Inl e \<Rightarrow> (Inl e, 0)
   | Inr n \<Rightarrow>
       if fs_size left \<noteq> fs_size right then (Inr False, 0)
       else if first_checkpoint lio then (Inl (Raised CancellationRequested), 0)
       else (case fst (open_regular_descriptor cwd left lio) of
          Inl e \<Rightarrow> (os_as_changed (Inl e), 0)
        | Inr _ \<Rightarrow> (case fst (open_regular_descriptor cwd right rio) of
             Inl e \<Rightarrow> (os_as_changed (Inl e), 0)
           | Inr _ \<Rightarrow> (case compare_streams n left right lio rio evs of (r, observed) \<Rightarrow> (os_as_changed r, observed)))))"

section \<open>Descriptors are not leaked\<close>

lemma open_ancestors_fds:
  "open_ancestors ok cs d [d] = (r, fds) \<Longrightarrow> (case r of Inl _ \<Rightarrow> fds = [] | Inr d' \<Rightarrow> fds = [d'])"
  by (induction cs arbitrary: d) (auto split: if_splits)

lemma open_regular_descriptor_fds:
  "open_regular_descriptor cwd s io = (r, fds) \<Longrightarrow> (case r of Inl _ \<Rightarrow> fds = [] | Inr f \<Rightarrow> fds = [f])"
  by (auto simp: open_regular_descriptor_def Let_def split: if_splits prod.splits sum.splits
      dest!: open_ancestors_fds)

section \<open>What a hash is a hash of\<close>

text \<open>The bytes a buffer of a given capacity receives up to the end of the file.\<close>

fun delivered :: "nat \<Rightarrow> read_event list \<Rightarrow> byte list" where
  "delivered k (Bytes bs # evs) = (if k = 0 \<or> bs = [] then [] else take k bs @ delivered k evs)"
| "delivered k _ = []"

lemma length_readinto [simp]: "length (readinto buffer bs) = length buffer"
  by (simp add: readinto_def)

lemma take_readinto [simp]: "take (read_count buffer bs) (readinto buffer bs) = take (length buffer) bs"
  by (simp add: readinto_def read_count_def min_def)

lemma read_count_0 [simp]: "read_count buffer bs = 0 \<longleftrightarrow> buffer = [] \<or> bs = []"
  by (auto simp: read_count_def min_def)

lemma length_take_count: "length (take (length buffer) bs) = read_count buffer bs"
  by (simp add: read_count_def min.commute)

lemma hash_loop_sound:
  assumes "hash_loop n buffer evs got h ob = (Inr (got', h'), ob')"
  shows "h' = h @ delivered (length buffer) evs \<and> got' = got + int (length (delivered (length buffer) evs))
    \<and> ob' = ob + int (length (delivered (length buffer) evs))"
  using assms
proof (induction n buffer evs got h ob rule: hash_loop.induct)
  case (4 n buffer bs evs got h ob)
  show ?case
  proof (cases "read_count buffer bs = 0")
    case False
    then show ?thesis
      using 4 by (auto simp: Let_def length_take_count simp del: length_take split: if_splits)
  qed (use 4 in auto)
qed auto

lemma hash_loop_complete:
  assumes "\<forall>c\<in>set cs. c \<noteq> [] \<and> length c \<le> length buffer" and "got + int (length (concat cs)) \<le> n"
  shows "hash_loop n buffer (map Bytes cs) got h ob =
    (Inr (got + int (length (concat cs)), h @ concat cs), ob + int (length (concat cs)))"
  using assms
proof (induction cs arbitrary: buffer got h ob)
  case (Cons c cs)
  have "read_count buffer c = length c" using Cons.prems by (simp add: read_count_def)
  then show ?case
    using Cons.prems Cons.IH[of "readinto buffer c" "got + int (length c)" "h @ c" "ob + int (length c)"]
      take_readinto[of buffer c]
    by (auto simp: Let_def)
qed simp

text \<open>
  A file that stays as it was observed while the run reads it: it opens, its
  content has the observed size, and its metadata match before and after.
\<close>

definition steady :: "string \<Rightarrow> file_snapshot \<Rightarrow> byte list \<Rightarrow> descriptor_io \<Rightarrow> bool" where
  "steady cwd s content io \<longleftrightarrow> \<not> isl (fst (open_regular_descriptor cwd s io)) \<and> \<not> first_checkpoint io
     \<and> int (length content) = fs_size s
     \<and> (case (fstat_before io, fstat_after io) of
          (Some b, Some a) \<Rightarrow> st_ctime b = st_ctime a \<and> stat_matches_snapshot s a
        | _ \<Rightarrow> False)"

lemma os_as_changed_Inr [simp]: "os_as_changed r = Inr x \<longleftrightarrow> r = Inr x" "os_as_changed (Inr x) = Inr x"
  by (auto simp: os_as_changed_def split: sum.splits dedup_error.splits)

lemma finish_read_Inr:
  "finish_read s t after = Inr u \<longleftrightarrow> (\<exists>st. after = Some st \<and> stat_matches_snapshot s st \<and> st_ctime st = t)"
  by (auto simp: finish_read_def assert_unchanged_def split: option.splits sum.splits if_splits)

abbreviation capacity_of :: "file_snapshot \<Rightarrow> int \<Rightarrow> nat" where
  "capacity_of s chunk_size \<equiv> nat (adaptive_buffer_capacity (fs_size s) chunk_size)"

lemma full_fingerprint_Inr:
  assumes "full_fingerprint sha256 cwd chunk_size s io = (Inr d, observed)"
  defines "content \<equiv> delivered (capacity_of s chunk_size) (events io)"
  shows "d = sha256 content \<and> int (length content) = fs_size s \<and> observed = fs_size s
    \<and> (\<exists>b a. fstat_before io = Some b \<and> fstat_after io = Some a \<and> st_ctime a = st_ctime b \<and> stat_matches_snapshot s a)"
proof -
  obtain n where n: "validated_io_chunk_size chunk_size = Inr n" "n = chunk_size"
    using assms(1) by (auto simp: full_fingerprint_def validated_io_chunk_size_def split: if_splits)
  then have st: "hash_stream sha256 chunk_size s io = (Inr d, observed)"
    using assms(1) by (auto simp: full_fingerprint_def split: if_splits sum.splits prod.splits)
  obtain b where b: "fstat_before io = Some b"
    using st by (auto simp: hash_stream_def split: option.splits)
  obtain got h where loop: "hash_loop (fs_size s) (replicate (capacity_of s chunk_size) 0) (events io) 0 [] 0 = (Inr (got, h), observed)"
    and rest: "got = fs_size s" "finish_read s (st_ctime b) (fstat_after io) = Inr ()" "d = sha256 h"
    using st b by (auto simp: hash_stream_def Let_def split: prod.splits sum.splits if_splits)
  show ?thesis
    using hash_loop_sound[OF loop] rest b by (auto simp: content_def finish_read_Inr)
qed

lemma full_fingerprint_steady:
  assumes "MIN_IO_CHUNK_SIZE \<le> chunk_size" "steady cwd s content io" "events io = map Bytes cs" "concat cs = content"
    "\<forall>c\<in>set cs. c \<noteq> [] \<and> length c \<le> capacity_of s chunk_size"
  shows "full_fingerprint sha256 cwd chunk_size s io = (Inr (sha256 content), fs_size s)"
proof -
  obtain b a where ba: "fstat_before io = Some b" "fstat_after io = Some a" "st_ctime a = st_ctime b" "stat_matches_snapshot s a"
    using assms(2) by (auto simp: steady_def split: option.splits)
  obtain f where f: "fst (open_regular_descriptor cwd s io) = Inr f"
    using assms(2) by (auto simp: steady_def isl_def split: sum.splits) (metis sum.exhaust)
  have "hash_loop (fs_size s) (replicate (capacity_of s chunk_size) 0) (events io) 0 [] 0
      = (Inr (fs_size s, content), fs_size s)"
    using hash_loop_complete[of cs "replicate (capacity_of s chunk_size) 0" 0 "fs_size s" "[]" 0] assms
    by (simp add: steady_def)
  then have "hash_stream sha256 chunk_size s io = (Inr (sha256 content), fs_size s)"
    using ba by (simp add: hash_stream_def Let_def finish_read_def assert_unchanged_def)
  then show ?thesis
    using assms(1,2) f by (simp add: full_fingerprint_def validated_io_chunk_size_def steady_def)
qed

section \<open>What a comparison compares\<close>

fun left_bytes :: "nat \<Rightarrow> compare_event list \<Rightarrow> byte list" where
  "left_bytes k (Reads (Some l) r # evs) = (if k = 0 \<or> l = [] then [] else take k l @ left_bytes k evs)"
| "left_bytes k _ = []"

fun right_bytes :: "nat \<Rightarrow> compare_event list \<Rightarrow> byte list" where
  "right_bytes k (Reads l (Some r) # evs) = (if k = 0 \<or> r = [] then [] else take k r @ right_bytes k evs)"
| "right_bytes k _ = []"

text \<open>Comparing whole buffers after a full read, or prefixes after a short one, compares what was read.\<close>

lemma buffers_differ_iff:
  assumes "length lb = k" "length rb = k" "read_count lb l = read_count rb r"
  shows "(if read_count lb l = k then readinto lb l \<noteq> readinto rb r
     else take (read_count lb l) (readinto lb l) \<noteq> take (read_count rb r) (readinto rb r))
   \<longleftrightarrow> take k l \<noteq> take k r"
proof (cases "read_count lb l = k")
  case True
  then have "k \<le> length l" "k \<le> length r" using assms by (auto simp: read_count_def)
  then show ?thesis using assms True by (simp add: readinto_def)
next
  case False
  then show ?thesis using take_readinto[of lb l] take_readinto[of rb r] assms(1,2) by simp
qed

lemma compare_loop_step:
  assumes "length lb = k" "length rb = k"
  shows "compare_loop k lb rb (Reads (Some l) (Some r) # evs) got ob =
     (let n = read_count lb l; m = read_count rb r; ob' = ob + int n + int m
      in if n \<noteq> m then (Inr (False, got), ob')
         else if n = 0 then (Inr (True, got), ob')
         else if take k l \<noteq> take k r then (Inr (False, got + int n), ob')
         else compare_loop k (readinto lb l) (readinto rb r) evs (got + int n) ob')"
proof (cases "read_count lb l = read_count rb r")
  case True
  show ?thesis unfolding compare_loop.simps Let_def buffers_differ_iff[OF assms True] ..
qed (simp add: Let_def)

lemma compare_loop_sound:
  assumes "compare_loop k lb rb evs got ob = (Inr (True, got'), ob')" "length lb = k" "length rb = k"
  shows "left_bytes k evs = right_bytes k evs \<and> got' = got + int (length (left_bytes k evs))"
  using assms
proof (induction evs arbitrary: lb rb got ob)
  case (Cons ev evs)
  obtain l r where ev: "ev = Reads (Some l) (Some r)"
    using Cons.prems(1) by (cases "(k, lb, rb, ev # evs, got, ob)" rule: compare_loop.cases) auto
  note run = Cons.prems(1)[unfolded ev compare_loop_step[OF Cons.prems(2,3)] Let_def]
  have eq: "read_count lb l = read_count rb r" using run by (simp split: if_splits)
  show ?case
  proof (cases "read_count lb l = 0")
    case True
    then have "k = 0 \<or> l = []" "k = 0 \<or> r = []"
      using Cons.prems(2,3) eq read_count_0[of lb l] read_count_0[of rb r] by auto
    then show ?thesis using run eq True ev by (auto split: if_splits)
  next
    case False
    then have "k \<noteq> 0" "l \<noteq> []" "r \<noteq> []" using Cons.prems(2) eq read_count_0[of lb l] read_count_0[of rb r] by auto
    moreover have tk: "take k l = take k r" and rec: "compare_loop k (readinto lb l) (readinto rb r) evs
        (got + int (read_count lb l)) (ob + int (read_count lb l) + int (read_count rb r)) = (Inr (True, got'), ob')"
      using run eq False by (auto split: if_splits)
    ultimately show ?thesis
      using Cons.IH[OF rec] length_take_count[of lb l] Cons.prems(2,3) ev by simp
  qed
qed simp

text \<open>A kernel that fills the buffer on every read of a regular file.\<close>

fun chunks :: "nat \<Rightarrow> 'a list \<Rightarrow> 'a list list" where
  "chunks k xs = (if k = 0 \<or> xs = [] then [] else take k xs # chunks k (drop k xs))"

declare chunks.simps [simp del]

definition filled_reads :: "nat \<Rightarrow> byte list \<Rightarrow> byte list \<Rightarrow> compare_event list" where
  "filled_reads k c1 c2 = map2 (\<lambda>l r. Reads (Some l) (Some r)) (chunks k c1) (chunks k c2)"

lemma filled_reads_step:
  "0 < k \<Longrightarrow> c1 \<noteq> [] \<Longrightarrow> c2 \<noteq> [] \<Longrightarrow>
    filled_reads k c1 c2 = Reads (Some (take k c1)) (Some (take k c2)) # filled_reads k (drop k c1) (drop k c2)"
  by (simp add: filled_reads_def chunks.simps[of k c1] chunks.simps[of k c2])

lemma filled_reads_Nil [simp]: "filled_reads k [] c = []" "filled_reads k c [] = []"
  by (simp_all add: filled_reads_def chunks.simps[of k "[]"])

lemma compare_loop_complete:
  assumes "0 < k" "length lb = k" "length rb = k" "length c1 = length c2"
  shows "\<exists>got' ob'. compare_loop k lb rb (filled_reads k c1 c2) got ob = (Inr (c1 = c2, got'), ob')
    \<and> (c1 = c2 \<longrightarrow> got' = got + int (length c1))"
  using assms
proof (induction k c1 arbitrary: c2 lb rb got ob rule: chunks.induct)
  case (1 k c1)
  show ?case
  proof (cases "c1 = []")
    case False
    then have ne: "c2 \<noteq> []" using "1.prems"(4) by auto
    have rc: "read_count lb (take k c1) = min k (length c1)" "read_count rb (take k c2) = min k (length c1)"
      using "1.prems" by (auto simp: read_count_def)
    note step = compare_loop_step[OF "1.prems"(2,3), where l = "take k c1" and r = "take k c2"]
    have split: "c1 = c2 \<longleftrightarrow> take k c1 = take k c2 \<and> drop k c1 = drop k c2"
      by (metis append_take_drop_id)
    obtain got' ob' where rec:
      "compare_loop k (readinto lb (take k c1)) (readinto rb (take k c2)) (filled_reads k (drop k c1) (drop k c2))
         (got + int (min k (length c1))) (ob + int (min k (length c1)) + int (min k (length c1)))
       = (Inr (drop k c1 = drop k c2, got'), ob')"
      "drop k c1 = drop k c2 \<longrightarrow> got' = got + int (min k (length c1)) + int (length (drop k c1))"
      using "1.IH"[where ?c2.0 = "drop k c2" and lb = "readinto lb (take k c1)" and rb = "readinto rb (take k c2)"
          and got = "got + int (min k (length c1))" and ob = "ob + int (min k (length c1)) + int (min k (length c1))"] False "1.prems" by auto
    define m where "m = min k (length c1)"
    have "m \<noteq> 0" "int m + int (length (drop k c1)) = int (length c1)" using False "1.prems"(1) by (auto simp: m_def)
    moreover have "compare_loop k lb rb (filled_reads k c1 c2) got ob =
        (if take k c1 \<noteq> take k c2 then (Inr (False, got + int m), ob + int m + int m)
         else compare_loop k (readinto lb (take k c1)) (readinto rb (take k c2))
           (filled_reads k (drop k c1) (drop k c2)) (got + int m) (ob + int m + int m))"
      unfolding filled_reads_step[OF "1.prems"(1) False ne] step Let_def rc m_def[symmetric]
      using \<open>m \<noteq> 0\<close> by simp
    ultimately show ?thesis using rec[folded m_def] split by (cases "take k c1 = take k c2") auto
  qed (use "1.prems" in simp)
qed

lemma steady_parts:
  assumes "steady cwd s content io"
  obtains f b a where "fst (open_regular_descriptor cwd s io) = Inr f" "\<not> first_checkpoint io"
    "int (length content) = fs_size s" "fstat_before io = Some b" "fstat_after io = Some a"
    "st_ctime a = st_ctime b" "stat_matches_snapshot s a"
  using assms by (cases "fst (open_regular_descriptor cwd s io)") (auto simp: steady_def split: option.splits)

lemma compare_streams_Inr:
  assumes "compare_streams chunk_size left right lio rio evs = (Inr True, ob)"
  shows "left_bytes (capacity_of left chunk_size) evs = right_bytes (capacity_of left chunk_size) evs
    \<and> int (length (left_bytes (capacity_of left chunk_size) evs)) = fs_size left
    \<and> (\<exists>ls rs. fstat_after lio = Some ls \<and> fstat_after rio = Some rs
         \<and> stat_matches_snapshot left ls \<and> stat_matches_snapshot right rs)"
proof -
  let ?k = "capacity_of left chunk_size"
  obtain ls rs where before: "fstat_before lio = Some ls" "fstat_before rio = Some rs"
    using assms by (auto simp: compare_streams_def split: option.splits)
  obtain got where loop: "compare_loop ?k (replicate ?k 0) (replicate ?k 0) evs 0 0 = (Inr (True, got), ob)"
    and rest: "got = fs_size left" "finish_compare left right (st_ctime ls) (st_ctime rs) lio rio = Inr ()"
    using assms before by (auto simp: compare_streams_def Let_def split: prod.splits sum.splits if_splits)
  show ?thesis
    using compare_loop_sound[OF loop] rest by (auto simp: finish_compare_def split: option.splits if_splits)
qed

lemma compare_streams_steady:
  assumes "steady cwd left c1 lio" "steady cwd right c2 rio" "fs_size left = fs_size right" "0 < chunk_size"
  shows "\<exists>ob. compare_streams chunk_size left right lio rio (filled_reads (capacity_of left chunk_size) c1 c2) = (Inr (c1 = c2), ob)"
proof -
  let ?k = "capacity_of left chunk_size"
  have len: "length c1 = length c2" and sz: "int (length c1) = fs_size left"
    using assms(1-3) by (auto simp: steady_def)
  have "0 < ?k" using assms(4) by (simp add: adaptive_buffer_capacity_def)
  then obtain got ob where loop: "compare_loop ?k (replicate ?k 0) (replicate ?k 0) (filled_reads ?k c1 c2) 0 0
      = (Inr (c1 = c2, got), ob)" "c1 = c2 \<longrightarrow> got = fs_size left"
    using compare_loop_complete[of ?k "replicate ?k 0" "replicate ?k 0" c1 c2 0 0] len sz by auto
  obtain ls la where l: "fstat_before lio = Some ls" "fstat_after lio = Some la" "st_ctime la = st_ctime ls"
      "stat_matches_snapshot left la" using steady_parts[OF assms(1)] by metis
  obtain rs ra where r: "fstat_before rio = Some rs" "fstat_after rio = Some ra" "st_ctime ra = st_ctime rs"
      "stat_matches_snapshot right ra" using steady_parts[OF assms(2)] by metis
  show ?thesis
    using loop l r by (auto simp: compare_streams_def Let_def finish_compare_def)
qed

lemma files_equal_exact_Inr:
  assumes "files_equal_exact cwd chunk_size left right lio rio evs = (Inr True, ob)"
  shows "fs_size left = fs_size right \<and> compare_streams chunk_size left right lio rio evs = (Inr True, ob)"
  using assms
  by (auto simp: files_equal_exact_def validated_io_chunk_size_def split: if_splits sum.splits prod.splits)

lemma files_equal_exact_steady:
  assumes "MIN_IO_CHUNK_SIZE \<le> chunk_size" "steady cwd left c1 lio" "steady cwd right c2 rio"
  shows "fst (files_equal_exact cwd chunk_size left right lio rio (filled_reads (capacity_of left chunk_size) c1 c2))
    = Inr (c1 = c2)"
proof (cases "fs_size left = fs_size right")
  case True
  obtain ob where cmp: "compare_streams chunk_size left right lio rio (filled_reads (capacity_of left chunk_size) c1 c2)
      = (Inr (c1 = c2), ob)"
    using compare_streams_steady[OF assms(2,3) True, of chunk_size] assms(1) by (auto simp: MIN_IO_CHUNK_SIZE_def)
  obtain f where "fst (open_regular_descriptor cwd left lio) = Inr f" "\<not> first_checkpoint lio"
    using steady_parts[OF assms(2)] .
  moreover obtain g where "fst (open_regular_descriptor cwd right rio) = Inr g" using steady_parts[OF assms(3)] .
  ultimately show ?thesis
    using True cmp assms(1) by (simp add: files_equal_exact_def validated_io_chunk_size_def)
next
  case False
  then have "c1 \<noteq> c2" using assms(2,3) by (auto simp: steady_def)
  then show ?thesis using False assms(1) by (simp add: files_equal_exact_def validated_io_chunk_size_def)
qed

section \<open>The two content proofs\<close>

text \<open>
  C16. A digest is the SHA-256 of the bytes the file delivered, all of them and
  no others: as many as the snapshot says, read from a file whose metadata
  match the snapshot afterwards and whose change time did not move. Conversely
  a file that stays as observed is hashed whole, however its reads are split.
\<close>

theorem full_fingerprint_exact:
  shows "(full_fingerprint sha256 cwd chunk_size s io = (Inr d, ob) \<longrightarrow>
      (let content = delivered (capacity_of s chunk_size) (events io)
       in d = sha256 content \<and> int (length content) = fs_size s \<and> ob = fs_size s
        \<and> (\<exists>b a. fstat_before io = Some b \<and> fstat_after io = Some a \<and> st_ctime a = st_ctime b
             \<and> stat_matches_snapshot s a)))
    \<and> (MIN_IO_CHUNK_SIZE \<le> chunk_size \<and> steady cwd s c io \<and> events io = map Bytes cs \<and> concat cs = c
        \<and> (\<forall>b\<in>set cs. b \<noteq> [] \<and> length b \<le> capacity_of s chunk_size)
      \<longrightarrow> full_fingerprint sha256 cwd chunk_size s io = (Inr (sha256 c), fs_size s))"
  unfolding Let_def
  by (intro conjI[OF impI impI] full_fingerprint_Inr full_fingerprint_steady[of chunk_size cwd s c io cs sha256])
    blast+


definition demo_stat :: stat_result where
  "demo_stat = \<lparr>st_dev = 7, st_ino = 40, st_size = 3, st_mtime = 100, st_ctime = 101, st_birthtime = None,
     st_regular = True, st_nlink = 1\<rparr>"

definition demo_io :: "stat_result \<Rightarrow> read_event list \<Rightarrow> descriptor_io" where
  "demo_io st evs = \<lparr>opens = (\<lambda>_. True), first_checkpoint = False, fstat_open = Some st, fstat_before = Some st,
     events = evs, fstat_after = Some st\<rparr>"

definition demo_file :: file_snapshot where
  "demo_file = snapshot_of ''/srv'' ''docs/a.pdf'' demo_stat"

definition demo_copy :: file_snapshot where
  "demo_copy = snapshot_of ''/srv'' ''docs/a (1).pdf'' (demo_stat\<lparr>st_ino := 41\<rparr>)"

lemma demo_steady:
  "steady ''/'' demo_file [1, 2, 3] (demo_io demo_stat evs)"
  "steady ''/'' demo_copy [1, 2, 3] (demo_io (demo_stat\<lparr>st_ino := 41\<rparr>) evs)"
  by (simp_all add: steady_def demo_io_def demo_file_def demo_copy_def demo_stat_def snapshot_of_def stat_birthtime_def
      UNAVAILABLE_BIRTHTIME_def open_regular_descriptor_def check_regular_def assert_unchanged_def stat_matches_snapshot_def
      path_parts_def path_comps_def abspath_def normpath_def initial_slashes_def starts_with_def Let_def)

theorem full_fingerprint_exact_witness:
  "full_fingerprint (\<lambda>b. b) ''/'' 65536 demo_file (demo_io demo_stat [Bytes [1], Bytes [2, 3]]) = (Inr [1, 2, 3], 3)"
proof -
  have "fs_size demo_file = 3" by (simp add: demo_file_def snapshot_of_def demo_stat_def)
  moreover have "events (demo_io demo_stat [Bytes [1], Bytes [2, 3]]) = map Bytes [[1], [2, 3]]"
    by (simp add: demo_io_def)
  ultimately show ?thesis
    using full_fingerprint_exact[where ?sha256.0 = "\<lambda>b. b" and cwd = "''/''" and chunk_size = 65536
        and s = demo_file and io = "demo_io demo_stat [Bytes [1], Bytes [2, 3]]" and c = "[1, 2, 3]" and cs = "[[1], [2, 3]]", THEN conjunct2]
      demo_steady(1)
    by (simp add: MIN_IO_CHUNK_SIZE_def adaptive_buffer_capacity_def)
qed


end
