(* ===== verification/Dedup_Content.thy ===== *)
theory Dedup_Content
  imports Dedup_Fingerprint
begin

text \<open>
  The two observations planning consumes: a complete digest fenced by a change
  version (\<open>content_observation.py\<close>) and the exact comparison of two candidates
  (\<open>DedupPlanner._compare_exact\<close>), both with the accounting of the bytes read
  when they abstain.
\<close>

section \<open>Fenced fingerprints\<close>

text \<open>
  The answers of one observation: its two checkpoints (\<open>True\<close> raises) and the
  three descriptors it opens, for the first change version, the content and the
  second change version.
\<close>

record observe_io =
  oi_first_checkpoint :: bool
  oi_version :: descriptor_io
  oi_content :: descriptor_io
  oi_again :: descriptor_io
  oi_last_checkpoint :: bool

text \<open>
  The guarded block: the outcome with the number of complete reads started and
  the bytes the read observer counted.
\<close>

definition observe_guarded ::
    "(byte list \<Rightarrow> byte list) \<Rightarrow> string \<Rightarrow> file_snapshot \<Rightarrow> int option \<Rightarrow> observe_io
      \<Rightarrow> (dedup_error + byte list \<times> int) \<times> int \<times> int" where
  "observe_guarded sha256 cwd s expected_ctime io =
     (if oi_first_checkpoint io then (Inl (Raised CancellationRequested), 0, 0)
      else case fingerprint_change_version cwd s (oi_version io) of
        Inl e \<Rightarrow> (Inl e, 0, 0)
      | Inr ctime \<Rightarrow>
          if expected_ctime \<noteq> None \<and> expected_ctime \<noteq> Some ctime then (Inl FileChangedError, 0, 0)
          else (case full_fingerprint sha256 cwd DEFAULT_IO_CHUNK_SIZE s (oi_content io) of
             (Inl e, full_bytes) \<Rightarrow> (Inl e, 1, full_bytes)
           | (Inr digest, full_bytes) \<Rightarrow>
               (case require_fingerprint_change_version cwd s ctime (oi_again io) of
                  Inl e \<Rightarrow> (Inl e, 1, full_bytes)
                | Inr _ \<Rightarrow>
                    if oi_last_checkpoint io then (Inl (Raised CancellationRequested), 1, full_bytes)
                    else (Inr (digest, ctime), 1, full_bytes))))"

definition observe_content_fingerprint ::
    "(byte list \<Rightarrow> byte list) \<Rightarrow> string \<Rightarrow> file_snapshot \<Rightarrow> string \<Rightarrow> (byte list \<times> byte list) option \<Rightarrow> int option
      \<Rightarrow> observe_io \<Rightarrow> dedup_error + fingerprint_observation" where
  "observe_content_fingerprint sha256 cwd s algorithm cached_evidence expected_ctime io =
     (if algorithm \<noteq> FULL_ALGORITHM
      then Inl (Raised (ValueError ''deduplication requires the canonical full SHA-256 algorithm''))
      else case observe_guarded sha256 cwd s expected_ctime io of
        (Inl e, full_reads, full_bytes) \<Rightarrow>
          if e = Os_Error \<or> is_file_changed e
          then Inl (FingerprintReadFailure \<lparr>rf_full_reads = full_reads, rf_partial_reads = 0,
                 rf_full_read_bytes = full_bytes, rf_partial_read_bytes = 0,
                 rf_validation_read_bytes = (if cached_evidence \<noteq> None then full_bytes else 0), rf_exact_bytes = 0\<rparr>)
          else Inl e
      | (Inr (digest, ctime), full_reads, full_bytes) \<Rightarrow>
          Inr \<lparr>fo_snapshot = s, fo_algorithm = algorithm, fo_digest = digest, fo_full_digest = Some digest,
               fo_ctime = ctime, fo_computed = True, fo_cache_hit = (cached_evidence = Some (digest, digest)),
               fo_full_reads = full_reads, fo_partial_reads = 0, fo_full_read_bytes = full_bytes,
               fo_partial_read_bytes = 0,
               fo_validation_read_bytes = (if cached_evidence \<noteq> None then full_bytes else 0), fo_reused = False\<rparr>)"

section \<open>Exact comparisons\<close>

text \<open>
  \<open>DedupPlanner._compare_exact\<close>. The admission of the comparison to the shared
  resources either raises or lets it run.
\<close>

definition exact_admission_bytes :: "file_snapshot \<Rightarrow> int" where
  "exact_admission_bytes left = 2 * min (fs_size left) DEFAULT_IO_CHUNK_SIZE + 64 * 1024"

record compare_io =
  ci_admission :: "py_error option"
  ci_left :: descriptor_io
  ci_right :: descriptor_io
  ci_events :: "compare_event list"

definition compare_exact :: "string \<Rightarrow> compare_io \<Rightarrow> file_snapshot \<Rightarrow> file_snapshot \<Rightarrow> dedup_error + comparison_observation" where
  "compare_exact cwd io left right = (case ci_admission io of
     Some e \<Rightarrow> Inl (Raised e)
   | None \<Rightarrow>
       (case files_equal_exact cwd DEFAULT_IO_CHUNK_SIZE left right (ci_left io) (ci_right io) (ci_events io) of
          (Inl e, read_bytes) \<Rightarrow>
            if is_file_changed e
            then Inl (FingerprintReadFailure \<lparr>rf_full_reads = 0, rf_partial_reads = 0, rf_full_read_bytes = 0,
                   rf_partial_read_bytes = 0, rf_validation_read_bytes = 0, rf_exact_bytes = read_bytes\<rparr>)
            else Inl e
        | (Inr equal, read_bytes) \<Rightarrow> Inr \<lparr>co_equal = equal, co_read_bytes = read_bytes\<rparr>))"

section \<open>What they guarantee\<close>

lemma observe_guarded_Inr:
  assumes "observe_guarded sha256 cwd s expected io = (Inr (d, t), reads, n)"
  shows "full_fingerprint sha256 cwd DEFAULT_IO_CHUNK_SIZE s (oi_content io) = (Inr d, n)
    \<and> fingerprint_change_version cwd s (oi_version io) = Inr t
    \<and> fingerprint_change_version cwd s (oi_again io) = Inr t \<and> reads = 1"
  using assms
  by (auto simp: observe_guarded_def require_fingerprint_change_version_def split: if_splits sum.splits prod.splits)

lemma os_as_changed_not_Os: "os_as_changed r \<noteq> Inl Os_Error"
  by (auto simp: os_as_changed_def split: sum.splits dedup_error.splits)

lemma files_equal_exact_not_Os: "files_equal_exact cwd n left right lio rio evs \<noteq> (Inl Os_Error, b)"
  using os_as_changed_not_Os
  by (auto simp: files_equal_exact_def validated_io_chunk_size_def split: if_splits sum.splits prod.splits)


lemma compare_exact_Inr:
  "compare_exact cwd io left right = Inr ob \<Longrightarrow>
    files_equal_exact cwd DEFAULT_IO_CHUNK_SIZE left right (ci_left io) (ci_right io) (ci_events io)
      = (Inr (co_equal ob), co_read_bytes ob)"
  by (auto simp: compare_exact_def split: option.splits prod.splits sum.splits if_splits)

definition demo_observe_io :: observe_io where
  "demo_observe_io = \<lparr>oi_first_checkpoint = False, oi_version = demo_io demo_stat [],
     oi_content = demo_io demo_stat [Bytes [1], Bytes [2, 3]], oi_again = demo_io demo_stat [],
     oi_last_checkpoint = False\<rparr>"

lemma demo_observed:
  "\<exists>ob. observe_content_fingerprint (\<lambda>b. b) ''/'' demo_file FULL_ALGORITHM None None demo_observe_io = Inr ob"
proof -
  have size: "fs_size demo_file = 3" by (simp add: demo_file_def snapshot_of_def demo_stat_def)
  have v: "fingerprint_change_version ''/'' demo_file (demo_io demo_stat evs) = Inr 101" for evs
    using demo_steady(1)[of evs]
    by (cases "fst (open_regular_descriptor ''/'' demo_file (demo_io demo_stat evs))")
      (auto simp: fingerprint_change_version_def demo_io_def demo_stat_def steady_def)
  have "full_fingerprint (\<lambda>b. b) ''/'' DEFAULT_IO_CHUNK_SIZE demo_file (demo_io demo_stat [Bytes [1], Bytes [2, 3]])
      = (Inr [1, 2, 3], 3)"
    using full_fingerprint_steady[OF _ demo_steady(1), of DEFAULT_IO_CHUNK_SIZE "[Bytes [1], Bytes [2, 3]]" "[[1], [2, 3]]" "\<lambda>b. b"]
    by (simp add: MIN_IO_CHUNK_SIZE_def DEFAULT_IO_CHUNK_SIZE_def adaptive_buffer_capacity_def size demo_io_def)
  then show ?thesis
    by (simp add: observe_content_fingerprint_def observe_guarded_def demo_observe_io_def v
        require_fingerprint_change_version_def)
qed


end
