(* ===== verification/Dedup_Session.thy ===== *)
theory Dedup_Session
  imports Dedup_Groups Dedup_Content
begin

text \<open>
  A planning session (\<open>PlanningSession\<close> of \<open>planning/pipeline.py\<close>): for every
  size that several files share, capture the members again, fingerprint each
  physical object once, group equal digests, and publish the plan with its
  coverage. The file system and the fingerprint provider answer through an
  environment; a checkpoint that raises is an answer that raises. The durable
  fingerprint cache and the progress reporter are left out.
\<close>

section \<open>Candidates\<close>

definition FINGERPRINT_WRITE_BATCH_SIZE :: nat where "FINGERPRINT_WRITE_BATCH_SIZE = 512"

record session_env =
  se_capture :: "string \<Rightarrow> dedup_error + stat_result"
  se_restat :: "string \<Rightarrow> dedup_error + stat_result"
  se_fingerprint :: "file_snapshot \<Rightarrow> dedup_error + fingerprint_observation"
  se_after :: "file_snapshot \<Rightarrow> dedup_error + stat_result"
  se_version :: "file_snapshot \<Rightarrow> dedup_error + int"
  se_keeper_validation :: "dedup_error option"

text \<open>\<open>DedupIndex._iter_planning_size_buckets\<close> and \<open>snapshots_by_size\<close>.\<close>

definition within_limit :: "int option \<Rightarrow> int \<Rightarrow> bool" where
  "within_limit max_file_bytes n = (case max_file_bytes of None \<Rightarrow> True | Some limit \<Rightarrow> n \<le> limit)"

definition planning_sizes :: "int option \<Rightarrow> dedup_index \<Rightarrow> int list" where
  "planning_sizes max_file_bytes ix =
     (let sizes = filter (\<lambda>n. 0 < n \<and> within_limit max_file_bytes n) (map fs_size (ix_files ix))
      in sort (remdups (filter (\<lambda>n. 1 < length (filter (\<lambda>m. m = n) sizes)) sizes)))"

definition snapshots_by_size :: "int \<Rightarrow> int option \<Rightarrow> dedup_index \<Rightarrow> file_snapshot list" where
  "snapshots_by_size n max_file_bytes ix =
     sort_key fs_path (filter (\<lambda>s. fs_size s = n \<and> within_limit max_file_bytes (fs_size s)) (ix_files ix))"

definition matches_recorded :: "file_snapshot \<Rightarrow> file_snapshot \<Rightarrow> bool" where
  "matches_recorded s recorded \<longleftrightarrow> snap_identity s = snap_identity recorded \<and> fs_size s = fs_size recorded
     \<and> fs_mtime s = fs_mtime recorded \<and> fs_birthtime s = fs_birthtime recorded"

definition abstains :: "dedup_error \<Rightarrow> bool" where
  "abstains e \<longleftrightarrow> e = Os_Error \<or> is_file_changed e"

text \<open>
  One member: the observation to keep, or a counted failure. An error that is
  neither an \<open>OSError\<close> nor a \<open>FileChangedError\<close> propagates.
\<close>

definition capture_member :: "planning_config \<Rightarrow> session_env \<Rightarrow> file_snapshot \<Rightarrow> dedup_error + (file_snapshot \<times> keeper_rank \<times> int)" where
  "capture_member cf env recorded = (case se_capture env (fs_path recorded) of
     Inl e \<Rightarrow> Inl e
   | Inr st \<Rightarrow>
       let s = snapshot_of (cf_cwd cf) (fs_path recorded) st in
       if \<not> matches_recorded s recorded then Inl FileChangedError
       else (case se_restat env (fs_path s) of
          Inl e \<Rightarrow> Inl e
        | Inr current \<Rightarrow>
            if \<not> stat_matches_snapshot s current then Inl FileChangedError
            else Inr (s, keeper_rank (cf_cwd cf) (cf_policy cf) s, st_nlink current)))"

definition with_index :: "planning \<Rightarrow> dedup_error + dedup_index \<Rightarrow> dedup_error + planning" where
  "with_index p r = (case r of Inl e \<Rightarrow> Inl e | Inr ix \<Rightarrow> Inr (p\<lparr>pl_index := ix\<rparr>))"

definition note_failure :: "dedup_error \<Rightarrow> planning \<Rightarrow> planning" where
  "note_failure e p = p\<lparr>pl_counters := count_failure (record_failed_reads e (pl_counters p))\<rparr>"

fun capture_members ::
    "planning_config \<Rightarrow> session_env \<Rightarrow> int option \<Rightarrow> file_snapshot list \<Rightarrow> (file_snapshot \<times> keeper_rank \<times> int) list
      \<Rightarrow> planning \<Rightarrow> dedup_error + planning" where
  "capture_members cf env max_file_bytes [] obs p = with_index p (store_planning_observations obs (pl_index p))"
| "capture_members cf env max_file_bytes (recorded # rest) obs p =
     (case size_is_admitted (fs_size recorded) max_file_bytes of
        Inl e \<Rightarrow> Inl (Raised e)
      | Inr False \<Rightarrow> capture_members cf env max_file_bytes rest obs p
      | Inr True \<Rightarrow>
          (case capture_member cf env recorded of
             Inl e \<Rightarrow> if abstains e then capture_members cf env max_file_bytes rest obs (note_failure e p) else Inl e
           | Inr ob \<Rightarrow>
               if FINGERPRINT_WRITE_BATCH_SIZE \<le> length (obs @ [ob])
               then (case with_index p (store_planning_observations (obs @ [ob]) (pl_index p)) of
                   Inl e \<Rightarrow> Inl e
                 | Inr p1 \<Rightarrow> capture_members cf env max_file_bytes rest [] p1)
               else capture_members cf env max_file_bytes rest (obs @ [ob]) p))"

section \<open>Fingerprints\<close>

definition count_observation :: "fingerprint_observation \<Rightarrow> plan_counters \<Rightarrow> plan_counters" where
  "count_observation ob c = c\<lparr>pc_partial := pc_partial c + fo_partial_reads ob, pc_full := pc_full c + fo_full_reads ob,
     pc_hash_read_bytes := pc_hash_read_bytes c + fo_full_read_bytes ob + fo_partial_read_bytes ob,
     pc_validation_reads := pc_validation_reads c + of_bool (fo_validation_read_bytes ob > 0),
     pc_validation_bytes := pc_validation_bytes c + fo_validation_read_bytes ob,
     pc_cache_hits := pc_cache_hits c + of_bool (fo_cache_hit ob),
     pc_digest_reuses := pc_digest_reuses c + of_bool (fo_reused ob)\<rparr>"

type_synonym fingerprint_entry = "file_snapshot \<times> byte list \<times> bool"

definition store_fingerprints :: "fingerprint_entry list \<Rightarrow> planning \<Rightarrow> dedup_error + planning" where
  "store_fingerprints batch p =
     (if batch = [] then Inr p
      else with_index p (store_planning_fingerprints ''full'' (map (\<lambda>(s, d, _). (s, d)) batch)
             (snap_identity ` set (map fst (filter (\<lambda>(_, _, computed). computed) batch))) (pl_index p)))"

text \<open>
  One result: an accepted digest is revalidated against the file's metadata
  and its change version before it is used.
\<close>

definition accept_result :: "session_env \<Rightarrow> file_snapshot \<Rightarrow> planning \<Rightarrow> (dedup_error + fingerprint_entry) \<times> planning" where
  "accept_result env s p =
     (let p1 = p\<lparr>pl_counters := (pl_counters p)\<lparr>pc_size_candidates := pc_size_candidates (pl_counters p) + 1\<rparr>\<rparr> in
      case se_fingerprint env s of
        Inl e \<Rightarrow> (Inl e, p1)
      | Inr ob \<Rightarrow>
          let p2 = p1\<lparr>pl_counters := count_observation ob (pl_counters p1)\<rparr> in
          (case se_after env s of
             Inl e \<Rightarrow> (Inl e, p2)
           | Inr st \<Rightarrow>
               if \<not> stat_matches_snapshot s st then (Inl FileChangedError, p2)
               else (case se_version env s of
                  Inl e \<Rightarrow> (Inl e, p2)
                | Inr v \<Rightarrow> if v \<noteq> fo_ctime ob then (Inl FileChangedError, p2)
                          else (Inr (s, fo_digest ob, fo_computed ob), p2))))"

fun fingerprint_members :: "session_env \<Rightarrow> file_snapshot list \<Rightarrow> fingerprint_entry list \<Rightarrow> planning \<Rightarrow> dedup_error + planning" where
  "fingerprint_members env [] batch p = store_fingerprints batch p"
| "fingerprint_members env (s # rest) batch p = (case accept_result env s p of
     (Inl e, p1) \<Rightarrow> if abstains e then fingerprint_members env rest batch (note_failure e p1) else Inl e
   | (Inr entry, p1) \<Rightarrow>
       if FINGERPRINT_WRITE_BATCH_SIZE \<le> length (batch @ [entry])
       then (case store_fingerprints (batch @ [entry]) p1 of Inl e \<Rightarrow> Inl e | Inr p2 \<Rightarrow> fingerprint_members env rest [] p2)
       else fingerprint_members env rest (batch @ [entry]) p1)"

section \<open>The run\<close>

definition plan_size :: "planning_config \<Rightarrow> session_env \<Rightarrow> int option \<Rightarrow> int \<Rightarrow> planning \<Rightarrow> dedup_error + planning" where
  "plan_size cf env max_file_bytes n p = (case size_is_admitted n max_file_bytes of
     Inl e \<Rightarrow> Inl (Raised e)
   | Inr False \<Rightarrow> Inr p
   | Inr True \<Rightarrow>
       let p0 = p\<lparr>pl_index := clear_planning_fingerprints (pl_index p)\<rparr> in
       (case capture_members cf env max_file_bytes (snapshots_by_size n max_file_bytes (pl_index p0)) [] p0 of
          Inl e \<Rightarrow> Inl e
        | Inr p1 \<Rightarrow>
            if \<not> planning_has_multiple_identities (pl_index p1) then Inr p1
            else (case fingerprint_members env (iter_planning_identities (pl_index p1)) [] p1 of
               Inl e \<Rightarrow> Inl e
             | Inr p2 \<Rightarrow> group_full_collisions cf p2)))"

fun plan_sizes :: "planning_config \<Rightarrow> session_env \<Rightarrow> int option \<Rightarrow> int list \<Rightarrow> planning \<Rightarrow> dedup_error + planning" where
  "plan_sizes cf env max_file_bytes [] p = Inr p"
| "plan_sizes cf env max_file_bytes (n # ns) p =
     (case plan_size cf env max_file_bytes n p of Inl e \<Rightarrow> Inl e | Inr p1 \<Rightarrow> plan_sizes cf env max_file_bytes ns p1)"

definition verification_mode_of :: "planning_config \<Rightarrow> planning \<Rightarrow> verification_mode" where
  "verification_mode_of cf p = (if pc_failures (pl_counters p) \<noteq> 0 then Mode_Partial
     else if cf_exact cf then Mode_Full_Hash else Mode_Fast)"

definition coverage_of :: "planning \<Rightarrow> plan_coverage" where
  "coverage_of p = (if pc_failures (pl_counters p) \<noteq> 0 then Coverage_Partial else Coverage_Complete)"

definition requested_policy :: "planning_config \<Rightarrow> dedup_policy" where
  "requested_policy cf = (if cf_exact cf then Policy_Exact else Policy_Fast)"

definition summary_of :: "planning_config \<Rightarrow> planning \<Rightarrow> plan_summary" where
  "summary_of cf p = \<lparr>su_groups = pl_group_count p, su_redundant = pl_redundant_files p,
     su_reclaimable = pl_reclaimable_bytes p, su_mode = verification_mode_of cf p, su_policy = requested_policy cf,
     su_coverage = coverage_of p, su_comparisons = pc_comparisons (pl_counters p), su_failures = pc_failures (pl_counters p)\<rparr>"

definition build_result :: "planning_config \<Rightarrow> int \<Rightarrow> nat option \<Rightarrow> planning \<Rightarrow> dedup_plan" where
  "build_result cf scan_id preview_limit p = (let c = pl_counters p; stored = iter_duplicate_groups (pl_index p) in
     \<lparr>dp_scan = scan_id, dp_groups = (case preview_limit of None \<Rightarrow> stored | Some n \<Rightarrow> take n stored),
      dp_statistics = \<lparr>ps_inventory_files = int (length (ix_files (pl_index p))),
        ps_size_candidates = pc_size_candidates c, ps_partial_hash = pc_partial c, ps_full_hash = pc_full c,
        ps_exact_compare = pc_comparisons c, ps_failures = pc_failures c, ps_hash_read_bytes = pc_hash_read_bytes c,
        ps_validation_reads = pc_validation_reads c, ps_validation_bytes = pc_validation_bytes c,
        ps_cache_hits = pc_cache_hits c, ps_digest_reuses = pc_digest_reuses c, ps_exact_bytes = pc_exact_bytes c\<rparr>,
      dp_total_groups = Some (pl_group_count p), dp_total_redundant = Some (pl_redundant_files p),
      dp_total_reclaimable = Some (pl_reclaimable_bytes p), dp_mode = verification_mode_of cf p,
      dp_policy = requested_policy cf, dp_coverage = coverage_of p\<rparr>)"

definition start_session :: "dedup_index \<Rightarrow> planning" where
  "start_session ix = \<lparr>pl_index = begin_planning_fingerprints ix, pl_batch = [], pl_batch_members = 0, pl_batch_aliases = 0,
     pl_group_count = 0, pl_redundant_files = 0, pl_reclaimable_bytes = 0, pl_counters = no_counts,
     pl_digest = None, pl_representatives = [], pl_chunks = []\<rparr>"

text \<open>Everything before publication.\<close>

definition gather :: "planning_config \<Rightarrow> session_env \<Rightarrow> int option \<Rightarrow> dedup_index \<Rightarrow> dedup_error + planning" where
  "gather cf env max_file_bytes ix = (case validate_max_file_bytes max_file_bytes of
     Inl e \<Rightarrow> Inl (Raised e)
   | Inr limit \<Rightarrow>
       let p = start_session ix in
       (case plan_sizes cf env limit (planning_sizes limit (pl_index p)) p of
          Inl e \<Rightarrow> Inl e
        | Inr p1 \<Rightarrow> (case flush_groups p1 of
            Inl e \<Rightarrow> Inl e
          | Inr p2 \<Rightarrow> (case se_keeper_validation env of Some e \<Rightarrow> Inl e | None \<Rightarrow> Inr p2))))"

definition run :: "planning_config \<Rightarrow> session_env \<Rightarrow> int option \<Rightarrow> int \<Rightarrow> nat option \<Rightarrow> dedup_index \<Rightarrow> dedup_error + dedup_plan \<times> dedup_index" where
  "run cf env max_file_bytes scan_id preview_limit ix = (case gather cf env max_file_bytes ix of
     Inl e \<Rightarrow> Inl e
   | Inr p \<Rightarrow> (case complete_duplicate_plan (summary_of cf p) (pl_index p) of
       Inl e \<Rightarrow> Inl e
     | Inr ix' \<Rightarrow> Inr (build_result cf scan_id preview_limit (p\<lparr>pl_index := ix'\<rparr>), ix')))"

text \<open>\<open>DedupPlanner._plan_admitted\<close>: discard an earlier plan of the scan, then run.\<close>

definition plan_admitted :: "planning_config \<Rightarrow> session_env \<Rightarrow> int option \<Rightarrow> int \<Rightarrow> nat option \<Rightarrow> dedup_index \<Rightarrow> dedup_error + dedup_plan \<times> dedup_index" where
  "plan_admitted cf env max_file_bytes scan_id preview_limit ix = (case begin_duplicate_plan ix of
     Inl e \<Rightarrow> Inl e | Inr ix1 \<Rightarrow> run cf env max_file_bytes scan_id preview_limit ix1)"

end
