(* ===== verification/Dedup_Publication.thy ===== *)
theory Dedup_Publication
  imports Dedup_Session
begin

text \<open>
  What a planning session guarantees: its groups are sound, its totals and
  coverage are what the database checks before it publishes a plan, and a plan
  is published exactly when nothing raised.
\<close>

section \<open>The planning tables\<close>

definition fingerprint_keys :: "fingerprint_row list \<Rightarrow> (string \<times> int \<times> int) list" where
  "fingerprint_keys table = map (\<lambda>r. (fr_stage r, snap_identity (fr_snapshot r))) table"

definition fingerprints_ok :: "dedup_index \<Rightarrow> bool" where
  "fingerprints_ok ix \<longleftrightarrow> distinct (fingerprint_keys (ix_fingerprints ix))"

lemma replace_fingerprints_keys:
  "replace_fingerprints table rows = Inr table' \<Longrightarrow> distinct (fingerprint_keys table) \<Longrightarrow> distinct (fingerprint_keys table')"
proof (induction table rows rule: replace_fingerprints.induct)
  case (2 table r rs)
  have "distinct (fingerprint_keys (filter (\<lambda>q. \<not> (fr_stage q = fr_stage r
      \<and> snap_identity (fr_snapshot q) = snap_identity (fr_snapshot r))) table @ [r]))"
    using "2.prems"(2) by (auto simp: fingerprint_keys_def distinct_map inj_on_def)
  then show ?case using 2 by (auto split: if_splits)
qed simp

text \<open>What observing files may change: tables of the planning run and reading counters.\<close>

definition observed :: "planning \<Rightarrow> planning \<Rightarrow> bool" where
  "observed p q \<longleftrightarrow> q = p\<lparr>pl_index := pl_index q, pl_counters := pl_counters q\<rparr>
     \<and> ix_groups (pl_index q) = ix_groups (pl_index p) \<and> ix_files (pl_index q) = ix_files (pl_index p)
     \<and> ix_scan_complete (pl_index q) = ix_scan_complete (pl_index p) \<and> ix_summary (pl_index q) = ix_summary (pl_index p)
     \<and> pc_comparisons (pl_counters q) = pc_comparisons (pl_counters p)
     \<and> pc_failures (pl_counters p) \<le> pc_failures (pl_counters q)
     \<and> (fingerprints_ok (pl_index p) \<longrightarrow> fingerprints_ok (pl_index q))"

lemma observed_refl [simp]: "observed p p"
  by (simp add: observed_def)

lemma observed_fields:
  assumes "observed p q"
  shows "pl_batch q = pl_batch p" "pl_batch_members q = pl_batch_members p" "pl_batch_aliases q = pl_batch_aliases p"
    "pl_group_count q = pl_group_count p" "pl_redundant_files q = pl_redundant_files p"
    "pl_reclaimable_bytes q = pl_reclaimable_bytes p" "pl_digest q = pl_digest p"
    "pl_representatives q = pl_representatives p" "pl_chunks q = pl_chunks p"
  using assms unfolding observed_def by (metis planning.select_convs planning.surjective planning.update_convs)+

lemma observed_trans: 
  assumes "observed p q" "observed q r"
  shows "observed p r"
proof -
  have "r = p\<lparr>pl_index := pl_index r, pl_counters := pl_counters r\<rparr>"
    using observed_fields[OF assms(1)] observed_fields[OF assms(2)] by (simp add: planning.equality)
  then show ?thesis using assms unfolding observed_def by simp
qed

lemma observed_observations:
  assumes "with_index p (store_planning_observations rows (pl_index p)) = Inr q"
  shows "observed p q"
  using assms
  by (auto simp: with_index_def store_planning_observations_def observed_def fingerprints_ok_def split: sum.splits)

lemma observed_fingerprints: "store_fingerprints batch p = Inr q \<Longrightarrow> observed p q"
  by (auto simp: store_fingerprints_def with_index_def store_planning_fingerprints_def observed_def fingerprints_ok_def
      split: sum.splits if_splits dest: replace_fingerprints_keys)

lemma observed_failure: "observed p (note_failure e p)"
  by (simp add: observed_def note_failure_def count_failure_def)

lemma observed_accept: "accept_result env s p = (r, q) \<Longrightarrow> observed p q"
  by (auto simp: accept_result_def observed_def count_observation_def Let_def split: sum.splits if_splits)

lemma capture_members_observed:
  "capture_members cf env limit rs obs p = Inr q \<Longrightarrow> observed p q"
proof (induction cf env limit rs obs p rule: capture_members.induct)
  case (2 cf env limit r rest obs p)
  show ?case
  proof (cases "size_is_admitted (fs_size r) limit")
    case (Inr b)
    then show ?thesis
      using 2 by (cases b) (auto split: sum.splits if_splits intro: observed_trans[OF observed_failure]
          observed_trans[OF observed_observations])
  qed (use "2.prems" in simp)
qed (auto intro: observed_observations)

lemma fingerprint_members_observed:
  "fingerprint_members env ss batch p = Inr q \<Longrightarrow> observed p q"
proof (induction env ss batch p rule: fingerprint_members.induct)
  case (2 env s rest batch p)
  obtain r p1 where a: "accept_result env s p = (r, p1)" by fastforce
  note o = observed_accept[OF a]
  show ?case
  proof (cases r)
    case (Inl e)
    then show ?thesis using 2 a by (auto split: if_splits intro: observed_trans[OF o] observed_trans[OF observed_failure])
  next
    case (Inr entry)
    show ?thesis
    proof (cases "FINGERPRINT_WRITE_BATCH_SIZE \<le> length (batch @ [entry])")
      case True
      then obtain p2 where st: "store_fingerprints (batch @ [entry]) p1 = Inr p2" and rec: "fingerprint_members env rest [] p2 = Inr q"
        using "2.prems" a Inr by (auto split: sum.splits)
      have "observed p2 q" by (rule "2.IH"(2)[OF a[symmetric] Inr True st rec])
      then show ?thesis by (rule observed_trans[OF observed_trans[OF o observed_fingerprints[OF st]]])
    qed (use 2 a Inr o in \<open>auto intro: observed_trans\<close>)
  qed
qed (auto intro: observed_fingerprints)

section \<open>The session invariant\<close>

definition session_inv :: "planning_config \<Rightarrow> dedup_index \<Rightarrow> planning \<Rightarrow> bool" where
  "session_inv cf ix p \<longleftrightarrow> accumulator_inv p \<and> counts_ok cf p \<and> concat (pl_chunks p) = []
     \<and> (\<forall>g\<in>set (all_groups p). \<exists>d. built_by cf d g) \<and> fingerprints_ok (pl_index p)
     \<and> ix_files (pl_index p) = ix_files ix \<and> ix_scan_complete (pl_index p) = ix_scan_complete ix"

lemma session_inv_observed: 
  assumes "session_inv cf ix p" "observed p q"
  shows "session_inv cf ix q"
proof -
  note f = observed_fields[OF assms(2)]
  have g: "all_groups q = all_groups p" using f assms(2) by (simp add: all_groups_def observed_def)
  then have "placed q = placed p" using f by (simp add: placed_def)
  then show ?thesis
    using assms g f by (auto simp: session_inv_def accumulator_inv_def counts_ok_def observed_def persisted_ok_def split: if_splits)
qed

lemma session_inv_collisions:
  assumes "session_inv cf ix p" "group_full_collisions cf p = Inr q"
  shows "session_inv cf ix q"
proof -
  note c = group_full_collisions_inv[OF assms(2)]
  have e: "ix_groups_update (\<lambda>_. []) (pl_index q) = ix_groups_update (\<lambda>_. []) (pl_index p)" using c by blast
  have "ix_files (pl_index q) = ix_files (pl_index p)" "ix_scan_complete (pl_index q) = ix_scan_complete (pl_index p)"
    "ix_fingerprints (pl_index q) = ix_fingerprints (pl_index p)"
    using arg_cong[OF e, of ix_files] arg_cong[OF e, of ix_scan_complete] arg_cong[OF e, of ix_fingerprints] by simp_all
  then show ?thesis
    using assms(1) c by (auto simp: session_inv_def builder_inv_def fingerprints_ok_def)
qed

lemma session_inv_plan_size:
  assumes "session_inv cf ix p" "plan_size cf env limit n p = Inr q"
  shows "session_inv cf ix q"
proof -
  let ?p0 = "p\<lparr>pl_index := clear_planning_fingerprints (pl_index p)\<rparr>"
  have "observed p ?p0"
    by (simp add: observed_def clear_planning_fingerprints_def fingerprints_ok_def fingerprint_keys_def)
  then have "session_inv cf ix ?p0" by (rule session_inv_observed[OF assms(1)])
  then show ?thesis
    using assms
    by (auto simp: plan_size_def Let_def split: sum.splits bool.splits if_splits
        dest!: capture_members_observed fingerprint_members_observed
        intro: session_inv_observed session_inv_collisions[OF session_inv_observed[OF session_inv_observed]])
qed

lemma session_inv_plan_sizes:
  "session_inv cf ix p \<Longrightarrow> plan_sizes cf env limit ns p = Inr q \<Longrightarrow> session_inv cf ix q"
  by (induction ns arbitrary: p) (auto split: sum.splits intro: session_inv_plan_size)

lemma session_inv_start:
  assumes "ix_groups ix = []"
  shows "session_inv cf ix (start_session ix)"
  using assms
  by (simp add: session_inv_def start_session_def begin_planning_fingerprints_def accumulator_inv_def counts_ok_def all_groups_def
      placed_def persisted_ok_def fingerprints_ok_def fingerprint_keys_def no_counts_def
      PLAN_GROUP_BATCH_SIZE_def PLAN_MEMBER_BATCH_SIZE_def PLAN_ALIAS_BATCH_SIZE_def)

lemma gather_inv:
  assumes "gather cf env limit ix = Inr p" "ix_groups ix = []"
  shows "session_inv cf ix p \<and> pl_batch p = []"
proof -
  obtain l p1 where v: "validate_max_file_bytes limit = Inr l"
    and p1: "plan_sizes cf env l (planning_sizes l (pl_index (start_session ix))) (start_session ix) = Inr p1"
    and fl: "flush_groups p1 = Inr p"
    using assms(1) by (auto simp: gather_def Let_def split: sum.splits option.splits)
  have 1: "session_inv cf ix p1" by (rule session_inv_plan_sizes[OF session_inv_start[OF assms(2)] p1])
  note f = flush_groups_Inr[OF fl] and b = same_builder_fields[OF flush_groups_Inr(2)[OF fl]]
  have "accumulator_inv p" using accumulator_inv_flush[of p1 True p] 1 fl by (simp add: session_inv_def flush_when_def)
  moreover have "placed p = placed p1" using f(1) b(4) by (simp add: placed_def)
  ultimately show ?thesis using 1 f b by (auto simp: session_inv_def counts_ok_def fingerprints_ok_def)
qed

text \<open>The conditions the database checks before it publishes hold of what a session gathered.\<close>

lemma group_error_None:
  assumes "group_error files g = None"
  shows "\<not> malformed_group files g"
  using assms
  by (auto simp: group_error_def malformed_group_def inconsistent_membership_def Let_def first_problem_None list_ex_iff
      split: if_splits option.splits)

lemma built_by_proofs:
  assumes "built_by cf d g"
  shows "g_proof g \<noteq> None" "g_member_proofs g \<noteq> []" "g_mode g = (if cf_exact cf then Mode_Full_Hash else Mode_Fast)"
proof -
  obtain keep redundant metadata where "length metadata = Suc (length redundant)" "g = build_group cf d keep redundant metadata"
    using assms by (auto simp: built_by_def)
  then show "g_proof g \<noteq> None" "g_member_proofs g \<noteq> []" "g_mode g = (if cf_exact cf then Mode_Full_Hash else Mode_Fast)"
    by (cases metadata; simp add: build_group_def)+
qed

lemma sum_members: "sum_on (\<lambda>g. int (length (group_members g))) gs = int (length gs) + sum_on (\<lambda>g. int (length (g_redundant g))) gs"
  by (induction gs) (auto simp: group_members_def)

lemma length_redundant: "int (length (concat (map g_redundant gs))) = sum_on (\<lambda>g. int (length (g_redundant g))) gs"
  by (induction gs) auto

lemma session_publishable:
  assumes "session_inv cf ix p" "pl_batch p = []" "ix_scan_complete ix"
  shows "complete_duplicate_plan (summary_of cf p) (pl_index p) = Inr ((pl_index p)\<lparr>ix_summary := Some (summary_of cf p)\<rparr>)"
proof -
  have gs: "all_groups p = ix_groups (pl_index p)" using assms(2) by (simp add: all_groups_def)
  have acc: "accumulator_inv p" and cnt: "counts_ok cf p" and empty: "concat (pl_chunks p) = []"
    and built: "\<And>g. g \<in> set (ix_groups (pl_index p)) \<Longrightarrow> \<exists>d. built_by cf d g"
    using assms(1) gs by (auto simp: session_inv_def)
  have totals: "pl_group_count p = int (length (ix_groups (pl_index p)))"
    "pl_redundant_files p = sum_on (\<lambda>g. int (length (g_redundant g))) (ix_groups (pl_index p))"
    "pl_reclaimable_bytes p = sum_on nominal_redundant_bytes (ix_groups (pl_index p))"
    using acc gs by (simp_all add: accumulator_inv_def)
  have ok: "\<not> malformed_group (ix_files (pl_index p)) g" if "g \<in> set (ix_groups (pl_index p))" for g
    using group_error_None acc that by (auto simp: accumulator_inv_def persisted_ok_def)
  have "int (length (placed p)) = pl_redundant_files p"
    using empty gs totals(2) length_redundant[of "ix_groups (pl_index p)"] by (simp add: placed_def del: concat_eq_Nil_conv)
  then have cover: "\<not> coverage_error (summary_of cf p)"
    using cnt totals(2) length_redundant[of "ix_groups (pl_index p)"]
    by (auto simp: coverage_error_def summary_of_def counts_ok_def coverage_of_def verification_mode_of_def requested_policy_def)
  have scan: "ix_scan_complete (pl_index p)" using assms(1,3) by (simp add: session_inv_def)
  have proofs: "\<not> list_ex (\<lambda>g. g_proof g = None \<or> g_member_proofs g = []
      \<or> g_mode g \<noteq> (if su_policy (summary_of cf p) = Policy_Exact then Mode_Full_Hash else Mode_Fast)) (ix_groups (pl_index p))"
  proof -
    have "g_proof g \<noteq> None \<and> g_member_proofs g \<noteq> [] \<and> g_mode g = (if cf_exact cf then Mode_Full_Hash else Mode_Fast)"
      if "g \<in> set (ix_groups (pl_index p))" for g using built[OF that] built_by_proofs by metis
    then show ?thesis by (cases "cf_exact cf") (auto simp: list_ex_iff summary_of_def requested_policy_def)
  qed
  have su: "su_groups (summary_of cf p) = pl_group_count p" "su_redundant (summary_of cf p) = pl_redundant_files p"
    "su_reclaimable (summary_of cf p) = pl_reclaimable_bytes p" by (simp_all add: summary_of_def)
  show ?thesis
    using ok scan cover proofs by (simp add: complete_duplicate_plan_def su totals sum_members list_ex_iff)
qed

section \<open>Sound groups\<close>

text \<open>
  The interface of the exact matcher: what it calls equal has equal content, in
  whatever sense the matcher establishes.
\<close>

locale exact_matcher =
  fixes matcher :: "file_snapshot \<Rightarrow> file_snapshot \<Rightarrow> dedup_error + comparison_observation"
    and equal_content :: "file_snapshot \<Rightarrow> file_snapshot \<Rightarrow> bool"
  assumes matched_equal: "matcher a b = Inr ob \<Longrightarrow> co_equal ob \<Longrightarrow> equal_content a b"
begin

lemma related_equal: "related cf a b \<Longrightarrow> cf_matcher cf = matcher \<Longrightarrow> cf_exact cf \<Longrightarrow> equal_content a b"
  using matched_equal by (auto simp: related_def)

text \<open>Every new group collects members that have the content of its keeper.\<close>

lemma grouped_equal:
  assumes "group_full_collisions cf p = Inr q" "cf_matcher cf = matcher" "cf_exact cf"
    and "all_groups q = all_groups p @ gs" "g \<in> set gs" "s \<in> set (g_redundant g)"
  shows "equal_content (g_keep g) s"
proof -
  have "builder_inv cf (all_groups p) (iter_planning_collision_members ''full'' (pl_index p)) q"
    using group_full_collisions_inv[OF assms(1)] by blast
  then have "related cf (g_keep g) s"
    using assms(4-6) unfolding builder_inv_def collects_def by auto
  then show ?thesis by (rule related_equal[OF _ assms(2,3)])
qed

end

text \<open>
  The bytes that both files delivered during the comparison are the same, and
  as many as both snapshots say; both files still matched them afterwards.
\<close>

definition delivered_equal :: "(file_snapshot \<Rightarrow> file_snapshot \<Rightarrow> compare_io) \<Rightarrow> file_snapshot \<Rightarrow> file_snapshot \<Rightarrow> bool" where
  "delivered_equal env a b \<longleftrightarrow>
     (let k = capacity_of a DEFAULT_IO_CHUNK_SIZE; evs = ci_events (env a b)
      in fs_size a = fs_size b \<and> left_bytes k evs = right_bytes k evs \<and> int (length (left_bytes k evs)) = fs_size a
       \<and> (\<exists>ls rs. fstat_after (ci_left (env a b)) = Some ls \<and> fstat_after (ci_right (env a b)) = Some rs
            \<and> stat_matches_snapshot a ls \<and> stat_matches_snapshot b rs))"

interpretation ce: exact_matcher "\<lambda>a b. compare_exact cwd (env a b) a b" "delivered_equal env"
  for cwd :: string and env :: "file_snapshot \<Rightarrow> file_snapshot \<Rightarrow> compare_io"
proof unfold_locales
  fix a b ob
  assume "compare_exact cwd (env a b) a b = Inr ob" "co_equal ob"
  then have "files_equal_exact cwd DEFAULT_IO_CHUNK_SIZE a b (ci_left (env a b)) (ci_right (env a b)) (ci_events (env a b))
      = (Inr True, co_read_bytes ob)" using compare_exact_Inr by fastforce
  from files_equal_exact_Inr[OF this] compare_streams_Inr show "delivered_equal env a b"
    unfolding delivered_equal_def Let_def by blast
qed

lemma distinct_submset: "mset xs \<subseteq># mset ys \<Longrightarrow> distinct ys \<Longrightarrow> distinct xs"
  unfolding distinct_count_atmost_1 subseteq_mset_def
  by (metis count_mset_0_iff le_antisym less_one not_le order.trans zero_le_one)

lemma collision_stream_distinct:
  assumes "fingerprints_ok ix"
  shows "distinct (map (\<lambda>x. snap_identity (snd x)) (iter_planning_collision_members stage ix))"
proof -
  have "distinct (ix_fingerprints ix)" and inj: "inj_on (\<lambda>r. (fr_stage r, snap_identity (fr_snapshot r))) (set (ix_fingerprints ix))"
    using assms by (auto simp: fingerprints_ok_def fingerprint_keys_def distinct_map)
  then have "distinct (sort_key f (collision_rows stage (ix_fingerprints ix)))" for f :: "fingerprint_row \<Rightarrow> 'k::linorder"
    by (simp add: collision_rows_def Let_def)
  moreover have "inj_on (\<lambda>r. snap_identity (fr_snapshot r)) (set (collision_rows stage (ix_fingerprints ix)))"
    using inj by (auto simp: inj_on_def collision_rows_def Let_def)
  ultimately show ?thesis
    by (simp add: iter_planning_collision_members_def distinct_map comp_def inj_on_def)
qed

text \<open>
  C19. Grouping equal digests is safe: no physical object is redundant twice,
  no keeper of a group is redundant in any group, so a copy of every content
  survives; all members of a group come from the collision stream with one
  digest; and under exact comparison every redundant member delivered, byte for
  byte, what its keeper delivered.
\<close>

theorem collision_groups_sound:
  assumes tables: "fingerprints_ok (pl_index p)" and run: "group_full_collisions cf p = Inr q"
    and matcher: "cf_matcher cf = (\<lambda>a b. compare_exact cwd (env a b) a b)"
  shows "\<exists>gs. all_groups q = all_groups p @ gs
    \<and> distinct (map snap_identity (concat (map g_redundant gs)))
    \<and> (\<forall>g\<in>set gs. \<forall>h\<in>set gs. snap_identity (g_keep g) \<notin> snap_identity ` set (g_redundant h))
    \<and> (\<forall>g\<in>set gs. g_redundant g \<noteq> [] \<and> (\<exists>d. g_fingerprint g = digest_hex d \<and>
         (\<forall>s\<in>set (group_members g). (d, s) \<in> set (iter_planning_collision_members ''full'' (pl_index p)))))
    \<and> (cf_exact cf \<longrightarrow> (\<forall>g\<in>set gs. \<forall>s\<in>set (g_redundant g). delivered_equal env (g_keep g) s))"
proof -
  let ?stream = "iter_planning_collision_members ''full'' (pl_index p)"
  obtain gs K where gs: "all_groups q = all_groups p @ gs"
    and each: "\<forall>g\<in>set gs. \<exists>d. built_by cf d g \<and> g_keep g \<in> set K \<and> collects cf ?stream d (g_keep g) (g_redundant g)"
    and parts: "mset K + mset (concat (map g_redundant gs)) + mset (concat (pl_chunks q)) \<subseteq># mset (map snd ?stream)"
    using group_full_collisions_inv[OF run, THEN conjunct1] unfolding builder_inv_def by blast
  have "mset (K @ concat (map g_redundant gs)) \<subseteq># mset (map snd ?stream)"
    using subset_mset.order_trans[OF mset_subset_eq_add_left parts] by simp
  then have "image_mset snap_identity (mset (K @ concat (map g_redundant gs))) \<subseteq># image_mset snap_identity (mset (map snd ?stream))"
    by (rule image_mset_subseteq_mono)
  then have "mset (map snap_identity (K @ concat (map g_redundant gs))) \<subseteq># mset (map (\<lambda>x. snap_identity (snd x)) ?stream)"
    by (simp add: image_mset.compositionality comp_def)
  then have d: "distinct (map snap_identity (K @ concat (map g_redundant gs)))"
    by (rule distinct_submset[OF _ collision_stream_distinct[OF tables]])
  have "snap_identity (g_keep g) \<notin> snap_identity ` set (g_redundant h)" if "g \<in> set gs" "h \<in> set gs" for g h
  proof -
    have "g_keep g \<in> set K" using each that(1) by blast
    moreover have "set (g_redundant h) \<subseteq> set (concat (map g_redundant gs))" using that(2) by auto
    moreover have "snap_identity ` set K \<inter> snap_identity ` set (concat (map g_redundant gs)) = {}"
      using d by (simp only: map_append distinct_append set_map)
    ultimately show ?thesis by blast
  qed
  moreover have "g_redundant g \<noteq> [] \<and> (\<exists>d. g_fingerprint g = digest_hex d \<and> (\<forall>s\<in>set (group_members g). (d, s) \<in> set ?stream))"
    if "g \<in> set gs" for g
    using each that by (fastforce simp: built_by_def collects_def group_members_def build_group_def)
  moreover have "delivered_equal env (g_keep g) s" if "cf_exact cf" "g \<in> set gs" "s \<in> set (g_redundant g)" for g s
    by (rule ce.grouped_equal[OF run matcher that(1) gs that(2,3)])
  moreover have "distinct (map snap_identity (concat (map g_redundant gs)))" using d by (simp only: map_append distinct_append)
  ultimately show ?thesis using gs by blast
qed

lemma sum_on_sort_key: "sum_on f (sort_key k xs) = sum_on f xs"
  unfolding sum_on_def by (metis mset_map mset_sort sum_mset_sum_list)


section \<open>A session over two copies\<close>

definition stat_of :: "file_snapshot \<Rightarrow> stat_result" where
  "stat_of s = \<lparr>st_dev = fs_volume s, st_ino = fs_file s, st_size = fs_size s, st_mtime = fs_mtime s, st_ctime = 101,
     st_birthtime = None, st_regular = True, st_nlink = 1\<rparr>"

definition demo_compare :: "file_snapshot \<Rightarrow> file_snapshot \<Rightarrow> compare_io" where
  "demo_compare a b = \<lparr>ci_admission = None, ci_left = demo_io (stat_of a) [], ci_right = demo_io (stat_of b) [],
     ci_events = filled_reads 3 [1, 2, 3] [1, 2, 3]\<rparr>"

definition demo_cf :: planning_config where
  "demo_cf = \<lparr>cf_cwd = ''/'', cf_exact = True, cf_policy = default_keeper_policy,
     cf_matcher = (\<lambda>a b. compare_exact ''/'' (demo_compare a b) a b)\<rparr>"

definition demo_by_path :: "string \<Rightarrow> dedup_error + stat_result" where
  "demo_by_path path = (if path = ''/d/b.txt'' then Inr (stat_of demo_original)
     else if path = ''/d/b (1).txt'' then Inr (stat_of demo_duplicate) else Inl Os_Error)"

definition demo_env :: session_env where
  "demo_env = \<lparr>se_capture = demo_by_path, se_restat = demo_by_path,
     se_fingerprint = (\<lambda>s. Inr \<lparr>fo_snapshot = s, fo_algorithm = FULL_ALGORITHM, fo_digest = [1], fo_full_digest = Some [1],
       fo_ctime = 101, fo_computed = True, fo_cache_hit = False, fo_full_reads = 1, fo_partial_reads = 0,
       fo_full_read_bytes = fs_size s, fo_partial_read_bytes = 0, fo_validation_read_bytes = 0, fo_reused = False\<rparr>),
     se_after = (\<lambda>s. Inr (stat_of s)), se_version = (\<lambda>_. Inr 101), se_keeper_validation = None\<rparr>"

definition demo_index :: dedup_index where
  "demo_index = \<lparr>ix_scan_complete = True, ix_files = [demo_duplicate, demo_original], ix_observations = [],
     ix_fingerprints = [], ix_groups = [], ix_summary = None\<rparr>"

lemma demo_gather:
  "case gather demo_cf demo_env None demo_index of
     Inl e \<Rightarrow> False
   | Inr p \<Rightarrow> map g_keep (ix_groups (pl_index p)) = [demo_original] \<and> pc_failures (pl_counters p) = 0
       \<and> pc_exact_bytes (pl_counters p) = 6"
  by code_simp

definition demo_collided :: planning where
  "demo_collided = start_session demo_index \<lparr>pl_index := demo_index\<lparr>
     ix_observations := map (\<lambda>s. \<lparr>or_snapshot = s, or_rank = (1, 0, 1, of_bool (s = demo_duplicate), hex32 (fs_volume s) @ '':'' @ hex32 (fs_file s)),
       or_links = 1\<rparr>) [demo_original, demo_duplicate],
     ix_fingerprints := map (\<lambda>s. \<lparr>fr_stage = ''full'', fr_digest = [1], fr_snapshot = s, fr_computed = True\<rparr>) [demo_duplicate, demo_original]\<rparr>\<rparr>"

lemma demo_grouped:
  "case group_full_collisions demo_cf demo_collided of
     Inl e \<Rightarrow> False
   | Inr q \<Rightarrow> group_sets (all_groups q) = [(demo_original, [demo_duplicate])] \<and> all_groups demo_collided = []"
  by code_simp

theorem collision_groups_sound_witness:
  "delivered_equal demo_compare demo_original demo_duplicate"
proof -
  obtain q where q: "group_full_collisions demo_cf demo_collided = Inr q"
      "group_sets (all_groups q) = [(demo_original, [demo_duplicate])]" "all_groups demo_collided = []"
    using demo_grouped by (auto split: sum.splits)
  have tables: "fingerprints_ok (pl_index demo_collided)" by code_simp
  have "cf_matcher demo_cf = (\<lambda>a b. compare_exact ''/'' (demo_compare a b) a b)" "cf_exact demo_cf"
    by (simp_all add: demo_cf_def)
  then obtain gs where gs: "all_groups q = gs" "\<forall>g\<in>set gs. \<forall>s\<in>set (g_redundant g). delivered_equal demo_compare (g_keep g) s"
    using collision_groups_sound[OF tables q(1)] q(3) by auto
  then show ?thesis using q(2) by (auto simp: map_eq_Cons_conv)
qed


text \<open>
  A physical object that appears under more paths than it has links, as
  under a bind mount, makes its group unpublishable: the proof's own decoder
  refuses the alias count and the run ends with an error.
\<close>

definition mounted_original :: file_snapshot where
  "mounted_original = demo_original\<lparr>fs_path := ''/m/b.txt''\<rparr>"

definition mounted_env :: session_env where
  "mounted_env = demo_env\<lparr>se_capture := (\<lambda>path. if path = ''/m/b.txt'' then Inr (stat_of mounted_original) else demo_by_path path),
     se_restat := (\<lambda>path. if path = ''/m/b.txt'' then Inr (stat_of mounted_original) else demo_by_path path)\<rparr>"

lemma mounted_alias_aborts:
  "gather demo_cf mounted_env None (demo_index\<lparr>ix_files := [demo_duplicate, demo_original, mounted_original]\<rparr>)
     = Inl (InventoryError ''duplicate proof alias topology is inconsistent'')"
  by code_simp

end
