(* ===== verification/Zip_Bytes.thy ===== *)
theory Zip_Bytes
  imports Neo_Prelude "HOL-Library.Word"
begin

text \<open>
  The ground of the archive preflight: bytes and the little-endian integers
  \<open>struct\<close> reads from them, \<open>bytes.rfind\<close>, the two codecs member names are
  decoded with (UTF-8 and code page 437, both strict), CRC-32 as \<open>zlib\<close>
  computes it, and the reading of a seekable binary stream.

  A stream is opened for reading only: its content is an argument, its position
  the state. A computation answers an error or a value, together with the
  position it leaves. Python's integers are unbounded, so offsets are \<^typ>\<open>int\<close>
  and no sum of them wraps.
\<close>

unbundle bit_operations_syntax

type_synonym octets = "8 word list"

section \<open>Little-endian integers\<close>

fun le_int :: "octets \<Rightarrow> int" where
  "le_int [] = 0"
| "le_int (b # bs) = uint b + 256 * le_int bs"

fun le_bytes :: "nat \<Rightarrow> int \<Rightarrow> octets" where
  "le_bytes 0 v = []"
| "le_bytes (Suc n) v = word_of_int v # le_bytes n (v div 256)"

definition octets_at :: "octets \<Rightarrow> nat \<Rightarrow> nat \<Rightarrow> octets" where
  "octets_at bs start n = take n (drop start bs)"

text \<open>One integer member of a packed structure: its offset and its width in bytes.\<close>

definition le_field :: "octets \<Rightarrow> nat \<Rightarrow> nat \<Rightarrow> int" where
  "le_field bs start n = le_int (octets_at bs start n)"

lemma le_int_nonneg [simp]: "0 \<le> le_int bs"
  by (induction bs) auto

lemma uint_octet_bound: "uint (b :: 8 word) < 256"
  using uint_lt2p [of b] by simp

lemma le_int_bound: "le_int bs < 256 ^ length bs"
proof (induction bs)
  case (Cons b bs)
  have "uint b + 256 * le_int bs \<le> 255 + 256 * (256 ^ length bs - 1)"
    using uint_octet_bound [of b] Cons.IH by simp
  then show ?case by simp
qed simp

lemma le_field_nonneg [simp]: "0 \<le> le_field bs start n"
  by (simp add: le_field_def)

lemma le_field_bound: "le_field bs start n < 256 ^ n"
proof -
  have "le_field bs start n < 256 ^ length (octets_at bs start n)"
    unfolding le_field_def by (rule le_int_bound)
  also have "\<dots> \<le> 256 ^ n"
    by (rule power_increasing) (simp_all add: octets_at_def)
  finally show ?thesis .
qed

lemma length_le_bytes [simp]: "length (le_bytes n v) = n"
  by (induction n v rule: le_bytes.induct) auto

lemma le_int_le_bytes: "0 \<le> v \<Longrightarrow> v < 256 ^ n \<Longrightarrow> le_int (le_bytes n v) = v"
proof (induction n v rule: le_bytes.induct)
  case (2 n v)
  have "v div 256 < 256 ^ n"
    using "2.prems" by (simp add: int_div_less_self div_less_iff_less_mult mult.commute)
  moreover have "uint (word_of_int v :: 8 word) = v mod 256"
    by (simp add: uint_word_of_int)
  ultimately show ?case
    using 2 by (simp add: pos_imp_zdiv_nonneg_iff)
qed simp

lemma le_bytes_le_int: "length bs = n \<Longrightarrow> le_bytes n (le_int bs) = bs"
proof (induction bs arbitrary: n)
  case (Cons b bs)
  have "(uint b + 256 * le_int bs) div 256 = le_int bs"
    using uint_octet_bound [of b] by simp
  moreover have "word_of_int (uint b + 256 * le_int bs) = b"
  proof -
    have "uint (word_of_int (uint b + 256 * le_int bs) :: 8 word) = (uint b + 256 * le_int bs) mod 256"
      by (simp only: uint_word_of_int) simp
    also have "\<dots> = uint b"
      using uint_octet_bound [of b] by simp
    finally show ?thesis by (simp only: word_uint_eq_iff)
  qed
  ultimately show ?case using Cons by auto
qed simp

section \<open>Searching backwards\<close>

text \<open>
  \<open>data.rfind(pattern, 0, search_end)\<close>: the highest index at which the pattern
  occurs completely before \<open>search_end\<close>.
\<close>

definition occurs_at :: "octets \<Rightarrow> octets \<Rightarrow> nat \<Rightarrow> bool" where
  "occurs_at pat bs i \<longleftrightarrow> i + length pat \<le> length bs \<and> octets_at bs i (length pat) = pat"

fun rfind_from :: "octets \<Rightarrow> octets \<Rightarrow> nat \<Rightarrow> nat option" where
  "rfind_from pat bs 0 = (if occurs_at pat bs 0 then Some 0 else None)"
| "rfind_from pat bs (Suc i) = (if occurs_at pat bs (Suc i) then Some (Suc i) else rfind_from pat bs i)"

definition rfind :: "octets \<Rightarrow> octets \<Rightarrow> nat \<Rightarrow> nat option" where
  "rfind pat bs search_end =
     (if min search_end (length bs) < length pat then None
      else rfind_from pat bs (min search_end (length bs) - length pat))"

lemma rfind_from_Some:
  "rfind_from pat bs n = Some i \<longleftrightarrow> i \<le> n \<and> occurs_at pat bs i \<and> (\<forall>j. i < j \<and> j \<le> n \<longrightarrow> \<not> occurs_at pat bs j)"
proof (induction n)
  case (Suc n)
  then show ?case
    by (auto simp: le_Suc_eq)
qed auto

lemma rfind_from_None: "rfind_from pat bs n = None \<longleftrightarrow> (\<forall>j\<le>n. \<not> occurs_at pat bs j)"
  by (induction n) (auto simp: le_Suc_eq)

lemma rfind_Some:
  "rfind pat bs e = Some i \<longleftrightarrow>
     i + length pat \<le> e \<and> occurs_at pat bs i \<and> (\<forall>j. i < j \<and> j + length pat \<le> e \<longrightarrow> \<not> occurs_at pat bs j)"
  unfolding rfind_def by (auto simp: rfind_from_Some occurs_at_def min_def split: if_splits)

lemma rfind_None: "rfind pat bs e = None \<longleftrightarrow> (\<forall>j. j + length pat \<le> e \<longrightarrow> \<not> occurs_at pat bs j)"
  unfolding rfind_def by (auto simp: rfind_from_None occurs_at_def min_def split: if_splits)

section \<open>Text decoding\<close>

text \<open>A Python string is the list of its code points.\<close>

type_synonym code_points = "nat list"

definition utf8_cont :: "nat \<Rightarrow> bool" where
  "utf8_cont b \<longleftrightarrow> 0x80 \<le> b \<and> b \<le> 0xBF"

text \<open>
  Strict UTF-8: overlong forms, surrogates and values above \<open>0x10FFFF\<close> are errors.
\<close>

fun utf8_decode :: "nat list \<Rightarrow> code_points option" where
  "utf8_decode [] = Some []"
| "utf8_decode (a # bs) =
     (if a < 0x80 then map_option (Cons a) (utf8_decode bs)
      else if 0xC2 \<le> a \<and> a \<le> 0xDF then
        (case bs of
           b # r \<Rightarrow> if utf8_cont b
                     then map_option (Cons ((a - 0xC0) * 64 + (b - 0x80))) (utf8_decode r) else None
         | _ \<Rightarrow> None)
      else if 0xE0 \<le> a \<and> a \<le> 0xEF then
        (case bs of
           b # c # r \<Rightarrow>
             if utf8_cont b \<and> utf8_cont c \<and> (a = 0xE0 \<longrightarrow> 0xA0 \<le> b) \<and> (a = 0xED \<longrightarrow> b \<le> 0x9F)
             then map_option (Cons ((a - 0xE0) * 4096 + (b - 0x80) * 64 + (c - 0x80))) (utf8_decode r)
             else None
         | _ \<Rightarrow> None)
      else if 0xF0 \<le> a \<and> a \<le> 0xF4 then
        (case bs of
           b # c # e # r \<Rightarrow>
             if utf8_cont b \<and> utf8_cont c \<and> utf8_cont e \<and> (a = 0xF0 \<longrightarrow> 0x90 \<le> b) \<and> (a = 0xF4 \<longrightarrow> b \<le> 0x8F)
             then map_option (Cons ((a - 0xF0) * 262144 + (b - 0x80) * 4096 + (c - 0x80) * 64 + (e - 0x80)))
                    (utf8_decode r)
             else None
         | _ \<Rightarrow> None)
      else None)"

definition utf8_encode_one :: "nat \<Rightarrow> nat list" where
  "utf8_encode_one c =
     (if c < 0x80 then [c]
      else if c < 0x800 then [0xC0 + c div 64, 0x80 + c mod 64]
      else if c < 0x10000 then [0xE0 + c div 4096, 0x80 + c div 64 mod 64, 0x80 + c mod 64]
      else [0xF0 + c div 262144, 0x80 + c div 4096 mod 64, 0x80 + c div 64 mod 64, 0x80 + c mod 64])"

definition scalar_value :: "nat \<Rightarrow> bool" where
  "scalar_value c \<longleftrightarrow> c \<le> 0x10FFFF \<and> \<not> (0xD800 \<le> c \<and> c \<le> 0xDFFF)"

definition CP437_HIGH :: "nat list" where
  "CP437_HIGH =
  [199, 252, 233, 226, 228, 224, 229, 231, 234, 235, 232, 239, 238, 236, 196, 197,
   201, 230, 198, 244, 246, 242, 251, 249, 255, 214, 220, 162, 163, 165, 8359, 402,
   225, 237, 243, 250, 241, 209, 170, 186, 191, 8976, 172, 189, 188, 161, 171, 187,
   9617, 9618, 9619, 9474, 9508, 9569, 9570, 9558, 9557, 9571, 9553, 9559, 9565, 9564, 9563, 9488,
   9492, 9524, 9516, 9500, 9472, 9532, 9566, 9567, 9562, 9556, 9577, 9574, 9568, 9552, 9580, 9575,
   9576, 9572, 9573, 9561, 9560, 9554, 9555, 9579, 9578, 9496, 9484, 9608, 9604, 9612, 9616, 9600,
   945, 223, 915, 960, 931, 963, 181, 964, 934, 920, 937, 948, 8734, 966, 949, 8745,
   8801, 177, 8805, 8804, 8992, 8993, 247, 8776, 176, 8729, 183, 8730, 8319, 178, 9632, 160]"

definition cp437_decode :: "nat list \<Rightarrow> code_points" where
  "cp437_decode bs = map (\<lambda>b. if b < 128 then b else CP437_HIGH ! (b - 128)) bs"

section \<open>CRC-32\<close>

text \<open>The reflected polynomial \<open>0xEDB88320\<close>, bit by bit.\<close>

fun crc_bits :: "nat \<Rightarrow> 32 word \<Rightarrow> 32 word" where
  "crc_bits 0 c = c"
| "crc_bits (Suc n) c =
     crc_bits n (if bit c 0 then drop_bit 1 c XOR 0xEDB88320 else drop_bit 1 c)"

definition crc_step :: "32 word \<Rightarrow> 8 word \<Rightarrow> 32 word" where
  "crc_step c b = crc_bits 8 (c XOR ucast b)"

definition crc32 :: "octets \<Rightarrow> 32 word" where
  "crc32 bs = NOT (foldl crc_step (NOT 0) bs)"

section \<open>Reading a stream\<close>

datatype zip_error =
    ZipStructureError string
  | Zip_ValueError string
  | Zlib_Error string
  | Seek_Error
  | Checkpoint_Raised

type_synonym 'a zip_io = "octets \<Rightarrow> int \<Rightarrow> (zip_error + 'a) \<times> int"

definition zret :: "'a \<Rightarrow> 'a zip_io" where
  "zret x d p = (Inr x, p)"

definition zraise :: "zip_error \<Rightarrow> 'a zip_io" where
  "zraise e d p = (Inl e, p)"

definition zbind :: "'a zip_io \<Rightarrow> ('a \<Rightarrow> 'b zip_io) \<Rightarrow> 'b zip_io" where
  "zbind m f d p = (case m d p of (Inl e, q) \<Rightarrow> (Inl e, q) | (Inr x, q) \<Rightarrow> f x d q)"

text \<open>Checks in the order of the source: the first one that holds is raised.\<close>

fun raise_first :: "(bool \<times> string) list \<Rightarrow> unit zip_io" where
  "raise_first [] d p = (Inr (), p)"
| "raise_first ((bad, msg) # cs) d p =
     (if bad then (Inl (ZipStructureError msg), p) else raise_first cs d p)"

definition zlift :: "zip_error + 'a \<Rightarrow> 'a zip_io" where
  "zlift r d p = (r, p)"

definition seek :: "int \<Rightarrow> unit zip_io" where
  "seek offset d p = (if offset < 0 then (Inl Seek_Error, p) else (Inr (), offset))"

definition tell :: "int zip_io" where
  "tell d p = (Inr p, p)"

text \<open>\<open>source.read(n)\<close>; a negative count reads to the end.\<close>

definition read_at :: "octets \<Rightarrow> int \<Rightarrow> int \<Rightarrow> octets" where
  "read_at d p n = (if n < 0 then drop (nat p) d else take (nat n) (drop (nat p) d))"

definition read :: "int \<Rightarrow> octets zip_io" where
  "read n d p = (Inr (read_at d p n), p + int (length (read_at d p n)))"

text \<open>
  What a computation can answer, from some position. The rules turn a
  successful run into the facts its checks established.
\<close>

definition yields :: "'a zip_io \<Rightarrow> octets \<Rightarrow> 'a \<Rightarrow> bool" where
  "yields m d x \<longleftrightarrow> (\<exists>p. fst (m d p) = Inr x)"

lemma sum_case_Inr_iff:
  "(case r of Inl e \<Rightarrow> Inl e | Inr x \<Rightarrow> f x) = Inr y \<longleftrightarrow> (\<exists>x. r = Inr x \<and> f x = Inr y)"
  by (cases r) auto

named_theorems yields_simps \<open>what a successful stream computation established\<close>

lemma yieldsI: "fst (m d p) = Inr x \<Longrightarrow> yields m d x"
  by (auto simp: yields_def)

lemma yields_zret [yields_simps]: "yields (zret x) d y \<longleftrightarrow> y = x"
  by (auto simp: yields_def zret_def)

lemma yields_zraise [yields_simps]: "\<not> yields (zraise e) d y"
  by (simp add: yields_def zraise_def)

lemma yields_zlift [yields_simps]: "yields (zlift r) d y \<longleftrightarrow> r = Inr y"
  by (auto simp: yields_def zlift_def)

lemma yields_raise_first [yields_simps]: "yields (raise_first cs) d u \<longleftrightarrow> (\<forall>(bad, msg)\<in>set cs. \<not> bad)"
proof -
  have "fst (raise_first cs d p) = Inr u \<longleftrightarrow> (\<forall>(bad, msg)\<in>set cs. \<not> bad)" for p
    by (induction cs d p rule: raise_first.induct) auto
  then show ?thesis by (simp add: yields_def)
qed

lemma yields_zbindE [elim]:
  assumes "yields (zbind m f) d y"
  obtains x where "yields m d x" and "yields (f x) d y"
proof -
  from assms obtain p where p: "fst (zbind m f d p) = Inr y"
    by (auto simp: yields_def)
  show ?thesis
  proof (cases "m d p")
    case (Pair r q)
    with p obtain x where "r = Inr x" and "fst (f x d q) = Inr y"
      by (cases r) (auto simp: zbind_def)
    with Pair show ?thesis by (intro that) (auto simp: yields_def intro: exI [of _ p])
  qed
qed

lemma yields_if [yields_simps]:
  "yields (if c then m else n) d y \<longleftrightarrow> (if c then yields m d y else yields n d y)"
  by simp

end
