(* ===== verification/Zip_Structure.thy ===== *)
theory Zip_Structure
  imports Zip_Bytes
begin

text \<open>
  The archive preflight of \<open>platform/zip_safety.py\<close>: locating the end record,
  resolving its ZIP64 extension, and validating every record of the central
  directory against the local header it names, before any library materialises
  the members. Structures are unpacked at the offsets of their \<open>struct\<close> formats.
\<close>

section \<open>Records and bounds\<close>

definition EOCD_SIGNATURE :: octets where
  "EOCD_SIGNATURE = [0x50, 0x4B, 0x05, 0x06]"

definition ZIP64_EOCD_SIGNATURE :: octets where
  "ZIP64_EOCD_SIGNATURE = [0x50, 0x4B, 0x06, 0x06]"

definition ZIP64_LOCATOR_SIGNATURE :: octets where
  "ZIP64_LOCATOR_SIGNATURE = [0x50, 0x4B, 0x06, 0x07]"

definition LOCAL_FILE_SIGNATURE :: octets where
  "LOCAL_FILE_SIGNATURE = [0x50, 0x4B, 0x03, 0x04]"

definition CENTRAL_SIGNATURE :: octets where
  "CENTRAL_SIGNATURE = [0x50, 0x4B, 0x01, 0x02]"

definition EOCD_FIXED_BYTES :: int where "EOCD_FIXED_BYTES = 22"
definition MAX_ZIP_COMMENT_BYTES :: int where "MAX_ZIP_COMMENT_BYTES = 65535"
definition ZIP64_LOCATOR_BYTES :: int where "ZIP64_LOCATOR_BYTES = 20"
definition ZIP64_EOCD_MIN_BYTES :: int where "ZIP64_EOCD_MIN_BYTES = 56"
definition DEFAULT_MAX_CENTRAL_DIRECTORY_BYTES :: int where
  "DEFAULT_MAX_CENTRAL_DIRECTORY_BYTES = 32 * 1024 * 1024"
definition ZIP64_EXTRA_FIELD_ID :: int where "ZIP64_EXTRA_FIELD_ID = 1"

text \<open>The sizes of \<open>_LOCAL_FILE\<close>, \<open>_CENTRAL_DIRECTORY\<close> and \<open>_EXTRA_FIELD_HEADER\<close>.\<close>

definition LOCAL_FILE_SIZE :: int where "LOCAL_FILE_SIZE = 30"
definition CENTRAL_DIRECTORY_SIZE :: int where "CENTRAL_DIRECTORY_SIZE = 46"
definition EXTRA_FIELD_HEADER_SIZE :: int where "EXTRA_FIELD_HEADER_SIZE = 4"

lemmas zip_sizes = EOCD_FIXED_BYTES_def MAX_ZIP_COMMENT_BYTES_def ZIP64_LOCATOR_BYTES_def
  ZIP64_EOCD_MIN_BYTES_def LOCAL_FILE_SIZE_def CENTRAL_DIRECTORY_SIZE_def EXTRA_FIELD_HEADER_SIZE_def

record eocd_values =
  eo_disk_number :: int
  eo_central_disk :: int
  eo_disk_members :: int
  eo_members :: int
  eo_central_size :: int
  eo_central_offset :: int
  eo_comment_length :: int

definition unpack_eocd :: "octets \<Rightarrow> eocd_values" where
  "unpack_eocd b = \<lparr>eo_disk_number = le_field b 4 2, eo_central_disk = le_field b 6 2,
     eo_disk_members = le_field b 8 2, eo_members = le_field b 10 2, eo_central_size = le_field b 12 4,
     eo_central_offset = le_field b 16 4, eo_comment_length = le_field b 20 2\<rparr>"

record zip64_locator =
  lo_signature :: octets
  lo_disk_number :: int
  lo_record_offset :: int
  lo_disk_count :: int

definition unpack_zip64_locator :: "octets \<Rightarrow> zip64_locator" where
  "unpack_zip64_locator b = \<lparr>lo_signature = octets_at b 0 4, lo_disk_number = le_field b 4 4,
     lo_record_offset = le_field b 8 8, lo_disk_count = le_field b 16 4\<rparr>"

record zip64_eocd =
  z64_signature :: octets
  z64_record_size :: int
  z64_made_by :: int
  z64_needed :: int
  z64_disk_number :: int
  z64_central_disk :: int
  z64_disk_members :: int
  z64_members :: int
  z64_central_size :: int
  z64_central_offset :: int

definition unpack_zip64_eocd :: "octets \<Rightarrow> zip64_eocd" where
  "unpack_zip64_eocd b = \<lparr>z64_signature = octets_at b 0 4, z64_record_size = le_field b 4 8,
     z64_made_by = le_field b 12 2, z64_needed = le_field b 14 2, z64_disk_number = le_field b 16 4,
     z64_central_disk = le_field b 20 4, z64_disk_members = le_field b 24 8, z64_members = le_field b 32 8,
     z64_central_size = le_field b 40 8, z64_central_offset = le_field b 48 8\<rparr>"

record local_file =
  lf_signature :: octets
  lf_version :: int
  lf_flags :: int
  lf_compression :: int
  lf_modified_time :: int
  lf_modified_date :: int
  lf_crc32 :: int
  lf_compressed_size :: int
  lf_uncompressed_size :: int
  lf_name_length :: int
  lf_extra_length :: int

definition unpack_local_file :: "octets \<Rightarrow> local_file" where
  "unpack_local_file b = \<lparr>lf_signature = octets_at b 0 4, lf_version = le_field b 4 2, lf_flags = le_field b 6 2,
     lf_compression = le_field b 8 2, lf_modified_time = le_field b 10 2, lf_modified_date = le_field b 12 2,
     lf_crc32 = le_field b 14 4, lf_compressed_size = le_field b 18 4, lf_uncompressed_size = le_field b 22 4,
     lf_name_length = le_field b 26 2, lf_extra_length = le_field b 28 2\<rparr>"

record central_directory =
  cd_signature :: octets
  cd_version_made :: int
  cd_version_needed :: int
  cd_flags :: int
  cd_compression :: int
  cd_modified_time :: int
  cd_modified_date :: int
  cd_crc32 :: int
  cd_compressed_size :: int
  cd_uncompressed_size :: int
  cd_name_length :: int
  cd_extra_length :: int
  cd_comment_length :: int
  cd_disk_number_start :: int
  cd_internal_attributes :: int
  cd_external_attributes :: int
  cd_local_header_offset :: int

definition unpack_central_directory :: "octets \<Rightarrow> central_directory" where
  "unpack_central_directory b = \<lparr>cd_signature = octets_at b 0 4, cd_version_made = le_field b 4 2,
     cd_version_needed = le_field b 6 2, cd_flags = le_field b 8 2, cd_compression = le_field b 10 2,
     cd_modified_time = le_field b 12 2, cd_modified_date = le_field b 14 2, cd_crc32 = le_field b 16 4,
     cd_compressed_size = le_field b 20 4, cd_uncompressed_size = le_field b 24 4,
     cd_name_length = le_field b 28 2, cd_extra_length = le_field b 30 2, cd_comment_length = le_field b 32 2,
     cd_disk_number_start = le_field b 34 2, cd_internal_attributes = le_field b 36 2,
     cd_external_attributes = le_field b 38 4, cd_local_header_offset = le_field b 42 4\<rparr>"

record zip_member_structure =
  zm_ordinal :: int
  zm_filename :: code_points
  zm_header_offset :: int
  zm_payload_offset :: int
  zm_compressed_size :: int
  zm_uncompressed_size :: int
  zm_crc32 :: int
  zm_compression_method :: int
  zm_flags :: int
  zm_upper_bound :: int
  zm_is_directory :: bool

record zip_structure =
  zs_members :: int
  zs_central_directory_bytes :: int
  zs_central_directory_offset :: int
  zs_zip64 :: bool
  zs_entries :: "zip_member_structure list"

section \<open>The end record\<close>

definition read_exact :: "int \<Rightarrow> int \<Rightarrow> octets zip_io" where
  "read_exact offset n = zbind (seek offset) (\<lambda>_. zbind (read n) (\<lambda>payload.
     zbind (raise_first [(int (length payload) \<noteq> n, ''truncated ZIP metadata'')]) (\<lambda>_. zret payload)))"

text \<open>
  The backward search through the tail. An occurrence whose record or comment
  would run past the end is skipped, and the search continues before it.
\<close>

definition eocd_fits :: "octets \<Rightarrow> nat \<Rightarrow> bool" where
  "eocd_fits tail index \<longleftrightarrow>
     int index + EOCD_FIXED_BYTES \<le> int (length tail)
   \<and> int index + EOCD_FIXED_BYTES + eo_comment_length (unpack_eocd (drop index tail)) \<le> int (length tail)"

function find_eocd_loop :: "octets \<Rightarrow> nat \<Rightarrow> (nat \<times> eocd_values) option" where
  "find_eocd_loop tail search_end = (case rfind EOCD_SIGNATURE tail search_end of
     None \<Rightarrow> None
   | Some index \<Rightarrow>
       if eocd_fits tail index then Some (index, unpack_eocd (drop index tail))
       else find_eocd_loop tail index)"
  by pat_completeness auto

termination
  by (relation "measure snd") (auto simp: rfind_Some EOCD_SIGNATURE_def)

declare find_eocd_loop.simps [simp del]

definition find_eocd :: "int \<Rightarrow> (int \<times> eocd_values) zip_io" where
  "find_eocd file_size =
     (let tail_size = min file_size (EOCD_FIXED_BYTES + MAX_ZIP_COMMENT_BYTES);
          tail_offset = file_size - tail_size
      in zbind (read_exact tail_offset tail_size) (\<lambda>tail.
           case find_eocd_loop tail (length tail) of
             None \<Rightarrow> zraise (ZipStructureError ''ZIP end-of-central-directory record not found'')
           | Some (index, values) \<Rightarrow> zret (tail_offset + int index, values)))"

section \<open>ZIP64\<close>

text \<open>The record the locator names, when it lies in the file and ends at the locator.\<close>

definition zip64_candidate :: "int \<Rightarrow> int \<Rightarrow> int \<Rightarrow> zip64_eocd option zip_io" where
  "zip64_candidate raw_record_offset locator_offset file_size =
     (if raw_record_offset + ZIP64_EOCD_MIN_BYTES \<le> file_size
      then zbind (read_exact raw_record_offset ZIP64_EOCD_MIN_BYTES) (\<lambda>candidate.
        let candidate_size = le_field candidate 4 8;
            candidate_end = raw_record_offset + 12 + candidate_size
        in if octets_at candidate 0 4 = ZIP64_EOCD_SIGNATURE \<and> candidate_size \<ge> 44 \<and> candidate_end = locator_offset
           then zret (Some (unpack_zip64_eocd candidate)) else zret None)
      else zret None)"

definition zip64_record :: "int \<Rightarrow> int \<Rightarrow> int \<Rightarrow> (zip64_eocd \<times> int) zip_io" where
  "zip64_record raw_record_offset locator_offset file_size =
     zbind (zip64_candidate raw_record_offset locator_offset file_size) (\<lambda>found. case found of
       Some r \<Rightarrow> zret (r, raw_record_offset)
     | None \<Rightarrow>
         let physical_record_offset = locator_offset - ZIP64_EOCD_MIN_BYTES in
         zbind (raise_first [(physical_record_offset < 0, ''ZIP64 end record points outside the file'')]) (\<lambda>_.
         zbind (read_exact physical_record_offset ZIP64_EOCD_MIN_BYTES) (\<lambda>b.
         zret (unpack_zip64_eocd b, physical_record_offset))))"

definition zip64_details :: "int \<Rightarrow> int \<Rightarrow> (int \<times> int \<times> int \<times> int) zip_io" where
  "zip64_details eocd_offset file_size =
     (let locator_offset = eocd_offset - ZIP64_LOCATOR_BYTES in
      zbind (raise_first [(locator_offset < 0, ''ZIP64 locator is missing'')]) (\<lambda>_.
      zbind (read_exact locator_offset ZIP64_LOCATOR_BYTES) (\<lambda>b.
      let locator = unpack_zip64_locator b in
      zbind (raise_first
        [(lo_signature locator \<noteq> ZIP64_LOCATOR_SIGNATURE, ''ZIP64 locator is missing''),
         (lo_disk_number locator \<noteq> 0 \<or> lo_disk_count locator \<noteq> 1,
          ''multi-disk ZIP containers are not supported'')]) (\<lambda>_.
      zbind (zip64_record (lo_record_offset locator) locator_offset file_size) (\<lambda>(r, physical_record_offset).
      let record_end = physical_record_offset + 12 + z64_record_size r in
      zbind (raise_first
        [(z64_signature r \<noteq> ZIP64_EOCD_SIGNATURE \<or> z64_record_size r < 44, ''invalid ZIP64 end record''),
         (record_end \<noteq> locator_offset, ''ZIP64 end record is not adjacent to its locator''),
         (z64_disk_number r \<noteq> 0 \<or> z64_central_disk r \<noteq> 0 \<or> z64_disk_members r \<noteq> z64_members r,
          ''multi-disk ZIP containers are not supported''),
         (record_end > file_size, ''ZIP64 end record points outside the file'')]) (\<lambda>_.
      zret (z64_members r, z64_central_size r, z64_central_offset r, physical_record_offset)))))))"

definition zip64_values :: "int \<Rightarrow> int \<Rightarrow> (int \<times> int \<times> int) zip_io" where
  "zip64_values eocd_offset file_size =
     zbind (zip64_details eocd_offset file_size) (\<lambda>(members, central_size, central_offset, record_offset).
     zret (members, central_size, central_offset))"

text \<open>The extra fields of a member: every length is checked, at most one is the ZIP64 field.\<close>

function zip64_payload_loop :: "octets \<Rightarrow> nat \<Rightarrow> octets option \<Rightarrow> zip_error + octets option" where
  "zip64_payload_loop extra cursor found =
     (if cursor < length extra then
        if length extra - cursor < 4 then Inl (ZipStructureError ''truncated ZIP extra field header'')
        else
          let field_id = le_field extra cursor 2;
              field_length = nat (le_field extra (cursor + 2) 2);
              field_start = cursor + 4;
              field_end = field_start + field_length
          in if field_end > length extra
             then Inl (ZipStructureError ''ZIP extra field extends beyond its member record'')
             else if field_id = ZIP64_EXTRA_FIELD_ID \<and> found \<noteq> None
             then Inl (ZipStructureError ''duplicate ZIP64 extra field'')
             else zip64_payload_loop extra field_end
                    (if field_id = ZIP64_EXTRA_FIELD_ID then Some (octets_at extra field_start field_length) else found)
      else Inr found)"
  by pat_completeness auto

termination
  by (relation "measure (\<lambda>(extra, cursor, _). length extra - cursor)") (auto simp: Let_def)

declare zip64_payload_loop.simps [simp del]

text \<open>\<open>take(width)\<close>, run only when the field needs it; it answers the value and the advanced cursor.\<close>

definition take_if :: "bool \<Rightarrow> octets \<Rightarrow> nat \<Rightarrow> nat \<Rightarrow> int \<Rightarrow> zip_error + int \<times> nat" where
  "take_if needed payload cursor width old =
     (if \<not> needed then Inr (old, cursor)
      else if length payload < cursor + width then Inl (ZipStructureError ''truncated ZIP64 member extra data'')
      else Inr (le_field payload cursor width, cursor + width))"

record entry_values =
  ev_compressed_size :: int
  ev_uncompressed_size :: int
  ev_local_header_offset :: int
  ev_disk_number_start :: int

definition zip64_entry_values :: "central_directory \<Rightarrow> octets \<Rightarrow> zip_error + entry_values" where
  "zip64_entry_values central extra = (case zip64_payload_loop extra 0 None of
     Inl e \<Rightarrow> Inl e
   | Inr zip64_payload \<Rightarrow>
       let needs_uncompressed = (cd_uncompressed_size central = 0xFFFFFFFF);
           needs_compressed = (cd_compressed_size central = 0xFFFFFFFF);
           needs_local_offset = (cd_local_header_offset central = 0xFFFFFFFF);
           needs_disk_number = (cd_disk_number_start central = 0xFFFF)
       in if \<not> (needs_uncompressed \<or> needs_compressed \<or> needs_local_offset \<or> needs_disk_number)
          then Inr \<lparr>ev_compressed_size = cd_compressed_size central,
                 ev_uncompressed_size = cd_uncompressed_size central,
                 ev_local_header_offset = cd_local_header_offset central,
                 ev_disk_number_start = cd_disk_number_start central\<rparr>
          else (case zip64_payload of
             None \<Rightarrow> Inl (ZipStructureError ''ZIP64 member field has no ZIP64 extra value'')
           | Some payload \<Rightarrow>
               (case take_if needs_uncompressed payload 0 8 (cd_uncompressed_size central) of
                  Inl e \<Rightarrow> Inl e
                | Inr (uncompressed, c_1) \<Rightarrow>
               (case take_if needs_compressed payload c_1 8 (cd_compressed_size central) of
                  Inl e \<Rightarrow> Inl e
                | Inr (compressed, c_2) \<Rightarrow>
               (case take_if needs_local_offset payload c_2 8 (cd_local_header_offset central) of
                  Inl e \<Rightarrow> Inl e
                | Inr (local_offset, c_3) \<Rightarrow>
               (case take_if needs_disk_number payload c_3 4 (cd_disk_number_start central) of
                  Inl e \<Rightarrow> Inl e
                | Inr (disk, c_4) \<Rightarrow>
                    Inr \<lparr>ev_compressed_size = compressed, ev_uncompressed_size = uncompressed,
                       ev_local_header_offset = local_offset, ev_disk_number_start = disk\<rparr>))))))"

section \<open>The central directory\<close>

definition has_flag :: "int \<Rightarrow> nat \<Rightarrow> bool" where
  "has_flag flags n \<longleftrightarrow> bit flags n"

definition decode_name :: "int \<Rightarrow> octets \<Rightarrow> code_points option" where
  "decode_name flags raw =
     (if has_flag flags 11 then utf8_decode (map unat raw) else Some (cp437_decode (map unat raw)))"

definition require_name :: "int \<Rightarrow> octets \<Rightarrow> code_points zip_io" where
  "require_name flags raw = (case decode_name flags raw of
     None \<Rightarrow> zraise (ZipStructureError ''ZIP member name is not decodable'')
   | Some name \<Rightarrow>
       zbind (raise_first [(0 \<in> set name, ''ZIP member name contains a NUL byte'')]) (\<lambda>_. zret name))"

text \<open>The checks of the local header against the central record.\<close>

definition payload_offset_of :: "int \<Rightarrow> local_file \<Rightarrow> int" where
  "payload_offset_of header_offset l = header_offset + LOCAL_FILE_SIZE + lf_name_length l + lf_extra_length l"

definition local_checks :: "local_file \<Rightarrow> int \<Rightarrow> entry_values \<Rightarrow> int \<Rightarrow> int \<Rightarrow> (bool \<times> string) list" where
  "local_checks l header_offset v central_directory_offset file_size =
     (let payload_offset = payload_offset_of header_offset l;
          sizes_final = (\<not> has_flag (lf_flags l) 3)
      in [(lf_signature l \<noteq> LOCAL_FILE_SIGNATURE, ''invalid ZIP local file header''),
          (payload_offset > central_directory_offset, ''ZIP local file header extends into the central directory''),
          (ev_compressed_size v > central_directory_offset - payload_offset,
           ''ZIP member payload points outside member data''),
          (sizes_final \<and> lf_compressed_size l \<notin> {0xFFFFFFFF, ev_compressed_size v},
           ''ZIP local and central compressed sizes disagree''),
          (sizes_final \<and> lf_uncompressed_size l \<notin> {0xFFFFFFFF, ev_uncompressed_size v},
           ''ZIP local and central uncompressed sizes disagree''),
          (payload_offset + ev_compressed_size v > file_size, ''ZIP member payload points outside the file'')])"

definition validate_central_member ::
    "central_directory \<Rightarrow> int \<Rightarrow> int \<Rightarrow> int option \<Rightarrow> int \<Rightarrow> int \<Rightarrow> int \<Rightarrow> zip_member_structure zip_io" where
  "validate_central_member central ordinal extra_offset name_offset central_directory_offset offset_adjustment file_size =
     (let name_at = (case name_offset of None \<Rightarrow> extra_offset - cd_name_length central | Some o_ \<Rightarrow> o_) in
      zbind (read_exact name_at (cd_name_length central)) (\<lambda>raw_name.
      zbind (require_name (cd_flags central) raw_name) (\<lambda>name.
      zbind (raise_first [(cd_signature central \<noteq> CENTRAL_SIGNATURE,
        ''invalid ZIP central directory record signature'')]) (\<lambda>_.
      zbind (read_exact extra_offset (cd_extra_length central)) (\<lambda>extra.
      zbind (zlift (zip64_entry_values central extra)) (\<lambda>v.
      let header_offset = ev_local_header_offset v + offset_adjustment in
      zbind (raise_first
        [(ev_disk_number_start v \<noteq> 0, ''multi-disk ZIP members are not supported''),
         (header_offset < 0 \<or> header_offset \<ge> central_directory_offset,
          ''ZIP local header points outside member data''),
         (header_offset + LOCAL_FILE_SIZE > central_directory_offset, ''truncated ZIP local file header'')]) (\<lambda>_.
      zbind (read_exact header_offset LOCAL_FILE_SIZE) (\<lambda>b.
      let l = unpack_local_file b in
      zbind (raise_first (local_checks l header_offset v central_directory_offset file_size)) (\<lambda>_.
      zret \<lparr>zm_ordinal = ordinal, zm_filename = name, zm_header_offset = header_offset,
         zm_payload_offset = payload_offset_of header_offset l,
         zm_compressed_size = ev_compressed_size v, zm_uncompressed_size = ev_uncompressed_size v,
         zm_crc32 = cd_crc32 central, zm_compression_method = cd_compression central,
         zm_flags = cd_flags central, zm_upper_bound = central_directory_offset,
         zm_is_directory = (name \<noteq> [] \<and> last name = 47)\<rparr>)))))))))"

record central_scan =
  cs_offset :: int
  cs_bytes :: int
  cs_declared :: int
  cs_max_members :: int
  cs_adjustment :: int
  cs_file_size :: int

definition cs_end :: "central_scan \<Rightarrow> int" where
  "cs_end c = cs_offset c + cs_bytes c"

text \<open>One iteration of the scan: the entry and the length of its record.\<close>

definition central_step :: "central_scan \<Rightarrow> int \<Rightarrow> int \<Rightarrow> int list \<Rightarrow> (zip_member_structure \<times> int) zip_io" where
  "central_step c cursor actual_members seen =
     (let remaining = cs_end c - cursor in
      zbind (raise_first [(remaining < CENTRAL_DIRECTORY_SIZE, ''truncated ZIP central directory record'')]) (\<lambda>_.
      zbind (read_exact cursor CENTRAL_DIRECTORY_SIZE) (\<lambda>b.
      let central = unpack_central_directory b;
          record_length = CENTRAL_DIRECTORY_SIZE + cd_name_length central + cd_extra_length central
            + cd_comment_length central;
          actual = actual_members + 1
      in zbind (raise_first
        [(cd_signature central \<noteq> CENTRAL_SIGNATURE, ''invalid ZIP central directory record signature''),
         (record_length > remaining, ''ZIP central directory record extends beyond its boundary''),
         (actual > cs_max_members c, ''ZIP contains more members than the limit''),
         (actual > cs_declared c,
          ''ZIP central directory contains more records than its end record declares'')]) (\<lambda>_.
      zbind (validate_central_member central (actual - 1) (cursor + CENTRAL_DIRECTORY_SIZE + cd_name_length central)
        (Some (cursor + CENTRAL_DIRECTORY_SIZE)) (cs_offset c) (cs_adjustment c) (cs_file_size c)) (\<lambda>entry.
      zbind (raise_first [(zm_header_offset entry \<in> set seen, ''ZIP members share a local header offset'')]) (\<lambda>_.
      zret (entry, record_length)))))))"

lemma yields_read_exact [yields_simps]:
  "yields (read_exact offset n) d b \<longleftrightarrow>
     0 \<le> offset \<and> 0 \<le> n \<and> b = octets_at d (nat offset) (nat n) \<and> int (length b) = n"
  unfolding yields_def read_exact_def zbind_def seek_def read_def raise_first.simps zret_def
  by (auto simp: read_at_def octets_at_def split: if_splits)

lemma central_step_length:
  "yields (central_step c cursor n seen) d (entry, record_length) \<Longrightarrow> 46 \<le> record_length"
  by (auto simp: central_step_def Let_def yields_simps unpack_central_directory_def zip_sizes elim!: yields_zbindE)

lemma central_step_progress:
  assumes "(Inr (entry, record_length), q) = central_step c cursor n seen d p"
  shows "0 < record_length"
proof -
  have "yields (central_step c cursor n seen) d (entry, record_length)"
    by (rule yieldsI [of _ _ p]) (simp flip: assms)
  then show ?thesis by (auto dest: central_step_length)
qed

function central_loop :: "central_scan \<Rightarrow> int \<Rightarrow> int \<Rightarrow> int list \<Rightarrow> zip_member_structure list
    \<Rightarrow> (zip_member_structure list \<times> int \<times> int) zip_io" where
  "central_loop c cursor actual_members seen entries d p =
     (if cursor < cs_end c then
        (case central_step c cursor actual_members seen d p of
           (Inl e, q) \<Rightarrow> (Inl e, q)
         | (Inr (entry, record_length), q) \<Rightarrow>
             central_loop c (cursor + record_length) (actual_members + 1) (zm_header_offset entry # seen)
               (entries @ [entry]) d q)
      else (Inr (entries, cursor, actual_members), p))"
  by pat_completeness auto

termination
  by (relation "measure (\<lambda>(c, cursor, _). nat (cs_end c - cursor))")
    (auto dest: central_step_progress)

declare central_loop.simps [simp del]

text \<open>\<open>sorted(entries, key=...)\<close> is stable; the offsets are distinct, so each has its own bound.\<close>

definition upper_bounds :: "zip_member_structure list \<Rightarrow> int \<Rightarrow> (int, int) dict" where
  "upper_bounds entries central_directory_offset =
     (let by_offset = sort_key zm_header_offset entries in
      map (\<lambda>index. (zm_header_offset (by_offset ! index),
             if index + 1 < length by_offset then zm_header_offset (by_offset ! (index + 1))
             else central_directory_offset))
        [0..<length by_offset])"

definition inspect_central_directory :: "central_scan \<Rightarrow> zip_member_structure list zip_io" where
  "inspect_central_directory c =
     zbind (central_loop c (cs_offset c) 0 [] []) (\<lambda>(entries, cursor, actual_members).
     zbind (raise_first
       [(cursor \<noteq> cs_end c, ''ZIP central directory length is inconsistent''),
        (actual_members \<noteq> cs_declared c,
         ''ZIP central directory member count disagrees with its end record'')]) (\<lambda>_.
     let bounds = upper_bounds entries (cs_offset c) in
     zret (map (\<lambda>item. item\<lparr>zm_upper_bound := dict_get_or bounds (zm_header_offset item) 0\<rparr>) entries)))"

section \<open>Public validation\<close>

definition eocd_is_zip64 :: "eocd_values \<Rightarrow> bool" where
  "eocd_is_zip64 v \<longleftrightarrow> eo_disk_members v = 0xFFFF \<or> eo_members v = 0xFFFF
     \<or> eo_central_size v = 0xFFFFFFFF \<or> eo_central_offset v = 0xFFFFFFFF"

text \<open>Members, size and offset of the central directory, and where it must end.\<close>

definition directory_values :: "eocd_values \<Rightarrow> int \<Rightarrow> int \<Rightarrow> (int \<times> int \<times> int \<times> int) zip_io" where
  "directory_values v eocd_offset file_size =
     (if eocd_is_zip64 v then
        zbind (zip64_details eocd_offset file_size) (\<lambda>(members, size, offset, record_offset).
        zbind (raise_first
          [(eo_disk_members v \<noteq> 0xFFFF \<and> eo_disk_members v \<noteq> members,
            ''ZIP end record member counts are inconsistent''),
           (eo_members v \<noteq> 0xFFFF \<and> eo_members v \<noteq> members, ''ZIP end record member counts are inconsistent''),
           (eo_central_size v \<noteq> 0xFFFFFFFF \<and> eo_central_size v \<noteq> size,
            ''ZIP end record central directory sizes are inconsistent''),
           (eo_central_offset v \<noteq> 0xFFFFFFFF \<and> eo_central_offset v \<noteq> offset,
            ''ZIP end record central directory offsets are inconsistent'')]) (\<lambda>_.
        zret (members, size, offset, record_offset)))
      else
        zbind (raise_first [(eo_disk_members v \<noteq> eo_members v, ''multi-disk ZIP containers are not supported'')]) (\<lambda>_.
        zret (eo_members v, eo_central_size v, eo_central_offset v, eocd_offset)))"

definition inspect_zip_source :: "int \<Rightarrow> int \<Rightarrow> int \<Rightarrow> zip_structure zip_io" where
  "inspect_zip_source file_size max_members max_central_directory_bytes =
     (if file_size < 0 then zraise (Zip_ValueError ''file_size cannot be negative'')
      else if max_members < 1 then zraise (Zip_ValueError ''max_members must be positive'')
      else if max_central_directory_bytes < 1
      then zraise (Zip_ValueError ''max_central_directory_bytes must be positive'')
      else
        zbind (raise_first [(file_size < EOCD_FIXED_BYTES, ''file is too small to contain a ZIP end record'')]) (\<lambda>_.
        zbind (find_eocd file_size) (\<lambda>(eocd_offset, v).
        zbind (raise_first
          [(eocd_offset + EOCD_FIXED_BYTES + eo_comment_length v \<noteq> file_size,
            ''ZIP end record is not at the end of the file''),
           (eo_disk_number v \<noteq> 0 \<or> eo_central_disk v \<noteq> 0, ''multi-disk ZIP containers are not supported'')]) (\<lambda>_.
        zbind (directory_values v eocd_offset file_size) (\<lambda>(members, central_size, central_offset, expected_central_end).
        let offset_adjustment = expected_central_end - central_size - central_offset;
            physical_central_offset = central_offset + offset_adjustment
        in zbind (raise_first
          [(members > max_members, ''ZIP contains more members than the limit''),
           (central_size > max_central_directory_bytes, ''ZIP central directory exceeds the safety limit''),
           (central_size > expected_central_end, ''ZIP central directory points outside the file''),
           (offset_adjustment < 0, ''ZIP central directory does not end at its end record''),
           (physical_central_offset < 0 \<or> physical_central_offset + central_size > file_size,
            ''ZIP central directory points outside the file'')]) (\<lambda>_.
        zbind (inspect_central_directory \<lparr>cs_offset = physical_central_offset, cs_bytes = central_size,
            cs_declared = members, cs_max_members = max_members, cs_adjustment = offset_adjustment,
            cs_file_size = file_size\<rparr>) (\<lambda>entries.
        zret \<lparr>zs_members = members, zs_central_directory_bytes = central_size,
           zs_central_directory_offset = physical_central_offset, zs_zip64 = eocd_is_zip64 v,
           zs_entries = entries\<rparr>)))))))"

text \<open>The position is restored on every path, by the \<open>finally\<close> clause.\<close>

definition zfinally :: "'a zip_io \<Rightarrow> unit zip_io \<Rightarrow> 'a zip_io" where
  "zfinally m f d p = (case m d p of (r, q) \<Rightarrow>
     (case f d q of (Inl e, q') \<Rightarrow> (Inl e, q') | (Inr _, q') \<Rightarrow> (r, q')))"

definition inspect_zip_stream :: "int \<Rightarrow> int \<Rightarrow> int \<Rightarrow> zip_structure zip_io" where
  "inspect_zip_stream file_size max_members max_central_directory_bytes =
     (if file_size < 0 then zraise (Zip_ValueError ''file_size cannot be negative'')
      else zbind tell (\<lambda>position.
        zfinally (inspect_zip_source file_size max_members max_central_directory_bytes) (seek position)))"

text \<open>
  A path is opened after its size was asked for, so size and content may disagree;
  a buffer is its own size. Both streams are fresh, at position 0.
\<close>

definition inspect_zip_structure :: "int \<Rightarrow> octets \<Rightarrow> int \<Rightarrow> int \<Rightarrow> zip_error + zip_structure" where
  "inspect_zip_structure getsize content max_members max_central_directory_bytes =
     fst (inspect_zip_stream getsize max_members max_central_directory_bytes content 0)"

definition inspect_zip_bytes :: "octets \<Rightarrow> int \<Rightarrow> int \<Rightarrow> zip_error + zip_structure" where
  "inspect_zip_bytes payload max_members max_central_directory_bytes =
     fst (inspect_zip_stream (int (length payload)) max_members max_central_directory_bytes payload 0)"

end
