(* ===== verification/Zip_Soundness.thy ===== *)
theory Zip_Soundness
  imports Zip_Structure
begin

text \<open>
  What an accepted archive satisfies. The facts follow the preflight outwards:
  one member against its local header, the scan of the central directory, the
  physical boundaries between members, the end record, the whole inspection.
\<close>

section \<open>One member\<close>

lemma take_if_nonneg: "take_if needed payload cursor width old = Inr (v, c) \<Longrightarrow> 0 \<le> old \<Longrightarrow> 0 \<le> v"
  by (auto simp: take_if_def split: if_splits)

lemma zip64_entry_values_nonneg:
  assumes "zip64_entry_values (unpack_central_directory b) extra = Inr v"
  shows "0 \<le> ev_compressed_size v \<and> 0 \<le> ev_uncompressed_size v \<and> 0 \<le> ev_local_header_offset v"
  using assms unfolding zip64_entry_values_def
  by (auto simp: Let_def unpack_central_directory_def split: sum.splits if_splits option.splits prod.splits
      dest!: take_if_nonneg)

lemma require_name_no_nul: "yields (require_name flags raw) d name \<Longrightarrow> 0 \<notin> set name \<and> decode_name flags raw = Some name"
  by (auto simp: require_name_def yields_simps split: option.splits elim!: yields_zbindE)

text \<open>A member lies in the data before the central directory and starts with a local header.\<close>

definition member_ok :: "octets \<Rightarrow> int \<Rightarrow> int \<Rightarrow> zip_member_structure \<Rightarrow> bool" where
  "member_ok d central_offset file_size m \<longleftrightarrow>
     0 \<le> zm_header_offset m \<and> zm_header_offset m + LOCAL_FILE_SIZE \<le> zm_payload_offset m
   \<and> 0 \<le> zm_compressed_size m \<and> 0 \<le> zm_uncompressed_size m
   \<and> zm_payload_offset m + zm_compressed_size m \<le> central_offset
   \<and> zm_payload_offset m + zm_compressed_size m \<le> file_size
   \<and> octets_at d (nat (zm_header_offset m)) 4 = LOCAL_FILE_SIGNATURE
   \<and> 0 \<notin> set (zm_filename m)
   \<and> (zm_is_directory m \<longleftrightarrow> zm_filename m \<noteq> [] \<and> last (zm_filename m) = 47)"

lemma member_ok_upper [simp]: "member_ok d c f (m\<lparr>zm_upper_bound := u\<rparr>) = member_ok d c f m"
  by (simp add: member_ok_def)

lemma octets_at_prefix: "octets_at (octets_at d a n) 0 k = octets_at d a (min n k)"
  by (simp add: octets_at_def take_take min.commute)

lemma validate_central_member_sound:
  assumes "yields (validate_central_member (unpack_central_directory b) ordinal eo no c adj f) d m"
  shows "member_ok d c f m \<and> zm_ordinal m = ordinal"
  using assms unfolding validate_central_member_def
  by (auto simp: Let_def yields_simps local_checks_def member_ok_def payload_offset_of_def unpack_local_file_def
      zip_sizes octets_at_prefix elim!: yields_zbindE dest!: zip64_entry_values_nonneg require_name_no_nul)

section \<open>The scan\<close>

lemma central_step_sound:
  assumes "yields (central_step c cursor n seen) d (entry, record_length)"
  shows "member_ok d (cs_offset c) (cs_file_size c) entry" and "zm_ordinal entry = n"
    and "zm_header_offset entry \<notin> set seen" and "n + 1 \<le> cs_max_members c" and "n + 1 \<le> cs_declared c"
    and "46 \<le> record_length" and "cursor + record_length \<le> cs_end c"
  using assms
  by (auto simp: central_step_def Let_def yields_simps zip_sizes unpack_central_directory_def elim!: yields_zbindE
      dest: validate_central_member_sound [unfolded unpack_central_directory_def])

text \<open>The invariant of the scan over the entries gathered so far.\<close>

definition scan_inv :: "octets \<Rightarrow> central_scan \<Rightarrow> int \<Rightarrow> int \<Rightarrow> int list \<Rightarrow> zip_member_structure list \<Rightarrow> bool" where
  "scan_inv d c cursor n seen entries \<longleftrightarrow>
     n = int (length entries) \<and> seen = rev (map zm_header_offset entries)
   \<and> distinct seen \<and> map zm_ordinal entries = map int [0..<length entries]
   \<and> (\<forall>m\<in>set entries. member_ok d (cs_offset c) (cs_file_size c) m)
   \<and> cs_offset c + 46 * n \<le> cursor \<and> (entries \<noteq> [] \<longrightarrow> cursor \<le> cs_end c \<and> n \<le> cs_max_members c)"

lemma scan_inv_step:
  assumes "scan_inv d c cursor n seen entries" and "yields (central_step c cursor n seen) d (entry, record_length)"
  shows "scan_inv d c (cursor + record_length) (n + 1) (zm_header_offset entry # seen) (entries @ [entry])"
  using assms(1) central_step_sound [OF assms(2)] by (auto simp: scan_inv_def)

lemma central_loop_sound:
  "central_loop c cursor n seen entries d p = (Inr (entries', cursor', n'), q) \<Longrightarrow> scan_inv d c cursor n seen entries
     \<Longrightarrow> \<exists>seen'. scan_inv d c cursor' n' seen' entries'"
proof (induction c cursor n seen entries d p rule: central_loop.induct)
  case (1 c cursor n seen entries d p)
  show ?case
  proof (cases "cursor < cs_end c")
    case True
    with "1.prems"(1) obtain entry record_length r where
      step: "central_step c cursor n seen d p = (Inr (entry, record_length), r)"
      by (subst (asm) central_loop.simps) (auto split: prod.splits sum.splits)
    then have "yields (central_step c cursor n seen) d (entry, record_length)"
      by (intro yieldsI [of _ _ p]) simp
    with "1.prems"(2) have "scan_inv d c (cursor + record_length) (n + 1) (zm_header_offset entry # seen) (entries @ [entry])"
      by (rule scan_inv_step)
    moreover have "central_loop c (cursor + record_length) (n + 1) (zm_header_offset entry # seen) (entries @ [entry]) d r
        = (Inr (entries', cursor', n'), q)"
      using "1.prems"(1) True step by (subst (asm) central_loop.simps) simp
    ultimately show ?thesis
      using "1.IH" [OF True step [symmetric]] by simp
  next
    case False
    with "1.prems" show ?thesis
      by (subst (asm) central_loop.simps) auto
  qed
qed

section \<open>Physical boundaries\<close>

lemma dict_get_map_index:
  assumes "distinct ks" and "length vs = length ks" and "i < length ks"
  shows "dict_get (zip ks vs) (ks ! i) = Some (vs ! i)"
  using assms
proof (induction ks arbitrary: vs i)
  case (Cons k ks)
  then obtain v vs' where "vs = v # vs'" by (cases vs) auto
  with Cons show ?case by (cases i) auto
qed simp

text \<open>
  The bound of a header offset: a header offset or the start of the central
  directory, beyond the offset, and no header lies between.
\<close>

definition next_boundary :: "int list \<Rightarrow> int \<Rightarrow> int \<Rightarrow> int \<Rightarrow> bool" where
  "next_boundary headers central_offset h u \<longleftrightarrow>
     u \<in> insert central_offset (set headers) \<and> h < u \<and> (\<forall>h'\<in>set headers. h < h' \<longrightarrow> u \<le> h')"

lemma next_boundary_sorted:
  assumes "sorted hs" and "distinct hs" and "i < length hs" and "\<forall>h\<in>set hs. h < c"
  shows "next_boundary hs c (hs ! i) (if i + 1 < length hs then hs ! (i + 1) else c)"
proof -
  have mono: "hs ! j < hs ! k \<longleftrightarrow> j < k" if "j < length hs" "k < length hs" for j k
    using assms(1,2) that by (metis linorder_neqE_nat less_asym less_irrefl sorted_nth_mono order_less_le
        nth_eq_iff_index_eq nat_less_le)
  show ?thesis
  proof (cases "i + 1 < length hs")
    case True
    have "hs ! (i + 1) \<le> h'" if "h' \<in> set hs" "hs ! i < h'" for h'
      using that assms(1) mono [OF assms(3)] by (auto simp: in_set_conv_nth intro!: sorted_nth_mono)
    with True show ?thesis
      using mono [of i "i + 1"] by (auto simp: next_boundary_def)
  next
    case False
    then have "\<not> hs ! i < h'" if "h' \<in> set hs" for h'
      using that mono [OF assms(3)] by (auto simp: in_set_conv_nth)
    with False assms(3,4) show ?thesis by (auto simp: next_boundary_def)
  qed
qed

lemma upper_bounds_next:
  assumes "distinct (map zm_header_offset entries)" and "m \<in> set entries"
    and "\<forall>e\<in>set entries. zm_header_offset e < c"
  shows "next_boundary (map zm_header_offset entries) c (zm_header_offset m)
           (dict_get_or (upper_bounds entries c) (zm_header_offset m) 0)"
proof -
  let ?s = "sort_key zm_header_offset entries"
  let ?hs = "map zm_header_offset ?s"
  let ?vs = "map (\<lambda>i. if i + 1 < length ?s then zm_header_offset (?s ! (i + 1)) else c) [0..<length ?s]"
  have hs: "sorted ?hs" "distinct ?hs" "set ?hs = set (map zm_header_offset entries)"
    using assms(1) by (simp_all add: distinct_map)
  from assms(2) obtain i where i: "i < length ?s" "?s ! i = m"
    by (metis in_set_conv_nth set_sort)
  have "upper_bounds entries c = zip ?hs ?vs"
    by (rule nth_equalityI) (auto simp: upper_bounds_def Let_def)
  then have "dict_get_or (upper_bounds entries c) (zm_header_offset m) 0 = ?vs ! i"
    using dict_get_map_index [OF hs(2), of ?vs i] i by (simp add: dict_get_or_def)
  moreover have "next_boundary ?hs c (?hs ! i) (if i + 1 < length ?hs then ?hs ! (i + 1) else c)"
    using hs i assms(3) by (intro next_boundary_sorted) auto
  moreover have "?vs ! i = (if i + 1 < length ?hs then ?hs ! (i + 1) else c)"
    using i by simp
  ultimately show ?thesis
    using i hs(3) by (simp add: next_boundary_def)
qed

lemma inspect_central_directory_sound:
  assumes "yields (inspect_central_directory c) d entries"
  shows "int (length entries) = cs_declared c" and "46 * int (length entries) \<le> cs_bytes c"
    and "map zm_ordinal entries = map int [0..<length entries]"
    and "distinct (map zm_header_offset entries)"
    and "\<forall>m\<in>set entries. member_ok d (cs_offset c) (cs_file_size c) m
           \<and> next_boundary (map zm_header_offset entries) (cs_offset c) (zm_header_offset m) (zm_upper_bound m)"
proof -
  from assms obtain es cursor n where
    loop: "yields (central_loop c (cs_offset c) 0 [] []) d (es, cursor, n)"
    and fin: "cursor = cs_end c" "n = cs_declared c"
    and entries: "entries = map (\<lambda>item. item\<lparr>zm_upper_bound := dict_get_or (upper_bounds es (cs_offset c)) (zm_header_offset item) 0\<rparr>) es"
    unfolding inspect_central_directory_def
    by (auto simp: Let_def yields_simps elim!: yields_zbindE)
  from loop obtain p q where "central_loop c (cs_offset c) 0 [] [] d p = (Inr (es, cursor, n), q)"
    unfolding yields_def by (metis prod.collapse)
  from central_loop_sound [OF this] obtain seen where inv: "scan_inv d c cursor n seen es"
    by (auto simp: scan_inv_def)
  then have dist: "distinct (map zm_header_offset es)"
    by (auto simp: scan_inv_def)
  moreover have "\<forall>e\<in>set es. zm_header_offset e < cs_offset c"
    using inv by (auto simp: scan_inv_def member_ok_def zip_sizes)
  ultimately have next_b: "next_boundary (map zm_header_offset es) (cs_offset c) (zm_header_offset m)
      (dict_get_or (upper_bounds es (cs_offset c)) (zm_header_offset m) 0)" if "m \<in> set es" for m
    using that by (intro upper_bounds_next)
  have keep: "map zm_header_offset entries = map zm_header_offset es" "map zm_ordinal entries = map zm_ordinal es"
    "length entries = length es"
    by (simp_all add: entries)
  show "int (length entries) = cs_declared c" and "46 * int (length entries) \<le> cs_bytes c"
    using inv fin keep by (auto simp: scan_inv_def cs_end_def)
  show "map zm_ordinal entries = map int [0..<length entries]" and "distinct (map zm_header_offset entries)"
    using inv keep dist by (auto simp: scan_inv_def)
  show "\<forall>m\<in>set entries. member_ok d (cs_offset c) (cs_file_size c) m
           \<and> next_boundary (map zm_header_offset entries) (cs_offset c) (zm_header_offset m) (zm_upper_bound m)"
    using inv next_b unfolding keep by (auto simp: scan_inv_def entries)
qed

section \<open>The end record\<close>

text \<open>Reference: the last index at which a complete end record stands.\<close>

definition eocd_at :: "octets \<Rightarrow> nat \<Rightarrow> bool" where
  "eocd_at tail i \<longleftrightarrow> occurs_at EOCD_SIGNATURE tail i \<and> eocd_fits tail i"

definition last_eocd :: "octets \<Rightarrow> (nat \<times> eocd_values) option" where
  "last_eocd tail =
     (let found = filter (eocd_at tail) [0..<length tail] in
      if found = [] then None else Some (last found, unpack_eocd (drop (last found) tail)))"

lemma occurs_at_nth: "occurs_at pat bs i \<Longrightarrow> k < length pat \<Longrightarrow> bs ! (i + k) = pat ! k"
  unfolding occurs_at_def octets_at_def by (metis add_leE nth_drop nth_take)

text \<open>The signature starts with a byte it does not contain again: occurrences never overlap.\<close>

lemma eocd_signature_apart:
  assumes "occurs_at EOCD_SIGNATURE bs i" and "occurs_at EOCD_SIGNATURE bs j" and "i < j"
  shows "i + 4 \<le> j"
proof (rule ccontr)
  assume "\<not> i + 4 \<le> j"
  with assms(3) obtain k where k: "j = i + k" "0 < k" "k < 4"
    by (metis add_less_cancel_left add_diff_inverse_nat less_imp_le_nat not_le zero_less_diff not_less)
  then have "EOCD_SIGNATURE ! k = EOCD_SIGNATURE ! 0"
    using occurs_at_nth [OF assms(1), of k] occurs_at_nth [OF assms(2), of 0] by (simp add: EOCD_SIGNATURE_def)
  moreover have "k = 1 \<or> k = 2 \<or> k = 3" using k by linarith
  ultimately show False by (auto simp: EOCD_SIGNATURE_def)
qed

lemma find_eocd_loop_Some:
  "find_eocd_loop tail e = Some (i, v) \<Longrightarrow>
     eocd_at tail i \<and> v = unpack_eocd (drop i tail) \<and> (\<forall>j. i < j \<and> j + 4 \<le> e \<longrightarrow> \<not> eocd_at tail j)"
proof (induction tail e rule: find_eocd_loop.induct)
  case (1 tail e)
  show ?case
  proof (cases "rfind EOCD_SIGNATURE tail e")
    case None
    with "1.prems" show ?thesis by (simp add: find_eocd_loop.simps)
  next
    case (Some k)
    then have k: "occurs_at EOCD_SIGNATURE tail k" "\<And>j. k < j \<Longrightarrow> j + 4 \<le> e \<Longrightarrow> \<not> occurs_at EOCD_SIGNATURE tail j"
      by (auto simp: rfind_Some EOCD_SIGNATURE_def)
    show ?thesis
    proof (cases "eocd_fits tail k")
      case True
      with "1.prems" Some k show ?thesis
        by (auto simp: find_eocd_loop.simps eocd_at_def)
    next
      case False
      with "1.prems" Some have "find_eocd_loop tail k = Some (i, v)"
        by (subst (asm) find_eocd_loop.simps) simp
      from "1.IH" [OF Some False this]
      have ih: "eocd_at tail i" "v = unpack_eocd (drop i tail)" "\<And>j. i < j \<Longrightarrow> j + 4 \<le> k \<Longrightarrow> \<not> eocd_at tail j"
        by blast+
      have "\<not> eocd_at tail j" if "i < j" "j + 4 \<le> e" for j
        using that k ih(3) [of j] False eocd_signature_apart [OF _ k(1), of j]
        by (auto simp: eocd_at_def) (metis linorder_neqE_nat)
      with ih show ?thesis by blast
    qed
  qed
qed

lemma find_eocd_loop_None: "find_eocd_loop tail e = None \<Longrightarrow> j + 4 \<le> e \<Longrightarrow> \<not> eocd_at tail j"
proof (induction tail e arbitrary: j rule: find_eocd_loop.induct)
  case (1 tail e)
  show ?case
  proof (cases "rfind EOCD_SIGNATURE tail e")
    case None
    with "1.prems" show ?thesis by (auto simp: rfind_None eocd_at_def EOCD_SIGNATURE_def)
  next
    case (Some k)
    with "1.prems"(1) have miss: "\<not> eocd_fits tail k" and rest: "find_eocd_loop tail k = None"
      by (subst (asm) find_eocd_loop.simps, simp split: if_splits)+
    from Some have k: "occurs_at EOCD_SIGNATURE tail k" "k < j \<Longrightarrow> \<not> occurs_at EOCD_SIGNATURE tail j"
      using "1.prems"(2) by (auto simp: rfind_Some EOCD_SIGNATURE_def)
    have "\<not> eocd_at tail j" if "j < k"
      using "1.IH" [OF Some miss rest, of j] eocd_signature_apart [OF _ k(1), of j] that by (auto simp: eocd_at_def)
    with k miss show ?thesis by (metis eocd_at_def linorder_neqE_nat)
  qed
qed

lemma eocd_at_fits: "eocd_at tail j \<Longrightarrow> j + 4 \<le> length tail \<and> j < length tail"
  by (simp add: eocd_at_def occurs_at_def EOCD_SIGNATURE_def)

lemma last_filter_upt:
  assumes "i < n" and "P i" and "\<And>j. i < j \<Longrightarrow> j < n \<Longrightarrow> \<not> P j"
  shows "filter P [0..<n] = filter P [0..<i] @ [i]"
proof -
  have "[0..<n] = [0..<i] @ i # [Suc i..<n]"
    using assms(1) by (metis le_add1 less_imp_le_nat plus_nat.add_0 upt_add_eq_append upt_conv_Cons le_add_diff_inverse)
  moreover have "filter P [Suc i..<n] = []"
    using assms(3) by (auto simp: filter_empty_conv)
  ultimately show ?thesis using assms(2) by simp
qed

lemma find_eocd_loop_reference: "find_eocd_loop tail (length tail) = last_eocd tail"
proof (cases "find_eocd_loop tail (length tail)")
  case None
  then have "filter (eocd_at tail) [0..<length tail] = []"
    unfolding filter_empty_conv using find_eocd_loop_None eocd_at_fits by blast
  with None show ?thesis by (simp add: last_eocd_def)
next
  case (Some r)
  then obtain i v where r: "r = (i, v)" by (cases r)
  from find_eocd_loop_Some [OF Some [unfolded r]]
  have "filter (eocd_at tail) [0..<length tail] = filter (eocd_at tail) [0..<i] @ [i]"
    using eocd_at_fits by (intro last_filter_upt) blast+
  with find_eocd_loop_Some [OF Some [unfolded r]] Some r show ?thesis
    by (simp add: last_eocd_def Let_def)
qed

text \<open>
  The backward search returns the last complete end record of the tail, for
  every tail: skipping an occurrence that does not fit loses none.
\<close>

theorem find_eocd_loop_last: "find_eocd_loop tail (length tail) = last_eocd tail"
  by (rule find_eocd_loop_reference)

section \<open>The inspection\<close>

lemma inspect_zip_source_sound:
  assumes "yields (inspect_zip_source file_size max_members max_bytes) d z"
  shows "zs_members z \<le> max_members \<and> zs_central_directory_bytes z \<le> max_bytes
       \<and> 0 \<le> zs_central_directory_offset z
       \<and> zs_central_directory_offset z + zs_central_directory_bytes z \<le> file_size" (is ?bounds)
    and "\<exists>adj. yields (inspect_central_directory \<lparr>cs_offset = zs_central_directory_offset z,
           cs_bytes = zs_central_directory_bytes z, cs_declared = zs_members z, cs_max_members = max_members,
           cs_adjustment = adj, cs_file_size = file_size\<rparr>) d (zs_entries z)" (is ?scan)
proof -
  show ?bounds
    using assms unfolding inspect_zip_source_def
    by (auto simp: Let_def yields_simps elim!: yields_zbindE split: if_splits)
  show ?scan
    using assms unfolding inspect_zip_source_def
    by (auto simp: Let_def yields_simps elim!: yields_zbindE split: if_splits)
qed

lemma inspect_zip_stream_eq:
  assumes "0 \<le> p"
  shows "inspect_zip_stream file_size max_members max_bytes d p
       = (fst (inspect_zip_source file_size max_members max_bytes d p), p)"
  using assms
  by (auto simp: inspect_zip_stream_def inspect_zip_source_def zbind_def tell_def zfinally_def seek_def zraise_def
      split: prod.splits)

lemma inspect_zip_structure_yields:
  "inspect_zip_structure getsize content max_members max_bytes = Inr z
     \<Longrightarrow> yields (inspect_zip_source getsize max_members max_bytes) content z"
  by (auto simp: inspect_zip_structure_def inspect_zip_stream_eq intro: yieldsI)

lemma inspect_scan:
  assumes "inspect_zip_structure getsize content max_members max_bytes = Inr z"
  obtains adj where "yields (inspect_central_directory \<lparr>cs_offset = zs_central_directory_offset z,
        cs_bytes = zs_central_directory_bytes z, cs_declared = zs_members z, cs_max_members = max_members,
        cs_adjustment = adj, cs_file_size = getsize\<rparr>) content (zs_entries z)"
  using inspect_zip_source_sound(2) [OF inspect_zip_structure_yields [OF assms]] by blast

lemma inspect_members:
  assumes "inspect_zip_structure getsize content max_members max_bytes = Inr z" and "m \<in> set (zs_entries z)"
  shows "member_ok content (zs_central_directory_offset z) getsize m"
    and "next_boundary (map zm_header_offset (zs_entries z)) (zs_central_directory_offset z)
           (zm_header_offset m) (zm_upper_bound m)"
  by (rule inspect_scan [OF assms(1)], use inspect_central_directory_sound(5) assms(2) in fastforce)+

lemma inspect_regions:
  assumes "inspect_zip_structure getsize content max_members max_bytes = Inr z"
    and "m \<in> set (zs_entries z)" and "m' \<in> set (zs_entries z)"
  shows "zm_header_offset m < zm_upper_bound m" and "zm_upper_bound m \<le> zs_central_directory_offset z"
    and "m \<noteq> m' \<Longrightarrow> {zm_header_offset m..<zm_upper_bound m} \<inter> {zm_header_offset m'..<zm_upper_bound m'} = {}"
proof -
  note nb = inspect_members(2) [OF assms(1)] and ok = inspect_members(1) [OF assms(1)]
  have "zm_header_offset e \<le> zs_central_directory_offset z" if "e \<in> set (zs_entries z)" for e
    using ok [OF that] by (simp add: member_ok_def zip_sizes)
  then show "zm_header_offset m < zm_upper_bound m" and "zm_upper_bound m \<le> zs_central_directory_offset z"
    using nb [OF assms(2)] by (auto simp: next_boundary_def)
  have "distinct (map zm_header_offset (zs_entries z))"
    by (rule inspect_scan [OF assms(1)]) (rule inspect_central_directory_sound(4))
  then have "m = m'" if "zm_header_offset m = zm_header_offset m'"
    using that assms(2,3) by (auto simp: distinct_map inj_on_def)
  moreover have "zm_upper_bound m \<le> zm_header_offset m'" if "zm_header_offset m < zm_header_offset m'"
    using nb [OF assms(2)] assms(3) that by (auto simp: next_boundary_def)
  moreover have "zm_upper_bound m' \<le> zm_header_offset m" if "zm_header_offset m' < zm_header_offset m"
    using nb [OF assms(3)] assms(2) that by (auto simp: next_boundary_def)
  ultimately show "m \<noteq> m' \<Longrightarrow> {zm_header_offset m..<zm_upper_bound m} \<inter> {zm_header_offset m'..<zm_upper_bound m'} = {}"
    by fastforce
qed

text \<open>
  An archive of two members behind a two-byte stub, as \<open>zipfile\<close> writes it: a
  deflated file and a directory with a UTF-8 name.
\<close>

definition demo_archive :: octets where
  "demo_archive =
  [35, 33, 80, 75, 3, 4, 20, 0, 0, 0, 8, 0, 0, 0, 33, 0, 172, 42, 147, 216, 4, 0, 0, 0,
   2, 0, 0, 0, 1, 0, 0, 0, 97, 203, 200, 4, 0, 80, 75, 3, 4, 20, 0, 0, 8, 0, 0, 0,
   0, 33, 0, 0, 0, 0, 0, 0, 0, 0, 0, 0, 0, 0, 0, 3, 0, 0, 0, 195, 169, 47, 80, 75,
   1, 2, 20, 3, 20, 0, 0, 0, 8, 0, 0, 0, 33, 0, 172, 42, 147, 216, 4, 0, 0, 0, 2, 0,
   0, 0, 1, 0, 0, 0, 0, 0, 0, 0, 0, 0, 0, 0, 128, 1, 0, 0, 0, 0, 97, 80, 75, 1,
   2, 20, 3, 20, 0, 0, 8, 0, 0, 0, 0, 33, 0, 0, 0, 0, 0, 0, 0, 0, 0, 0, 0, 0,
   0, 3, 0, 0, 0, 0, 0, 0, 0, 0, 0, 0, 0, 128, 1, 35, 0, 0, 0, 195, 169, 47, 80, 75,
   5, 6, 0, 0, 0, 0, 2, 0, 2, 0, 96, 0, 0, 0, 68, 0, 0, 0, 0, 0]"

definition demo_file :: zip_member_structure where
  "demo_file = \<lparr>zm_ordinal = 0, zm_filename = [97], zm_header_offset = 2, zm_payload_offset = 33,
     zm_compressed_size = 4, zm_uncompressed_size = 2, zm_crc32 = 0xD8932AAC, zm_compression_method = 8,
     zm_flags = 0, zm_upper_bound = 37, zm_is_directory = False\<rparr>"

definition demo_directory :: zip_member_structure where
  "demo_directory = \<lparr>zm_ordinal = 1, zm_filename = [233, 47], zm_header_offset = 37, zm_payload_offset = 70,
     zm_compressed_size = 0, zm_uncompressed_size = 0, zm_crc32 = 0, zm_compression_method = 0,
     zm_flags = 0x800, zm_upper_bound = 70, zm_is_directory = True\<rparr>"

definition demo_structure :: zip_structure where
  "demo_structure = \<lparr>zs_members = 2, zs_central_directory_bytes = 96, zs_central_directory_offset = 70,
     zs_zip64 = False, zs_entries = [demo_file, demo_directory]\<rparr>"

lemma demo_inspected: "inspect_zip_structure 188 demo_archive 10 1000 = Inr demo_structure"
  by code_simp

text \<open>
  C36. An accepted archive respects both limits, its central directory lies in the
  file with room for all its records, the entries are numbered in directory
  order and as many as declared, no two share a local header, and every entry has
  a local header and its whole payload in the data before the directory.
\<close>

theorem inspect_zip_sound:
  assumes "inspect_zip_structure getsize content max_members max_bytes = Inr z"
  shows "zs_members z \<le> max_members \<and> zs_central_directory_bytes z \<le> max_bytes
       \<and> zs_central_directory_offset z + zs_central_directory_bytes z \<le> getsize
       \<and> zs_members z = int (length (zs_entries z)) \<and> 46 * zs_members z \<le> zs_central_directory_bytes z
       \<and> map zm_ordinal (zs_entries z) = map int [0..<length (zs_entries z)]
       \<and> distinct (map zm_header_offset (zs_entries z))
       \<and> (\<forall>m\<in>set (zs_entries z). member_ok content (zs_central_directory_offset z) getsize m)"
proof (rule inspect_scan [OF assms])
  fix adj assume "yields (inspect_central_directory \<lparr>cs_offset = zs_central_directory_offset z,
        cs_bytes = zs_central_directory_bytes z, cs_declared = zs_members z, cs_max_members = max_members,
        cs_adjustment = adj, cs_file_size = getsize\<rparr>) content (zs_entries z)"
  from inspect_central_directory_sound [OF this] inspect_zip_source_sound(1) [OF inspect_zip_structure_yields [OF assms]]
  show ?thesis by simp
qed

theorem inspect_zip_sound_witness:
  "inspect_zip_structure 188 demo_archive 10 1000 = Inr demo_structure
   \<and> zs_members demo_structure = 2 \<and> zs_members demo_structure \<le> 10
   \<and> member_ok demo_archive (zs_central_directory_offset demo_structure) 188 demo_file
   \<and> member_ok demo_archive (zs_central_directory_offset demo_structure) 188 demo_directory"
  using inspect_zip_sound [OF demo_inspected] demo_inspected by (simp add: demo_structure_def)

text \<open>
  The recovery regions of an accepted archive, from each local header to its
  upper bound, are non-empty, end before the central directory and are pairwise
  disjoint, whatever order the directory lists them in.
\<close>

theorem recovery_regions_disjoint:
  assumes "inspect_zip_structure getsize content max_members max_bytes = Inr z"
    and "m \<in> set (zs_entries z)" and "m' \<in> set (zs_entries z)"
  shows "zm_header_offset m < zm_upper_bound m \<and> zm_upper_bound m \<le> zs_central_directory_offset z
       \<and> (m \<noteq> m' \<longrightarrow> {zm_header_offset m..<zm_upper_bound m} \<inter> {zm_header_offset m'..<zm_upper_bound m'} = {})"
  using inspect_regions [OF assms] by blast

theorem recovery_regions_disjoint_witness:
  "demo_file \<in> set (zs_entries demo_structure) \<and> demo_directory \<in> set (zs_entries demo_structure)
   \<and> demo_file \<noteq> demo_directory
   \<and> {zm_header_offset demo_file..<zm_upper_bound demo_file}
      \<inter> {zm_header_offset demo_directory..<zm_upper_bound demo_directory} = {}"
proof -
  have mem: "demo_file \<in> set (zs_entries demo_structure)" "demo_directory \<in> set (zs_entries demo_structure)"
    and ne: "demo_file \<noteq> demo_directory"
    by (simp_all add: demo_structure_def demo_file_def demo_directory_def)
  with recovery_regions_disjoint [OF demo_inspected mem] show ?thesis by blast
qed

text \<open>
  Inspecting an open stream answers what the inspection answers and leaves
  the stream where it was, whether the archive is accepted or refused.
\<close>

theorem inspect_zip_stream_restores:
  assumes "0 \<le> p"
  shows "inspect_zip_stream file_size max_members max_bytes d p
       = (fst (inspect_zip_source file_size max_members max_bytes d p), p)"
  using assms by (rule inspect_zip_stream_eq)

theorem inspect_zip_stream_restores_witness:
  "inspect_zip_stream 188 10 1000 demo_archive 5 = (Inr demo_structure, 5)
   \<and> inspect_zip_stream 188 1 1000 demo_archive 5
     = (Inl (ZipStructureError ''ZIP contains more members than the limit''), 5)"
proof -
  have "fst (inspect_zip_source 188 10 1000 demo_archive 5) = Inr demo_structure"
    "fst (inspect_zip_source 188 1 1000 demo_archive 5)
     = Inl (ZipStructureError ''ZIP contains more members than the limit'')"
    by code_simp+
  then show ?thesis
    using inspect_zip_stream_restores [of 5 188 10 1000 demo_archive]
      inspect_zip_stream_restores [of 5 188 1 1000 demo_archive] by simp
qed

end
