(* ===== verification/Zip_Recovery.thy ===== *)
theory Zip_Recovery
  imports Zip_Soundness
begin

text \<open>
  Bounded recovery of one raw-DEFLATE member (\<open>read_raw_deflate_member\<close>). The
  object \<open>zlib.decompressobj\<close> returns is a parameter: its state and the five
  members the code uses. A loop that would not end answers \<open>None\<close>; that it ends
  is proved from two documented facts about the decoder.
\<close>

section \<open>The decoder\<close>

record 'z inflater =
  inf_start :: 'z
  inf_decompress :: "'z \<Rightarrow> octets \<Rightarrow> int \<Rightarrow> zip_error + octets \<times> 'z"
  inf_unconsumed_tail :: "'z \<Rightarrow> octets"
  inf_flush :: "'z \<Rightarrow> int \<Rightarrow> zip_error + octets \<times> 'z"
  inf_eof :: "'z \<Rightarrow> bool"
  inf_unused_data :: "'z \<Rightarrow> octets"

text \<open>
  The documentation of \<open>Decompress.decompress(data, max_length)\<close>: with a non-zero
  \<open>max_length\<close> the result is no longer than it, and the input that was not
  consumed, part of \<open>data\<close>, is in \<open>unconsumed_tail\<close>.
\<close>

definition inflater_documented :: "'z inflater \<Rightarrow> bool" where
  "inflater_documented dec \<longleftrightarrow>
     (\<forall>z data n out z'. 0 < n \<longrightarrow> inf_decompress dec z data n = Inr (out, z') \<longrightarrow>
        int (length out) \<le> n \<and> length (inf_unconsumed_tail dec z') \<le> length data)"

section \<open>Operations\<close>

definition RAW_DEFLATE_CHUNK_BYTES :: int where
  "RAW_DEFLATE_CHUNK_BYTES = 64 * 1024"

record raw_deflate_member =
  rd_payload :: octets
  rd_actual_size :: int
  rd_actual_crc32 :: int

definition validate_raw_member_bounds :: "int \<Rightarrow> int \<Rightarrow> int \<Rightarrow> int \<Rightarrow> int \<Rightarrow> int \<Rightarrow> zip_error + unit" where
  "validate_raw_member_bounds file_size header_offset compressed_size upper_bound max_compressed_bytes max_output_bytes =
     (if header_offset < 0 \<or> compressed_size < 0
      then Inl (ZipStructureError ''negative ZIP member offset or size'')
      else if max_compressed_bytes < 1 \<or> max_output_bytes < 1
      then Inl (Zip_ValueError ''raw DEFLATE bounds must be positive'')
      else if compressed_size > max_compressed_bytes
      then Inl (ZipStructureError ''compressed ZIP member exceeds the raw recovery safety limit'')
      else if upper_bound < 0 \<or> upper_bound > file_size
      then Inl (ZipStructureError ''ZIP member boundary points outside the file'')
      else if header_offset > upper_bound - LOCAL_FILE_SIZE
      then Inl (ZipStructureError ''truncated ZIP local header'')
      else Inr ())"

definition raw_member_payload_offset :: "int \<Rightarrow> int \<Rightarrow> int \<Rightarrow> int zip_io" where
  "raw_member_payload_offset header_offset compressed_size upper_bound =
     zbind (read_exact header_offset LOCAL_FILE_SIZE) (\<lambda>b.
     let h = unpack_local_file b;
         payload_offset = payload_offset_of header_offset h;
         payload_end = payload_offset + compressed_size
     in zbind (raise_first
       [(lf_signature h \<noteq> LOCAL_FILE_SIGNATURE, ''invalid ZIP local file header''),
        (has_flag (lf_flags h) 0, ''encrypted ZIP members cannot be recovered''),
        (has_flag (lf_flags h) 3, ''ZIP data descriptors are not supported for raw recovery''),
        (lf_compression h \<noteq> 8, ''raw recovery supports only DEFLATE members''),
        (payload_offset < header_offset \<or> payload_end > upper_bound, ''ZIP member payload crosses its boundary'')])
       (\<lambda>_. zret payload_offset))"

partial_function (option) extend_raw_deflate_output ::
    "'z inflater \<Rightarrow> int \<Rightarrow> 'z \<Rightarrow> octets \<Rightarrow> octets \<Rightarrow> (zip_error + 'z \<times> octets) option" where
  "extend_raw_deflate_output dec max_output_bytes z pending output =
     (if pending = [] then Some (Inr (z, output))
      else case inf_decompress dec z pending (max_output_bytes - int (length output) + 1) of
        Inl e \<Rightarrow> Some (Inl e)
      | Inr (produced, z') \<Rightarrow>
          let output' = output @ produced; pending' = inf_unconsumed_tail dec z' in
          if int (length output') > max_output_bytes
          then Some (Inl (ZipStructureError ''raw DEFLATE output exceeds the safety limit''))
          else if pending' \<noteq> [] \<and> length pending' = length pending \<and> produced = []
          then Some (Inl (Zlib_Error ''raw DEFLATE decoder made no progress''))
          else extend_raw_deflate_output dec max_output_bytes z' pending' output')"

text \<open>
  The read loop; the checkpoint, when there is one, raises at the calls it is
  true of. The state is the decoder, the output, the number of the call, what
  remains to be read and the position.
\<close>

definition checkpoint_raises :: "(nat \<Rightarrow> bool) option \<Rightarrow> nat \<Rightarrow> bool" where
  "checkpoint_raises checkpoint i = (case checkpoint of None \<Rightarrow> False | Some c \<Rightarrow> c i)"

partial_function (option) decompress_loop ::
    "'z inflater \<Rightarrow> (nat \<Rightarrow> bool) option \<Rightarrow> int \<Rightarrow> nat \<Rightarrow> int \<Rightarrow> 'z \<Rightarrow> octets \<Rightarrow> octets \<Rightarrow> int
       \<Rightarrow> ((zip_error + 'z \<times> octets) \<times> int) option" where
  "decompress_loop dec checkpoint max_output_bytes i remaining z output d p =
     (if remaining = 0 then Some (Inr (z, output), p)
      else if checkpoint_raises checkpoint i then Some (Inl Checkpoint_Raised, p)
      else
        let chunk = read_at d p (min RAW_DEFLATE_CHUNK_BYTES remaining); q = p + int (length chunk) in
        if chunk = [] then Some (Inl (ZipStructureError ''truncated ZIP member payload''), q)
        else Option.bind (extend_raw_deflate_output dec max_output_bytes z chunk output) (\<lambda>r. case r of
            Inl e \<Rightarrow> Some (Inl e, q)
          | Inr (z', output') \<Rightarrow>
              decompress_loop dec checkpoint max_output_bytes (Suc i) (remaining - int (length chunk)) z' output' d q))"

definition finish_decompress :: "'z inflater \<Rightarrow> int \<Rightarrow> 'z \<Rightarrow> octets \<Rightarrow> zip_error + octets" where
  "finish_decompress dec max_output_bytes z output =
     (case inf_flush dec z (max_output_bytes - int (length output) + 1) of
        Inl e \<Rightarrow> Inl e
      | Inr (produced, z') \<Rightarrow>
          let output' = output @ produced in
          if int (length output') > max_output_bytes
          then Inl (ZipStructureError ''raw DEFLATE output exceeds the safety limit'')
          else if \<not> inf_eof dec z' then Inl (Zlib_Error ''incomplete or truncated raw DEFLATE stream'')
          else if inf_unused_data dec z' \<noteq> []
          then Inl (ZipStructureError ''raw DEFLATE member contains trailing data'')
          else Inr output')"

definition decompress_raw_member ::
    "'z inflater \<Rightarrow> (nat \<Rightarrow> bool) option \<Rightarrow> int \<Rightarrow> int \<Rightarrow> int \<Rightarrow> octets \<Rightarrow> (zip_error + octets) option" where
  "decompress_raw_member dec checkpoint payload_offset compressed_size max_output_bytes d =
     Option.bind (decompress_loop dec checkpoint max_output_bytes 0 compressed_size (inf_start dec) [] d payload_offset)
       (\<lambda>(r, q). Some (case r of Inl e \<Rightarrow> Inl e | Inr (z, output) \<Rightarrow> finish_decompress dec max_output_bytes z output))"

definition read_raw_deflate_member ::
    "'z inflater \<Rightarrow> (nat \<Rightarrow> bool) option \<Rightarrow> int \<Rightarrow> octets \<Rightarrow> int \<Rightarrow> int \<Rightarrow> int \<Rightarrow> int \<Rightarrow> int
       \<Rightarrow> (zip_error + raw_deflate_member) option" where
  "read_raw_deflate_member dec checkpoint getsize content header_offset compressed_size upper_bound
     max_compressed_bytes max_output_bytes =
     (case validate_raw_member_bounds getsize header_offset compressed_size upper_bound
             max_compressed_bytes max_output_bytes of
        Inl e \<Rightarrow> Some (Inl e)
      | Inr _ \<Rightarrow> (case fst (raw_member_payload_offset header_offset compressed_size upper_bound content 0) of
          Inl e \<Rightarrow> Some (Inl e)
        | Inr payload_offset \<Rightarrow>
            Option.bind (decompress_raw_member dec checkpoint payload_offset compressed_size max_output_bytes content)
              (\<lambda>r. Some (case r of
                 Inl e \<Rightarrow> Inl e
               | Inr payload \<Rightarrow> Inr \<lparr>rd_payload = payload, rd_actual_size = int (length payload),
                    rd_actual_crc32 = uint (crc32 payload AND 0xFFFFFFFF)\<rparr>))))"

section \<open>Termination\<close>

lemma inflater_documentedD:
  "inflater_documented dec \<Longrightarrow> inf_decompress dec z data n = Inr (produced, z') \<Longrightarrow> 0 < n
     \<Longrightarrow> int (length produced) \<le> n \<and> length (inf_unconsumed_tail dec z') \<le> length data"
  unfolding inflater_documented_def by blast

lemma extend_raw_deflate_returns:
  assumes doc: "inflater_documented dec" and "int (length out) \<le> max_out"
  shows "\<exists>r. extend_raw_deflate_output dec max_out z pending out = Some r"
  using assms(2)
proof (induction "(length pending, nat (max_out - int (length out)))" arbitrary: z pending out
    rule: wf_induct_rule [OF wf_lex_prod [OF wf_less_than wf_less_than]])
  case (1 pending out z)
  show ?case
  proof (cases "pending = []")
    case False
    show ?thesis
    proof (cases "inf_decompress dec z pending (max_out - int (length out) + 1)")
      case (Inr r)
      obtain produced z' where r: "r = (produced, z')" by (cases r)
      have tail: "length (inf_unconsumed_tail dec z') \<le> length pending"
        using inflater_documentedD [OF doc Inr [unfolded r]] "1.prems" by simp
      have ih: "\<exists>r. extend_raw_deflate_output dec max_out z' (inf_unconsumed_tail dec z') (out @ produced) = Some r"
        if "int (length (out @ produced)) \<le> max_out"
          "\<not> (inf_unconsumed_tail dec z' \<noteq> [] \<and> length (inf_unconsumed_tail dec z') = length pending \<and> produced = [])"
      proof (rule "1.hyps")
        show "((length (inf_unconsumed_tail dec z'), nat (max_out - int (length (out @ produced)))),
            length pending, nat (max_out - int (length out))) \<in> less_than <*lex*> less_than"
          using tail that False by (cases produced) (auto simp: less_le)
      qed (fact that(1))
      show ?thesis
        using False Inr r ih by (subst extend_raw_deflate_output.simps) (simp add: Let_def)
    qed (use False in \<open>subst extend_raw_deflate_output.simps, simp\<close>)
  qed (subst extend_raw_deflate_output.simps, simp)
qed

lemma extend_raw_deflate_bounded:
  assumes "extend_raw_deflate_output dec max_out z pending out = Some r" and "int (length out) \<le> max_out"
    and "r = Inr (z', out')"
  shows "int (length out') \<le> max_out"
proof -
  have "int (length out) \<le> max_out \<longrightarrow> r = Inr (z', out') \<longrightarrow> int (length out') \<le> max_out"
    by (rule extend_raw_deflate_output.raw_induct
        [where P = "\<lambda>dec max_out z pending out r. int (length out) \<le> max_out \<longrightarrow> r = Inr (z', out')
           \<longrightarrow> int (length out') \<le> max_out", OF _ assms(1)])
      (auto simp: Let_def split: if_splits sum.splits prod.splits)
  with assms show ?thesis by blast
qed

lemma read_at_length: "0 < n \<Longrightarrow> int (length (read_at d p n)) \<le> n"
  by (auto simp: read_at_def)

lemma decompress_loop_returns:
  assumes doc: "inflater_documented dec"
  shows "0 \<le> remaining \<Longrightarrow> int (length out) \<le> max_out
     \<Longrightarrow> \<exists>r. decompress_loop dec checkpoint max_out i remaining z out d p = Some r"
proof (induction "nat remaining" arbitrary: i remaining z out p rule: less_induct)
  case less
  let ?n = "min RAW_DEFLATE_CHUNK_BYTES remaining"
  let ?chunk = "read_at d p ?n"
  show ?case
  proof (cases "remaining = 0 \<or> checkpoint_raises checkpoint i \<or> ?chunk = []")
    case True
    then show ?thesis by (subst decompress_loop.simps) (auto simp: Let_def)
  next
    case False
    have len: "0 < length ?chunk" "int (length ?chunk) \<le> remaining"
      using False less.prems(1) read_at_length [of ?n d p] by (auto simp: RAW_DEFLATE_CHUNK_BYTES_def)
    obtain r where r: "extend_raw_deflate_output dec max_out z ?chunk out = Some r"
      using extend_raw_deflate_returns [OF doc less.prems(2)] by blast
    have "\<exists>r'. decompress_loop dec checkpoint max_out (Suc i) (remaining - int (length ?chunk)) z' out' d
        (p + int (length ?chunk)) = Some r'" if "r = Inr (z', out')" for z' out'
      using len less.prems extend_raw_deflate_bounded [OF r less.prems(2) that]
      by (intro less.hyps) (auto simp flip: length_greater_0_conv)
    with False r show ?thesis
      by (subst decompress_loop.simps) (auto simp: Let_def split: sum.split prod.split)
  qed
qed

text \<open>A decoder that copies its input, for the concrete cases; its state is the unconsumed tail.\<close>

definition copy_decoder :: "octets inflater" where
  "copy_decoder = \<lparr>inf_start = [],
     inf_decompress = (\<lambda>z data n. Inr (take (nat n) data, drop (nat n) data)),
     inf_unconsumed_tail = (\<lambda>z. z), inf_flush = (\<lambda>z n. Inr ([], z)), inf_eof = (\<lambda>z. True),
     inf_unused_data = (\<lambda>z. [])\<rparr>"

lemma copy_decoder_documented: "inflater_documented copy_decoder"
  by (auto simp: inflater_documented_def copy_decoder_def min_def)

text \<open>
  C39. Recovery always returns: for a decoder that behaves as documented, every
  call of \<open>read_raw_deflate_member\<close> ends with a result or an error, whatever the
  bytes of the file, the offsets and the limits.
\<close>

theorem read_raw_deflate_returns:
  assumes "inflater_documented dec"
  shows "\<exists>r. read_raw_deflate_member dec checkpoint getsize content header_offset compressed_size upper_bound
           max_compressed_bytes max_output_bytes = Some r"
proof (cases "validate_raw_member_bounds getsize header_offset compressed_size upper_bound max_compressed_bytes max_output_bytes")
  case (Inr u)
  then have "0 \<le> compressed_size" "0 \<le> max_output_bytes"
    by (auto simp: validate_raw_member_bounds_def split: if_splits)
  then have "\<exists>r. decompress_raw_member dec checkpoint payload_offset compressed_size max_output_bytes content = Some r"
    for payload_offset
    using decompress_loop_returns [OF assms, of compressed_size "[]" max_output_bytes checkpoint 0 "inf_start dec" content payload_offset]
    by (auto simp: decompress_raw_member_def)
  then have "\<exists>r. Option.bind (decompress_raw_member dec checkpoint payload_offset compressed_size max_output_bytes content)
      (\<lambda>r. Some (f r)) = Some r" for payload_offset and f :: "zip_error + octets \<Rightarrow> zip_error + raw_deflate_member"
    by (metis bind.bind_lunit)
  with Inr show ?thesis
    by (cases "fst (raw_member_payload_offset header_offset compressed_size upper_bound content 0)")
      (simp_all add: read_raw_deflate_member_def)
qed (simp add: read_raw_deflate_member_def)

theorem read_raw_deflate_returns_witness:
  "inflater_documented copy_decoder
   \<and> (\<exists>r. read_raw_deflate_member copy_decoder None 188 demo_archive 2 4 37 100 100 = Some r)"
  using read_raw_deflate_returns [OF copy_decoder_documented] copy_decoder_documented by blast

section \<open>Bounds\<close>

lemma all_ones_32: "(0xFFFFFFFF :: 32 word) = - 1"
  by code_simp

lemma finish_decompress_bounded:
  "finish_decompress dec max_out z out = Inr payload \<Longrightarrow> int (length payload) \<le> max_out"
  by (auto simp: finish_decompress_def Let_def split: sum.splits prod.splits if_splits)

lemma decompress_raw_member_bounded:
  "decompress_raw_member dec checkpoint payload_offset n max_out d = Some (Inr payload) \<Longrightarrow> int (length payload) \<le> max_out"
  by (auto simp: decompress_raw_member_def bind_eq_Some_conv sum_case_Inr_iff dest: finish_decompress_bounded)

lemma raw_member_payload_offset_sound:
  assumes "fst (raw_member_payload_offset h n u d p) = Inr payload_offset"
  shows "h + LOCAL_FILE_SIZE \<le> payload_offset" and "payload_offset + n \<le> u"
  using yieldsI [of "raw_member_payload_offset h n u", OF assms] unfolding raw_member_payload_offset_def
  by (auto simp: Let_def yields_simps payload_offset_of_def unpack_local_file_def elim!: yields_zbindE)

text \<open>
  A recovered member respects both limits of the call, its size is the
  length of what was decoded, its checksum is the CRC-32 of that, and the
  compressed bytes lie between the local header and the upper bound.
\<close>

theorem recovered_member_bounded:
  assumes "read_raw_deflate_member dec checkpoint getsize content header_offset compressed_size upper_bound
             max_compressed_bytes max_output_bytes = Some (Inr m)"
  shows "compressed_size \<le> max_compressed_bytes \<and> rd_actual_size m \<le> max_output_bytes
       \<and> rd_actual_size m = int (length (rd_payload m)) \<and> rd_actual_crc32 m = uint (crc32 (rd_payload m))
       \<and> header_offset + LOCAL_FILE_SIZE + compressed_size \<le> upper_bound \<and> upper_bound \<le> getsize"
proof -
  have valid: "validate_raw_member_bounds getsize header_offset compressed_size upper_bound
      max_compressed_bytes max_output_bytes = Inr ()"
    using assms by (auto simp: read_raw_deflate_member_def split: sum.splits)
  with assms obtain off payload where
    off: "fst (raw_member_payload_offset header_offset compressed_size upper_bound content 0) = Inr off"
    and payload: "decompress_raw_member dec checkpoint off compressed_size max_output_bytes content = Some (Inr payload)"
    and m: "m = \<lparr>rd_payload = payload, rd_actual_size = int (length payload),
               rd_actual_crc32 = uint (crc32 payload AND 0xFFFFFFFF)\<rparr>"
    by (cases "fst (raw_member_payload_offset header_offset compressed_size upper_bound content 0)")
      (auto simp: read_raw_deflate_member_def bind_eq_Some_conv sum_case_Inr_iff)
  have "crc32 payload AND 0xFFFFFFFF = crc32 payload"
    by (simp add: all_ones_32)
  then show ?thesis
    using valid raw_member_payload_offset_sound [OF off] decompress_raw_member_bounded [OF payload]
    by (auto simp: m validate_raw_member_bounds_def split: if_splits)
qed

definition demo_recovered :: raw_deflate_member where
  "demo_recovered = \<lparr>rd_payload = [203, 200, 4, 0], rd_actual_size = 4, rd_actual_crc32 = 2077799655\<rparr>"

lemma demo_chunk: "read_at demo_archive 33 (min RAW_DEFLATE_CHUNK_BYTES 4) = [203, 200, 4, 0]"
  by code_simp

lemma demo_extend:
  "extend_raw_deflate_output copy_decoder 100 [] [203, 200, 4, 0] [] = Some (Inr ([], [203, 200, 4, 0]))"
  by (subst extend_raw_deflate_output.simps, simp add: copy_decoder_def Let_def,
      subst extend_raw_deflate_output.simps, simp)

lemma demo_recovery:
  "read_raw_deflate_member copy_decoder None 188 demo_archive 2 4 37 100 100 = Some (Inr demo_recovered)"
proof -
  have "decompress_loop copy_decoder None 100 0 4 [] [] demo_archive 33 = Some (Inr ([], [203, 200, 4, 0]), 37)"
    by (subst decompress_loop.simps, simp add: demo_chunk demo_extend Let_def checkpoint_raises_def,
        subst decompress_loop.simps, simp)
  then have "decompress_raw_member copy_decoder None 33 4 100 demo_archive = Some (Inr [203, 200, 4, 0])"
    by (simp add: decompress_raw_member_def finish_decompress_def copy_decoder_def)
  moreover have "fst (raw_member_payload_offset 2 4 37 demo_archive 0) = Inr 33"
    "validate_raw_member_bounds 188 2 4 37 100 100 = Inr ()"
    "uint (crc32 [203, 200, 4, 0] AND 0xFFFFFFFF) = 2077799655"
    by code_simp+
  ultimately show ?thesis
    by (simp add: read_raw_deflate_member_def demo_recovered_def)
qed

theorem recovered_member_bounded_witness:
  "read_raw_deflate_member copy_decoder None 188 demo_archive 2 4 37 100 100 = Some (Inr demo_recovered)
   \<and> rd_actual_size demo_recovered \<le> 100 \<and> rd_actual_crc32 demo_recovered = uint (crc32 [203, 200, 4, 0])"
  using recovered_member_bounded [OF demo_recovery] demo_recovery by (simp add: demo_recovered_def)

section \<open>Confinement\<close>

lemma read_at_octets: "0 \<le> n \<Longrightarrow> n \<le> k \<Longrightarrow> read_at d p n = take (nat n) (octets_at d (nat p) (nat k))"
  by (simp add: read_at_def octets_at_def min_def)

lemma octets_at_advance:
  "0 \<le> p \<Longrightarrow> octets_at d (nat (p + int n)) (nat (k - int n)) = drop n (octets_at d (nat p) (nat k))"
proof -
  have "nat (k - int n) = nat k - n" by arith
  moreover assume "0 \<le> p"
  ultimately show ?thesis by (simp add: octets_at_def drop_take nat_add_distrib add.commute)
qed

lemma decompress_loop_confined:
  "0 \<le> p \<Longrightarrow> 0 \<le> remaining \<Longrightarrow> octets_at d (nat p) (nat remaining) = octets_at d' (nat p) (nat remaining)
     \<Longrightarrow> decompress_loop dec checkpoint max_out i remaining z out d p
       = decompress_loop dec checkpoint max_out i remaining z out d' p"
proof (induction "nat remaining" arbitrary: i remaining z out p rule: less_induct)
  case less
  let ?n = "min RAW_DEFLATE_CHUNK_BYTES remaining"
  let ?chunk = "read_at d p ?n"
  have same: "read_at d' p ?n = ?chunk"
    using less.prems read_at_octets [of ?n remaining d p] read_at_octets [of ?n remaining d' p]
    by (simp add: RAW_DEFLATE_CHUNK_BYTES_def)
  show ?case
  proof (cases "remaining = 0 \<or> ?chunk = []")
    case True
    then show ?thesis
      by (subst (1 2) decompress_loop.simps) (auto simp: Let_def same)
  next
    case False
    have len: "0 < length ?chunk" "int (length ?chunk) \<le> remaining"
      using False less.prems(2) read_at_length [of ?n d p] by (auto simp: RAW_DEFLATE_CHUNK_BYTES_def)
    have "decompress_loop dec checkpoint max_out (Suc i) (remaining - int (length ?chunk)) z' out' d (p + int (length ?chunk))
        = decompress_loop dec checkpoint max_out (Suc i) (remaining - int (length ?chunk)) z' out' d' (p + int (length ?chunk))"
      for z' out'
      using len less.prems by (intro less.hyps) (auto simp: octets_at_advance simp flip: length_greater_0_conv)
    then show ?thesis
      by (subst (1 2) decompress_loop.simps) (simp add: Let_def same)
  qed
qed

lemma octets_at_within:
  "a \<le> b \<Longrightarrow> b + n \<le> a + k \<Longrightarrow> octets_at d b n = take n (drop (b - a) (octets_at d a k))"
  by (simp add: octets_at_def drop_take take_take min_def)

lemma octets_at_agree:
  assumes "length d' = length d" and "\<And>i. a \<le> i \<Longrightarrow> i < a + n \<Longrightarrow> i < length d \<Longrightarrow> d' ! i = d ! i"
  shows "octets_at d' a n = octets_at d a n"
  using assms by (intro nth_equalityI) (auto simp: octets_at_def)

lemma raw_payload_offset_confined:
  assumes "0 \<le> h" and "h + LOCAL_FILE_SIZE \<le> u"
    and "octets_at d (nat h) (nat (u - h)) = octets_at d' (nat h) (nat (u - h))"
  shows "fst (raw_member_payload_offset h n u d 0) = fst (raw_member_payload_offset h n u d' 0)"
proof -
  have "read_at d h LOCAL_FILE_SIZE = read_at d' h LOCAL_FILE_SIZE"
    using assms read_at_octets [of LOCAL_FILE_SIZE "u - h"] by (simp add: zip_sizes)
  then have "read_exact h LOCAL_FILE_SIZE d 0 = read_exact h LOCAL_FILE_SIZE d' 0"
    using assms(1) by (simp add: read_exact_def zbind_def seek_def read_def zret_def)
  then show ?thesis
    by (simp add: raw_member_payload_offset_def zbind_def Let_def zret_def split: prod.split sum.split)
qed

lemma recovery_confined:
  assumes "octets_at content' (nat h) (nat (u - h)) = octets_at content (nat h) (nat (u - h))"
  shows "read_raw_deflate_member dec checkpoint getsize content' h compressed_size u max_compressed_bytes max_output_bytes
       = read_raw_deflate_member dec checkpoint getsize content h compressed_size u max_compressed_bytes max_output_bytes"
proof (cases "validate_raw_member_bounds getsize h compressed_size u max_compressed_bytes max_output_bytes")
  case (Inr v)
  then have b: "0 \<le> h" "0 \<le> compressed_size" "h + LOCAL_FILE_SIZE \<le> u"
    by (auto simp: validate_raw_member_bounds_def split: if_splits)
  have header: "fst (raw_member_payload_offset h compressed_size u content' 0)
      = fst (raw_member_payload_offset h compressed_size u content 0)"
    using b assms by (intro raw_payload_offset_confined)
  have "decompress_raw_member dec checkpoint off compressed_size max_output_bytes content'
      = decompress_raw_member dec checkpoint off compressed_size max_output_bytes content"
    if "fst (raw_member_payload_offset h compressed_size u content 0) = Inr off" for off
  proof -
    from raw_member_payload_offset_sound [OF that] have off: "h \<le> off" "off + compressed_size \<le> u"
      by (auto simp: zip_sizes)
    have "octets_at content' (nat off) (nat compressed_size) = octets_at content (nat off) (nat compressed_size)"
      using b off assms octets_at_within [of "nat h" "nat off" "nat compressed_size" "nat (u - h)"]
      by (simp add: nat_le_iff)
    then show ?thesis
      using b off by (simp add: decompress_raw_member_def decompress_loop_confined [of off compressed_size content' content])
  qed
  with Inr header show ?thesis
    by (cases "fst (raw_member_payload_offset h compressed_size u content 0)") (simp_all add: read_raw_deflate_member_def)
qed (simp add: read_raw_deflate_member_def)

text \<open>
  C38. Recovery of one member is isolated from the others. Overwrite, in an
  accepted archive, anything in the region of another entry: recovering the first
  entry within its own upper bound, with whatever compressed size, limits and
  decoder, answers the same.
\<close>

theorem recovery_isolated:
  assumes "inspect_zip_structure getsize content max_members max_bytes = Inr z"
    and "m \<in> set (zs_entries z)" and "m' \<in> set (zs_entries z)" and "m \<noteq> m'"
    and "length content' = length content"
    and "\<forall>i<length content. \<not> (zm_header_offset m' \<le> int i \<and> int i < zm_upper_bound m') \<longrightarrow> content' ! i = content ! i"
  shows "read_raw_deflate_member dec checkpoint getsize content' (zm_header_offset m) compressed_size (zm_upper_bound m)
           max_compressed_bytes max_output_bytes
       = read_raw_deflate_member dec checkpoint getsize content (zm_header_offset m) compressed_size (zm_upper_bound m)
           max_compressed_bytes max_output_bytes"
proof (rule recovery_confined, rule octets_at_agree)
  fix i assume i: "nat (zm_header_offset m) \<le> i" "i < nat (zm_header_offset m) + nat (zm_upper_bound m - zm_header_offset m)"
    "i < length content"
  have "0 \<le> zm_header_offset m"
    using inspect_members [OF assms(1,2)] by (simp add: member_ok_def)
  with i have "zm_header_offset m \<le> int i" "int i < zm_upper_bound m" by auto
  then have "\<not> (zm_header_offset m' \<le> int i \<and> int i < zm_upper_bound m')"
    using inspect_regions(3) [OF assms(1-4)] by (meson disjoint_iff atLeastLessThan_iff)
  with assms(6) i show "content' ! i = content ! i" by blast
qed (fact assms(5))

theorem recovery_isolated_witness:
  "read_raw_deflate_member copy_decoder None 188 (demo_archive[50 := 255]) 2 4 37 100 100
     = read_raw_deflate_member copy_decoder None 188 demo_archive 2 4 37 100 100"
proof -
  have e: "demo_file \<in> set (zs_entries demo_structure)" "demo_directory \<in> set (zs_entries demo_structure)"
    "demo_file \<noteq> demo_directory"
    and h: "zm_header_offset demo_file = 2" "zm_upper_bound demo_file = 37"
    "zm_header_offset demo_directory = 37" "zm_upper_bound demo_directory = 70"
    by (simp_all add: demo_structure_def demo_file_def demo_directory_def)
  have "\<forall>i<length demo_archive. \<not> (zm_header_offset demo_directory \<le> int i \<and> int i < zm_upper_bound demo_directory)
      \<longrightarrow> demo_archive[50 := 255] ! i = demo_archive ! i"
    unfolding h by (auto simp: nth_list_update)
  with recovery_isolated [OF demo_inspected e, of "demo_archive[50 := 255]" copy_decoder None 4 100 100] show ?thesis
    by (simp add: h)
qed

end
