(* ===== verification/Zip_Roundtrip.thy ===== *)
theory Zip_Roundtrip
  imports Zip_Soundness
begin

text \<open>
  Completeness of the preflight: a reference writer for plain archives, after the
  ZIP file format, and the proof that the inspection accepts what it writes and
  returns exactly the members that were written. The archive may be preceded by
  a stub and end in a comment.
\<close>

section \<open>The reference writer\<close>

record plain_member =
  pm_name :: octets
  pm_flags :: int
  pm_method :: int
  pm_crc32 :: int
  pm_size :: int
  pm_payload :: octets

definition local_header :: "plain_member \<Rightarrow> octets" where
  "local_header m = LOCAL_FILE_SIGNATURE @ le_bytes 2 20 @ le_bytes 2 (pm_flags m) @ le_bytes 2 (pm_method m)
     @ le_bytes 2 0 @ le_bytes 2 33 @ le_bytes 4 (pm_crc32 m) @ le_bytes 4 (int (length (pm_payload m)))
     @ le_bytes 4 (pm_size m) @ le_bytes 2 (int (length (pm_name m))) @ le_bytes 2 0"

definition local_image :: "plain_member \<Rightarrow> octets" where
  "local_image m = local_header m @ pm_name m @ pm_payload m"

definition central_header :: "plain_member \<Rightarrow> int \<Rightarrow> octets" where
  "central_header m offset = CENTRAL_SIGNATURE @ le_bytes 2 788 @ le_bytes 2 20 @ le_bytes 2 (pm_flags m)
     @ le_bytes 2 (pm_method m) @ le_bytes 2 0 @ le_bytes 2 33 @ le_bytes 4 (pm_crc32 m)
     @ le_bytes 4 (int (length (pm_payload m))) @ le_bytes 4 (pm_size m) @ le_bytes 2 (int (length (pm_name m)))
     @ le_bytes 2 0 @ le_bytes 2 0 @ le_bytes 2 0 @ le_bytes 2 0 @ le_bytes 4 0 @ le_bytes 4 offset"

fun central_images :: "int \<Rightarrow> plain_member list \<Rightarrow> octets" where
  "central_images offset [] = []"
| "central_images offset (m # ms) =
     central_header m offset @ pm_name m @ central_images (offset + int (length (local_image m))) ms"

definition end_image :: "int \<Rightarrow> int \<Rightarrow> int \<Rightarrow> int \<Rightarrow> octets" where
  "end_image members bytes offset comment_length = EOCD_SIGNATURE @ le_bytes 2 0 @ le_bytes 2 0
     @ le_bytes 2 members @ le_bytes 2 members @ le_bytes 4 bytes @ le_bytes 4 offset @ le_bytes 2 comment_length"

definition local_images :: "plain_member list \<Rightarrow> octets" where
  "local_images ms = concat (map local_image ms)"

definition end_record :: "plain_member list \<Rightarrow> octets \<Rightarrow> octets" where
  "end_record ms comment = end_image (int (length ms)) (int (length (central_images 0 ms)))
     (int (length (local_images ms))) (int (length comment)) @ comment"

definition zip_image :: "octets \<Rightarrow> plain_member list \<Rightarrow> octets \<Rightarrow> octets" where
  "zip_image stub ms comment = stub @ local_images ms @ central_images 0 ms @ end_record ms comment"

definition plain_name :: "plain_member \<Rightarrow> code_points" where
  "plain_name m = (case decode_name (pm_flags m) (pm_name m) of None \<Rightarrow> [] | Some name \<Rightarrow> name)"

text \<open>The entries a reader has to report.\<close>

definition plain_entry :: "plain_member \<Rightarrow> int \<Rightarrow> int \<Rightarrow> int \<Rightarrow> zip_member_structure" where
  "plain_entry m ordinal offset upper =
     \<lparr>zm_ordinal = ordinal, zm_filename = plain_name m, zm_header_offset = offset,
        zm_payload_offset = offset + LOCAL_FILE_SIZE + int (length (pm_name m)),
        zm_compressed_size = int (length (pm_payload m)), zm_uncompressed_size = pm_size m,
        zm_crc32 = pm_crc32 m, zm_compression_method = pm_method m, zm_flags = pm_flags m,
        zm_upper_bound = upper, zm_is_directory = (plain_name m \<noteq> [] \<and> last (plain_name m) = 47)\<rparr>"

fun plain_entries :: "int \<Rightarrow> int \<Rightarrow> plain_member list \<Rightarrow> zip_member_structure list" where
  "plain_entries ordinal offset [] = []"
| "plain_entries ordinal offset (m # ms) =
     plain_entry m ordinal offset (offset + int (length (local_image m)))
     # plain_entries (ordinal + 1) (offset + int (length (local_image m))) ms"

text \<open>Every value fits its field below the ZIP64 escape, and names decode.\<close>

definition plain_ok :: "plain_member \<Rightarrow> bool" where
  "plain_ok m \<longleftrightarrow> int (length (pm_name m)) < 0x10000 \<and> 0 \<le> pm_flags m \<and> pm_flags m < 0x10000
     \<and> 0 \<le> pm_method m \<and> pm_method m < 0x10000 \<and> 0 \<le> pm_crc32 m \<and> pm_crc32 m < 0x100000000
     \<and> 0 \<le> pm_size m \<and> pm_size m < 0xFFFFFFFF \<and> int (length (pm_payload m)) < 0xFFFFFFFF
     \<and> decode_name (pm_flags m) (pm_name m) \<noteq> None \<and> 0 \<notin> set (plain_name m)"

definition archive_ok :: "plain_member list \<Rightarrow> octets \<Rightarrow> bool" where
  "archive_ok ms comment \<longleftrightarrow> list_all plain_ok ms \<and> int (length ms) < 0xFFFF
     \<and> int (length (central_images 0 ms)) < 0xFFFFFFFF \<and> int (length (local_images ms)) < 0xFFFFFFFF
     \<and> int (length comment) \<le> 0xFFFF
     \<and> list_all (\<lambda>j. \<not> occurs_at EOCD_SIGNATURE (end_record ms comment) j) [1..<Suc (length comment)]"

section \<open>Unpacking what was packed\<close>

lemma signature_lengths [simp]:
  "length LOCAL_FILE_SIGNATURE = 4" "length CENTRAL_SIGNATURE = 4" "length EOCD_SIGNATURE = 4"
  by (simp_all add: LOCAL_FILE_SIGNATURE_def CENTRAL_SIGNATURE_def EOCD_SIGNATURE_def)

lemma image_lengths [simp]:
  "length (local_header m) = 30" "length (central_header m n) = 46" "length (end_image a b c e) = 22"
  by (simp_all add: local_header_def central_header_def end_image_def)

lemma unpack_local_header:
  assumes "plain_ok m"
  shows "lf_signature (unpack_local_file (local_header m)) = LOCAL_FILE_SIGNATURE"
    "lf_compressed_size (unpack_local_file (local_header m)) = int (length (pm_payload m))"
    "lf_uncompressed_size (unpack_local_file (local_header m)) = pm_size m"
    "lf_name_length (unpack_local_file (local_header m)) = int (length (pm_name m))"
    "lf_extra_length (unpack_local_file (local_header m)) = 0"
  using assms
  by (simp_all add: unpack_local_file_def local_header_def le_field_def octets_at_def plain_ok_def le_int_le_bytes)

lemma unpack_central_header:
  assumes "plain_ok m" and "0 \<le> offset" and "offset < 0xFFFFFFFF"
  shows "cd_signature (unpack_central_directory (central_header m offset)) = CENTRAL_SIGNATURE"
    "cd_flags (unpack_central_directory (central_header m offset)) = pm_flags m"
    "cd_compression (unpack_central_directory (central_header m offset)) = pm_method m"
    "cd_crc32 (unpack_central_directory (central_header m offset)) = pm_crc32 m"
    "cd_compressed_size (unpack_central_directory (central_header m offset)) = int (length (pm_payload m))"
    "cd_uncompressed_size (unpack_central_directory (central_header m offset)) = pm_size m"
    "cd_name_length (unpack_central_directory (central_header m offset)) = int (length (pm_name m))"
    "cd_extra_length (unpack_central_directory (central_header m offset)) = 0"
    "cd_comment_length (unpack_central_directory (central_header m offset)) = 0"
    "cd_disk_number_start (unpack_central_directory (central_header m offset)) = 0"
    "cd_local_header_offset (unpack_central_directory (central_header m offset)) = offset"
  using assms
  by (simp_all add: unpack_central_directory_def central_header_def le_field_def octets_at_def plain_ok_def le_int_le_bytes)

lemma unpack_end_image:
  assumes "0 \<le> n" "n < 0x10000" "0 \<le> s" "s < 0x100000000" "0 \<le> off" "off < 0x100000000" "0 \<le> c" "c < 0x10000"
  shows "unpack_eocd (end_image n s off c @ rest) = \<lparr>eo_disk_number = 0, eo_central_disk = 0, eo_disk_members = n,
     eo_members = n, eo_central_size = s, eo_central_offset = off, eo_comment_length = c\<rparr>"
  using assms by (simp add: unpack_eocd_def end_image_def le_field_def octets_at_def le_int_le_bytes)

section \<open>Running the checks\<close>

text \<open>A computation that answers the same value from every position.\<close>

definition gives :: "'a zip_io \<Rightarrow> octets \<Rightarrow> 'a \<Rightarrow> bool" where
  "gives m d x \<longleftrightarrow> (\<forall>p. fst (m d p) = Inr x)"

lemma gives_zbind: "gives m d x \<Longrightarrow> gives (f x) d y \<Longrightarrow> gives (zbind m f) d y"
  unfolding gives_def zbind_def by (metis (no_types, lifting) fst_conv old.prod.case old.sum.simps(6) prod.collapse)

lemma gives_else: "\<not> c \<Longrightarrow> gives n d x \<Longrightarrow> gives (if c then m else n) d x"
  by simp

lemma gives_zret: "gives (zret x) d x"
  by (simp add: gives_def zret_def)

lemma gives_zlift: "r = Inr x \<Longrightarrow> gives (zlift r) d x"
  by (simp add: gives_def zlift_def)

lemma gives_raise_first: "list_all (\<lambda>(bad, msg). \<not> bad) cs \<Longrightarrow> gives (raise_first cs) d ()"
  unfolding gives_def
proof
  fix p show "list_all (\<lambda>(bad, msg). \<not> bad) cs \<Longrightarrow> fst (raise_first cs d p) = Inr ()"
    by (induction cs d p rule: raise_first.induct) auto
qed

lemma gives_read_exact:
  "d = pre @ mid @ post \<Longrightarrow> offset = int (length pre) \<Longrightarrow> n = int (length mid) \<Longrightarrow> gives (read_exact offset n) d mid"
  by (simp add: gives_def read_exact_def zbind_def seek_def read_def read_at_def zret_def)

lemma gives_require_name:
  "decode_name flags raw = Some name \<Longrightarrow> 0 \<notin> set name \<Longrightarrow> gives (require_name flags raw) d name"
  unfolding require_name_def by (simp) (rule gives_zbind [OF gives_raise_first gives_zret], simp)

lemma zip64_payload_loop_Nil: "zip64_payload_loop [] 0 found = Inr found"
  by (subst zip64_payload_loop.simps) simp

lemma zip64_entry_values_plain:
  assumes "plain_ok m" and "0 \<le> offset" and "offset < 0xFFFFFFFF"
  shows "zip64_entry_values (unpack_central_directory (central_header m offset)) []
       = Inr \<lparr>ev_compressed_size = int (length (pm_payload m)), ev_uncompressed_size = pm_size m,
           ev_local_header_offset = offset, ev_disk_number_start = 0\<rparr>"
  using assms
  by (simp add: zip64_entry_values_def zip64_payload_loop_Nil unpack_central_header Let_def plain_ok_def)

lemma validate_central_member_plain:
  assumes ok: "plain_ok m" "0 \<le> offset" "offset < 0xFFFFFFFF"
    and local: "d = pre @ local_header m @ rest" "int (length pre) = offset + adj"
      "offset + adj + int (length (local_image m)) \<le> c" "c \<le> fsize"
    and central: "d = cpre @ central_header m offset @ pm_name m @ crest" "cursor = int (length cpre)"
  shows "gives (validate_central_member (unpack_central_directory (central_header m offset)) n
           (cursor + 46 + int (length (pm_name m))) (Some (cursor + 46)) c adj fsize) d
           (plain_entry m n (offset + adj) c)"
proof -
  obtain name where name: "decode_name (pm_flags m) (pm_name m) = Some name" "plain_name m = name" "0 \<notin> set name"
    using ok(1) by (auto simp: plain_ok_def plain_name_def)
  note unpack = unpack_central_header [OF ok] unpack_local_header [OF ok(1)]
  have name_read: "gives (read_exact (cursor + 46) (int (length (pm_name m)))) d (pm_name m)"
    using central by (intro gives_read_exact [of _ "cpre @ central_header m offset" _ crest]) simp_all
  have extra_read: "gives (read_exact (cursor + 46 + int (length (pm_name m))) 0) d []"
    using central by (intro gives_read_exact [of _ "cpre @ central_header m offset @ pm_name m" _ crest]) simp_all
  have local_read: "gives (read_exact (offset + adj) LOCAL_FILE_SIZE) d (local_header m)"
    using local by (intro gives_read_exact [of _ pre _ rest]) (simp_all add: zip_sizes)
  have len: "int (length (local_image m)) = 30 + int (length (pm_name m)) + int (length (pm_payload m))"
    by (simp add: local_image_def)
  show ?thesis
    unfolding validate_central_member_def Let_def option.case unpack
    by (rule gives_zbind [OF name_read], rule gives_zbind [OF gives_require_name [OF name(1,3)]],
        rule gives_zbind [OF gives_raise_first], simp, rule gives_zbind [OF extra_read],
        rule gives_zbind [OF gives_zlift [OF zip64_entry_values_plain [OF ok]]],
        rule gives_zbind [OF gives_raise_first], use local len in \<open>simp add: zip_sizes\<close>,
        simp only: entry_values.select_convs, rule gives_zbind [OF local_read],
        rule gives_zbind [OF gives_raise_first],
        use local len in \<open>simp add: local_checks_def Let_def unpack payload_offset_of_def zip_sizes\<close>,
        simp add: unpack payload_offset_of_def plain_entry_def name gives_zret)
qed

lemma central_step_plain:
  assumes ok: "plain_ok m" "0 \<le> offset" "offset < 0xFFFFFFFF"
    and local: "d = pre @ local_header m @ rest" "int (length pre) = offset + cs_adjustment c"
      "offset + cs_adjustment c + int (length (local_image m)) \<le> cs_offset c" "cs_offset c \<le> cs_file_size c"
    and central: "d = cpre @ central_header m offset @ pm_name m @ crest" "cursor = int (length cpre)"
      "cursor + 46 + int (length (pm_name m)) \<le> cs_end c"
    and room: "n < cs_max_members c" "n < cs_declared c" "offset + cs_adjustment c \<notin> set seen"
  shows "gives (central_step c cursor n seen) d
           (plain_entry m n (offset + cs_adjustment c) (cs_offset c), 46 + int (length (pm_name m)))"
proof -
  have "gives (read_exact cursor CENTRAL_DIRECTORY_SIZE) d (central_header m offset)"
    using central by (intro gives_read_exact [of _ cpre _ "pm_name m @ crest"]) (simp_all add: zip_sizes)
  note reads = this validate_central_member_plain [OF ok local central(1,2), of n]
  show ?thesis
    unfolding central_step_def Let_def
    by (rule gives_zbind [OF gives_raise_first], use central in \<open>simp add: zip_sizes\<close>,
        rule gives_zbind [OF reads(1)], rule gives_zbind [OF gives_raise_first],
        use central room in \<open>simp add: unpack_central_header [OF ok] zip_sizes\<close>,
        rule gives_zbind [where x = "plain_entry m n (offset + cs_adjustment c) (cs_offset c)"],
        use reads(2) in \<open>simp add: unpack_central_header [OF ok] zip_sizes\<close>,
        rule gives_zbind [OF gives_raise_first], use room in \<open>simp add: plain_entry_def\<close>,
        simp add: unpack_central_header [OF ok] zip_sizes gives_zret)
qed

section \<open>The scan of a written directory\<close>

lemma local_images_simps [simp]:
  "local_images [] = []" "local_images (m # ms) = local_image m @ local_images ms"
  by (simp_all add: local_images_def)

lemma local_image_nonempty: "30 \<le> int (length (local_image m))"
  by (simp add: local_image_def)

definition scanned :: "int \<Rightarrow> int \<Rightarrow> int \<Rightarrow> plain_member list \<Rightarrow> zip_member_structure list" where
  "scanned c ordinal offset ms = map (\<lambda>e. e\<lparr>zm_upper_bound := c\<rparr>) (plain_entries ordinal offset ms)"

lemma scanned_simps [simp]:
  "scanned c n offset [] = []"
  "scanned c n offset (m # ms) = plain_entry m n offset c # scanned c (n + 1) (offset + int (length (local_image m))) ms"
  by (simp_all add: scanned_def plain_entry_def)

lemma central_loop_plain:
  assumes "list_all plain_ok ms" and "d = pre @ local_images ms @ rest" and "int (length pre) = offset + cs_adjustment c"
    and "0 \<le> offset" and "offset + int (length (local_images ms)) < 0xFFFFFFFF"
    and "offset + cs_adjustment c + int (length (local_images ms)) \<le> cs_offset c" and "cs_offset c \<le> cs_file_size c"
    and "d = cpre @ central_images offset ms @ crest" and "cursor = int (length cpre)"
    and "cursor + int (length (central_images offset ms)) = cs_end c"
    and "n + int (length ms) \<le> cs_max_members c" and "n + int (length ms) \<le> cs_declared c"
    and "\<forall>h\<in>set seen. h < offset + cs_adjustment c"
  shows "fst (central_loop c cursor n seen entries d p)
       = Inr (entries @ scanned (cs_offset c) n (offset + cs_adjustment c) ms, cs_end c, n + int (length ms))"
  using assms
proof (induction ms arbitrary: offset pre cpre cursor n seen entries p)
  case Nil
  then show ?case by (subst central_loop.simps) simp
next
  case (Cons m ms)
  let ?k = "int (length (local_image m))" and ?r = "46 + int (length (pm_name m))"
  let ?e = "plain_entry m n (offset + cs_adjustment c) (cs_offset c)"
  note k = local_image_nonempty [of m]
  have "gives (central_step c cursor n seen) d (?e, ?r)"
    using Cons.prems k
    by (intro central_step_plain [of m offset d pre "pm_name m @ pm_payload m @ local_images ms @ rest" c cpre
          "central_images (offset + ?k) ms @ crest"]) (auto simp: local_image_def)
  then obtain q where step: "central_step c cursor n seen d p = (Inr (?e, ?r), q)"
    unfolding gives_def by (metis prod.collapse)
  have "cursor < cs_end c" using Cons.prems by simp
  then have "central_loop c cursor n seen entries d p
      = central_loop c (cursor + ?r) (n + 1) ((offset + cs_adjustment c) # seen) (entries @ [?e]) d q"
    using step by (subst central_loop.simps) (simp add: plain_entry_def)
  also have "fst \<dots> = Inr ((entries @ [?e]) @ scanned (cs_offset c) (n + 1) (offset + ?k + cs_adjustment c) ms,
      cs_end c, n + 1 + int (length ms))"
    using Cons.prems k
    by (intro Cons.IH [of "pre @ local_image m" _ "cpre @ central_header m offset @ pm_name m"]) (auto simp: algebra_simps)
  finally show ?case by (simp add: algebra_simps)
qed

lemma plain_entry_upper [simp]: "(plain_entry m n h u)\<lparr>zm_upper_bound := u'\<rparr> = plain_entry m n h u'"
  "zm_header_offset (plain_entry m n h u) = h" "zm_upper_bound (plain_entry m n h u) = u"
  by (simp_all add: plain_entry_def)

lemma plain_headers:
  "e \<in> set (plain_entries n offset ms) \<Longrightarrow>
     offset \<le> zm_header_offset e \<and> zm_header_offset e < offset + int (length (local_images ms))"
proof (induction ms arbitrary: n offset)
  case (Cons m ms)
  then show ?case using local_image_nonempty [of m] by fastforce
qed simp

lemma distinct_plain_headers: "distinct (map zm_header_offset (plain_entries n offset ms))"
proof (induction ms arbitrary: n offset)
  case (Cons m ms)
  then show ?case using local_image_nonempty [of m] plain_headers by fastforce
qed simp

lemma plain_next_boundary:
  "e \<in> set (plain_entries n offset ms) \<Longrightarrow>
     next_boundary (map zm_header_offset (plain_entries n offset ms)) (offset + int (length (local_images ms)))
       (zm_header_offset e) (zm_upper_bound e)"
proof (induction ms arbitrary: n offset)
  case (Cons m ms)
  let ?o = "offset + int (length (local_image m))"
  note k = local_image_nonempty [of m]
  have c: "offset + int (length (local_images (m # ms))) = ?o + int (length (local_images ms))" by simp
  show ?case
  proof (cases "e \<in> set (plain_entries (n + 1) ?o ms)")
    case True
    from Cons.IH [OF True] plain_headers [OF True] k show ?thesis
      unfolding c by (auto simp: next_boundary_def)
  next
    case False
    with Cons.prems have e: "e = plain_entry m n offset ?o" by simp
    have "?o \<in> insert (?o + int (length (local_images ms))) (set (map zm_header_offset (plain_entries (n + 1) ?o ms)))"
      by (cases ms) auto
    then show ?thesis
      unfolding c using k plain_headers [of _ "n + 1" ?o ms] by (auto simp: e next_boundary_def)
  qed
qed simp

lemma next_boundary_unique:
  "next_boundary hs c h u \<Longrightarrow> next_boundary hs c h u' \<Longrightarrow> \<forall>h\<in>set hs. h < c \<Longrightarrow> u = u'"
  unfolding next_boundary_def by (metis insertE order_antisym order_less_imp_le)

lemma scanned_bounds:
  assumes "c = offset + int (length (local_images ms))"
  shows "map (\<lambda>item. item\<lparr>zm_upper_bound := dict_get_or (upper_bounds (scanned c n offset ms) c) (zm_header_offset item) 0\<rparr>)
           (scanned c n offset ms) = plain_entries n offset ms"
proof -
  let ?es = "plain_entries n offset ms"
  have hs: "map zm_header_offset (scanned c n offset ms) = map zm_header_offset ?es"
    by (simp add: scanned_def)
  have below: "\<forall>e\<in>set ?es. zm_header_offset e < c"
    using plain_headers assms by blast
  have "dict_get_or (upper_bounds (scanned c n offset ms) c) (zm_header_offset e) 0 = zm_upper_bound e" if e: "e \<in> set ?es" for e
  proof (rule next_boundary_unique)
    show "next_boundary (map zm_header_offset ?es) c (zm_header_offset e)
        (dict_get_or (upper_bounds (scanned c n offset ms) c) (zm_header_offset e) 0)"
      using upper_bounds_next [of "scanned c n offset ms" "e\<lparr>zm_upper_bound := c\<rparr>" c] e below
        distinct_plain_headers [of n offset ms] by (simp add: hs) (simp add: scanned_def)
    show "next_boundary (map zm_header_offset ?es) c (zm_header_offset e) (zm_upper_bound e)"
      using plain_next_boundary [OF e] assms by simp
  qed (use below in auto)
  then show ?thesis by (simp add: scanned_def map_idI)
qed

section \<open>The end record of a written archive\<close>

lemma occurs_at_append: "occurs_at pat (xs @ ys) (length xs + j) \<longleftrightarrow> occurs_at pat ys j"
  by (auto simp: occurs_at_def octets_at_def)

lemma find_eocd_written:
  assumes E: "E = end_image n b off (int (length comment))" and v: "\<And>rest. unpack_eocd (E @ rest) = v"
    "eo_comment_length v = int (length comment)"
    and once: "\<And>j. 0 < j \<Longrightarrow> j \<le> length comment \<Longrightarrow> \<not> occurs_at EOCD_SIGNATURE (E @ comment) j"
  shows "find_eocd_loop (body @ E @ comment) (length (body @ E @ comment)) = Some (length body, v)"
proof -
  let ?t = "body @ E @ comment"
  have len: "length E = 22" by (simp add: E)
  have "octets_at (E @ comment) 0 4 = EOCD_SIGNATURE"
    by (simp add: E octets_at_def end_image_def)
  then have "occurs_at EOCD_SIGNATURE ?t (length body)"
    using occurs_at_append [of EOCD_SIGNATURE body "E @ comment" 0] len by (simp add: occurs_at_def)
  moreover have "eocd_fits ?t (length body)"
    using v len by (simp add: eocd_fits_def zip_sizes)
  ultimately have here: "eocd_at ?t (length body)" by (simp add: eocd_at_def)
  have "\<not> eocd_at ?t j" if j: "length body < j" for j
  proof
    assume at: "eocd_at ?t j"
    then have "j - length body \<le> length comment"
      using len by (auto simp: eocd_at_def eocd_fits_def zip_sizes)
    moreover have "occurs_at EOCD_SIGNATURE (E @ comment) (j - length body)"
      using at j occurs_at_append [of EOCD_SIGNATURE body "E @ comment" "j - length body"] by (simp add: eocd_at_def)
    ultimately show False using once [of "j - length body"] j by simp
  qed
  with here have "filter (eocd_at ?t) [0..<length ?t] = filter (eocd_at ?t) [0..<length body] @ [length body]"
    by (intro last_filter_upt) (auto simp: len)
  then show ?thesis
    unfolding find_eocd_loop_reference last_eocd_def using v by simp
qed

lemma gives_find_eocd:
  assumes E: "E = end_image n b off (int (length comment))" and v: "\<And>rest. unpack_eocd (E @ rest) = v"
    "eo_comment_length v = int (length comment)" and "length comment \<le> 0xFFFF"
    and once: "\<And>j. 0 < j \<Longrightarrow> j \<le> length comment \<Longrightarrow> \<not> occurs_at EOCD_SIGNATURE (E @ comment) j"
  shows "gives (find_eocd (int (length (body @ E @ comment)))) (body @ E @ comment) (int (length body), v)"
proof -
  let ?d = "body @ E @ comment"
  define tail_size where "tail_size = min (int (length ?d)) (EOCD_FIXED_BYTES + MAX_ZIP_COMMENT_BYTES)"
  define k where "k = nat (int (length ?d) - tail_size)"
  have len: "length E = 22" by (simp add: E)
  have k: "int k = int (length ?d) - tail_size" "k \<le> length body"
    using assms(4) len by (auto simp: k_def tail_size_def zip_sizes)
  have tail: "gives (read_exact (int (length ?d) - tail_size) tail_size) ?d (drop k body @ E @ comment)"
    using k len by (intro gives_read_exact [of _ "take k body" _ "[]"]) auto
  have index: "int (length ?d) - tail_size + int (length (drop k body)) = int (length body)"
    using k by simp
  show ?thesis
    unfolding find_eocd_def Let_def tail_size_def [symmetric]
    by (rule gives_zbind [OF tail])
      (simp only: find_eocd_written [OF E v once] option.case prod.case index gives_zret)
qed

section \<open>The round trip\<close>

lemma gives_inspect_central:
  assumes "archive_ok ms comment" and "int (length ms) \<le> max_members"
    and fsize: "fsize = int (length (zip_image stub ms comment))"
  shows "gives (inspect_central_directory \<lparr>cs_offset = int (length stub) + int (length (local_images ms)),
      cs_bytes = int (length (central_images 0 ms)), cs_declared = int (length ms), cs_max_members = max_members,
      cs_adjustment = int (length stub), cs_file_size = fsize\<rparr>) (zip_image stub ms comment)
    (plain_entries 0 (int (length stub)) ms)"
proof -
  let ?c = "\<lparr>cs_offset = int (length stub) + int (length (local_images ms)),
      cs_bytes = int (length (central_images 0 ms)), cs_declared = int (length ms), cs_max_members = max_members,
      cs_adjustment = int (length stub), cs_file_size = fsize\<rparr>"
  have "gives (central_loop ?c (cs_offset ?c) 0 [] []) (zip_image stub ms comment)
      (scanned (cs_offset ?c) 0 (int (length stub)) ms, cs_end ?c, int (length ms))"
    unfolding gives_def
  proof
    fix p show "fst (central_loop ?c (cs_offset ?c) 0 [] [] (zip_image stub ms comment) p)
        = Inr (scanned (cs_offset ?c) 0 (int (length stub)) ms, cs_end ?c, int (length ms))"
      using assms central_loop_plain [of ms "zip_image stub ms comment" stub "central_images 0 ms @ end_record ms comment" 0 ?c
          "stub @ local_images ms" "end_record ms comment" "cs_offset ?c" 0 "[]" "[]" p]
      by (simp add: archive_ok_def zip_image_def cs_end_def)
  qed
  then show ?thesis
    unfolding inspect_central_directory_def
    by (rule gives_zbind, simp only: prod.case, intro gives_zbind [OF gives_raise_first])
      (simp_all add: Let_def scanned_bounds gives_zret)
qed

lemma written_end_record:
  assumes "archive_ok ms comment"
  defines "E \<equiv> end_image (int (length ms)) (int (length (central_images 0 ms))) (int (length (local_images ms)))
     (int (length comment))"
  defines "v \<equiv> \<lparr>eo_disk_number = 0, eo_central_disk = 0, eo_disk_members = int (length ms), eo_members = int (length ms),
     eo_central_size = int (length (central_images 0 ms)), eo_central_offset = int (length (local_images ms)),
     eo_comment_length = int (length comment)\<rparr>"
  shows "gives (find_eocd (int (length (zip_image stub ms comment)))) (zip_image stub ms comment)
           (int (length (stub @ local_images ms @ central_images 0 ms)), v)"
    and "\<not> eocd_is_zip64 v"
proof -
  have ok: "length ms < 0xFFFF" "length (central_images 0 ms) < 0xFFFFFFFF" "length (local_images ms) < 0xFFFFFFFF"
    "length comment \<le> 0xFFFF"
    using assms(1) by (auto simp: archive_ok_def)
  have once: "\<not> occurs_at EOCD_SIGNATURE (E @ comment) j" if "0 < j" "j \<le> length comment" for j
    using assms(1) that by (auto simp: archive_ok_def list_all_iff end_record_def E_def)
  have "unpack_eocd (E @ rest) = v" for rest
    unfolding E_def v_def using ok by (intro unpack_end_image) simp_all
  then show "gives (find_eocd (int (length (zip_image stub ms comment)))) (zip_image stub ms comment)
           (int (length (stub @ local_images ms @ central_images 0 ms)), v)"
    using gives_find_eocd [of E _ _ _ comment v "stub @ local_images ms @ central_images 0 ms"] once ok
    by (simp add: E_def v_def zip_image_def end_record_def)
  show "\<not> eocd_is_zip64 v"
    using ok by (simp add: eocd_is_zip64_def v_def)
qed

text \<open>
  C37. Round trip: every archive the reference writer produces, with any stub in
  front and any comment that does not itself contain an end signature, is
  accepted, and the inspection reports exactly the members written, with their
  decoded names, sizes, checksums, physical offsets (past the stub) and the
  boundary of each member at the next local header.
\<close>

theorem written_archive_inspected:
  assumes "archive_ok ms comment" and "int (length ms) \<le> max_members" and "1 \<le> max_members"
    and "int (length (central_images 0 ms)) \<le> max_bytes" and "1 \<le> max_bytes"
  shows "inspect_zip_bytes (zip_image stub ms comment) max_members max_bytes
       = Inr \<lparr>zs_members = int (length ms), zs_central_directory_bytes = int (length (central_images 0 ms)),
           zs_central_directory_offset = int (length stub) + int (length (local_images ms)), zs_zip64 = False,
           zs_entries = plain_entries 0 (int (length stub)) ms\<rparr>"
proof -
  let ?d = "zip_image stub ms comment"
  let ?z = "\<lparr>zs_members = int (length ms), zs_central_directory_bytes = int (length (central_images 0 ms)),
           zs_central_directory_offset = int (length stub) + int (length (local_images ms)), zs_zip64 = False,
           zs_entries = plain_entries 0 (int (length stub)) ms\<rparr>"
  note E = written_end_record [OF assms(1)]
  have scan: "gives (inspect_central_directory \<lparr>cs_offset = int (length stub) + int (length (local_images ms)),
      cs_bytes = int (length (central_images 0 ms)), cs_declared = int (length ms), cs_max_members = max_members,
      cs_adjustment = int (length stub), cs_file_size = int (length ?d)\<rparr>) ?d (plain_entries 0 (int (length stub)) ms)"
    using assms(1,2) by (intro gives_inspect_central) simp_all
  let ?b = "int (length (stub @ local_images ms @ central_images 0 ms))"
  let ?v = "\<lparr>eo_disk_number = 0, eo_central_disk = 0, eo_disk_members = int (length ms), eo_members = int (length ms),
     eo_central_size = int (length (central_images 0 ms)), eo_central_offset = int (length (local_images ms)),
     eo_comment_length = int (length comment)\<rparr>"
  have dir: "gives (directory_values ?v ?b (int (length ?d))) ?d
      (int (length ms), int (length (central_images 0 ms)), int (length (local_images ms)), ?b)"
    unfolding directory_values_def using E(2)
    by simp (rule gives_zbind [OF gives_raise_first gives_zret], simp)
  have size: "int (length ?d) = ?b + 22 + int (length comment)"
    by (simp add: zip_image_def end_record_def)
  have "gives (inspect_zip_source (int (length ?d)) max_members max_bytes) ?d ?z"
    unfolding inspect_zip_source_def
    by (rule gives_else, simp, rule gives_else, use assms in simp, rule gives_else, use assms in simp,
        rule gives_zbind [OF gives_raise_first], use size in \<open>simp add: zip_sizes\<close>,
        rule gives_zbind [OF E(1)], simp only: prod.case,
        rule gives_zbind [OF gives_raise_first], use size in \<open>simp add: zip_sizes\<close>,
        rule gives_zbind [OF dir], simp only: prod.case Let_def,
        rule gives_zbind [OF gives_raise_first], use size assms in simp,
        rule gives_zbind [where x = "plain_entries 0 (int (length stub)) ms"],
        use scan in \<open>simp add: add.commute\<close>, use E(2) in \<open>simp add: gives_zret add.commute\<close>)
  then show ?thesis
    by (simp add: inspect_zip_bytes_def inspect_zip_stream_eq gives_def)
qed

text \<open>Two members, the second a directory with a UTF-8 name, behind a stub and before a comment.\<close>

definition demo_members :: "plain_member list" where
  "demo_members =
     [\<lparr>pm_name = [0x61], pm_flags = 0, pm_method = 8, pm_crc32 = 0xD8932AAC, pm_size = 2, pm_payload = [203, 200, 4, 0]\<rparr>,
      \<lparr>pm_name = [195, 169, 47], pm_flags = 0x800, pm_method = 0, pm_crc32 = 0, pm_size = 0, pm_payload = []\<rparr>]"

theorem written_archive_inspected_witness:
  "archive_ok demo_members [0x21] \<and> zm_filename (plain_entries 0 2 demo_members ! 1) = [233, 47]
   \<and> inspect_zip_bytes (zip_image [35, 33] demo_members [0x21]) 10 1000
     = Inr \<lparr>zs_members = 2, zs_central_directory_bytes = 96, zs_central_directory_offset = 70, zs_zip64 = False,
         zs_entries = plain_entries 0 2 demo_members\<rparr>"
proof -
  have ok: "archive_ok demo_members [0x21]" by code_simp
  have len: "length demo_members = 2" "length (central_images 0 demo_members) = 96" "length (local_images demo_members) = 68"
    by code_simp+
  have "zm_filename (plain_entries 0 2 demo_members ! 1) = [233, 47]" by code_simp
  with written_archive_inspected [OF ok, of 10 1000 "[35, 33]"] ok show ?thesis
    by (simp add: len)
qed

end
