(* ===== verification/Action_World.thy ===== *)
theory Action_World
  imports Dedup_Fingerprint
begin

text \<open>
  The ground of the physical actions under \<open>workflow\<close>: what the operating system
  answers to their calls, the exceptions they raise, and the record of the
  effects they have had.

  An answer may depend on the moment it is given, and nothing relates the answers
  of different moments: other processes may change the tree between any two
  calls. Every call takes one moment, and an interrupt may arrive instead of its
  answer. Text is made of the first 256 code points.
\<close>

datatype file_kind = Kind_Regular | Kind_Directory | Kind_Link | Kind_Other

text \<open>The answer of \<open>os.lstat\<close>; every other failure carries its number and text.\<close>

datatype stat_answer = Found file_kind stat_result | Not_Found | Stat_Error nat string

datatype act_error =
    MutationError string
  | MutationSnapshotChanged string
  | MutationUnavailable string
  | Act_RuntimeError string
  | KioTrashUnavailable string string
  | Act_ValueError string
  | Act_TypeError string
  | Act_OSError nat string
  | Act_FileChanged
  | Act_Interrupted string

text \<open>
  \<open>MutationError\<close> and its two subclasses are runtime errors, and so is
  \<open>KioTrashUnavailable\<close>, which carries a reason and a detail.
\<close>

definition is_mutation_error :: "act_error \<Rightarrow> bool" where
  "is_mutation_error e = (case e of
     MutationError _ \<Rightarrow> True | MutationSnapshotChanged _ \<Rightarrow> True | MutationUnavailable _ \<Rightarrow> True | _ \<Rightarrow> False)"

definition is_os_error :: "act_error \<Rightarrow> bool" where
  "is_os_error e = (case e of Act_OSError _ _ \<Rightarrow> True | _ \<Rightarrow> False)"

definition is_runtime_error :: "act_error \<Rightarrow> bool" where
  "is_runtime_error e = (is_mutation_error e \<or> (case e of Act_RuntimeError _ \<Rightarrow> True | KioTrashUnavailable _ _ \<Rightarrow> True | _ \<Rightarrow> False))"

text \<open>\<open>str(exc)\<close>.\<close>

definition error_text :: "act_error \<Rightarrow> string" where
  "error_text e = (case e of
     MutationError s \<Rightarrow> s | MutationSnapshotChanged s \<Rightarrow> s | MutationUnavailable s \<Rightarrow> s
   | Act_RuntimeError s \<Rightarrow> s | KioTrashUnavailable reason detail \<Rightarrow> reason @ '': '' @ detail | Act_ValueError s \<Rightarrow> s | Act_TypeError s \<Rightarrow> s | Act_OSError n s \<Rightarrow> s
   | Act_FileChanged \<Rightarrow> [] | Act_Interrupted s \<Rightarrow> [])"

text \<open>
  The answers to the calls of an action: metadata, resolved locations, whether a
  descriptor could be opened (a failure has its number and text), the metadata of
  an open descriptor, the content of a file while it is hashed or compared, the
  results of \<open>renameat2\<close> and \<open>fsync\<close>, the bytes of an open file, the names in a
  directory, whether a path is a mount point, the directory \<open>mkdtemp\<close> made, and the
  results of \<open>chmod\<close>, \<open>rmdir\<close> and \<open>unlink\<close>. \<open>os_exists\<close> follows links.
\<close>

record os_answers =
  os_cwd :: string
  os_interrupts :: "nat \<Rightarrow> bool"
  os_lstat :: "nat \<Rightarrow> string \<Rightarrow> stat_answer"
  os_realpath :: "nat \<Rightarrow> string \<Rightarrow> (nat \<times> string) + string"
  os_open :: "nat \<Rightarrow> (nat \<times> string) option"
  os_fstat :: "nat \<Rightarrow> stat_answer"
  os_content :: "nat \<Rightarrow> descriptor_io"
  os_compare :: "nat \<Rightarrow> descriptor_io \<times> descriptor_io \<times> compare_event list"
  os_rename :: "nat \<Rightarrow> (nat \<times> string) option"
  os_fsync :: "nat \<Rightarrow> (nat \<times> string) option"
  os_bytes :: "nat \<Rightarrow> byte list"
  os_listing :: "nat \<Rightarrow> (nat \<times> string) + string list"
  os_ismount :: "nat \<Rightarrow> bool"
  os_mkdtemp :: "nat \<Rightarrow> (nat \<times> string) + string"
  os_chmod :: "nat \<Rightarrow> (nat \<times> string) option"
  os_rmdir :: "nat \<Rightarrow> (nat \<times> string) option"
  os_unlink :: "nat \<Rightarrow> (nat \<times> string) option"
  os_exists :: "nat \<Rightarrow> string \<Rightarrow> (nat \<times> string) + bool"

text \<open>
  Effects, in the order they happened: the call that precedes the mutation, a
  \<open>renameat2\<close> with \<open>RENAME_NOREPLACE\<close> by its two names and whether it succeeded, and
  directories made and removed and files unlinked, by their paths.
\<close>

datatype effect = Before_Syscall | Rename_Noreplace string string bool
  | Make_Directory string | Remove_Directory string | Unlink_File string

text \<open>
  The state of a running action: the moment, the open descriptors (each is the
  moment of the call that made it), the effects so far, and two variables of the
  frame of a backend, its descriptor variables and \<open>effect_crossed\<close>.
\<close>

record world =
  w_time :: nat
  w_open :: "nat list"
  w_log :: "effect list"
  w_slots :: "(string, nat) dict"
  w_crossed :: bool

type_synonym 'a act = "os_answers \<Rightarrow> world \<Rightarrow> (act_error + 'a) \<times> world"

definition aret :: "'a \<Rightarrow> 'a act" where
  "aret x os w = (Inr x, w)"

definition araise :: "act_error \<Rightarrow> 'a act" where
  "araise e os w = (Inl e, w)"

definition abind :: "'a act \<Rightarrow> ('a \<Rightarrow> 'b act) \<Rightarrow> 'b act" where
  "abind m f os w = (case m os w of (Inl e, w') \<Rightarrow> (Inl e, w') | (Inr x, w') \<Rightarrow> f x os w')"

definition araise_if :: "bool \<Rightarrow> act_error \<Rightarrow> unit act" where
  "araise_if bad e = (if bad then araise e else aret ())"

text \<open>\<open>try: m except ...: handler\<close>; the handler passes on what it does not catch.\<close>

definition atry :: "'a act \<Rightarrow> (act_error \<Rightarrow> 'a act) \<Rightarrow> 'a act" where
  "atry m handler os w = (case m os w of (Inl e, w') \<Rightarrow> handler e os w' | (Inr x, w') \<Rightarrow> (Inr x, w'))"

definition tick :: "world \<Rightarrow> world" where
  "tick w = w\<lparr>w_time := Suc (w_time w)\<rparr>"

definition ask :: "(os_answers \<Rightarrow> nat \<Rightarrow> 'a) \<Rightarrow> 'a act" where
  "ask f os w =
     (if os_interrupts os (w_time w) then (Inl (Act_Interrupted ''KeyboardInterrupt''), tick w)
      else (Inr (f os (w_time w)), tick w))"

definition lstat :: "string \<Rightarrow> stat_answer act" where
  "lstat path = ask (\<lambda>os t. os_lstat os t path)"

definition log_effect :: "effect \<Rightarrow> unit act" where
  "log_effect e os w = (Inr (), w\<lparr>w_log := w_log w @ [e]\<rparr>)"

section \<open>Results\<close>

named_theorems act_simps \<open>what a computation of an action established\<close>

lemma abind_Inr [act_simps]:
  "abind m f os w = (Inr y, w') \<longleftrightarrow> (\<exists>x v. m os w = (Inr x, v) \<and> f x os v = (Inr y, w'))"
  by (auto simp: abind_def split: prod.splits sum.splits)

lemma aret_Inr [act_simps]: "aret x os w = (Inr y, w') \<longleftrightarrow> y = x \<and> w' = w"
  by (auto simp: aret_def)

lemma araise_Inr [act_simps]: "araise e os w = (Inr y, w') \<longleftrightarrow> False"
  by (simp add: araise_def)

lemma araise_if_Inr [act_simps]: "araise_if bad e os w = (Inr y, w') \<longleftrightarrow> \<not> bad \<and> w' = w"
  by (auto simp: araise_if_def aret_def araise_def)

lemma ask_Inr [act_simps]:
  "ask f os w = (Inr y, w') \<longleftrightarrow> \<not> os_interrupts os (w_time w) \<and> y = f os (w_time w) \<and> w' = tick w"
  by (auto simp: ask_def)

text \<open>
  A computation that has no effect: on every path it changes nothing but the
  moment.
\<close>

named_theorems quiet_intros \<open>computations without an effect\<close>

definition quiet :: "'a act \<Rightarrow> bool" where
  "quiet m \<longleftrightarrow> (\<forall>os w. \<exists>t. snd (m os w) = w\<lparr>w_time := t\<rparr>)"

lemma quietD: "quiet m \<Longrightarrow> m os w = (r, w') \<Longrightarrow> \<exists>t. w' = w\<lparr>w_time := t\<rparr>"
  by (metis quiet_def snd_conv)

lemma quiet_aret [quiet_intros]: "quiet (aret x)"
  unfolding quiet_def aret_def by (metis snd_conv world.surjective world.update_convs(1))

lemma quiet_araise [quiet_intros]: "quiet (araise e)"
  unfolding quiet_def araise_def by (metis snd_conv world.surjective world.update_convs(1))

lemma quiet_araise_if [quiet_intros]: "quiet (araise_if bad e)"
  by (auto simp: araise_if_def intro: quiet_aret quiet_araise)

lemma quiet_ask [quiet_intros]: "quiet (ask f)"
  by (auto simp: quiet_def ask_def tick_def)

lemma quiet_lstat [quiet_intros]: "quiet (lstat path)"
  unfolding lstat_def by (rule quiet_ask)

lemma quiet_abind [quiet_intros]:
  assumes "quiet m" and "\<And>x. quiet (f x)"
  shows "quiet (abind m f)"
  unfolding quiet_def
proof (intro allI)
  fix os w
  obtain r v where m: "m os w = (r, v)" by force
  then obtain t where v: "v = w\<lparr>w_time := t\<rparr>"
    using quietD [OF assms(1)] by blast
  show "\<exists>t. snd (abind m f os w) = w\<lparr>w_time := t\<rparr>"
  proof (cases r)
    case (Inr x)
    obtain t' where "snd (f x os v) = v\<lparr>w_time := t'\<rparr>"
      using assms(2) [of x] by (auto simp: quiet_def)
    then show ?thesis by (auto simp: abind_def m Inr v)
  qed (auto simp: abind_def m v)
qed

lemma quiet_atry [quiet_intros]:
  assumes "quiet m" and "\<And>e. quiet (h e)"
  shows "quiet (atry m h)"
  unfolding quiet_def
proof (intro allI)
  fix os w
  obtain r v where m: "m os w = (r, v)" by force
  then obtain t where v: "v = w\<lparr>w_time := t\<rparr>"
    using quietD [OF assms(1)] by blast
  show "\<exists>t. snd (atry m h os w) = w\<lparr>w_time := t\<rparr>"
  proof (cases r)
    case (Inl e)
    obtain t' where "snd (h e os v) = v\<lparr>w_time := t'\<rparr>"
      using assms(2) [of e] by (auto simp: quiet_def)
    then show ?thesis by (auto simp: atry_def m Inl v)
  qed (auto simp: atry_def m v)
qed

lemma quiet_case_sum [quiet_intros]: "(\<And>e. quiet (f e)) \<Longrightarrow> (\<And>x. quiet (g x)) \<Longrightarrow> quiet (case r of Inl e \<Rightarrow> f e | Inr x \<Rightarrow> g x)"
  by (cases r) auto

lemma quiet_case_option [quiet_intros]: "quiet f \<Longrightarrow> (\<And>x. quiet (g x)) \<Longrightarrow> quiet (case r of None \<Rightarrow> f | Some x \<Rightarrow> g x)"
  by (cases r) auto

lemma quiet_case_stat [quiet_intros]:
  "(\<And>k st. quiet (f k st)) \<Longrightarrow> quiet g \<Longrightarrow> (\<And>n msg. quiet (h n msg))
     \<Longrightarrow> quiet (case r of Found k st \<Rightarrow> f k st | Not_Found \<Rightarrow> g | Stat_Error n msg \<Rightarrow> h n msg)"
  by (cases r) auto

lemma quiet_case_prod [quiet_intros]: "(\<And>x y. quiet (f x y)) \<Longrightarrow> quiet (case r of (x, y) \<Rightarrow> f x y)"
  by (cases r) auto

lemma quiet_if [quiet_intros]: "(c \<Longrightarrow> quiet f) \<Longrightarrow> (\<not> c \<Longrightarrow> quiet g) \<Longrightarrow> quiet (if c then f else g)"
  by auto

section \<open>A file system at rest\<close>

text \<open>
  Answers that do not change: what every path is, with no failing call and no
  interrupt. The concrete cases use it.
\<close>

definition idle_descriptor :: descriptor_io where
  "idle_descriptor = \<lparr>opens = (\<lambda>_. True), first_checkpoint = False, fstat_open = None, fstat_before = None,
     events = [], fstat_after = None\<rparr>"

definition steady_os :: "(string \<Rightarrow> stat_answer) \<Rightarrow> os_answers" where
  "steady_os f = \<lparr>os_cwd = ''/'', os_interrupts = (\<lambda>_. False), os_lstat = (\<lambda>_. f), os_realpath = (\<lambda>_. Inr),
     os_open = (\<lambda>_. None), os_fstat = (\<lambda>_. Not_Found), os_content = (\<lambda>_. idle_descriptor),
     os_compare = (\<lambda>_. (idle_descriptor, idle_descriptor, [])), os_rename = (\<lambda>_. None), os_fsync = (\<lambda>_. None),
     os_bytes = (\<lambda>_. []), os_listing = (\<lambda>_. Inr []), os_ismount = (\<lambda>_. False),
     os_mkdtemp = (\<lambda>_. Inl (13, ''Permission denied'')), os_chmod = (\<lambda>_. None), os_rmdir = (\<lambda>_. None), os_unlink = (\<lambda>_. None),
     os_exists = (\<lambda>_ p. Inr (case f p of Found _ _ \<Rightarrow> True | _ \<Rightarrow> False))\<rparr>"

definition start_world :: world where
  "start_world = \<lparr>w_time = 0, w_open = [], w_log = [], w_slots = [], w_crossed = False\<rparr>"

definition demo_stat :: "int \<Rightarrow> int \<Rightarrow> stat_result" where
  "demo_stat ino bytes = \<lparr>st_dev = 7, st_ino = ino, st_size = bytes, st_mtime = 100, st_ctime = 100,
     st_birthtime = None, st_regular = True, st_nlink = 1\<rparr>"

definition demo_tree :: "string \<Rightarrow> stat_answer" where
  "demo_tree p =
     (if p = ''/r'' then Found Kind_Directory (demo_stat 1 0)
      else if p = ''/r/d'' then Found Kind_Directory (demo_stat 2 0)
      else if p = ''/r/d/f'' then Found Kind_Regular (demo_stat 3 5)
      else if p = ''/r/l'' then Found Kind_Link (demo_stat 4 0)
      else Not_Found)"

end
