(* ===== verification/Action_Policy.thy ===== *)
theory Action_Policy
  imports Action_World
begin

text \<open>
  The path and snapshot policy shared by the actions
  (\<open>workflow/actions/action_policy.py\<close>): lexical and physical containment of a
  mutation path in its root, protected paths, corrected names, and the bounded
  child-first traversal of directories.

  On the supported platform \<open>os.path.normcase\<close> is the identity, \<open>os.path.isjunction\<close>
  is false and \<open>st_file_attributes\<close> is absent, so a reparse entry is a link.
\<close>

section \<open>Snapshots and names\<close>

definition same_snapshot :: "file_snapshot \<Rightarrow> file_snapshot \<Rightarrow> bool" where
  "same_snapshot planned current \<longleftrightarrow> snap_identity planned = snap_identity current
     \<and> fs_size planned = fs_size current \<and> fs_mtime planned = fs_mtime current
     \<and> fs_birthtime planned = fs_birthtime current"

text \<open>\<open>PurePath.suffix\<close>, \<open>with_name\<close> and \<open>with_suffix\<close>; a path is its \<open>pathlib\<close> text.\<close>

definition path_suffix :: "string \<Rightarrow> string" where
  "path_suffix p = (case dot_split (path_name p) of
     None \<Rightarrow> []
   | Some (stem, ext) \<Rightarrow> if stem \<noteq> [] \<and> ext \<noteq> [] then CHR ''.'' # ext else [])"

definition path_text :: "nat \<Rightarrow> string list \<Rightarrow> string" where
  "path_text slashes comps = (let t = replicate slashes CHR ''/'' @ join_with ''/'' comps in if t = [] then ''.'' else t)"

definition with_name :: "string \<Rightarrow> string \<Rightarrow> act_error + string" where
  "with_name p name =
     (if path_name p = [] then Inl (Act_ValueError ''path has an empty name'')
      else if name = [] \<or> CHR ''/'' \<in> set name \<or> name = ''.'' then Inl (Act_ValueError ''Invalid name'')
      else Inr (path_text (initial_slashes p) (butlast (path_comps p) @ [name])))"

definition with_suffix :: "string \<Rightarrow> string \<Rightarrow> act_error + string" where
  "with_suffix p suffix_text =
     (if CHR ''/'' \<in> set suffix_text \<or> (suffix_text \<noteq> [] \<and> hd suffix_text \<noteq> CHR ''.'') \<or> suffix_text = ''.''
      then Inl (Act_ValueError ''Invalid suffix'')
      else if path_name p = [] then Inl (Act_ValueError ''path has an empty name'')
      else with_name p (take (length (path_name p) - length (path_suffix p)) (path_name p) @ suffix_text))"

definition corrected_path :: "string \<Rightarrow> string \<Rightarrow> act_error + string" where
  "corrected_path p extension =
     (if path_suffix p \<noteq> [] then with_suffix p extension else with_name p (path_name p @ extension))"

definition path_key :: "string \<Rightarrow> string \<Rightarrow> string" where
  "path_key cwd p = abspath cwd p"

definition is_reparse_entry :: "file_kind \<Rightarrow> bool" where
  "is_reparse_entry k \<longleftrightarrow> k = Kind_Link"

section \<open>Containment\<close>

definition is_within_root :: "string \<Rightarrow> string \<Rightarrow> bool" where
  "is_within_root root_key candidate_key \<longleftrightarrow> commonpath2 root_key candidate_key = root_key"

text \<open>\<open>os.path.relpath\<close> of two absolute normal paths.\<close>

definition relpath :: "string \<Rightarrow> string \<Rightarrow> string" where
  "relpath path start =
     (let s = path_comps start; p = path_comps path; i = length (common_prefix s p);
          rel = replicate (length s - i) ''..'' @ drop i p
      in if rel = [] then ''.'' else join_with ''/'' rel)"

definition validate_descendant_path :: "string \<Rightarrow> string \<Rightarrow> string \<Rightarrow> string \<Rightarrow> act_error + string \<times> string" where
  "validate_descendant_path cwd root_dir path role =
     (let root_path = abspath cwd root_dir; candidate = abspath cwd path;
          root_key = path_key cwd root_path; candidate_key = path_key cwd candidate;
          relative = relpath candidate root_path
      in if candidate_key = root_key
         then Inl (Act_RuntimeError (role @ '' is the inventory root itself: '' @ candidate))
         else if \<not> is_within_root root_key candidate_key
         then Inl (Act_RuntimeError (role @ '' escapes the inventory root lexically: '' @ candidate))
         else if starts_with relative ''/'' \<or> ''..'' \<in> set (path_parts relative)
         then Inl (Act_RuntimeError (role @ '' escapes the inventory root lexically: '' @ candidate))
         else Inr (root_path, relative))"

definition child_path :: "string \<Rightarrow> string \<Rightarrow> string" where
  "child_path base part = (if base \<noteq> [] \<and> last base = CHR ''/'' then base @ part else base @ ''/'' @ part)"

text \<open>
  The walk over the components below the root, each inspected with \<open>lstat\<close>. It
  answers the metadata of the leaf, or none when it is allowed to be missing, and
  the last existing path.
\<close>

fun inspect_components ::
    "string \<Rightarrow> bool \<Rightarrow> bool \<Rightarrow> string \<Rightarrow> string list \<Rightarrow> ((file_kind \<times> stat_result) option \<times> string) act" where
  "inspect_components role missing_leaf missing_tail parent [] = aret (None, parent)"
| "inspect_components role missing_leaf missing_tail parent (part # parts) =
     (let current = child_path parent part; is_leaf = (parts = []) in
      abind (lstat current) (\<lambda>answer. case answer of
        Not_Found \<Rightarrow>
          if missing_tail \<or> (missing_leaf \<and> is_leaf) then aret (None, parent)
          else araise (Act_RuntimeError (role @ '' component no longer exists inside the inventory root: '' @ current))
      | Stat_Error n msg \<Rightarrow>
          araise (Act_RuntimeError (role @ '' component cannot be inspected safely: '' @ current @ '': '' @ msg))
      | Found kind st \<Rightarrow>
          if is_reparse_entry kind
          then araise (Act_RuntimeError (role @ '' traverses a symlink, junction, or reparse point: '' @ current))
          else if \<not> is_leaf \<and> kind \<noteq> Kind_Directory
          then araise (Act_RuntimeError (role @ '' has a non-directory intermediate component: '' @ current))
          else if is_leaf then aret (Some (kind, st), current)
          else inspect_components role missing_leaf missing_tail current parts))"

definition check_root_entry :: "string \<Rightarrow> string \<Rightarrow> unit act" where
  "check_root_entry role root_path =
     abind (lstat root_path) (\<lambda>answer. case answer of
       Found kind st \<Rightarrow>
         if is_reparse_entry kind
         then araise (Act_RuntimeError (''inventory root became a symlink, junction, or reparse point: '' @ root_path))
         else if kind \<noteq> Kind_Directory
         then araise (Act_RuntimeError (''inventory root is not a directory: '' @ root_path))
         else aret ()
     | _ \<Rightarrow> araise (Act_RuntimeError (''inventory root cannot be inspected for '' @ role @ '': '' @ root_path)))"

definition resolve :: "string \<Rightarrow> string \<Rightarrow> string \<Rightarrow> string act" where
  "resolve role candidate path =
     abind (ask (\<lambda>os t. map_sum id (path_key (os_cwd os)) (os_realpath os t path))) (\<lambda>r. case r of
       Inl _ \<Rightarrow> araise (Act_RuntimeError (role @ '' physical location cannot be resolved safely: '' @ candidate))
     | Inr key \<Rightarrow> aret key)"

definition validate_mutation_path ::
    "string \<Rightarrow> string \<Rightarrow> string \<Rightarrow> bool \<Rightarrow> bool \<Rightarrow> (file_kind \<times> stat_result) option act" where
  "validate_mutation_path root_dir path role missing_leaf missing_tail os w =
     (case validate_descendant_path (os_cwd os) root_dir path role of
        Inl e \<Rightarrow> (Inl e, w)
      | Inr (root_path, relative) \<Rightarrow>
          let candidate = child_path root_path relative in
          abind (check_root_entry role root_path) (\<lambda>_.
          abind (inspect_components role missing_leaf missing_tail root_path (path_parts relative))
            (\<lambda>(leaf, physical_subject).
          abind (resolve role candidate root_path) (\<lambda>physical_root_key.
          abind (resolve role candidate physical_subject) (\<lambda>physical_subject_key.
          abind (araise_if (\<not> is_within_root physical_root_key physical_subject_key)
            (Act_RuntimeError (role @ '' escapes the inventory root physically: '' @ candidate))) (\<lambda>_.
          aret leaf))))) os w)"

section \<open>Protected paths\<close>

definition PROFILE_SYSTEM_PREFIXES :: "string list" where
  "PROFILE_SYSTEM_PREFIXES = [''ntuser.dat'', ''usrclass.dat'']"

definition PROFILE_SYSTEM_NAMES :: "string list" where
  "PROFILE_SYSTEM_NAMES = [''ntuser.ini'']"

definition FILE_ATTRIBUTE_HIDDEN :: nat where "FILE_ATTRIBUTE_HIDDEN = 1"
definition FILE_ATTRIBUTE_SYSTEM :: nat where "FILE_ATTRIBUTE_SYSTEM = 2"

text \<open>
  The protected roots come from the environment at import; the attributes are
  those of the metadata, none when they cannot be read. The two masks are given by
  the bit they test.
\<close>

definition protected_path_reason :: "string \<Rightarrow> string list \<Rightarrow> string \<Rightarrow> bool \<Rightarrow> int option \<Rightarrow> string option" where
  "protected_path_reason cwd protected_roots path check_attributes attributes =
     (let name = casefold (path_name path); key = path_key cwd path;
          inside = filter (\<lambda>r. commonpath2 key r = r) protected_roots
      in if name \<in> set PROFILE_SYSTEM_NAMES \<or> list_ex (starts_with name) PROFILE_SYSTEM_PREFIXES
         then Some ''protected Windows user-profile state''
         else if inside \<noteq> [] then Some (''protected Windows system tree: '' @ hd inside)
         else if \<not> check_attributes then None
         else case attributes of
           None \<Rightarrow> None
         | Some a \<Rightarrow>
             if bit a FILE_ATTRIBUTE_SYSTEM then Some ''protected file with Windows SYSTEM attribute''
             else if bit a FILE_ATTRIBUTE_HIDDEN then Some ''protected file with Windows HIDDEN attribute''
             else None)"

section \<open>Child-first traversal\<close>

text \<open>
  What the operating system answers while a tree is listed: a directory that
  cannot be opened, or its entries in listing order, at any of which the listing
  may fail. The questions asked of an entry may fail too (\<open>None\<close>).
\<close>

record scan_entry =
  se_symlink :: "bool option"
  se_directory :: "bool option"
  se_attributes :: "int option"

datatype dir_tree = Unreadable string | Readable string "dir_item list"
  and dir_item = Entry scan_entry dir_tree | Listing_Fails

fun tree_path :: "dir_tree \<Rightarrow> string" where
  "tree_path (Unreadable p) = p"
| "tree_path (Readable p items) = p"

text \<open>Whether an entry is pushed; \<open>None\<close> counts an error.\<close>

definition descends :: "(string \<Rightarrow> int \<Rightarrow> bool) \<Rightarrow> scan_entry \<Rightarrow> string \<Rightarrow> bool option" where
  "descends excludes e child = (case se_symlink e of
     None \<Rightarrow> None
   | Some True \<Rightarrow> Some False
   | Some False \<Rightarrow> (case se_directory e of
       None \<Rightarrow> None
     | Some False \<Rightarrow> Some False
     | Some True \<Rightarrow> (case se_attributes e of
         None \<Rightarrow> None
       | Some a \<Rightarrow> Some (\<not> excludes child a))))"

text \<open>
  The stack of the generator: a directory with its iterator, or not yet opened.
  What is yielded is collected in order, with the number of errors.
\<close>

fun item_size :: "dir_item \<Rightarrow> nat" and tree_size :: "dir_tree \<Rightarrow> nat" where
  "item_size Listing_Fails = 1"
| "item_size (Entry e t) = 1 + tree_size t"
| "tree_size (Unreadable p) = 2"
| "tree_size (Readable p items) = 2 + sum_list (map item_size items)"

fun frame_size :: "dir_tree \<times> dir_item list option \<Rightarrow> nat" where
  "frame_size (t, None) = tree_size t"
| "frame_size (t, Some items) = 1 + sum_list (map item_size items)"

function postorder_loop :: "(string \<Rightarrow> int \<Rightarrow> bool) \<Rightarrow> string \<Rightarrow> (dir_tree \<times> dir_item list option) list
    \<Rightarrow> string list \<Rightarrow> nat \<Rightarrow> string list \<times> nat" where
  "postorder_loop excludes root_dir [] out errors = (out, errors)"
| "postorder_loop excludes root_dir ((t, None) # stack) out errors = (case t of
     Unreadable p \<Rightarrow> postorder_loop excludes root_dir stack out (errors + 1)
   | Readable p items \<Rightarrow> postorder_loop excludes root_dir ((t, Some items) # stack) out errors)"
| "postorder_loop excludes root_dir ((t, Some []) # stack) out errors =
     postorder_loop excludes root_dir stack (if tree_path t \<noteq> root_dir then out @ [tree_path t] else out) errors"
| "postorder_loop excludes root_dir ((t, Some (Listing_Fails # items)) # stack) out errors =
     postorder_loop excludes root_dir stack out (errors + 1)"
| "postorder_loop excludes root_dir ((t, Some (Entry e child # items)) # stack) out errors =
     (case descends excludes e (tree_path child) of
        None \<Rightarrow> postorder_loop excludes root_dir ((t, Some items) # stack) out (errors + 1)
      | Some False \<Rightarrow> postorder_loop excludes root_dir ((t, Some items) # stack) out errors
      | Some True \<Rightarrow> postorder_loop excludes root_dir ((child, None) # (t, Some items) # stack) out errors)"
  by pat_completeness auto

termination
  by (relation "measure (\<lambda>(_, _, stack, _). sum_list (map frame_size stack))") (auto split: dir_tree.splits)

definition postorder_directories :: "(string \<Rightarrow> int \<Rightarrow> bool) \<Rightarrow> dir_tree \<Rightarrow> string list \<times> nat" where
  "postorder_directories excludes t = postorder_loop excludes (tree_path t) [(t, None)] [] 0"

end
