(* ===== verification/Action_Containment.thy ===== *)
theory Action_Containment
  imports Action_Policy
begin

text \<open>
  What the path policy guarantees: absolute normal paths are determined by their
  components, an accepted mutation path lies below its root both in its text and
  through every component that was inspected, and the child-first traversal is the
  recursive one.
\<close>

section \<open>Absolute normal paths\<close>

definition path_of :: "string list \<Rightarrow> string" where
  "path_of cs = ''/'' @ join_with ''/'' cs"

lemma path_comps_ok: "list_all comp_ok (path_comps p)"
  by (auto simp: path_comps_def list_all_iff comp_ok_def dest: split_on_comps)

lemma path_comps_path_of: "list_all comp_ok cs \<Longrightarrow> path_comps (path_of cs) = cs"
  using path_comps_join [of cs 1] by (simp add: path_of_def)

lemma list_all_prefix: "prefix xs ys \<Longrightarrow> list_all P ys \<Longrightarrow> list_all P xs"
  by (auto simp: prefix_def)

lemma common_prefix_left: "prefix (common_prefix xs ys) xs"
  by (induction xs ys rule: common_prefix.induct) auto

lemma common_prefix_right: "prefix (common_prefix xs ys) ys"
  by (induction xs ys rule: common_prefix.induct) auto

lemma within_root_iff:
  "is_within_root r x \<longleftrightarrow> r = path_of (path_comps r) \<and> prefix (path_comps r) (path_comps x)"
proof
  assume within: "is_within_root r x"
  let ?cs = "common_prefix (path_comps r) (path_comps x)"
  have r: "r = path_of ?cs"
    using within by (simp add: is_within_root_def commonpath2_def path_of_def)
  have "list_all comp_ok ?cs"
    using common_prefix_left path_comps_ok by (rule list_all_prefix)
  then have "path_comps r = ?cs"
    by (subst r) (rule path_comps_path_of)
  then show "r = path_of (path_comps r) \<and> prefix (path_comps r) (path_comps x)"
    using r common_prefix_right by metis
next
  assume "r = path_of (path_comps r) \<and> prefix (path_comps r) (path_comps x)"
  moreover have "common_prefix xs ys = xs" if "prefix xs ys" for xs ys :: "string list"
    using that by (induction xs ys rule: common_prefix.induct) auto
  ultimately show "is_within_root r x"
    by (simp add: is_within_root_def commonpath2_def path_of_def)
qed

text \<open>Normalisation of a rooted path leaves no parent reference, and is idempotent.\<close>

lemma notin_tl: "x \<notin> set xs \<Longrightarrow> x \<notin> set (tl xs)"
  by (cases xs) auto

lemma norm_comps_no_up:
  "''..'' \<notin> set acc \<Longrightarrow> ''..'' \<notin> set (norm_comps True cs acc)"
proof (induction cs arbitrary: acc)
  case (Cons c cs)
  have "''..'' \<notin> set (norm_comps True cs acc)" "''..'' \<notin> set (norm_comps True cs (tl acc))" "c \<noteq> ''..'' \<Longrightarrow> ''..'' \<notin> set (norm_comps True cs (c # acc))"
    "acc \<noteq> [] \<Longrightarrow> hd acc \<noteq> ''..''"
    using Cons.prems by (auto intro!: Cons.IH simp: notin_tl dest: hd_in_set)
  then show ?case by (cases "c = ''..''"; cases "acc = []") simp_all
qed simp

lemma norm_comps_keep:
  "list_all comp_ok cs \<Longrightarrow> ''..'' \<notin> set cs \<Longrightarrow> norm_comps rooted cs acc = rev acc @ cs"
  by (induction rooted cs acc rule: norm_comps.induct) (auto simp: comp_ok_def)

lemma rooted_normpath:
  assumes "starts_with p ''/''"
  obtains n cs where "n = 1 \<or> n = 2" "list_all comp_ok cs" "''..'' \<notin> set cs"
    "normpath p = replicate n CHR ''/'' @ join_with ''/'' cs"
proof
  let ?cs = "norm_comps True (split_on CHR ''/'' p) []"
  have n: "initial_slashes p = 1 \<or> initial_slashes p = 2"
    using assms by (auto simp: initial_slashes_def)
  show "initial_slashes p = 1 \<or> initial_slashes p = 2" by (rule n)
  show "list_all comp_ok ?cs" by (rule norm_comps_ok) (auto simp: list_all_iff dest: split_on_comps)
  show "''..'' \<notin> set ?cs" by (rule norm_comps_no_up) simp
  show "normpath p = replicate (initial_slashes p) CHR ''/'' @ join_with ''/'' ?cs"
    using assms n by (auto simp: normpath_def Let_def starts_with_def)
qed

lemma join_head: "list_all comp_ok cs \<Longrightarrow> \<not> starts_with (join_with ''/'' cs) ''/''"
  by (cases cs rule: list.exhaust, simp add: starts_with_def)
    (rename_tac c cs', case_tac c, auto simp: comp_ok_def starts_with_def, (case_tac cs', auto)+)

lemma initial_slashes_replicate:
  assumes "n = 1 \<or> n = 2" and "\<not> starts_with s ''/''"
  shows "initial_slashes (replicate n CHR ''/'' @ s) = n"
  using assms by (cases s) (auto simp: initial_slashes_def starts_with_def numeral_2_eq_2)

lemma normpath_idem:
  assumes "starts_with p ''/''"
  shows "normpath (normpath p) = normpath p"
proof -
  obtain n cs where n: "n = 1 \<or> n = 2" and cs: "list_all comp_ok cs" "''..'' \<notin> set cs"
    and p: "normpath p = replicate n CHR ''/'' @ join_with ''/'' cs"
    using rooted_normpath [OF assms] .
  let ?q = "replicate n CHR ''/'' @ join_with ''/'' cs"
  have slashes: "initial_slashes ?q = n"
    using n join_head [OF cs(1)] by (rule initial_slashes_replicate)
  have comps: "norm_comps True (split_on CHR ''/'' ?q) [] = cs"
  proof -
    have "norm_comps True (split_on CHR ''/'' (replicate k CHR ''/'' @ s)) [] = norm_comps True (split_on CHR ''/'' s) []" for k s
      by (induction k) auto
    from this [of n "join_with ''/'' cs"] show ?thesis
      using cs split_on_join [OF cs(1)] by (cases "cs = []") (simp_all add: norm_comps_keep)
  qed
  have "?q \<noteq> []" using n by auto
  then show ?thesis
    unfolding p using slashes comps n by (auto simp: normpath_def Let_def)
qed

lemma abspath_absolute: "starts_with cwd ''/'' \<Longrightarrow> starts_with (abspath cwd p) ''/''"
proof -
  assume "starts_with cwd ''/''"
  then have "starts_with (if starts_with p ''/'' then p
     else if cwd = [] \<or> last cwd = CHR ''/'' then cwd @ p else cwd @ ''/'' @ p) ''/''"
    by (auto simp: starts_with_def)
  then obtain n cs where "n = 1 \<or> n = 2" "abspath cwd p = replicate n CHR ''/'' @ join_with ''/'' cs"
    unfolding abspath_def by (rule rooted_normpath)
  then show ?thesis by (auto simp: starts_with_def numeral_2_eq_2)
qed

lemma path_key_abspath:
  assumes "starts_with cwd ''/''"
  shows "path_key cwd (abspath cwd p) = abspath cwd p"
proof -
  have "normpath (abspath cwd p) = abspath cwd p"
    unfolding abspath_def using assms by (intro normpath_idem) (auto simp: starts_with_def)
  then show ?thesis
    using abspath_absolute [OF assms, of p] by (simp add: path_key_def abspath_def)
qed

lemma child_path_of: "list_all comp_ok (cs @ [c]) \<Longrightarrow> child_path (path_of cs) c = path_of (cs @ [c])"
proof (cases "cs = []")
  case False
  assume ok: "list_all comp_ok (cs @ [c])"
  have snoc: "join_with ''/'' (cs @ [c]) = join_with ''/'' cs @ ''/'' @ c"
    using False by (induction "''/''" cs rule: join_with.induct) simp_all
  have "last (join_with ''/'' cs) = last (last cs)" "join_with ''/'' cs \<noteq> []"
    using False ok by (induction "''/''" cs rule: join_with.induct) (auto simp: comp_ok_def)
  moreover have "last (last cs) \<noteq> CHR ''/''"
    using False ok by (auto simp: list_all_iff comp_ok_def) (metis last_in_set)
  ultimately show ?thesis
    by (simp add: child_path_def path_of_def snoc)
qed (simp add: child_path_def path_of_def)

section \<open>Accepted paths\<close>

lemma validate_descendant_path_Inr:
  assumes "starts_with cwd ''/''" and "validate_descendant_path cwd root_dir path role = Inr (root_path, relative)"
  defines "R \<equiv> path_comps (abspath cwd root_dir)" and "C \<equiv> path_comps (abspath cwd path)"
  shows "root_path = path_of R" and "prefix R C" and "path_parts relative = drop (length R) C"
    and "abspath cwd path \<noteq> abspath cwd root_dir"
proof -
  have facts: "root_path = abspath cwd root_dir" "relative = relpath (abspath cwd path) (abspath cwd root_dir)"
    "is_within_root (abspath cwd root_dir) (abspath cwd path)" "abspath cwd path \<noteq> abspath cwd root_dir"
    using assms(2) path_key_abspath [OF assms(1)]
    by (auto simp: validate_descendant_path_def Let_def split: if_splits)
  then show "root_path = path_of R" and pre: "prefix R C" and "abspath cwd path \<noteq> abspath cwd root_dir"
    by (auto simp: within_root_iff R_def C_def)
  then obtain rest where rest: "C = R @ rest" by (auto simp: prefix_def)
  have "common_prefix R C = R"
    unfolding rest by (induction R) auto
  then have rel: "relative = (if rest = [] then ''.'' else join_with ''/'' rest)"
    using facts(2) rest by (simp add: relpath_def R_def [symmetric] C_def [symmetric] Let_def)
  have ok: "list_all comp_ok rest"
    using path_comps_ok [of "abspath cwd path"] rest C_def by simp
  have "path_parts relative = rest"
  proof (cases "rest = []")
    case True
    then show ?thesis by (simp add: rel path_parts_def initial_slashes_def starts_with_def path_comps_def)
  next
    case False
    then have "initial_slashes (join_with ''/'' rest) = 0"
      using join_head [OF ok] by (simp add: initial_slashes_def)
    then show ?thesis
      using False path_comps_join [OF ok, of 0] by (simp add: rel path_parts_def)
  qed
  then show "path_parts relative = drop (length R) C" by (simp add: rest)
qed

text \<open>What the walk saw: a directory at every component before the last, no link anywhere.\<close>

definition saw :: "os_answers \<Rightarrow> string \<Rightarrow> file_kind \<Rightarrow> bool" where
  "saw os path kind \<longleftrightarrow> (\<exists>t st. os_lstat os t path = Found kind st)"

definition leaf_seen :: "os_answers \<Rightarrow> bool \<Rightarrow> string \<Rightarrow> (file_kind \<times> stat_result) option \<Rightarrow> bool" where
  "leaf_seen os may_miss path leaf = (case leaf of
     None \<Rightarrow> may_miss
   | Some (kind, st) \<Rightarrow> kind \<noteq> Kind_Link \<and> (\<exists>t. os_lstat os t path = Found kind st))"

lemma inspect_components_Inr:
  "inspect_components role ml mt (path_of cs) parts os w = (Inr (leaf, subject), w') \<Longrightarrow>
   list_all comp_ok (cs @ parts) \<Longrightarrow>
     (\<forall>k<length parts. 0 < k \<longrightarrow> mt \<or> saw os (path_of (cs @ take k parts)) Kind_Directory)
   \<and> (parts \<noteq> [] \<longrightarrow> leaf_seen os (ml \<or> mt) (path_of (cs @ parts)) leaf)
   \<and> (\<exists>k\<le>length parts. subject = path_of (cs @ take k parts) \<and> (k < length parts \<longrightarrow> ml \<or> mt))"
proof (induction parts arbitrary: cs w)
  case Nil
  then show ?case by (simp add: act_simps)
next
  case (Cons part parts)
  have here: "child_path (path_of cs) part = path_of (cs @ [part])"
    using Cons.prems(2) by (intro child_path_of) simp
  let ?a = "os_lstat os (w_time w) (path_of (cs @ [part]))"
  from Cons.prems(1) have run: "(case ?a of
        Not_Found \<Rightarrow> mt \<or> ml \<and> parts = [] \<and> True
      | Stat_Error n msg \<Rightarrow> False
      | Found kind st \<Rightarrow> kind \<noteq> Kind_Link)"
    by (auto simp: here act_simps lstat_def is_reparse_entry_def Let_def split: stat_answer.splits if_splits)
  show ?case
  proof (cases ?a)
    case (Found kind st)
    show ?thesis
    proof (cases "parts = []")
      case True
      with Cons.prems(1) Found show ?thesis
        by (auto simp: here act_simps lstat_def is_reparse_entry_def Let_def leaf_seen_def split: if_splits)
    next
      case False
      with Cons.prems(1) Found have kind: "kind = Kind_Directory"
        and rest: "inspect_components role ml mt (path_of (cs @ [part])) parts os (tick w) = (Inr (leaf, subject), w')"
        by (auto simp: here act_simps lstat_def is_reparse_entry_def Let_def split: if_splits)
      from Cons.IH [OF rest] Cons.prems(2)
      have ih: "\<forall>k<length parts. 0 < k \<longrightarrow> mt \<or> saw os (path_of (cs @ part # take k parts)) Kind_Directory"
        "leaf_seen os (ml \<or> mt) (path_of (cs @ part # parts)) leaf"
        "\<exists>k\<le>length parts. subject = path_of (cs @ part # take k parts) \<and> (k < length parts \<longrightarrow> ml \<or> mt)"
        using False by simp_all
      have "saw os (path_of (cs @ [part])) Kind_Directory"
        using Found kind by (auto simp: saw_def)
      then have "mt \<or> saw os (path_of (cs @ take (Suc j) (part # parts))) Kind_Directory" if "j < length parts" for j
        using ih(1) that by (cases j) auto
      then have "\<forall>k<length (part # parts). 0 < k \<longrightarrow> mt \<or> saw os (path_of (cs @ take k (part # parts))) Kind_Directory"
        by (metis Suc_less_eq gr0_conv_Suc length_Cons)
      moreover from ih(3) obtain k where "k \<le> length parts" "subject = path_of (cs @ take (Suc k) (part # parts))"
        "k < length parts \<longrightarrow> ml \<or> mt" by auto
      ultimately show ?thesis
        using ih(2) by (auto intro!: exI [of _ "Suc k"])
    qed
  next
    case Not_Found
    with Cons.prems(1) run show ?thesis
      by (auto simp: here act_simps lstat_def Let_def leaf_seen_def split: if_splits intro!: exI [of _ 0])
  next
    case (Stat_Error n msg)
    with run show ?thesis by simp
  qed
qed

lemma check_root_entry_Inr:
  "check_root_entry role p os w = (Inr u, w') \<Longrightarrow> saw os p Kind_Directory"
  by (auto simp: check_root_entry_def act_simps lstat_def saw_def is_reparse_entry_def split: stat_answer.splits if_splits)

text \<open>The physical location of a path, as it was resolved at some moment.\<close>

definition resolves :: "os_answers \<Rightarrow> string \<Rightarrow> string \<Rightarrow> bool" where
  "resolves os path key \<longleftrightarrow> (\<exists>t physical. os_realpath os t path = Inr physical \<and> key = path_key (os_cwd os) physical)"

lemma resolve_Inr: "resolve role candidate p os w = (Inr key, w') \<Longrightarrow> resolves os p key"
  unfolding resolve_def resolves_def act_simps
  by (cases "os_realpath os (w_time w) p") (auto simp: act_simps)



text \<open>
  The root itself is refused only in the spelling with one leading slash: with two,
  which name the same directory, it passes for a descendant and is reported as an
  allowed missing leaf.
\<close>

lemma doubled_slash_root_accepted:
  "validate_descendant_path ''/'' ''/r'' ''/r'' ''source''
     = Inl (Act_RuntimeError ''source is the inventory root itself: /r'')"
  "validate_descendant_path ''/'' ''/r'' ''//r'' ''source'' = Inr (''/r'', ''.'')"
  "fst (validate_mutation_path ''/r'' ''//r'' ''source'' False False (steady_os demo_tree) start_world) = Inr None"
  by code_simp+

section \<open>Traversal\<close>

text \<open>The recursive traversal: what a directory yields, its errors, and whether its listing ended.\<close>

fun visit_tree :: "(string \<Rightarrow> int \<Rightarrow> bool) \<Rightarrow> string \<Rightarrow> dir_tree \<Rightarrow> string list \<times> nat"
  and visit_items :: "(string \<Rightarrow> int \<Rightarrow> bool) \<Rightarrow> string \<Rightarrow> dir_item list \<Rightarrow> string list \<times> nat \<times> bool" where
  "visit_tree excludes r (Unreadable p) = ([], 1)"
| "visit_tree excludes r (Readable p items) = (case visit_items excludes r items of
     (out, errors, ended) \<Rightarrow> (if ended \<and> p \<noteq> r then out @ [p] else out, errors))"
| "visit_items excludes r [] = ([], 0, True)"
| "visit_items excludes r (Listing_Fails # items) = ([], 1, False)"
| "visit_items excludes r (Entry e child # items) = (case visit_items excludes r items of
     (out, errors, ended) \<Rightarrow> (case descends excludes e (tree_path child) of
        None \<Rightarrow> (out, errors + 1, ended)
      | Some False \<Rightarrow> (out, errors, ended)
      | Some True \<Rightarrow> (case visit_tree excludes r child of
           (below, failed) \<Rightarrow> (below @ out, failed + errors, ended))))"

lemma postorder_loop_visit:
  "postorder_loop excludes r ((t, None) # stack) out errors =
     postorder_loop excludes r stack (out @ fst (visit_tree excludes r t)) (errors + snd (visit_tree excludes r t))"
  "postorder_loop excludes r ((Readable p all, Some items) # stack) out errors =
     (case visit_items excludes r items of (below, failed, ended) \<Rightarrow>
        postorder_loop excludes r stack (out @ below @ (if ended \<and> p \<noteq> r then [p] else [])) (errors + failed))"
proof (induction excludes r t and excludes r items arbitrary: stack out errors and p all stack out errors
    rule: visit_tree_visit_items.induct)
  case (5 excludes r e child items)
  obtain below failed ended where v: "visit_items excludes r items = (below, failed, ended)"
    by (cases "visit_items excludes r items")
  show ?case
  proof (cases "descends excludes e (tree_path child)")
    case None
    with "5.IH"(1) show ?thesis by (simp add: v)
  next
    case (Some b)
    then show ?thesis
      using "5.IH" by (cases b) (simp_all add: v case_prod_beta ac_simps)
  qed
qed (auto split: prod.splits)

text \<open>
  C35. The traversal with its explicit stack always ends and yields exactly what
  the recursive child-first traversal yields, in that order and with as many
  counted errors, for every tree of answers: a directory whose listing fails is
  not yielded, what was found below it before is.
\<close>

theorem postorder_directories_recursive:
  "postorder_directories excludes t = visit_tree excludes (tree_path t) t"
  unfolding postorder_directories_def by (subst postorder_loop_visit(1)) simp

end
