(* ===== verification/Action_Json.thy ===== *)
theory Action_Json
  imports Action_World
begin

text \<open>
  JSON documents as the actions write and read them, the bindings of an effect to
  its source (\<open>metadata_binding\<close> in \<open>safety/kio_trash.py\<close>), and the two documents
  of \<open>workflow/actions/file_action_recovery.py\<close>: the identity expected at the
  mutation frontier and the receipt of an effect.

  A document is its value: \<open>json.loads\<close> undoes \<open>json.dumps\<close>. The text is written
  out where its length or its digest matters. Documents hold no numbers with a
  fraction: none is written.
\<close>

section \<open>Values and text\<close>

datatype json =
    J_Null
  | J_Bool bool
  | J_Int int
  | J_Text string
  | J_Object "(string \<times> json) list"
  | J_Array "json list"

definition int_text :: "int \<Rightarrow> string" where
  "int_text i = (if i < 0 then CHR ''-'' # dec_of (nat (- i)) else dec_of (nat i))"

definition hex_text :: "int \<Rightarrow> string" where
  "hex_text i = (if i < 0 then CHR ''-'' # hex_of (nat (- i)) else hex_of (nat i))"

text \<open>\<open>json.dumps(..., ensure_ascii=False)\<close> of one character inside a string.\<close>

definition json_char :: "char \<Rightarrow> string" where
  "json_char c =
     (let n = (of_char c :: nat) in
      if n = 34 then [CHR 0x5C, c]
      else if n = 92 then [c, c]
      else if n = 10 then [CHR 0x5C, CHR ''n'']
      else if n = 13 then [CHR 0x5C, CHR ''r'']
      else if n = 9 then [CHR 0x5C, CHR ''t'']
      else if n = 8 then [CHR 0x5C, CHR ''b'']
      else if n = 12 then [CHR 0x5C, CHR ''f'']
      else if n < 32 then CHR 0x5C # ''u00'' @ [digit_char (n div 16), digit_char (n mod 16)]
      else [c])"

definition json_string :: "string \<Rightarrow> string" where
  "json_string s = [CHR 0x22] @ concat (map json_char s) @ [CHR 0x22]"

fun json_text :: "json \<Rightarrow> string" where
  "json_text J_Null = ''null''"
| "json_text (J_Bool b) = (if b then ''true'' else ''false'')"
| "json_text (J_Int i) = int_text i"
| "json_text (J_Text s) = json_string s"
| "json_text (J_Object items) =
     ''{'' @ join_with '','' (map (\<lambda>(k, v). json_string k @ '':'' @ json_text v) items) @ ''}''"
| "json_text (J_Array vs) = ''['' @ join_with '','' (map json_text vs) @ '']''"

text \<open>The order of keys: strings compare by code points.\<close>

fun text_le :: "string \<Rightarrow> string \<Rightarrow> bool" where
  "text_le [] t = True"
| "text_le (c # s) [] = False"
| "text_le (c # s) (d # t) = ((of_char c :: nat) < of_char d \<or> (c = d \<and> text_le s t))"

fun insert_item :: "string \<times> json \<Rightarrow> (string \<times> json) list \<Rightarrow> (string \<times> json) list" where
  "insert_item i [] = [i]"
| "insert_item i (j # js) = (if text_le (fst i) (fst j) then i # j # js else j # insert_item i js)"

definition sort_items :: "(string \<times> json) list \<Rightarrow> (string \<times> json) list" where
  "sort_items items = foldr insert_item items []"

text \<open>\<open>dict.update\<close> and the canonical document of \<open>_canonical_json\<close>.\<close>

definition update_items :: "(string \<times> json) list \<Rightarrow> (string \<times> json) list \<Rightarrow> (string \<times> json) list" where
  "update_items items new = foldl (\<lambda>d (k, v). dict_set d k v) items new"

fun sort_json :: "json \<Rightarrow> json" where
  "sort_json (J_Object items) = J_Object (sort_items (map (\<lambda>(k, v). (k, sort_json v)) items))"
| "sort_json (J_Array vs) = J_Array (map sort_json vs)"
| "sort_json v = v"

definition canonical_json :: "(string \<times> json) list \<Rightarrow> json" where
  "canonical_json items = sort_json (J_Object items)"

text \<open>UTF-8 of the first 256 code points.\<close>

definition utf8_bytes :: "string \<Rightarrow> byte list" where
  "utf8_bytes s = concat (map (\<lambda>c. let n = (of_char c :: nat) in
     if n < 128 then [of_nat n] else [of_nat (192 + n div 64), of_nat (128 + n mod 64)]) s)"

definition utf8_length :: "string \<Rightarrow> int" where
  "utf8_length s = int (length (utf8_bytes s))"

fun json_get :: "json \<Rightarrow> string \<Rightarrow> json option" where
  "json_get (J_Object items) k = dict_get items k"
| "json_get _ k = None"

text \<open>\<open>repr\<close> of the values of a document.\<close>

definition repr_char :: "char \<Rightarrow> char \<Rightarrow> string" where
  "repr_char quote c =
     (let n = (of_char c :: nat) in
      if c = quote \<or> n = 92 then [CHR 0x5C, c]
      else if n = 10 then [CHR 0x5C, CHR ''n'']
      else if n = 13 then [CHR 0x5C, CHR ''r'']
      else if n = 9 then [CHR 0x5C, CHR ''t'']
      else if n < 32 \<or> 127 \<le> n \<and> n < 161 \<or> n = 173 then [CHR 0x5C, CHR ''x'', digit_char (n div 16), digit_char (n mod 16)]
      else [c])"

definition repr_text :: "string \<Rightarrow> string" where
  "repr_text s = (let quote = (if CHR 0x27 \<in> set s \<and> CHR 0x22 \<notin> set s then CHR 0x22 else CHR 0x27)
     in [quote] @ concat (map (repr_char quote) s) @ [quote])"

fun repr_json :: "json \<Rightarrow> string" where
  "repr_json J_Null = ''None''"
| "repr_json (J_Bool b) = (if b then ''True'' else ''False'')"
| "repr_json (J_Int i) = int_text i"
| "repr_json (J_Text s) = repr_text s"
| "repr_json (J_Object items) =
     ''{'' @ join_with '', '' (map (\<lambda>(k, v). repr_text k @ '': '' @ repr_json v) items) @ ''}''"
| "repr_json (J_Array vs) = ''['' @ join_with '', '' (map repr_json vs) @ '']''"

section \<open>Bindings\<close>

definition METADATA_BINDING_PREFIX :: string where
  "METADATA_BINDING_PREFIX = ''metadata-v1:''"

definition metadata_binding :: "(byte list \<Rightarrow> byte list) \<Rightarrow> file_snapshot \<Rightarrow> string" where
  "metadata_binding sha256 s = METADATA_BINDING_PREFIX @ digest_hex (sha256 (utf8_bytes (json_text (J_Object
     [(''birthtime_ns'', J_Int (fs_birthtime s)), (''file_id'', J_Int (fs_file s)), (''mtime_ns'', J_Int (fs_mtime s)),
      (''schema'', J_Text ''neocortex.redlist-metadata-binding/v1''), (''size'', J_Int (fs_size s)),
      (''volume_id'', J_Int (fs_volume s))]))))"

definition is_metadata_binding :: "string \<Rightarrow> bool" where
  "is_metadata_binding v \<longleftrightarrow> starts_with v METADATA_BINDING_PREFIX
     \<and> (let digest = drop (length METADATA_BINDING_PREFIX) v in
        length digest = 64 \<and> list_all (\<lambda>c. c \<in> set ''0123456789abcdef'') digest)"

definition content_binding :: "byte list \<Rightarrow> string" where
  "content_binding digest = FULL_ALGORITHM @ '':'' @ digest_hex digest"

section \<open>Documents\<close>

definition expected_identity_json :: "file_snapshot \<Rightarrow> string \<Rightarrow> string option \<Rightarrow> json" where
  "expected_identity_json s source_path target_path = J_Object
     [(''schema_version'', J_Int 1),
      (''source'', J_Object
        [(''birthtime_ns'', J_Int (fs_birthtime s)), (''file_id'', J_Text (hex_text (fs_file s))),
         (''mtime_ns'', J_Int (fs_mtime s)), (''path'', J_Text source_path), (''size'', J_Int (fs_size s)),
         (''volume_id'', J_Text (hex_text (fs_volume s)))]),
      (''target_path'', case target_path of None \<Rightarrow> J_Null | Some t \<Rightarrow> J_Text t)]"

definition target_identity_json :: "file_snapshot option \<Rightarrow> json" where
  "target_identity_json target = (case target of
     None \<Rightarrow> J_Null
   | Some s \<Rightarrow> J_Object
       [(''birthtime_ns'', J_Int (fs_birthtime s)), (''file_id'', J_Text (hex_text (fs_file s))),
        (''mtime_ns'', J_Int (fs_mtime s)), (''path'', J_Text (fs_path s)), (''size'', J_Int (fs_size s)),
        (''volume_id'', J_Text (hex_text (fs_volume s)))])"

definition effect_receipt_json :: "string \<Rightarrow> string \<Rightarrow> string option \<Rightarrow> file_snapshot option \<Rightarrow> (string \<times> json) list" where
  "effect_receipt_json operation source_path target_path target_snapshot =
     [(''operation'', J_Text operation), (''receipt_type'', J_Text ''successful_return_and_observation''),
      (''schema_version'', J_Int 1), (''source_absent'', J_Bool True), (''source_path'', J_Text source_path),
      (''target_identity'', target_identity_json target_snapshot),
      (''target_path'', case target_path of None \<Rightarrow> J_Null | Some t \<Rightarrow> J_Text t)]"

section \<open>Dictionaries keep their entries when they are sorted or updated\<close>

lemma set_insert_item: "set (insert_item i js) = insert i (set js)"
  by (induction i js rule: insert_item.induct) auto

lemma dict_get_insert_item:
  "fst i \<notin> set (dict_keys js) \<Longrightarrow> dict_get (insert_item i js) k = (if k = fst i then Some (snd i) else dict_get js k)"
  by (induction i js rule: insert_item.induct) auto

lemma set_keys_insert_item: "set (dict_keys (insert_item i js)) = insert (fst i) (set (dict_keys js))"
  by (induction i js rule: insert_item.induct) (auto simp: dict_keys_def)

lemma dict_get_sort_items:
  "dict_wf items \<Longrightarrow> dict_get (sort_items items) k = dict_get items k \<and> set (dict_keys (sort_items items)) = set (dict_keys items)"
  by (induction items) (auto simp: sort_items_def dict_get_insert_item set_keys_insert_item)

lemma dict_map_items:
  "dict_get (map (\<lambda>(k, v). (k, f v)) items) k = map_option f (dict_get items k) \<and> dict_wf (map (\<lambda>(k, v). (k, f v)) items) = dict_wf items
    \<and> dict_keys (map (\<lambda>(k, v). (k, f v)) items) = dict_keys items"
  by (induction items) (auto simp: dict_keys_def)

lemma canonical_json_get: "dict_wf items \<Longrightarrow> json_get (canonical_json items) k = map_option sort_json (dict_get items k)"
  by (simp add: canonical_json_def dict_get_sort_items dict_map_items)

lemma dict_wf_update: "dict_wf items \<Longrightarrow> dict_wf (update_items items new)"
  unfolding update_items_def by (induction new arbitrary: items) auto

end
