(* ===== verification/Trash_Info.thy ===== *)
theory Trash_Info
  imports Action_Policy Action_Json
begin

text \<open>
  The restoration data of a trashed object in \<open>safety/kio_trash.py\<close>: the encoding
  of a path in a \<open>.trashinfo\<close> file, reading and checking the file, and rewriting its
  path when a private claim is settled. A rewritten file names the new source.

  Decoded text is in the domain of the model (the first 256 code points); a value
  that decodes to anything else is taken as different from every path.
\<close>

section \<open>Bytes and text\<close>

fun utf8_decode :: "byte list \<Rightarrow> string option" where
  "utf8_decode [] = Some []"
| "utf8_decode (b # bs) =
     (if b < 128 then map_option (Cons (char_of (unat b))) (utf8_decode bs)
      else case bs of
        [] \<Rightarrow> None
      | c # cs \<Rightarrow>
          if b \<in> {194, 195} \<and> 128 \<le> c \<and> c < 192
          then map_option (Cons (char_of ((unat b - 192) * 64 + (unat c - 128)))) (utf8_decode cs)
          else None)"

text \<open>\<open>quote_from_bytes\<close> with the characters a trash path keeps, and \<open>unquote_to_bytes\<close>.\<close>

definition SAFE_BYTES :: string where
  "SAFE_BYTES = ''ABCDEFGHIJKLMNOPQRSTUVWXYZabcdefghijklmnopqrstuvwxyz0123456789_.-~/!*()'' @ [CHR 0x27]"

definition upper_hex :: "nat \<Rightarrow> char" where
  "upper_hex d = ''0123456789ABCDEF'' ! d"

definition quote_byte :: "byte \<Rightarrow> string" where
  "quote_byte b = (let n = unat b in
     if char_of n \<in> set SAFE_BYTES then [char_of n] else [CHR 0x25, upper_hex (n div 16), upper_hex (n mod 16)])"

definition encode_trash_info_path :: "string \<Rightarrow> string" where
  "encode_trash_info_path v = concat (map quote_byte (utf8_bytes v))"

definition hex_byte :: "byte \<Rightarrow> byte \<Rightarrow> byte option" where
  "hex_byte hi lo = (let a = (char_of (unat hi) :: char); b = (char_of (unat lo) :: char) in
     if is_hex_digit a \<and> is_hex_digit b then Some (of_nat (digit_val a * 16 + digit_val b)) else None)"

fun unquote_bytes :: "byte list \<Rightarrow> byte list" where
  "unquote_bytes (b # hi # lo # bs) =
     (if b = 0x25 then case hex_byte hi lo of
        Some x \<Rightarrow> x # unquote_bytes bs
      | None \<Rightarrow> b # unquote_bytes (hi # lo # bs)
      else b # unquote_bytes (hi # lo # bs))"
| "unquote_bytes bs = bs"

definition unquote_text :: "string \<Rightarrow> string option" where
  "unquote_text v = utf8_decode (unquote_bytes (utf8_bytes v))"

definition resolve_trash_info_path :: "string option \<Rightarrow> string \<Rightarrow> string option" where
  "resolve_trash_info_path base_directory v = map_option (\<lambda>decoded.
     case base_directory of
       None \<Rightarrow> normpath decoded
     | Some base \<Rightarrow>
         if starts_with decoded ''/'' then normpath decoded
         else if ''..'' \<in> set (path_parts decoded) then []
         else normpath (child_path base decoded)) (unquote_text v)"

section \<open>Lines\<close>

definition is_break :: "char \<Rightarrow> bool" where
  "is_break c = (let n = (of_char c :: nat) in n \<in> {10, 11, 12, 13, 28, 29, 30, 133})"

abbreviation CR :: char where "CR \<equiv> CHR 0x0D"
abbreviation LF :: char where "LF \<equiv> CHR 0x0A"

text \<open>\<open>splitlines\<close>: a line and its end.\<close>

fun split_lines :: "string \<Rightarrow> string \<Rightarrow> (string \<times> string) list" where
  "split_lines cur [] = (if cur = [] then [] else [(rev cur, [])])"
| "split_lines cur [c] = (if is_break c then [(rev cur, [c])] else [(rev (c # cur), [])])"
| "split_lines cur (c # d # s) =
     (if c = CR \<and> d = LF then (rev cur, [CR, LF]) # split_lines [] s
      else if is_break c then (rev cur, [c]) # split_lines [] (d # s)
      else split_lines (c # cur) (d # s))"

definition splitlines :: "string \<Rightarrow> (string \<times> string) list" where
  "splitlines s = split_lines [] s"

text \<open>\<open>line.split("=", 1)\<close> of a line with the character.\<close>

definition before_equals :: "string \<Rightarrow> string" where
  "before_equals line = takeWhile (\<lambda>c. c \<noteq> CHR ''='') line"

definition after_equals :: "string \<Rightarrow> string" where
  "after_equals line = tl (dropWhile (\<lambda>c. c \<noteq> CHR ''='') line)"

definition is_path_line :: "string \<Rightarrow> bool" where
  "is_path_line line \<longleftrightarrow> starts_with (casefold (strip line)) ''path='' \<and> CHR ''='' \<in> set line"

section \<open>Checking\<close>

definition MAX_TRASH_INFO_BYTES :: int where
  "MAX_TRASH_INFO_BYTES = 8192"

definition too_long :: "byte list \<Rightarrow> bool" where
  "too_long raw \<longleftrightarrow> int (length raw) > MAX_TRASH_INFO_BYTES"

definition validate_trash_lines :: "string option \<Rightarrow> string \<Rightarrow> string list \<Rightarrow> act_error option" where
  "validate_trash_lines base_directory source_path lines =
     (if \<not> list_ex (\<lambda>line. strip line = ''[Trash Info]'') lines then Some (Act_ValueError ''trash info section is missing'')
      else let paths = map after_equals (filter is_path_line lines) in
        if length paths \<noteq> 1 \<or> resolve_trash_info_path base_directory (hd paths) \<noteq> Some (normpath source_path)
        then Some (Act_ValueError ''trash info source path differs from the grant effect'')
        else None)"

definition validate_trash_text :: "string option \<Rightarrow> string \<Rightarrow> byte list \<Rightarrow> act_error option" where
  "validate_trash_text base_directory source_path raw =
     (if too_long raw then Some (Act_ValueError ''trash info exceeds its bound'')
      else case utf8_decode raw of
        None \<Rightarrow> Some (Act_ValueError ''trash info is not valid UTF-8'')
      | Some s \<Rightarrow> validate_trash_lines base_directory source_path (map fst (splitlines s)))"

text \<open>\<open>_trash_info_path_value\<close>: the one path, of the stripped line.\<close>

definition trash_info_path_value :: "byte list \<Rightarrow> string option" where
  "trash_info_path_value raw = (case utf8_decode raw of
     None \<Rightarrow> None
   | Some s \<Rightarrow>
       (let paths = map (after_equals \<circ> strip) (filter (\<lambda>line. is_path_line (strip line)) (map fst (splitlines s)))
        in if length paths = 1 then Some (hd paths) else None))"

section \<open>Rewriting\<close>

text \<open>\<open>line.rstrip("\r\n")\<close>.\<close>

definition rstrip_newline :: "string \<Rightarrow> string" where
  "rstrip_newline line = rev (dropWhile (\<lambda>c. c = CR \<or> c = LF) (rev line))"

definition replacement_for :: "string option \<Rightarrow> string \<Rightarrow> string \<Rightarrow> string \<Rightarrow> string" where
  "replacement_for base_directory new_value v decoded =
     (let new = (case base_directory of
          Some base \<Rightarrow> if \<not> starts_with decoded ''/'' then relpath new_value base else new_value
        | None \<Rightarrow> new_value)
      in if decoded \<noteq> v then encode_trash_info_path new else new)"

fun rewrite_lines :: "string option \<Rightarrow> string \<Rightarrow> string \<Rightarrow> (string \<times> string) list \<Rightarrow> act_error + string list \<times> nat" where
  "rewrite_lines base_directory old_value new_value [] = Inr ([], 0)"
| "rewrite_lines base_directory old_value new_value ((content, line_end) # lines) =
     (let line = content @ line_end; body = rstrip_newline line; newline = drop (length body) line; stripped = strip body in
      if starts_with (casefold stripped) ''path='' \<and> CHR ''='' \<in> set stripped \<and> casefold (before_equals stripped) = ''path''
      then let v = after_equals stripped in
        case unquote_text v of
          None \<Rightarrow> Inl (Act_ValueError ''trash info source path differs from the private claim'')
        | Some decoded \<Rightarrow>
            if resolve_trash_info_path base_directory v \<noteq> Some (normpath old_value)
            then Inl (Act_ValueError ''trash info source path differs from the private claim'')
            else map_sum id (\<lambda>(out, n). ((''Path='' @ replacement_for base_directory new_value v decoded @ newline) # out, n + 1))
              (rewrite_lines base_directory old_value new_value lines)
      else map_sum id (\<lambda>(out, n). (line # out, n)) (rewrite_lines base_directory old_value new_value lines))"

definition rewrite_trash_text :: "string option \<Rightarrow> string \<Rightarrow> string \<Rightarrow> byte list \<Rightarrow> act_error + byte list" where
  "rewrite_trash_text base_directory old_value new_value raw =
     (if too_long raw then Inl (Act_ValueError ''trash info exceeds its bound'')
      else case utf8_decode raw of
        None \<Rightarrow> Inl (Act_ValueError ''trash info is not valid UTF-8'')
      | Some s \<Rightarrow> (case rewrite_lines base_directory old_value new_value (splitlines s) of
          Inl e \<Rightarrow> Inl e
        | Inr (out, replaced) \<Rightarrow>
            if replaced \<noteq> 1 then Inl (Act_ValueError ''trash info has no unique Path field'')
            else Inr (utf8_bytes (concat out))))"


text \<open>
  The open file: what the calls on its descriptor answer, and the content they
  leave. A write may be short; the loop goes on with the rest.
\<close>

record info_descriptor =
  id_open :: "(nat \<times> string) option"
  id_stat :: stat_answer
  id_read :: "(nat \<times> string) + byte list"
  id_seek :: "(nat \<times> string) option"
  id_truncate :: "(nat \<times> string) option"
  id_write :: "nat \<Rightarrow> (nat \<times> string) + nat"
  id_fsync :: "(nat \<times> string) option"

definition os_error :: "nat \<times> string \<Rightarrow> act_error" where
  "os_error e = Act_OSError (fst e) (snd e)"

function write_view :: "(nat \<Rightarrow> (nat \<times> string) + nat) \<Rightarrow> nat \<Rightarrow> byte list \<Rightarrow> byte list \<Rightarrow> (act_error + unit) \<times> byte list" where
  "write_view answers k view content =
     (if view = [] then (Inr (), content)
      else case answers k of
        Inl e \<Rightarrow> (Inl (os_error e), content)
      | Inr written \<Rightarrow>
          if written = 0 then (Inl (Act_OSError 5 ''trash info write made no progress''), content)
          else write_view answers (Suc k) (drop written view) (content @ take written view))"
  by pat_completeness auto

termination
  by (relation "measure (\<lambda>(_, _, view, _). length view)") auto

declare write_view.simps [simp del]

definition unique_regular :: "stat_answer \<Rightarrow> bool" where
  "unique_regular a = (case a of Found kind st \<Rightarrow> kind = Kind_Regular \<and> st_nlink st = 1 | _ \<Rightarrow> False)"

definition rewrite_trash_info_path ::
    "string option \<Rightarrow> string \<Rightarrow> string \<Rightarrow> info_descriptor \<Rightarrow> byte list \<Rightarrow> (act_error + unit) \<times> byte list" where
  "rewrite_trash_info_path base_directory old_value new_value d content =
     (case id_open d of Some e \<Rightarrow> (Inl (os_error e), content) | None \<Rightarrow>
      case id_stat d of
        Stat_Error n msg \<Rightarrow> (Inl (Act_OSError n msg), content)
      | Not_Found \<Rightarrow> (Inl (Act_OSError 2 ''No such file or directory''), content)
      | Found kind st \<Rightarrow>
          if \<not> unique_regular (id_stat d) then (Inl (Act_ValueError ''trash info is not a regular unique file''), content)
          else case id_read d of Inl e \<Rightarrow> (Inl (os_error e), content) | Inr raw \<Rightarrow>
          case rewrite_trash_text base_directory old_value new_value raw of Inl e \<Rightarrow> (Inl e, content) | Inr updated \<Rightarrow>
          case id_seek d of Some e \<Rightarrow> (Inl (os_error e), content) | None \<Rightarrow>
          case id_truncate d of Some e \<Rightarrow> (Inl (os_error e), content) | None \<Rightarrow>
          case write_view (id_write d) 0 updated [] of
            (Inl e, content') \<Rightarrow> (Inl e, content')
          | (Inr _, content') \<Rightarrow> (case id_fsync d of Some e \<Rightarrow> (Inl (os_error e), content') | None \<Rightarrow> (Inr (), content')))"

section \<open>Encoding and decoding\<close>

lemma char_below: "(of_char c :: nat) < 256"
  by (metis mod_less_divisor of_char_mod_256 zero_less_numeral)

lemma byte_below: "unat (b :: byte) < 256"
  using unsigned_less [of b, where 'a = nat] by simp

lemma unat_byte: "k < 256 \<Longrightarrow> unat (of_nat k :: byte) = k"
  by (simp add: unat_of_nat)

lemma utf8_decode_bytes: "utf8_decode (utf8_bytes s) = Some s"
proof (induction s)
  case (Cons c s)
  let ?n = "of_char c :: nat"
  have n: "?n < 256" by (rule char_below)
  have split: "utf8_bytes (c # s) = (if ?n < 128 then [of_nat ?n] else [of_nat (192 + ?n div 64), of_nat (128 + ?n mod 64)]) @ utf8_bytes s"
    by (simp add: utf8_bytes_def Let_def)
  show ?case
  proof (cases "?n < 128")
    case True
    then have "(of_nat ?n :: byte) < 128" "unat (of_nat ?n :: byte) = ?n" by (simp_all add: word_less_nat_alt unat_of_nat)
    then show ?thesis using True Cons by (simp add: split)
  next
    case False
    then have k: "?n div 64 = 2 \<or> ?n div 64 = 3" using n by linarith
    let ?b = "of_nat (192 + ?n div 64) :: byte" and ?c = "of_nat (128 + ?n mod 64) :: byte"
    have u: "unat ?b = 192 + ?n div 64" "unat ?c = 128 + ?n mod 64"
      using k by (auto intro!: unat_byte simp del: of_nat_add)
    then have "?b \<in> {194, 195}" "\<not> ?b < 128" "128 \<le> ?c" "?c < 192"
      using k by (auto simp: word_less_nat_alt word_le_nat_alt)
    moreover have "(unat ?b - 192) * 64 + (unat ?c - 128) = ?n" using u by simp
    ultimately show ?thesis using False Cons by (simp add: split)
  qed
qed (simp add: utf8_bytes_def)

lemma utf8_bytes_append: "utf8_bytes (s @ t) = utf8_bytes s @ utf8_bytes t"
  by (simp add: utf8_bytes_def)

definition is_ascii :: "char \<Rightarrow> bool" where
  "is_ascii c \<longleftrightarrow> (of_char c :: nat) < 128"

lemma utf8_bytes_ascii: "list_all is_ascii s \<Longrightarrow> utf8_bytes s = map (\<lambda>c. of_nat (of_char c)) s"
  by (induction s) (auto simp: utf8_bytes_def is_ascii_def)

lemma unquote_plain: "b \<noteq> 0x25 \<Longrightarrow> unquote_bytes (b # bs) = b # unquote_bytes bs"
  by (cases bs; cases "tl bs") auto

lemma upper_hex_facts:
  assumes "d < 16"
  shows "is_ascii (upper_hex d)" "is_hex_digit (upper_hex d)" "digit_val (upper_hex d) = d" "\<not> is_break (upper_hex d)"
proof -
  have "list_all (\<lambda>d. is_ascii (upper_hex d) \<and> is_hex_digit (upper_hex d) \<and> digit_val (upper_hex d) = d
      \<and> \<not> is_break (upper_hex d)) [0..<16]"
    by code_simp
  with assms show "is_ascii (upper_hex d)" "is_hex_digit (upper_hex d)" "digit_val (upper_hex d) = d" "\<not> is_break (upper_hex d)"
    by (auto simp: list_all_iff)
qed

lemma safe_facts: "c \<in> set SAFE_BYTES \<Longrightarrow> is_ascii c \<and> \<not> is_break c \<and> c \<noteq> CHR 0x25"
proof -
  have "list_all (\<lambda>c. is_ascii c \<and> \<not> is_break c \<and> c \<noteq> CHR 0x25) SAFE_BYTES" by code_simp
  then show "c \<in> set SAFE_BYTES \<Longrightarrow> is_ascii c \<and> \<not> is_break c \<and> c \<noteq> CHR 0x25" by (simp add: list_all_iff)
qed

lemma quote_byte_ascii: "list_all (\<lambda>c. is_ascii c \<and> \<not> is_break c) (quote_byte b)"
proof -
  have "unat b < 256" by (rule byte_below)
  then have "unat b div 16 < 16" "unat b mod 16 < 16" by auto
  moreover have "is_ascii (CHR 0x25)" "\<not> is_break (CHR 0x25)" by code_simp+
  ultimately show ?thesis
    using safe_facts [of "char_of (unat b)"] upper_hex_facts by (auto simp: quote_byte_def Let_def)
qed

lemma unquote_quote_byte: "unquote_bytes (utf8_bytes (quote_byte b) @ bs) = b # unquote_bytes bs"
proof -
  have n: "unat b < 256" by (rule byte_below)
  have ascii: "utf8_bytes (quote_byte b) = map (\<lambda>c. of_nat (of_char c)) (quote_byte b)"
    using quote_byte_ascii [of b] by (intro utf8_bytes_ascii) (simp add: list_all_iff)
  show ?thesis
  proof (cases "char_of (unat b) \<in> set SAFE_BYTES")
    case True
    have "(char_of (unat b) :: char) \<noteq> CHR 0x25" using safe_facts True by blast
    moreover have "(char_of (37::nat) :: char) = CHR 0x25" by code_simp
    ultimately have "b \<noteq> 0x25" by auto
    then show ?thesis using True n ascii by (simp add: quote_byte_def Let_def unquote_plain)
  next
    case False
    let ?hi = "upper_hex (unat b div 16)" and ?lo = "upper_hex (unat b mod 16)"
    have d: "unat b div 16 < 16" "unat b mod 16 < 16" using n by auto
    have char_back: "char_of (unat (of_nat (of_char c) :: byte)) = c" for c :: char
      by (simp add: unat_of_nat char_below)
    have "hex_byte (of_nat (of_char ?hi)) (of_nat (of_char ?lo)) = Some b"
      using upper_hex_facts [OF d(1)] upper_hex_facts [OF d(2)]
      by (simp add: hex_byte_def Let_def char_back)
    then show ?thesis using False ascii by (simp add: quote_byte_def Let_def)
  qed
qed

lemma unquote_encoded: "unquote_bytes (utf8_bytes (concat (map quote_byte bs))) = bs"
proof (induction bs)
  case (Cons b bs)
  then show ?case by (simp add: utf8_bytes_append unquote_quote_byte)
qed (simp add: utf8_bytes_def)

lemma unquote_encode: "unquote_text (encode_trash_info_path v) = Some v"
  by (simp add: unquote_text_def encode_trash_info_path_def unquote_encoded utf8_decode_bytes)


section \<open>Lines and their text\<close>

abbreviation unbroken :: "string \<Rightarrow> bool" where
  "unbroken b \<equiv> list_all (\<lambda>c. \<not> is_break c) b"

definition line_text :: "string \<times> string \<Rightarrow> string" where
  "line_text l = fst l @ snd l"

lemma line_text_pair: "line_text (b, e) = b @ e"
  by (simp add: line_text_def)

text \<open>The lines \<open>splitlines\<close> produces: only the last may be unfinished, and a carriage
  return and a line feed are one end.\<close>

fun wf_lines :: "(string \<times> string) list \<Rightarrow> bool" where
  "wf_lines [] = True"
| "wf_lines ((b, e) # ls) \<longleftrightarrow> unbroken b
     \<and> (e = [] \<and> ls = [] \<and> b \<noteq> [] \<or> e = [CR, LF]
        \<or> (\<exists>c. e = [c] \<and> is_break c \<and> (c = CR \<longrightarrow> \<not> starts_with (concat (map line_text ls)) [LF])))
     \<and> wf_lines ls"

lemma break_CR [simp]: "is_break CR" "is_break LF"
  by (simp_all add: is_break_def)

lemma split_lines_plain: "\<not> is_break c \<Longrightarrow> split_lines cur (c # s) = split_lines (c # cur) s"
  by (cases s) auto

lemma split_lines_break:
  "is_break c \<Longrightarrow> (c = CR \<Longrightarrow> \<not> starts_with s [LF]) \<Longrightarrow> split_lines cur (c # s) = (rev cur, [c]) # split_lines [] s"
  by (cases s) (auto simp: starts_with_def)

lemma split_lines_text: "concat (map line_text (split_lines cur s)) = rev cur @ s"
  by (induction cur s rule: split_lines.induct) (auto simp: line_text_def)

lemma wf_split_lines: "unbroken cur \<Longrightarrow> wf_lines (split_lines cur s)"
  by (induction cur s rule: split_lines.induct) (auto simp: split_lines_text starts_with_def list_all_iff)

lemma split_lines_unbroken: "unbroken b \<Longrightarrow> split_lines cur (b @ s) = split_lines (rev b @ cur) s"
  by (induction b arbitrary: cur) (auto simp: split_lines_plain)

lemma split_wf_lines: "wf_lines ls \<Longrightarrow> splitlines (concat (map line_text ls)) = ls"
proof (induction ls rule: wf_lines.induct)
  case (2 b e ls)
  then have b: "unbroken b" and rest: "split_lines [] (concat (map line_text ls)) = ls" by (auto simp: splitlines_def)
  consider "e = []" "ls = []" "b \<noteq> []" | "e = [CR, LF]"
    | c where "e = [c]" "is_break c" "c = CR \<Longrightarrow> \<not> starts_with (concat (map line_text ls)) [LF]"
    using 2 by auto
  then show ?case
  proof cases
    case 1
    then show ?thesis using split_lines_unbroken [OF b, of "[]" "[]"] by (simp add: splitlines_def line_text_def)
  next
    case 2
    then show ?thesis using rest by (simp add: splitlines_def line_text_pair split_lines_unbroken [OF b])
  next
    case (3 c)
    then have "split_lines (rev b) (c # concat (map line_text ls)) = (b, [c]) # ls"
      using split_lines_break rest by simp
    then show ?thesis using 3(1) by (simp add: splitlines_def line_text_pair split_lines_unbroken [OF b])
  qed
qed (simp add: splitlines_def)

section \<open>Path lines\<close>

lemma ascii_lower_equals: "ascii_lower c = CHR ''='' \<longleftrightarrow> c = CHR ''=''"
proof
  assume h: "ascii_lower c = CHR ''=''"
  show "c = CHR ''=''"
  proof (cases "65 \<le> (of_char c :: nat) \<and> (of_char c :: nat) \<le> 90")
    case True
    then have "(of_char (ascii_lower c) :: nat) = of_char c + 32"
      by (simp add: ascii_lower_def of_char_of)
    then show ?thesis using h True by simp
  qed (use h in \<open>auto simp: ascii_lower_def Let_def split: if_splits\<close>)
qed (simp add: ascii_lower_def)

lemma path_field:
  assumes "starts_with (casefold t) ''path=''"
  shows "CHR ''='' \<in> set t \<and> casefold (before_equals t) = ''path''"
proof -
  obtain u where u: "map ascii_lower t = CHR ''p'' # CHR ''a'' # CHR ''t'' # CHR ''h'' # CHR ''='' # u"
    using assms by (auto simp: starts_with_def prefix_def casefold_def)
  obtain a t1 where 1: "t = a # t1" "ascii_lower a = CHR ''p''" using u by (cases t) auto
  obtain b t2 where 2: "t1 = b # t2" "ascii_lower b = CHR ''a''" using u 1 by (cases t1) auto
  obtain c t3 where 3: "t2 = c # t3" "ascii_lower c = CHR ''t''" using u 1 2 by (cases t2) auto
  obtain d t4 where 4: "t3 = d # t4" "ascii_lower d = CHR ''h''" using u 1 2 3 by (cases t3) auto
  obtain x r where 5: "t4 = x # r" "ascii_lower x = CHR ''=''" using u 1 2 3 4 by (cases t4) auto
  note t = 1(1) [unfolded 2(1) 3(1) 4(1) 5(1)] and l = 1(2) 2(2) 3(2) 4(2) 5(2)
  have "a \<noteq> CHR ''=''" "b \<noteq> CHR ''=''" "c \<noteq> CHR ''=''" "d \<noteq> CHR ''=''" "x = CHR ''=''"
    using l ascii_lower_equals [of a] ascii_lower_equals [of b] ascii_lower_equals [of c] ascii_lower_equals [of d]
      ascii_lower_equals [of x] by simp_all
  then show ?thesis using l t by (simp add: before_equals_def casefold_def)
qed

definition path_body :: "string \<Rightarrow> bool" where
  "path_body b \<longleftrightarrow> starts_with (casefold (strip b)) ''path=''"

lemma set_strip: "set (strip s) \<subseteq> set s"
  by (auto simp: strip_def dest!: set_dropWhileD)

lemma is_path_line_body: "is_path_line b \<longleftrightarrow> path_body b"
  using path_field [of "strip b"] set_strip [of b] unfolding is_path_line_def path_body_def by blast

definition ordinary_end :: "string \<Rightarrow> bool" where
  "ordinary_end e \<longleftrightarrow> e \<in> {[], [CR], [LF], [CR, LF]}"

lemma ordinary_endE:
  assumes "ordinary_end e"
  obtains "e = []" | "e = [CR]" | "e = [LF]" | "e = [CR, LF]"
  using assms unfolding ordinary_end_def by blast

lemma rstrip_newline_line: "unbroken b \<Longrightarrow> ordinary_end e \<Longrightarrow> rstrip_newline (b @ e) = b"
proof -
  assume b: "unbroken b" and e: "ordinary_end e"
  have "list_all (\<lambda>c. \<not> is_break c) (rev b)" using b by simp
  then have "dropWhile (\<lambda>c. c = CR \<or> c = LF) (rev b) = rev b"
    by (cases "rev b") auto
  then show ?thesis using e by (elim ordinary_endE) (simp_all add: rstrip_newline_def)
qed


section \<open>A rewritten file\<close>

definition path_value :: "string \<Rightarrow> string" where
  "path_value b = after_equals (strip b)"

definition fresh_body :: "string option \<Rightarrow> string \<Rightarrow> string \<Rightarrow> string" where
  "fresh_body base new b =
     (if path_body b then ''Path='' @ replacement_for base new (path_value b) (the (unquote_text (path_value b))) else b)"

lemma not_path_Nil: "\<not> path_body []"
  by (simp add: path_body_def starts_with_def casefold_def)

lemma rewrite_lines_shape:
  assumes "rewrite_lines base old new ls = Inr (out, n)" and "wf_lines ls" and "list_all (\<lambda>l. ordinary_end (snd l)) ls"
  shows "out = map line_text (map (\<lambda>(b, e). (fresh_body base new b, e)) ls) \<and> n = length (filter path_body (map fst ls))"
  using assms
proof (induction ls arbitrary: out n)
  case (Cons l ls)
  obtain b e where l: "l = (b, e)" by (cases l)
  have b: "unbroken b" and ends: "ordinary_end e" using Cons.prems l by auto
  have body: "rstrip_newline (b @ e) = b" by (rule rstrip_newline_line [OF b ends])
  have guard: "(starts_with (casefold (strip b)) ''path='' \<and> CHR ''='' \<in> set (strip b)
      \<and> casefold (before_equals (strip b)) = ''path'') = path_body b"
    using path_field [of "strip b"] unfolding path_body_def by blast
  obtain out' n' where tail: "rewrite_lines base old new ls = Inr (out', n')"
    and head: "if path_body b then out = (fresh_body base new b @ e) # out' \<and> n = n' + 1 else out = (b @ e) # out' \<and> n = n'"
    using Cons.prems(1) unfolding l rewrite_lines.simps Let_def body guard
    by (cases "rewrite_lines base old new ls")
      (auto simp: fresh_body_def path_value_def split: if_splits option.splits)
  have "wf_lines ls" "list_all (\<lambda>l. ordinary_end (snd l)) ls" using Cons.prems l by auto
  from Cons.IH [OF tail this] head show ?case
    by (auto simp: l line_text_pair fresh_body_def split: if_splits)
qed simp

lemma starts_LF_line:
  assumes "unbroken b"
  shows "starts_with (line_text (b, e) @ s) [LF] \<longleftrightarrow> b = [] \<and> starts_with (e @ s) [LF]"
  using assms by (cases b) (auto simp: line_text_pair starts_with_def)

lemma starts_LF_map:
  assumes "wf_lines ls" and "\<And>b. unbroken b \<Longrightarrow> unbroken (g b)" and "\<And>b. g b = [] \<longleftrightarrow> b = []"
  shows "starts_with (concat (map line_text (map (\<lambda>(b, e). (g b, e)) ls))) [LF] = starts_with (concat (map line_text ls)) [LF]"
proof (cases ls)
  case (Cons l rest)
  then obtain b e where l: "l = (b, e)" by (cases l)
  have b: "unbroken b" and "e \<noteq> [] \<or> b \<noteq> []" using assms(1) Cons l by auto
  moreover have "starts_with (e @ s) [LF] = starts_with (e @ t) [LF]" if "e \<noteq> []" for s t
    using that by (cases e) (auto simp: starts_with_def)
  ultimately show ?thesis
    using assms(3) [of b] starts_LF_line [OF b] starts_LF_line [OF assms(2) [OF b]] by (auto simp: Cons l)
qed simp

lemma wf_lines_map:
  assumes "wf_lines ls" and "\<And>b. unbroken b \<Longrightarrow> unbroken (g b)" and "\<And>b. g b = [] \<longleftrightarrow> b = []"
  shows "wf_lines (map (\<lambda>(b, e). (g b, e)) ls)"
  using assms(1)
proof (induction ls rule: wf_lines.induct)
  case (2 b e ls)
  then have "wf_lines ls" by simp
  from starts_LF_map [OF this assms(2,3)] 2 assms(2,3) show ?case by auto
qed simp

lemma strip_keeps_start:
  assumes "p \<noteq> []" and "\<not> is_space (hd p)" and "\<not> is_space (last p)"
  shows "\<exists>r'. strip (p @ r) = p @ r'"
proof -
  have start: "dropWhile is_space (p @ r) = p @ r" using assms(1,2) by (cases p) auto
  have "rev p \<noteq> []" "\<not> is_space (hd (rev p))" using assms by (auto simp: hd_rev)
  then have stop: "dropWhile is_space (rev p) = rev p" by (cases "rev p") auto
  have "dropWhile is_space (rev r @ rev p) = dropWhile is_space (rev r) @ rev p"
  proof (cases "\<forall>c\<in>set (rev r). is_space c")
    case True
    then have "dropWhile is_space (rev r @ rev p) = dropWhile is_space (rev p)"
      using dropWhile_append2 [of "rev r" is_space "rev p"] by blast
    moreover have "dropWhile is_space (rev r) = []" using True by simp
    ultimately show ?thesis using stop by simp
  next
    case False
    then obtain x where "x \<in> set (rev r)" "\<not> is_space x" by blast
    then show ?thesis by (rule dropWhile_append1)
  qed
  then show ?thesis by (simp add: strip_def start)
qed

lemma fresh_path_body: "path_body (fresh_body base new b) = path_body b"
proof (cases "path_body b")
  case True
  obtain r' where "strip (''Path='' @ replacement_for base new (path_value b) (the (unquote_text (path_value b)))) = ''Path='' @ r'"
    using strip_keeps_start [of "''Path=''"] by (auto simp: is_space_def)
  moreover have "casefold (''Path='' @ r') = ''path='' @ casefold r'" for r'
    by (simp add: casefold_append) code_simp
  ultimately show ?thesis using True by (simp add: fresh_body_def path_body_def starts_with_def)
qed (simp add: fresh_body_def)


text \<open>
  A path that may be written without encoding: it decodes to itself and is one
  line.
\<close>

definition plain_path :: "string \<Rightarrow> bool" where
  "plain_path new \<longleftrightarrow> unquote_text new = Some new \<and> unbroken new"

text \<open>The files that are rewritten: a section, ordinary line ends, and absolute paths.\<close>

definition proper_info :: "string \<Rightarrow> string \<Rightarrow> bool" where
  "proper_info new s \<longleftrightarrow>
     list_ex (\<lambda>l. strip (fst l) = ''[Trash Info]'') (splitlines s)
     \<and> list_all (\<lambda>l. ordinary_end (snd l)) (splitlines s)
     \<and> list_all (\<lambda>l. path_body (fst l) \<longrightarrow> (case unquote_text (path_value (fst l)) of
          None \<Rightarrow> False
        | Some decoded \<Rightarrow> starts_with decoded ''/'' \<and> (decoded = path_value (fst l) \<longrightarrow> plain_path new))) (splitlines s)"

lemma unbroken_encode: "unbroken (encode_trash_info_path v)"
  using quote_byte_ascii by (fastforce simp: encode_trash_info_path_def list_all_iff)

lemma replacement_ok:
  assumes "starts_with decoded ''/''" and "decoded = v \<Longrightarrow> plain_path new"
  shows "unbroken (replacement_for base new v decoded)" "unquote_text (replacement_for base new v decoded) = Some new"
  using assms unbroken_encode unquote_encode
  by (auto simp: replacement_for_def plain_path_def split: option.splits)

lemma resolve_absolute:
  assumes "unquote_text v = Some new" and "starts_with new ''/''"
  shows "resolve_trash_info_path base v = Some (normpath new)"
  using assms by (simp add: resolve_trash_info_path_def split: option.split)

lemma rewritten_lines_valid:
  assumes run: "rewrite_lines base old new (splitlines s) = Inr (out, 1)"
    and info: "proper_info new s" and new: "starts_with new ''/''"
  shows "validate_trash_lines base new (map fst (splitlines (concat out))) = None"
proof -
  let ?ls = "splitlines s" and ?g = "fresh_body base new"
  have wf: "wf_lines ?ls" by (simp add: splitlines_def wf_split_lines)
  have shape: "out = map line_text (map (\<lambda>(b, e). (?g b, e)) ?ls)" and one: "length (filter path_body (map fst ?ls)) = 1"
    using rewrite_lines_shape [OF run wf] info by (auto simp: proper_info_def)
  have value_ok: "unbroken (?g b) \<and> unquote_text (after_equals (?g b)) = Some new"
    if "b \<in> set (map fst ?ls)" "path_body b" for b
  proof -
    have "b \<in> fst ` set ?ls" using that(1) by simp
    then obtain l where l: "b = fst l" "l \<in> set ?ls" by (rule imageE)
    then have "case unquote_text (path_value b) of None \<Rightarrow> False
        | Some decoded \<Rightarrow> starts_with decoded ''/'' \<and> (decoded = path_value b \<longrightarrow> plain_path new)"
      using info that(2) unfolding proper_info_def list_all_iff by blast
    then obtain decoded where d: "unquote_text (path_value b) = Some decoded" "starts_with decoded ''/''"
        "decoded = path_value b \<Longrightarrow> plain_path new"
      by (auto split: option.splits)
    have "after_equals (?g b) = replacement_for base new (path_value b) decoded"
      using that(2) d(1) by (simp add: fresh_body_def after_equals_def)
    then show ?thesis
      using replacement_ok [OF d(2,3)] that(2) d(1) by (simp add: fresh_body_def is_break_def)
  qed
  define g where "g b = (if b \<in> set (map fst ?ls) then ?g b else b)" for b
  have same: "map (\<lambda>(b, e). (?g b, e)) ?ls = map (\<lambda>(b, e). (g b, e)) ?ls"
    by (force simp: g_def)
  have "unbroken (g b)" if "unbroken b" for b
    using that value_ok by (auto simp: g_def fresh_body_def)
  moreover have "g b = [] \<longleftrightarrow> b = []" for b
    using not_path_Nil by (auto simp: g_def fresh_body_def)
  ultimately have "splitlines (concat out) = map (\<lambda>(b, e). (?g b, e)) ?ls"
    unfolding shape same by (intro split_wf_lines wf_lines_map [OF wf])
  then have bodies: "map fst (splitlines (concat out)) = map ?g (map fst ?ls)"
    by (simp add: case_prod_beta comp_def)
  obtain b0 where b0: "filter path_body (map fst ?ls) = [b0]"
    using one unfolding One_nat_def length_Suc_conv by blast
  then have "b0 \<in> set (filter path_body (map fst ?ls))" by simp
  then have "b0 \<in> set (map fst ?ls)" "path_body b0" unfolding set_filter by blast+
  note b0_ok = value_ok [OF this]
  have "filter is_path_line (map ?g (map fst ?ls)) = map ?g (filter path_body (map fst ?ls))"
    by (simp add: filter_map comp_def is_path_line_body fresh_path_body)
  then have paths: "map after_equals (filter is_path_line (map fst (splitlines (concat out)))) = [after_equals (?g b0)]"
    by (simp add: bodies b0 del: map_map)
  have "list_ex (\<lambda>line. strip line = ''[Trash Info]'') (map ?g (map fst ?ls))"
  proof -
    obtain b where b: "b \<in> set (map fst ?ls)" "strip b = ''[Trash Info]''"
      using info by (auto simp: proper_info_def list_ex_iff)
    then have "\<not> path_body b" by (simp add: path_body_def starts_with_def casefold_def ascii_lower_def)
    then have "?g b = b" by (simp add: fresh_body_def)
    then show ?thesis using b by (force simp: list_ex_iff)
  qed
  then show ?thesis
    using paths resolve_absolute [OF conjunct2 [OF b0_ok] new] by (simp add: validate_trash_lines_def bodies Let_def)
qed


lemma write_view_content:
  "write_view answers k view content = (r, content') \<Longrightarrow> prefix content' (content @ view) \<and> (r = Inr () \<longrightarrow> content' = content @ view)"
proof (induction answers k view content rule: write_view.induct)
  case (1 answers k view content)
  show ?case
  proof (cases "view = []")
    case True
    then show ?thesis using "1.prems" by (auto simp: write_view.simps)
  next
    case False
    show ?thesis
    proof (cases "answers k")
      case (Inl e)
      then show ?thesis using "1.prems" False by (auto simp: write_view.simps [of answers k])
    next
      case (Inr written)
      then show ?thesis
        using "1.prems" "1.IH" [OF False Inr] False
        by (cases "written = 0") (auto simp: write_view.simps [of answers k])
    qed
  qed
qed



text \<open>A file written by the desktop, with a name that needs encoding.\<close>

definition demo_info :: string where
  "demo_info = ''[Trash Info]'' @ [LF] @ ''Path=/d/c/a%20b'' @ [LF] @ ''DeletionDate=x'' @ [LF]"

definition demo_descriptor :: info_descriptor where
  "demo_descriptor = \<lparr>id_open = None, id_stat = Found Kind_Regular (demo_stat 3 5), id_read = Inr (utf8_bytes demo_info),
     id_seek = None, id_truncate = None, id_write = (\<lambda>_. Inr 30), id_fsync = None\<rparr>"

lemma demo_rewritten:
  "rewrite_trash_info_path None ''/d/c/a b'' ''/d/a b'' demo_descriptor (utf8_bytes demo_info)
   = (Inr (), utf8_bytes (''[Trash Info]'' @ [LF] @ ''Path=/d/a%20b'' @ [LF] @ ''DeletionDate=x'' @ [LF]))"
  by code_simp


text \<open>
  Decoding undoes encoding: the value written for an absolute path resolves to
  that path in normal form, whatever its characters, under any base directory.
\<close>

theorem trash_path_roundtrip:
  assumes "starts_with path ''/''"
  shows "resolve_trash_info_path base (encode_trash_info_path path) = Some (normpath path)"
  by (rule resolve_absolute [OF unquote_encode assms])

theorem trash_path_roundtrip_witness:
  "resolve_trash_info_path (Some ''/home'') (encode_trash_info_path ''/home/u/100% b'') = Some (normpath ''/home/u/100% b'')"
  by (rule trash_path_roundtrip) (simp add: starts_with_def)

end
