(* ===== verification/Action_Rename.thy ===== *)
theory Action_Rename
  imports Action_Policy Action_Json
begin

text \<open>
  The descriptor-relative rename of \<open>workflow/mutations.py\<close>: binding of an effect
  to its source, the checks before a mutation, and \<open>PosixRenameBackend.apply\<close> with
  every early return, handler and the clause that closes its descriptors.
\<close>

section \<open>Outcomes\<close>

datatype apply_status = Applied | Blocked | Recovery_Required

record backend_outcome =
  bo_status :: apply_status
  bo_reason :: string
  bo_detail :: "string option"
  bo_receipt :: "json option"

text \<open>\<open>BackendOutcome.__post_init__\<close>; the status is one of the three by its type.\<close>

definition outcome_error :: "backend_outcome \<Rightarrow> act_error option" where
  "outcome_error b =
     (if bo_reason b = [] \<or> strip (bo_reason b) \<noteq> bo_reason b
      then Some (Act_ValueError ''backend outcome reason must be non-empty and trimmed'')
      else if utf8_length (bo_reason b) > 512 then Some (Act_ValueError ''backend outcome reason is too long'')
      else if (case bo_detail b of None \<Rightarrow> False | Some d \<Rightarrow> utf8_length d > 4096)
      then Some (Act_ValueError ''backend outcome detail is too long'')
      else if (case bo_receipt b of None \<Rightarrow> False | Some r \<Rightarrow> utf8_length (json_text r) > 65536)
      then Some (Act_ValueError ''backend outcome receipt is too long'')
      else if bo_status b = Applied \<and> bo_receipt b = None
      then Some (Act_ValueError ''applied backend outcome requires a receipt'')
      else None)"

definition outcome :: "apply_status \<Rightarrow> string \<Rightarrow> string option \<Rightarrow> json option \<Rightarrow> backend_outcome act" where
  "outcome status reason detail receipt =
     (let b = \<lparr>bo_status = status, bo_reason = reason, bo_detail = detail, bo_receipt = receipt\<rparr>
      in case outcome_error b of Some e \<Rightarrow> araise e | None \<Rightarrow> aret b)"

section \<open>Observations\<close>

record mutation_effect =
  me_action :: string
  me_source :: "file_snapshot option"
  me_source_digest :: "string option"
  me_keeper :: "file_snapshot option"
  me_keeper_digest :: "string option"
  me_target :: "string option"

text \<open>The comparison of this module includes the path.\<close>

definition same_snapshot_at :: "file_snapshot \<Rightarrow> file_snapshot \<Rightarrow> bool" where
  "same_snapshot_at left right \<longleftrightarrow> fs_path left = fs_path right \<and> snap_identity left = snap_identity right
     \<and> fs_size left = fs_size right \<and> fs_mtime left = fs_mtime right \<and> fs_birthtime left = fs_birthtime right"

definition stat_failure :: "stat_answer \<Rightarrow> act_error" where
  "stat_failure a = (case a of Stat_Error n msg \<Rightarrow> Act_OSError n msg | _ \<Rightarrow> Act_OSError 2 ''No such file or directory'')"

text \<open>\<open>snapshot_path\<close>: the metadata without following a link.\<close>

definition snapshot_path :: "string \<Rightarrow> file_snapshot act" where
  "snapshot_path path = abind (ask (\<lambda>os t. (os_cwd os, os_lstat os t path))) (\<lambda>(cwd, a). case a of
     Found kind st \<Rightarrow> aret (snapshot_of cwd path st)
   | _ \<Rightarrow> araise (stat_failure a))"

definition digest_error :: "string \<Rightarrow> act_error \<Rightarrow> act_error" where
  "digest_error path e = (case e of
     Act_FileChanged \<Rightarrow> MutationSnapshotChanged (''source changed while hashing: '' @ path)
   | Act_OSError n msg \<Rightarrow> MutationUnavailable (''source cannot be hashed: '' @ path)
   | _ \<Rightarrow> e)"

definition hash_snapshot :: "(byte list \<Rightarrow> byte list) \<Rightarrow> file_snapshot \<Rightarrow> byte list act" where
  "hash_snapshot sha256 s =
     abind (ask (\<lambda>os t. fst (full_fingerprint sha256 (os_cwd os) DEFAULT_IO_CHUNK_SIZE s (os_content os t)))) (\<lambda>r. case r of
       Inr digest \<Rightarrow> aret digest
     | Inl e \<Rightarrow> araise (if is_file_changed e then Act_FileChanged
         else if e = Os_Error then Act_OSError 5 ''Input/output error'' else Act_Interrupted ''CancellationRequested''))"

definition digest_snapshot :: "(byte list \<Rightarrow> byte list) \<Rightarrow> file_snapshot \<Rightarrow> string act" where
  "digest_snapshot sha256 s =
     atry (abind (snapshot_path (fs_path s)) (\<lambda>current.
       abind (araise_if (\<not> same_snapshot_at current s)
         (MutationSnapshotChanged (''source snapshot changed: '' @ fs_path s))) (\<lambda>_.
       abind (hash_snapshot sha256 current) (\<lambda>digest. aret (content_binding digest)))))
     (\<lambda>e. araise (digest_error (fs_path s) e))"

definition binding_snapshot :: "(byte list \<Rightarrow> byte list) \<Rightarrow> file_snapshot \<Rightarrow> string \<Rightarrow> bool act" where
  "binding_snapshot sha256 s binding =
     (if is_metadata_binding binding then aret (metadata_binding sha256 s = binding)
      else abind (digest_snapshot sha256 s) (\<lambda>d. aret (d = binding)))"

definition validate_regular_unique :: "file_snapshot \<Rightarrow> string \<Rightarrow> file_snapshot act" where
  "validate_regular_unique s role = (let path = fs_path s in
     abind (lstat path) (\<lambda>a. case a of
       Found kind st \<Rightarrow>
         if kind = Kind_Link then araise (MutationError (role @ '' is a symbolic link''))
         else if kind \<noteq> Kind_Regular then araise (MutationError (role @ '' is not a regular file''))
         else if st_nlink st \<noteq> 1 then araise (MutationError (role @ '' has additional hard links''))
         else
           abind (atry (snapshot_path path) (\<lambda>e.
             araise (if is_os_error e then MutationSnapshotChanged (role @ '' cannot be snapshotted'') else e))) (\<lambda>current.
           if \<not> same_snapshot_at current s \<or> \<not> stat_matches_snapshot s st
           then araise (MutationSnapshotChanged (role @ '' changed: '' @ path))
           else aret current)
     | _ \<Rightarrow> araise (MutationSnapshotChanged (role @ '' is unavailable: '' @ path))))"

section \<open>Checks before a mutation\<close>

definition validate_effect_paths :: "string \<Rightarrow> mutation_effect \<Rightarrow> unit act" where
  "validate_effect_paths root_dir effect = (case me_source effect of
     None \<Rightarrow> araise (MutationError ''mutation source snapshot is missing'')
   | Some source \<Rightarrow>
       atry (
         abind (validate_mutation_path root_dir (fs_path source) ''mutation source'' False False) (\<lambda>_.
         abind (case me_keeper effect of
             None \<Rightarrow> aret None
           | Some keeper \<Rightarrow> validate_mutation_path root_dir (fs_path keeper) ''mutation keeper'' False False) (\<lambda>_.
         abind (case me_target effect of
             None \<Rightarrow> aret None
           | Some target \<Rightarrow> validate_mutation_path root_dir target ''mutation target'' True False) (\<lambda>_.
         aret ()))))
       (\<lambda>e. araise (if is_os_error e \<or> is_runtime_error e then MutationError (error_text e) else e)))"

definition path_parent :: "string \<Rightarrow> string" where
  "path_parent p = path_text (initial_slashes p) (butlast (path_comps p))"

definition compare_keeper :: "file_snapshot \<Rightarrow> file_snapshot \<Rightarrow> unit act" where
  "compare_keeper source keeper =
     abind (ask (\<lambda>os t. case os_compare os t of (lio, rio, evs) \<Rightarrow>
       fst (files_equal_exact (os_cwd os) DEFAULT_IO_CHUNK_SIZE source keeper lio rio evs))) (\<lambda>r. case r of
       Inr equal \<Rightarrow> araise_if (\<not> equal)
         (MutationSnapshotChanged ''mutation source is no longer byte-identical to its keeper'')
     | Inl e \<Rightarrow> araise (if is_file_changed e
         then MutationSnapshotChanged ''mutation source or keeper changed during exact comparison''
         else if e = Os_Error then Act_OSError 5 ''Input/output error'' else Act_Interrupted ''CancellationRequested''))"

definition validate_keeper :: "(byte list \<Rightarrow> byte list) \<Rightarrow> mutation_effect \<Rightarrow> file_snapshot \<Rightarrow> unit act" where
  "validate_keeper sha256 effect source = (case me_keeper effect of
     None \<Rightarrow> aret ()
   | Some planned \<Rightarrow>
       abind (validate_regular_unique planned ''mutation keeper'') (\<lambda>keeper.
       abind (case me_keeper_digest effect of
           None \<Rightarrow> aret False
         | Some expected \<Rightarrow> abind (digest_snapshot sha256 keeper) (\<lambda>d. aret (d = expected))) (\<lambda>same.
       abind (araise_if (\<not> same) (MutationSnapshotChanged ''mutation keeper digest changed'')) (\<lambda>_.
       compare_keeper source keeper))))"

definition stat_device :: "string \<Rightarrow> int act" where
  "stat_device path = abind (lstat path) (\<lambda>a. case a of
     Found kind st \<Rightarrow> aret (st_dev st) | _ \<Rightarrow> araise (stat_failure a))"

definition validate_target :: "mutation_effect \<Rightarrow> file_snapshot \<Rightarrow> unit act" where
  "validate_target effect source = (case me_target effect of
     None \<Rightarrow> aret ()
   | Some target \<Rightarrow>
       abind (lstat target) (\<lambda>a. case a of
         Found _ _ \<Rightarrow> araise (MutationError ''mutation target already exists'')
       | Stat_Error _ _ \<Rightarrow> araise (MutationError ''mutation target cannot be inspected'')
       | Not_Found \<Rightarrow>
           abind (atry (stat_device (path_parent target)) (\<lambda>e.
             araise (if is_os_error e then MutationError ''mutation target parent is unavailable'' else e))) (\<lambda>dev.
           araise_if (dev \<noteq> fs_volume source) (MutationError ''mutation target is on another filesystem''))))"

definition validate_effect_physical :: "(byte list \<Rightarrow> byte list) \<Rightarrow> mutation_effect \<Rightarrow> string \<Rightarrow> unit act" where
  "validate_effect_physical sha256 effect root_dir =
     abind (validate_effect_paths root_dir effect) (\<lambda>_. case (me_source effect, me_source_digest effect) of
       (Some planned, Some digest) \<Rightarrow>
         abind (validate_regular_unique planned ''mutation source'') (\<lambda>source.
         abind (if is_metadata_binding digest
             then araise_if (metadata_binding sha256 source \<noteq> digest)
               (MutationSnapshotChanged ''mutation source metadata binding changed'')
             else abind (digest_snapshot sha256 source) (\<lambda>d.
               araise_if (d \<noteq> digest) (MutationSnapshotChanged ''mutation source digest changed''))) (\<lambda>_.
         abind (validate_keeper sha256 effect source) (\<lambda>_.
         validate_target effect source)))
     | _ \<Rightarrow> araise (MutationError ''mutation source binding is missing''))"

section \<open>Descriptors\<close>

definition open_fd :: "nat act" where
  "open_fd os w = abind (ask (\<lambda>os t. (t, os_open os t))) (\<lambda>(fd, r). case r of
     Some (n, msg) \<Rightarrow> araise (Act_OSError n msg)
   | None \<Rightarrow> (\<lambda>os w. (Inr fd, w\<lparr>w_open := fd # w_open w\<rparr>))) os w"

definition close_fd :: "nat \<Rightarrow> unit act" where
  "close_fd fd os w = (Inr (), w\<lparr>w_open := remove1 fd (w_open w)\<rparr>)"

text \<open>An assignment to a descriptor variable of the frame.\<close>

definition set_slot :: "string \<Rightarrow> nat \<Rightarrow> unit act" where
  "set_slot name fd os w = (Inr (), w\<lparr>w_slots := dict_set (w_slots w) name fd\<rparr>)"

fun open_parents :: "nat \<Rightarrow> string list \<Rightarrow> nat act" where
  "open_parents current [] = aret current"
| "open_parents current (part # parts) =
     abind (atry open_fd (\<lambda>e. abind (close_fd current) (\<lambda>_. araise e))) (\<lambda>child.
     abind (close_fd current) (\<lambda>_. open_parents child parts))"

definition open_parent_dirfd :: "nat \<Rightarrow> string list \<Rightarrow> (nat \<times> string) act" where
  "open_parent_dirfd root_fd parts =
     (if parts = [] \<or> list_ex (\<lambda>p. p \<in> {[], ''.'', ''..''}) parts
      then araise (MutationError ''rename path has no safe relative leaf'')
      else abind open_fd (\<lambda>current.
        abind (open_parents current (butlast parts)) (\<lambda>fd. aret (fd, last parts))))"

text \<open>\<open>Path.relative_to(root).parts\<close>.\<close>

definition relative_parts :: "string \<Rightarrow> string \<Rightarrow> string list act" where
  "relative_parts path root_dir =
     (if prefix (path_parts root_dir) (path_parts path)
      then aret (drop (length (path_parts root_dir)) (path_parts path))
      else araise (Act_ValueError ''path is not in the subpath of the root''))"

text \<open>
  One \<open>renameat2(RENAME_NOREPLACE)\<close>. An interrupt before the call leaves no trace;
  a failure has its error number.
\<close>

definition renameat2_noreplace :: "string \<Rightarrow> string \<Rightarrow> unit act" where
  "renameat2_noreplace source_name target_name =
     abind (ask os_rename) (\<lambda>r. case r of
       None \<Rightarrow> log_effect (Rename_Noreplace source_name target_name True)
     | Some (n, msg) \<Rightarrow> abind (log_effect (Rename_Noreplace source_name target_name False)) (\<lambda>_. araise (Act_OSError n msg)))"

definition fsync_fd :: "unit act" where
  "fsync_fd = abind (ask os_fsync) (\<lambda>r. case r of None \<Rightarrow> aret () | Some (n, msg) \<Rightarrow> araise (Act_OSError n msg))"

section \<open>The backend\<close>

definition POSIX_BACKEND_NAME :: string where
  "POSIX_BACKEND_NAME = ''posix-link-unlink-no-replace-v1''"

text \<open>The last look at the source, through its descriptor and through its path.\<close>

definition unsafe_source :: "file_snapshot \<Rightarrow> stat_answer \<Rightarrow> bool" where
  "unsafe_source s a = (case a of
     Found kind st \<Rightarrow> kind = Kind_Link \<or> kind \<noteq> Kind_Regular \<or> st_nlink st \<noteq> 1 \<or> \<not> stat_matches_snapshot s st
   | _ \<Rightarrow> True)"

definition look_at_source :: "file_snapshot \<Rightarrow> unit act" where
  "look_at_source s =
     abind (ask os_fstat) (\<lambda>opened. case opened of
       Found _ fst_st \<Rightarrow>
         abind (araise_if (unsafe_source s opened) (MutationSnapshotChanged ''rename source changed before syscall'')) (\<lambda>_.
         abind (lstat (fs_path s)) (\<lambda>current. case current of
           Found _ st \<Rightarrow> araise_if (unsafe_source s current \<or> (st_dev st, st_ino st) \<noteq> (st_dev fst_st, st_ino fst_st))
             (MutationSnapshotChanged ''rename source changed immediately before syscall'')
         | _ \<Rightarrow> araise (stat_failure current)))
     | _ \<Rightarrow> araise (stat_failure opened))"

definition set_crossed :: "bool \<Rightarrow> unit act" where
  "set_crossed b os w = (Inr (), w\<lparr>w_crossed := b\<rparr>)"

text \<open>The callback before the system call: absent, returning, or raising.\<close>

definition run_before :: "act_error option option \<Rightarrow> unit act" where
  "run_before before = (case before of
     None \<Rightarrow> aret ()
   | Some r \<Rightarrow> abind (log_effect Before_Syscall) (\<lambda>_. case r of None \<Rightarrow> aret () | Some e \<Rightarrow> araise e))"

definition failed_status :: "act_error option option \<Rightarrow> apply_status" where
  "failed_status before = (if before \<noteq> None then Recovery_Required else Blocked)"

definition syscall_failure :: "act_error option option \<Rightarrow> act_error \<Rightarrow> backend_outcome option act" where
  "syscall_failure before e = (case e of
     Act_OSError n msg \<Rightarrow>
       abind (set_crossed False) (\<lambda>_.
       abind (if n = 17 then outcome (failed_status before) ''destination_exists'' None None
         else if n = 18 then outcome (failed_status before) ''exdev_same_filesystem_required'' None None
         else if n \<in> {38, 22, 95} then outcome (failed_status before) ''renameat2_unavailable'' None None
         else outcome (failed_status before) ''rename_syscall_failed'' (Some msg) None) (\<lambda>b.
       aret (Some b)))
   | _ \<Rightarrow> araise e)"

text \<open>The guarded block: an early outcome, or none when the rename returned.\<close>

definition rename_block :: "(byte list \<Rightarrow> byte list) \<Rightarrow> act_error option option \<Rightarrow> string \<Rightarrow> mutation_effect
    \<Rightarrow> file_snapshot \<Rightarrow> string \<Rightarrow> backend_outcome option act" where
  "rename_block sha256 before root_dir effect source target =
     abind (validate_effect_paths root_dir effect) (\<lambda>_.
     abind (lstat target) (\<lambda>existing.
     if (case existing of Found _ _ \<Rightarrow> True | _ \<Rightarrow> False)
     then abind (outcome Blocked ''destination_exists'' None None) (\<lambda>b. aret (Some b))
     else
       abind (validate_effect_physical sha256 effect root_dir) (\<lambda>_.
       abind (stat_device (path_parent target)) (\<lambda>dev.
       if dev \<noteq> fs_volume source
       then abind (outcome Blocked ''exdev_same_filesystem_required'' None None) (\<lambda>b. aret (Some b))
       else
         abind open_fd (\<lambda>root_fd. abind (set_slot ''root_fd'' root_fd) (\<lambda>_.
         abind (relative_parts (fs_path source) root_dir) (\<lambda>source_parts.
         abind (relative_parts target root_dir) (\<lambda>target_parts.
         abind (open_parent_dirfd root_fd source_parts) (\<lambda>(source_parent, source_name).
         abind (set_slot ''source_parent_fd'' source_parent) (\<lambda>_.
         abind (open_parent_dirfd root_fd target_parts) (\<lambda>(target_parent, target_name).
         abind (set_slot ''target_parent_fd'' target_parent) (\<lambda>_.
         abind open_fd (\<lambda>source_fd. abind (set_slot ''source_fd'' source_fd) (\<lambda>_.
         abind (look_at_source source) (\<lambda>_.
         abind (run_before before) (\<lambda>_.
         abind (set_crossed True) (\<lambda>_.
         abind (atry (abind (renameat2_noreplace source_name target_name) (\<lambda>_. aret None)) (syscall_failure before)) (\<lambda>early.
         case early of
           Some b \<Rightarrow> aret (Some b)
         | None \<Rightarrow> abind fsync_fd (\<lambda>_. abind fsync_fd (\<lambda>_. aret None))))))))))))))))))))"

text \<open>The four handlers of the block, in the order of their clauses.\<close>

definition os_error_class :: "nat \<Rightarrow> string" where
  "os_error_class n =
     (if n = 2 then ''FileNotFoundError'' else if n = 17 then ''FileExistsError''
      else if n \<in> {1, 13} then ''PermissionError'' else if n = 20 then ''NotADirectoryError''
      else if n = 21 then ''IsADirectoryError'' else if n = 4 then ''InterruptedError'' else ''OSError'')"

definition error_class :: "act_error \<Rightarrow> string" where
  "error_class e = (case e of
     MutationError _ \<Rightarrow> ''MutationError'' | MutationSnapshotChanged _ \<Rightarrow> ''MutationSnapshotChanged''
   | MutationUnavailable _ \<Rightarrow> ''MutationUnavailable'' | Act_RuntimeError _ \<Rightarrow> ''RuntimeError''
   | KioTrashUnavailable _ _ \<Rightarrow> ''KioTrashUnavailable''
   | Act_ValueError _ \<Rightarrow> ''ValueError'' | Act_TypeError _ \<Rightarrow> ''TypeError'' | Act_OSError n _ \<Rightarrow> os_error_class n
   | Act_FileChanged \<Rightarrow> ''FileChangedError'' | Act_Interrupted name \<Rightarrow> name)"

definition rename_handler :: "act_error \<Rightarrow> backend_outcome option act" where
  "rename_handler e os w =
     abind (if is_mutation_error e then
         if w_crossed w then outcome Recovery_Required ''rename_effect_ambiguous'' (Some (error_text e)) None
         else outcome Blocked ''rename_preflight_failed'' (Some (error_text e)) None
       else case e of
         Act_OSError n msg \<Rightarrow>
           if n = 17 then
             if w_crossed w then outcome Recovery_Required ''rename_effect_ambiguous'' None None
             else outcome Blocked ''destination_exists'' None None
           else if w_crossed w then outcome Recovery_Required ''rename_effect_ambiguous'' (Some msg) None
           else if n = 18 then outcome Blocked ''exdev_same_filesystem_required'' None None
           else outcome Blocked ''rename_preflight_failed'' (Some (error_class e @ '': '' @ msg)) None
       | _ \<Rightarrow>
           if w_crossed w then outcome Recovery_Required ''rename_effect_ambiguous'' (Some (error_class e)) None
           else outcome Blocked ''rename_interrupted_before_effect'' (Some (error_class e)) None)
       (\<lambda>b. aret (Some b)) os w"

text \<open>The \<open>finally\<close> clause closes the variables that were assigned.\<close>

fun close_slots :: "string list \<Rightarrow> world \<Rightarrow> world" where
  "close_slots [] w = w"
| "close_slots (name # names) w = close_slots names (case dict_get (w_slots w) name of
     None \<Rightarrow> w | Some fd \<Rightarrow> w\<lparr>w_open := remove1 fd (w_open w)\<rparr>)"

definition FD_VARIABLES :: "string list" where
  "FD_VARIABLES = [''source_fd'', ''source_parent_fd'', ''target_parent_fd'', ''root_fd'']"

definition closing :: "'a act \<Rightarrow> 'a act" where
  "closing m os w = (case m os w of (r, w') \<Rightarrow> (r, close_slots FD_VARIABLES w'))"

text \<open>The verification after the rename; whatever fails there leaves the effect unverified.\<close>

definition verify_rename :: "(byte list \<Rightarrow> byte list) \<Rightarrow> string \<Rightarrow> file_snapshot \<Rightarrow> string \<Rightarrow> string \<Rightarrow> backend_outcome act" where
  "verify_rename sha256 action source source_digest target =
     atry (
       abind (lstat (fs_path source)) (\<lambda>a.
       abind (araise_if (case a of Found _ _ \<Rightarrow> True | _ \<Rightarrow> False) (MutationError ''rename source remains present'')) (\<lambda>_.
       abind (validate_regular_unique (source\<lparr>fs_path := target\<rparr>) ''rename target'') (\<lambda>target_snapshot.
       abind (binding_snapshot sha256 target_snapshot source_digest) (\<lambda>bound.
       abind (araise_if (\<not> bound) (MutationError ''rename target digest mismatch'')) (\<lambda>_.
       outcome Applied ''rename_verified'' None (Some (canonical_json
         (update_items (effect_receipt_json action (fs_path source) (Some target) (Some target_snapshot))
           [(''backend'', J_Text POSIX_BACKEND_NAME), (''source_digest'', J_Text source_digest),
            (''target_digest'', J_Text source_digest)])))))))))
     (\<lambda>e. outcome Recovery_Required ''rename_effect_unverified'' (Some (error_text e)) None)"

definition rename_apply :: "(byte list \<Rightarrow> byte list) \<Rightarrow> act_error option option \<Rightarrow> string \<Rightarrow> mutation_effect \<Rightarrow> backend_outcome act" where
  "rename_apply sha256 before root_dir effect os w =
     (case (me_target effect, me_source effect, me_source_digest effect) of
        (Some target, Some source, Some source_digest) \<Rightarrow>
          if me_action effect \<notin> {''move'', ''rename''}
          then outcome Blocked ''rename_action_requires_target'' None None os w
          else
            abind (closing (atry (rename_block sha256 before root_dir effect source target) rename_handler)) (\<lambda>early.
              case early of
                Some b \<Rightarrow> aret b
              | None \<Rightarrow> verify_rename sha256 (me_action effect) source source_digest target)
              os (w\<lparr>w_slots := [], w_crossed := False\<rparr>)
      | _ \<Rightarrow> outcome Blocked ''rename_action_requires_target'' None None os w)"

end
