(* ===== verification/Action_Quiet.thy ===== *)
theory Action_Quiet
  imports Action_Rename
begin

text \<open>
  The checks of an action observe and have no effect: whatever the operating system
  answers, they change nothing but the moment.
\<close>

section \<open>Observations have no effect\<close>

lemma quiet_inspect_components [quiet_intros]: "quiet (inspect_components role ml mt parent parts)"
proof (induction parts arbitrary: parent)
  case (Cons part parts)
  then show ?case by (auto simp: Let_def intro!: quiet_intros)
qed (simp add: quiet_aret)

lemma quiet_check_root_entry [quiet_intros]: "quiet (check_root_entry role p)"
  unfolding check_root_entry_def by (intro quiet_intros)

lemma quiet_resolve [quiet_intros]: "quiet (resolve role c p)"
  unfolding resolve_def by (intro quiet_intros)

lemma quiet_fixed_world: "(\<And>os. \<exists>k. quiet k \<and> m os = k os) \<Longrightarrow> quiet m"
  unfolding quiet_def by metis

lemma quiet_validate_mutation_path [quiet_intros]: "quiet (validate_mutation_path r p role ml mt)"
proof (rule quiet_fixed_world)
  fix os :: os_answers
  let ?d = "validate_descendant_path (os_cwd os) r p role"
  show "\<exists>k. quiet k \<and> validate_mutation_path r p role ml mt os = k os"
  proof (cases ?d)
    case (Inl e)
    then have "validate_mutation_path r p role ml mt os = araise e os"
      by (auto simp: validate_mutation_path_def araise_def)
    then show ?thesis using quiet_araise by metis
  next
    case (Inr x)
    obtain root_path relative where x: "x = (root_path, relative)" by (cases x)
    let ?k = "let candidate = child_path root_path relative in
          abind (check_root_entry role root_path) (\<lambda>_.
          abind (inspect_components role ml mt root_path (path_parts relative)) (\<lambda>(leaf, physical_subject).
          abind (resolve role candidate root_path) (\<lambda>physical_root_key.
          abind (resolve role candidate physical_subject) (\<lambda>physical_subject_key.
          abind (araise_if (\<not> is_within_root physical_root_key physical_subject_key)
            (Act_RuntimeError (role @ '' escapes the inventory root physically: '' @ candidate))) (\<lambda>_.
          aret leaf)))))"
    have "quiet ?k" unfolding Let_def by (intro quiet_intros)
    moreover have "validate_mutation_path r p role ml mt os = ?k os"
      by (rule ext) (simp add: validate_mutation_path_def Inr x Let_def)
    ultimately show ?thesis by blast
  qed
qed

lemma quiet_outcome [quiet_intros]: "quiet (outcome s r d j)"
  unfolding outcome_def Let_def by (intro quiet_intros)

lemma quiet_snapshot_path [quiet_intros]: "quiet (snapshot_path p)"
  unfolding snapshot_path_def by (intro quiet_intros)

lemma quiet_hash_snapshot [quiet_intros]: "quiet (hash_snapshot sha s)"
  unfolding hash_snapshot_def by (intro quiet_intros)

lemma quiet_digest_snapshot [quiet_intros]: "quiet (digest_snapshot sha s)"
  unfolding digest_snapshot_def by (intro quiet_intros)

lemma quiet_binding_snapshot [quiet_intros]: "quiet (binding_snapshot sha s b)"
  unfolding binding_snapshot_def by (intro quiet_intros)

lemma quiet_validate_regular_unique [quiet_intros]: "quiet (validate_regular_unique s role)"
  unfolding validate_regular_unique_def Let_def by (intro quiet_intros)

lemma quiet_validate_effect_paths [quiet_intros]: "quiet (validate_effect_paths r e)"
  unfolding validate_effect_paths_def by (intro quiet_intros)

lemma quiet_compare_keeper [quiet_intros]: "quiet (compare_keeper s k)"
  unfolding compare_keeper_def by (intro quiet_intros)

lemma quiet_validate_keeper [quiet_intros]: "quiet (validate_keeper sha e s)"
  unfolding validate_keeper_def by (intro quiet_intros)

lemma quiet_stat_device [quiet_intros]: "quiet (stat_device p)"
  unfolding stat_device_def by (intro quiet_intros)

lemma quiet_validate_target [quiet_intros]: "quiet (validate_target e s)"
  unfolding validate_target_def by (intro quiet_intros)

lemma quiet_validate_effect_physical [quiet_intros]: "quiet (validate_effect_physical sha e r)"
  unfolding validate_effect_physical_def by (intro quiet_intros)

lemma quiet_relative_parts [quiet_intros]: "quiet (relative_parts p r)"
  unfolding relative_parts_def by (intro quiet_intros)

lemma quiet_look_at_source [quiet_intros]: "quiet (look_at_source s)"
  unfolding look_at_source_def by (intro quiet_intros)

lemma quiet_fsync_fd [quiet_intros]: "quiet fsync_fd"
  unfolding fsync_fd_def by (intro quiet_intros)

lemma quiet_verify_rename [quiet_intros]: "quiet (verify_rename sha a s d t)"
  unfolding verify_rename_def by (intro quiet_intros)

end
