(* ===== verification/Action_Rename_Case.thy ===== *)
theory Action_Rename_Case
  imports Action_Rename
begin

text \<open>
  A rename on concrete answers: \<open>/r/f\<close> becomes \<open>/r/g\<close>, with the metadata of the tree
  changing when the system call succeeds. The run is evaluated by its parts.
\<close>

text \<open>A file renamed in its directory, on answers that change when the call succeeds.\<close>

definition demo_digest :: "byte list \<Rightarrow> byte list" where
  "demo_digest _ = replicate 32 0"

definition demo_binding :: string where
  "demo_binding = ''metadata-v1:'' @ replicate 64 (CHR ''0'')"

definition unmoved_tree :: "string \<Rightarrow> stat_answer" where
  "unmoved_tree p = (if p = ''/r'' then Found Kind_Directory (demo_stat 1 0)
     else if p = ''/r/f'' then Found Kind_Regular (demo_stat 3 5) else Not_Found)"

definition moved_tree :: "string \<Rightarrow> stat_answer" where
  "moved_tree p = (if p = ''/r'' then Found Kind_Directory (demo_stat 1 0)
     else if p = ''/r/g'' then Found Kind_Regular (demo_stat 3 5) else Not_Found)"

definition demo_move_os :: os_answers where
  "demo_move_os = (steady_os unmoved_tree)\<lparr>os_lstat := (\<lambda>t. if t < 28 then unmoved_tree else moved_tree),
     os_fstat := (\<lambda>_. Found Kind_Regular (demo_stat 3 5))\<rparr>"

definition demo_source :: file_snapshot where
  "demo_source = \<lparr>fs_path = ''/r/f'', fs_volume = 7, fs_file = 3, fs_size = 5, fs_mtime = 100, fs_birthtime = -1\<rparr>"

definition demo_move :: mutation_effect where
  "demo_move = \<lparr>me_action = ''rename'', me_source = Some demo_source, me_source_digest = Some demo_binding,
      me_keeper = None, me_keeper_digest = None, me_target = Some ''/r/g''\<rparr>"

definition has_status :: "apply_status \<Rightarrow> act_error + backend_outcome \<Rightarrow> bool" where
  "has_status s r = (case r of Inl _ \<Rightarrow> False | Inr b \<Rightarrow> bo_status b = s)"

text \<open>The run of the case, by its parts: time passes, and nothing else, in the checks.\<close>

definition demo_at :: "nat \<Rightarrow> world" where
  "demo_at t = \<lparr>w_time = t, w_open = [], w_log = [], w_slots = [], w_crossed = False\<rparr>"

lemma demo_checks:
  "validate_effect_paths ''/r'' demo_move demo_move_os (demo_at 0) = (Inr (), demo_at 8)"
  "validate_effect_paths ''/r'' demo_move demo_move_os (demo_at 9) = (Inr (), demo_at 17)"
  "validate_regular_unique demo_source ''mutation source'' demo_move_os (demo_at 17) = (Inr demo_source, demo_at 19)"
  "validate_target demo_move demo_source demo_move_os (demo_at 19) = (Inr (), demo_at 21)"
  "path_parts ''/r'' = [''/'', ''r'']" "path_parts ''/r/f'' = [''/'', ''r'', ''f'']" "path_parts ''/r/g'' = [''/'', ''r'', ''g'']"
  "path_parent ''/r/g'' = ''/r''" "is_metadata_binding demo_binding"
  by code_simp+


lemma demo_metadata: "metadata_binding demo_digest s = demo_binding"
proof -
  have "digest_hex (replicate 32 0) = replicate 64 (CHR ''0'')" by code_simp
  then show ?thesis
    by (simp add: metadata_binding_def demo_digest_def demo_binding_def METADATA_BINDING_PREFIX_def)
qed

lemma demo_physical: "validate_effect_physical demo_digest demo_move ''/r'' demo_move_os (demo_at 9) = (Inr (), demo_at 21)"
proof -
  have move: "me_source demo_move = Some demo_source" "me_source_digest demo_move = Some demo_binding" "me_keeper demo_move = None"
    by (simp_all add: demo_move_def)
  show ?thesis
    by (simp add: validate_effect_physical_def abind_def move demo_checks demo_metadata araise_if_def aret_def validate_keeper_def)
qed

lemma demo_block:
  "rename_block demo_digest (Some None) ''/r'' demo_move demo_source ''/r/g'' demo_move_os (demo_at 0)
   = (Inr None, \<lparr>w_time = 31, w_open = [25, 24, 23, 22], w_log = [Before_Syscall, Rename_Noreplace ''f'' ''g'' True],
       w_slots = [(''root_fd'', 22), (''source_parent_fd'', 23), (''target_parent_fd'', 24), (''source_fd'', 25)],
       w_crossed = True\<rparr>)"
proof -
  have target: "lstat ''/r/g'' demo_move_os (demo_at 8) = (Inr Not_Found, demo_at 9)"
    and parent: "stat_device ''/r'' demo_move_os (demo_at 21) = (Inr 7, demo_at 22)"
    by code_simp+
  have rel: "relative_parts ''/r/f'' ''/r'' = aret [''f'']" "relative_parts ''/r/g'' ''/r'' = aret [''g'']"
    by (simp_all add: relative_parts_def demo_checks)
  have source: "fs_path demo_source = ''/r/f''" "fs_volume demo_source = 7" by (simp_all add: demo_source_def)
  have calls: "os_interrupts demo_move_os = (\<lambda>_. False)" "os_open demo_move_os = (\<lambda>_. None)"
    "os_rename demo_move_os = (\<lambda>_. None)" "os_fsync demo_move_os = (\<lambda>_. None)"
    by (simp_all add: demo_move_os_def steady_os_def)
  have look: "look_at_source demo_source demo_move_os w = (Inr (), w\<lparr>w_time := 28\<rparr>)" if "w_time w = 26" for w
    using that
    by (simp add: look_at_source_def abind_def ask_def lstat_def tick_def demo_move_os_def steady_os_def unmoved_tree_def
        demo_source_def demo_stat_def unsafe_source_def stat_matches_snapshot_def stat_birthtime_def UNAVAILABLE_BIRTHTIME_def
        araise_if_def aret_def)
  show ?thesis
    unfolding rename_block_def abind_def demo_checks(1)
    by (simp add: target demo_physical demo_checks(8) parent source rel)
      (simp add: demo_at_def source rel calls look open_fd_def set_slot_def open_parent_dirfd_def aret_def abind_def ask_def
        run_before_def set_crossed_def renameat2_noreplace_def fsync_fd_def log_effect_def atry_def tick_def)
qed


lemma demo_verified:
  "has_status Applied (fst (verify_rename demo_digest ''rename'' demo_source demo_binding ''/r/g'' demo_move_os
     \<lparr>w_time = 31, w_open = [], w_log = [Before_Syscall, Rename_Noreplace ''f'' ''g'' True],
       w_slots = [(''root_fd'', 22), (''source_parent_fd'', 23), (''target_parent_fd'', 24), (''source_fd'', 25)],
       w_crossed = True\<rparr>))"
  by code_simp

lemma demo_applied: "has_status Applied (fst (rename_apply demo_digest (Some None) ''/r'' demo_move demo_move_os start_world))"
proof -
  have start: "start_world\<lparr>w_slots := [], w_crossed := False\<rparr> = demo_at 0" by (simp add: start_world_def demo_at_def)
  have move: "me_action demo_move = ''rename''" "me_source demo_move = Some demo_source"
    "me_source_digest demo_move = Some demo_binding" "me_target demo_move = Some ''/r/g''" by (simp_all add: demo_move_def)
  show ?thesis
    using demo_verified by (simp add: rename_apply_def move start abind_def closing_def atry_def demo_block FD_VARIABLES_def)
qed

end
