(* ===== verification/Trash_Evidence.thy ===== *)
theory Trash_Evidence
  imports Trash_Info Action_Quiet Action_Rename_Case
begin

text \<open>
  The evidence that a file is in the desktop trash (\<open>safety/kio_trash.py\<close>): the
  structural check of a receipt against its source, the physical check of the
  trashed object and of its restoration data, and the checks of an empty directory
  before it is trashed. \<open>KioTrashBackend\<close> in \<open>workflow/mutations.py\<close> turns the
  results of the trash service into outcomes; the service itself is an argument.
\<close>

definition KIO_OBJECT_FILE :: string where "KIO_OBJECT_FILE = ''regular_file''"
definition KIO_OBJECT_EMPTY_DIRECTORY :: string where "KIO_OBJECT_EMPTY_DIRECTORY = ''empty_directory''"

section \<open>The receipt\<close>

text \<open>\<open>Path(v)\<close> as text, its parent and its join with one name.\<close>

definition path_str :: "string \<Rightarrow> string" where
  "path_str v = path_text (initial_slashes v) (path_comps v)"

definition parent_parts :: "string \<Rightarrow> string list" where
  "parent_parts v = (if path_comps v = [] then path_parts v else butlast (path_parts v))"

definition receipt_path :: "json \<Rightarrow> string \<Rightarrow> act_error + string" where
  "receipt_path evidence key = (case json_get evidence key of
     Some (J_Text v) \<Rightarrow>
       if v = [] \<or> CHR 0x00 \<in> set v then Inl (Act_ValueError ''trash receipt paths are invalid'')
       else if \<not> starts_with v ''/'' \<or> ''..'' \<in> set (path_parts v)
       then Inl (Act_ValueError ''trash receipt paths are not absolute descendants'')
       else Inr (path_str v)
   | _ \<Rightarrow> Inl (Act_ValueError ''trash receipt paths are invalid''))"

definition identity_differs :: "json \<Rightarrow> file_snapshot \<Rightarrow> string \<Rightarrow> bool" where
  "identity_differs evidence expected source_digest \<longleftrightarrow>
     json_get evidence ''volume_id'' \<noteq> Some (J_Text (hex_text (fs_volume expected)))
     \<or> json_get evidence ''file_id'' \<noteq> Some (J_Text (hex_text (fs_file expected)))
     \<or> json_get evidence ''size'' \<noteq> Some (J_Int (fs_size expected))
     \<or> json_get evidence ''digest'' \<noteq> Some (J_Text source_digest)
     \<or> json_get evidence ''birthtime_ns'' \<notin> {None, Some (J_Int (fs_birthtime expected))}"

definition curation_trash_paths :: "json \<Rightarrow> file_snapshot \<Rightarrow> string \<Rightarrow> act_error + string \<times> string \<times> string" where
  "curation_trash_paths evidence expected source_digest = (case evidence of
     J_Object _ \<Rightarrow>
       (case receipt_path evidence ''trash_root'' of Inl e \<Rightarrow> Inl e | Inr root_dir \<Rightarrow>
        case receipt_path evidence ''trash_path'' of Inl e \<Rightarrow> Inl e | Inr trash_path \<Rightarrow>
        case receipt_path evidence ''info_path'' of Inl e \<Rightarrow> Inl e | Inr info_path \<Rightarrow>
        if parent_parts trash_path \<noteq> path_parts root_dir @ [''files'']
          \<or> parent_parts info_path \<noteq> path_parts root_dir @ [''info'']
          \<or> path_name info_path \<noteq> path_name trash_path @ ''.trashinfo''
          \<or> path_parts (fs_path expected) \<in> {path_parts trash_path, path_parts info_path}
        then Inl (Act_ValueError ''trash receipt paths are outside the declared Trash layout'')
        else if identity_differs evidence expected source_digest
        then Inl (Act_ValueError ''trash receipt identity or digest differs from the source'')
        else Inr (root_dir, trash_path, info_path))
   | _ \<Rightarrow> Inl (Act_ValueError ''trash receipt lacks destination evidence''))"

definition trash_receipt_paths :: "json \<Rightarrow> file_snapshot \<Rightarrow> string \<Rightarrow> act_error + string \<times> string \<times> string" where
  "trash_receipt_paths = curation_trash_paths"

section \<open>The trashed object\<close>

definition validate_object_kind :: "json \<Rightarrow> act_error + string" where
  "validate_object_kind v = (case v of
     J_Text k \<Rightarrow> if k \<in> {KIO_OBJECT_FILE, KIO_OBJECT_EMPTY_DIRECTORY} then Inr k
       else Inl (Act_TypeError (''unsupported KIO object kind: '' @ repr_json v))
   | _ \<Rightarrow> Inl (Act_TypeError (''unsupported KIO object kind: '' @ repr_json v)))"

definition resolved_kind :: "json \<Rightarrow> string option \<Rightarrow> act_error + string" where
  "resolved_kind evidence object_kind = validate_object_kind (case object_kind of
     Some k \<Rightarrow> J_Text k
   | None \<Rightarrow> (case json_get evidence ''object_kind'' of None \<Rightarrow> J_Text KIO_OBJECT_FILE | Some v \<Rightarrow> v))"

definition lift_sum :: "act_error + 'a \<Rightarrow> 'a act" where
  "lift_sum r = (case r of Inl e \<Rightarrow> araise e | Inr x \<Rightarrow> aret x)"

definition binding_matches_snapshot :: "(byte list \<Rightarrow> byte list) \<Rightarrow> file_snapshot \<Rightarrow> string \<Rightarrow> bool act" where
  "binding_matches_snapshot sha256 s binding =
     (if is_metadata_binding binding then aret (metadata_binding sha256 s = binding)
      else abind (hash_snapshot sha256 s) (\<lambda>d. aret (content_binding d = binding)))"

text \<open>\<open>with os.fdopen(fd) as stream\<close>: the descriptor is closed on every path.\<close>

definition with_descriptor :: "(nat \<Rightarrow> 'a act) \<Rightarrow> 'a act" where
  "with_descriptor m = abind open_fd (\<lambda>fd os w. case m fd os w of (r, w') \<Rightarrow> (r, snd (close_fd fd os w')))"

definition validate_trash_info :: "string \<Rightarrow> string \<Rightarrow> unit act" where
  "validate_trash_info base_directory source_path =
     abind (with_descriptor (\<lambda>fd.
       abind (ask os_fstat) (\<lambda>a. case a of
         Found kind st \<Rightarrow>
           abind (araise_if (\<not> unique_regular a) (Act_ValueError ''trash info is not a regular unique file'')) (\<lambda>_.
           abind (ask os_bytes) (\<lambda>content. aret (take (nat (MAX_TRASH_INFO_BYTES + 1)) content)))
       | _ \<Rightarrow> araise (stat_failure a)))) (\<lambda>raw.
     case validate_trash_text (Some base_directory) source_path raw of None \<Rightarrow> aret () | Some e \<Rightarrow> araise e)"

definition destination_type_ok :: "string \<Rightarrow> file_kind \<times> stat_result \<Rightarrow> bool" where
  "destination_type_ok kind leaf = (case leaf of (k, st) \<Rightarrow>
     if kind = KIO_OBJECT_FILE then k = Kind_Regular \<and> st_nlink st = 1 else k = Kind_Directory)"

definition listing_empty :: "bool act" where
  "listing_empty = abind (ask os_listing) (\<lambda>r. case r of
     Inl (n, msg) \<Rightarrow> araise (Act_OSError n msg) | Inr names \<Rightarrow> aret (names = []))"

definition lexists :: "string \<Rightarrow> bool act" where
  "lexists p = abind (lstat p) (\<lambda>a. aret (case a of Found _ _ \<Rightarrow> True | _ \<Rightarrow> False))"

definition resolve_strict :: "string \<Rightarrow> string act" where
  "resolve_strict p = abind (ask (\<lambda>os t. os_realpath os t p)) (\<lambda>r. case r of
     Inl (n, msg) \<Rightarrow> araise (Act_OSError n msg) | Inr q \<Rightarrow> aret q)"

text \<open>\<open>_verify_curation_trash_evidence\<close>.\<close>

definition verify_trash_receipt_evidence ::
    "(byte list \<Rightarrow> byte list) \<Rightarrow> json \<Rightarrow> file_snapshot \<Rightarrow> string \<Rightarrow> string option \<Rightarrow> file_snapshot act" where
  "verify_trash_receipt_evidence sha256 evidence expected source_digest object_kind =
     abind (araise_if (case evidence of J_Object _ \<Rightarrow> False | _ \<Rightarrow> True)
       (Act_ValueError ''trash evidence is not an object'')) (\<lambda>_.
     abind (lift_sum (resolved_kind evidence object_kind)) (\<lambda>kind.
     abind (lift_sum (curation_trash_paths evidence expected source_digest)) (\<lambda>(root_dir, trash_path, info_path).
     abind (resolve_strict root_dir) (\<lambda>physical.
     abind (araise_if (path_parts physical \<noteq> path_parts root_dir)
       (Act_ValueError ''trash root traverses a symbolic link'')) (\<lambda>_.
     abind (validate_mutation_path root_dir trash_path ''trash file'' False False) (\<lambda>metadata.
     abind (validate_mutation_path root_dir info_path ''trash info'' False False) (\<lambda>info_metadata.
     case metadata of
       None \<Rightarrow> araise (Act_ValueError ''trash destination does not match the admitted object kind'')
     | Some leaf \<Rightarrow>
         abind (araise_if (\<not> destination_type_ok kind leaf)
           (Act_ValueError ''trash destination does not match the admitted object kind'')) (\<lambda>_.
         abind (araise_if (case info_metadata of None \<Rightarrow> True | Some (k, st) \<Rightarrow> k \<noteq> Kind_Regular \<or> st_nlink st \<noteq> 1)
           (Act_ValueError ''trash info is not a regular unique file'')) (\<lambda>_.
         abind (snapshot_path trash_path) (\<lambda>observed.
         let relocated = expected\<lparr>fs_path := trash_path\<rparr> in
         abind (araise_if (observed \<noteq> relocated \<or> \<not> stat_matches_snapshot relocated (snd leaf))
           (Act_ValueError ''trash destination no longer identifies the original source'')) (\<lambda>_.
         abind (binding_matches_snapshot sha256 observed source_digest) (\<lambda>bound.
         abind (araise_if (\<not> bound) (Act_ValueError ''trash destination digest changed'')) (\<lambda>_.
         abind (if kind = KIO_OBJECT_EMPTY_DIRECTORY
           then abind listing_empty (\<lambda>empty.
             araise_if (\<not> empty) (Act_ValueError ''trashed directory is no longer empty''))
           else aret ()) (\<lambda>_.
         abind (validate_trash_info (path_parent root_dir) (fs_path expected)) (\<lambda>_.
         abind (lexists (fs_path expected)) (\<lambda>present.
         abind (araise_if present (Act_ValueError ''trash source is present'')) (\<lambda>_.
         aret observed)))))))))))))))))"


section \<open>Empty directories\<close>

definition absolute_path :: "string \<Rightarrow> string \<Rightarrow> act_error + string" where
  "absolute_path raw label =
     (if raw = [] \<or> CHR 0x00 \<in> set raw
      then Inl (KioTrashUnavailable (''kio_'' @ label @ ''_invalid'') (label @ '' path is empty or contains NUL''))
      else if \<not> starts_with raw ''/''
      then Inl (KioTrashUnavailable (''kio_'' @ label @ ''_not_absolute'') (label @ '' path must be absolute''))
      else Inr (path_str (normpath (path_str raw))))"

definition directory_changed :: "file_snapshot \<Rightarrow> stat_answer \<Rightarrow> stat_answer \<Rightarrow> bool" where
  "directory_changed expected a parent = (case (a, parent) of
     (Found k st, Found pk pst) \<Rightarrow> k \<noteq> Kind_Directory \<or> pk \<noteq> Kind_Directory \<or> st_dev st \<noteq> st_dev pst
   | _ \<Rightarrow> True)"

definition stat_or_raise :: "string \<Rightarrow> stat_answer act" where
  "stat_or_raise p = abind (lstat p) (\<lambda>a. case a of Found _ _ \<Rightarrow> aret a | _ \<Rightarrow> araise (stat_failure a))"

definition directory_unsafe :: "file_snapshot \<Rightarrow> stat_answer \<Rightarrow> stat_answer \<Rightarrow> bool act" where
  "directory_unsafe expected a parent =
     (if directory_changed expected a parent then aret True
      else abind (ask os_ismount) (\<lambda>mounted. aret (mounted
        \<or> (case a of Found _ st \<Rightarrow> \<not> stat_matches_snapshot expected st | _ \<Rightarrow> True))))"

definition validate_empty_directory_source :: "string \<Rightarrow> file_snapshot \<Rightarrow> string \<Rightarrow> unit act" where
  "validate_empty_directory_source source expected root_dir =
     abind (lift_sum (absolute_path (fs_path expected) ''snapshot'')) (\<lambda>expected_path.
     abind (araise_if (path_parts expected_path \<noteq> path_parts source) (KioTrashUnavailable ''kio_snapshot_path_mismatch''
       ''expected snapshot does not identify the requested directory path'')) (\<lambda>_.
     abind (atry (
         abind (validate_mutation_path root_dir source ''empty-directory source'' False False) (\<lambda>_.
         abind (stat_or_raise source) (\<lambda>a.
         abind (stat_or_raise (path_parent source)) (\<lambda>parent. aret (a, parent)))))
       (\<lambda>e. araise (if is_os_error e \<or> is_runtime_error e
         then KioTrashUnavailable ''kio_directory_unavailable'' ''empty-directory source cannot be inspected safely'' else e))) (\<lambda>(a, parent).
     abind (directory_unsafe expected a parent) (\<lambda>bad.
     abind (araise_if bad (KioTrashUnavailable ''kio_directory_identity_changed''
       ''empty-directory source is not the planned real directory'')) (\<lambda>_.
     abind (atry listing_empty (\<lambda>e. araise (if is_os_error e
         then KioTrashUnavailable ''kio_directory_unavailable'' ''empty-directory emptiness cannot be verified'' else e))) (\<lambda>empty.
     araise_if (\<not> empty) (KioTrashUnavailable ''kio_directory_not_empty'' ''empty-directory source contains an entry'')))))))"

section \<open>The backend\<close>

text \<open>
  A result of the trash service; the evidence of its receipt is a document, or text
  that is none.
\<close>

record kio_trash_result =
  kr_status :: apply_status
  kr_reason :: string
  kr_detail :: "string option"
  kr_receipt :: "json option option"

definition KIO_BACKEND_NAME :: string where
  "KIO_BACKEND_NAME = ''kio-trash-path-bound-v1''"

definition trash_receipt :: "file_snapshot \<Rightarrow> string \<Rightarrow> string \<Rightarrow> json \<Rightarrow> json" where
  "trash_receipt source source_digest kind evidence = canonical_json
     (update_items (effect_receipt_json ''trash'' (fs_path source) None None)
       [(''backend'', J_Text KIO_BACKEND_NAME), (''source_digest'', J_Text source_digest),
        (''object_kind'', J_Text kind), (''trash'', evidence)])"

definition backend_outcome_of :: "file_snapshot \<Rightarrow> string \<Rightarrow> string \<Rightarrow> kio_trash_result \<Rightarrow> backend_outcome act" where
  "backend_outcome_of source source_digest kind result =
     (if kr_status result = Blocked then outcome Blocked (kr_reason result) (kr_detail result) None
      else if kr_status result = Recovery_Required then outcome Recovery_Required (kr_reason result) (kr_detail result) None
      else case kr_receipt result of
        None \<Rightarrow> outcome Recovery_Required ''kio_receipt_missing'' (Some ''KIO reported an applied item without a receipt'') None
      | Some document \<Rightarrow>
          atry (
            abind (case document of None \<Rightarrow> araise (Act_ValueError ''not a JSON document'') | Some v \<Rightarrow> aret v) (\<lambda>evidence.
            abind (lift_sum (trash_receipt_paths evidence source source_digest)) (\<lambda>_.
            outcome Applied ''kio_trash_verified'' (kr_detail result) (Some (trash_receipt source source_digest kind evidence)))))
          (\<lambda>e. case e of
             Act_TypeError s \<Rightarrow> outcome Recovery_Required ''kio_receipt_invalid'' (Some s) None
           | Act_ValueError s \<Rightarrow> outcome Recovery_Required ''kio_receipt_invalid'' (Some s) None
           | _ \<Rightarrow> araise e))"

definition trash_effect :: "file_snapshot \<Rightarrow> string \<Rightarrow> mutation_effect" where
  "trash_effect s digest = \<lparr>me_action = ''trash'', me_source = Some s, me_source_digest = Some digest, me_keeper = None,
     me_keeper_digest = None, me_target = None\<rparr>"

text \<open>The check of one item: none when it passed.\<close>

definition kio_preflight :: "(byte list \<Rightarrow> byte list) \<Rightarrow> string \<Rightarrow> mutation_effect \<Rightarrow> file_snapshot \<Rightarrow> string \<Rightarrow> backend_outcome option act" where
  "kio_preflight sha256 root_dir effect s kind =
     atry (abind (if kind = KIO_OBJECT_EMPTY_DIRECTORY then validate_empty_directory_source (fs_path s) s root_dir
         else validate_effect_physical sha256 effect root_dir) (\<lambda>_. aret None))
     (\<lambda>e. if is_os_error e \<or> is_runtime_error e \<or> (case e of Act_ValueError _ \<Rightarrow> True | _ \<Rightarrow> False)
       then abind (outcome Blocked ''kio_preflight_failed'' (Some (error_text e)) None) (\<lambda>b. aret (Some b))
       else araise e)"

fun preflight_items :: "(byte list \<Rightarrow> byte list) \<Rightarrow> string \<Rightarrow> (file_snapshot \<times> string \<times> string) list \<Rightarrow> backend_outcome option list act" where
  "preflight_items sha256 root_dir [] = aret []"
| "preflight_items sha256 root_dir (item # items) =
     abind (araise_if (snd (snd item) \<notin> {KIO_OBJECT_FILE, KIO_OBJECT_EMPTY_DIRECTORY})
       (Act_TypeError ''unsupported KIO object kind'')) (\<lambda>_.
     abind (case item of (s, digest, kind) \<Rightarrow> kio_preflight sha256 root_dir (trash_effect s digest) s kind) (\<lambda>early.
     abind (preflight_items sha256 root_dir items) (\<lambda>rest. aret (early # rest))))"

text \<open>The results fill the places the preflight left open, in order; both have to be used up.\<close>

fun merge_results :: "(file_snapshot \<times> string \<times> string) list \<Rightarrow> backend_outcome option list \<Rightarrow> kio_trash_result list
    \<Rightarrow> backend_outcome list act" where
  "merge_results (item # items) (Some b # rest) results =
     abind (merge_results items rest results) (\<lambda>bs. aret (b # bs))"
| "merge_results ((s, digest, kind) # items) (None # rest) (r # results) =
     abind (backend_outcome_of s digest kind r) (\<lambda>b.
     abind (merge_results items rest results) (\<lambda>bs. aret (b # bs)))"
| "merge_results [] [] [] = aret []"
| "merge_results _ _ _ = araise (Act_ValueError ''zip() arguments have different lengths'')"

definition apply_many_snapshots :: "(byte list \<Rightarrow> byte list) \<Rightarrow> ((file_snapshot \<times> string \<times> string) list \<Rightarrow> kio_trash_result list act)
    \<Rightarrow> string \<Rightarrow> (file_snapshot \<times> string \<times> string) list \<Rightarrow> backend_outcome list act" where
  "apply_many_snapshots sha256 move_many root_dir items =
     abind (preflight_items sha256 root_dir items) (\<lambda>outcomes.
     let valid_items = map fst (filter (\<lambda>(item, early). early = None) (zip items outcomes)) in
     if valid_items = [] then aret (map the outcomes)
     else abind (move_many valid_items) (\<lambda>results. merge_results items outcomes results))"

definition kio_apply :: "(byte list \<Rightarrow> byte list) \<Rightarrow> (file_snapshot \<Rightarrow> string \<Rightarrow> string \<Rightarrow> kio_trash_result act) \<Rightarrow> bool
    \<Rightarrow> string \<Rightarrow> mutation_effect \<Rightarrow> string \<Rightarrow> backend_outcome act" where
  "kio_apply sha256 move revalidate root_dir effect kind =
     (if me_action effect \<noteq> ''trash'' then outcome Blocked ''kio_backend_supports_trash_only'' None None
      else case (me_source effect, me_source_digest effect) of
        (Some source, Some source_digest) \<Rightarrow>
          if kind \<notin> {KIO_OBJECT_FILE, KIO_OBJECT_EMPTY_DIRECTORY} then outcome Blocked ''kio_object_kind_invalid'' None None
          else abind (
              if kind = KIO_OBJECT_FILE \<and> \<not> revalidate then aret None
              else kio_preflight sha256 root_dir effect source kind) (\<lambda>early. case early of
              Some b \<Rightarrow> aret b
            | None \<Rightarrow> abind (move source source_digest kind) (\<lambda>result.
                backend_outcome_of source source_digest kind result))
      | _ \<Rightarrow> outcome Blocked ''kio_source_binding_invalid'' None None)"

definition apply_snapshot :: "(byte list \<Rightarrow> byte list) \<Rightarrow> (file_snapshot \<Rightarrow> string \<Rightarrow> string \<Rightarrow> kio_trash_result act) \<Rightarrow> bool
    \<Rightarrow> string \<Rightarrow> file_snapshot \<Rightarrow> string \<Rightarrow> string \<Rightarrow> backend_outcome act" where
  "apply_snapshot sha256 move revalidate root_dir s digest kind = kio_apply sha256 move revalidate root_dir (trash_effect s digest) kind"

section \<open>Verification reads only\<close>

lemma quiet_lift_sum [quiet_intros]: "quiet (lift_sum r)"
  unfolding lift_sum_def by (intro quiet_intros)

lemma quiet_with_descriptor [quiet_intros]:
  assumes "\<And>fd. quiet (m fd)"
  shows "quiet (with_descriptor m)"
  unfolding quiet_def
proof (intro allI)
  fix os w
  obtain r v where fd: "open_fd os w = (r, v)" by force
  show "\<exists>t. snd (with_descriptor m os w) = w\<lparr>w_time := t\<rparr>"
  proof (cases r)
    case (Inl e)
    then show ?thesis
      using fd by (auto simp: with_descriptor_def abind_def open_fd_def ask_def araise_def tick_def
          split: if_splits option.splits)
  next
    case (Inr n)
    then obtain t where v: "v = w\<lparr>w_time := t, w_open := n # w_open w\<rparr>"
      using fd by (auto simp: open_fd_def abind_def ask_def araise_def tick_def split: if_splits option.splits)
    obtain s v' where run: "m n os v = (s, v')" by force
    then obtain t' where v': "v' = v\<lparr>w_time := t'\<rparr>" using quietD [OF assms] by blast
    have "snd (with_descriptor m os w) = v'\<lparr>w_open := remove1 n (w_open v')\<rparr>"
      by (simp add: with_descriptor_def abind_def fd Inr run close_fd_def)
    then show ?thesis using v v' by auto
  qed
qed

lemma quiet_validate_trash_info [quiet_intros]: "quiet (validate_trash_info b s)"
  unfolding validate_trash_info_def by (intro quiet_intros)

lemma quiet_binding_matches [quiet_intros]: "quiet (binding_matches_snapshot sha s b)"
  unfolding binding_matches_snapshot_def by (intro quiet_intros)

lemma quiet_listing_empty [quiet_intros]: "quiet listing_empty"
  unfolding listing_empty_def by (intro quiet_intros)

lemma quiet_lexists [quiet_intros]: "quiet (lexists p)"
  unfolding lexists_def by (intro quiet_intros)

lemma quiet_resolve_strict [quiet_intros]: "quiet (resolve_strict p)"
  unfolding resolve_strict_def by (intro quiet_intros)


lemma quiet_verify_evidence [quiet_intros]: "quiet (verify_trash_receipt_evidence sha evidence expected digest kind)"
  unfolding verify_trash_receipt_evidence_def Let_def by (intro quiet_intros)

section \<open>What verified evidence establishes\<close>

lemma lift_sum_Inr [act_simps]: "lift_sum r os w = (Inr y, w') \<longleftrightarrow> r = Inr y \<and> w' = w"
  by (cases r) (auto simp: lift_sum_def act_simps)

lemma snapshot_path_Inr: "snapshot_path p os w = (Inr s, w') \<Longrightarrow>
    \<exists>k st. os_lstat os (w_time w) p = Found k st \<and> s = snapshot_of (os_cwd os) p st"
  by (auto simp: snapshot_path_def act_simps split: stat_answer.splits)

lemma stat_or_raise_Inr: "stat_or_raise p os w = (Inr a, w') \<Longrightarrow> os_lstat os (w_time w) p = a"
  by (auto simp: stat_or_raise_def lstat_def act_simps split: stat_answer.splits)

text \<open>The content or the metadata of the object was seen to have the binding.\<close>

definition binding_seen :: "(byte list \<Rightarrow> byte list) \<Rightarrow> os_answers \<Rightarrow> file_snapshot \<Rightarrow> string \<Rightarrow> bool" where
  "binding_seen sha256 os s digest \<longleftrightarrow>
     (if is_metadata_binding digest then metadata_binding sha256 s = digest
      else \<exists>t content. fst (full_fingerprint sha256 (os_cwd os) DEFAULT_IO_CHUNK_SIZE s (os_content os t)) = Inr content
        \<and> content_binding content = digest)"

lemma binding_matches_seen:
  assumes "binding_matches_snapshot sha s digest os v = (Inr True, v')"
  shows "binding_seen sha os s digest"
proof (cases "is_metadata_binding digest")
  case True
  then show ?thesis using assms by (simp add: binding_matches_snapshot_def binding_seen_def act_simps)
next
  case False
  then obtain content u where "hash_snapshot sha s os v = (Inr content, u)" "content_binding content = digest"
    using assms by (auto simp: binding_matches_snapshot_def act_simps)
  then show ?thesis
    using False unfolding binding_seen_def hash_snapshot_def by (auto simp: act_simps split: sum.splits)
qed

definition info_seen :: "os_answers \<Rightarrow> string \<Rightarrow> string \<Rightarrow> bool" where
  "info_seen os base source_path \<longleftrightarrow> (\<exists>t. unique_regular (os_fstat os t)
     \<and> validate_trash_text (Some base) source_path (take (nat (MAX_TRASH_INFO_BYTES + 1)) (os_bytes os (Suc t))) = None)"

lemma with_descriptor_Inr:
  "with_descriptor m os w = (Inr y, w') \<Longrightarrow> \<exists>fd v v'. m fd os v = (Inr y, v')"
  by (auto simp: with_descriptor_def abind_def split: prod.splits sum.splits)

lemma validate_trash_info_seen:
  assumes "validate_trash_info base source_path os w = (Inr (), w')"
  shows "info_seen os base source_path"
proof -
  let ?m = "\<lambda>fd. abind (ask os_fstat) (\<lambda>a. case a of
         Found kind st \<Rightarrow>
           abind (araise_if (\<not> unique_regular a) (Act_ValueError ''trash info is not a regular unique file'')) (\<lambda>_.
           abind (ask os_bytes) (\<lambda>content. aret (take (nat (MAX_TRASH_INFO_BYTES + 1)) content)))
       | _ \<Rightarrow> araise (stat_failure a))"
  obtain raw v where run: "with_descriptor ?m os w = (Inr raw, v)"
    and valid: "validate_trash_text (Some base) source_path raw = None"
    using assms unfolding validate_trash_info_def
    by (auto simp: act_simps split: option.splits)
  obtain fd u u' where "?m fd os u = (Inr raw, u')" using with_descriptor_Inr [OF run] by blast
  then have "unique_regular (os_fstat os (w_time u)) \<and> raw = take (nat (MAX_TRASH_INFO_BYTES + 1)) (os_bytes os (Suc (w_time u)))"
    by (auto simp: act_simps tick_def split: stat_answer.splits)
  then show ?thesis using valid unfolding info_seen_def by blast
qed

text \<open>
  The object at its place in the trash: a file with one link or a directory, as the
  kind says, with the metadata of the source.
\<close>

definition object_seen :: "os_answers \<Rightarrow> string \<Rightarrow> string \<Rightarrow> string \<Rightarrow> file_snapshot \<Rightarrow> bool" where
  "object_seen os root_dir trash_path kind relocated \<longleftrightarrow>
     (\<exists>v v' leaf. validate_mutation_path root_dir trash_path ''trash file'' False False os v = (Inr (Some leaf), v')
        \<and> destination_type_ok kind leaf \<and> stat_matches_snapshot relocated (snd leaf))"



text \<open>A file in the trash \<open>/t\<close>, with its restoration data.\<close>

definition trash_tree :: "string \<Rightarrow> stat_answer" where
  "trash_tree p = (if p \<in> {''/t'', ''/t/files'', ''/t/info''} then Found Kind_Directory (demo_stat 1 0)
     else if p = ''/t/files/f'' then Found Kind_Regular (demo_stat 3 5)
     else if p = ''/t/info/f.trashinfo'' then Found Kind_Regular (demo_stat 4 9) else Not_Found)"

definition trash_os :: os_answers where
  "trash_os = (steady_os trash_tree)\<lparr>os_fstat := (\<lambda>_. Found Kind_Regular (demo_stat 4 9)),
     os_bytes := (\<lambda>_. utf8_bytes (''[Trash Info]'' @ [LF] @ ''Path=/r/f'' @ [LF]))\<rparr>"

definition demo_evidence :: json where
  "demo_evidence = J_Object [(''digest'', J_Text demo_binding), (''file_id'', J_Text ''3''),
     (''info_path'', J_Text ''/t/info/f.trashinfo''), (''size'', J_Int 5), (''trash_path'', J_Text ''/t/files/f''),
     (''trash_root'', J_Text ''/t''), (''volume_id'', J_Text ''7'')]"

lemma demo_verified_evidence:
  "fst (verify_trash_receipt_evidence demo_digest demo_evidence demo_source demo_binding None trash_os (demo_at 3))
     = Inr (demo_source\<lparr>fs_path := ''/t/files/f''\<rparr>)"
proof -
  let ?moved = "demo_source\<lparr>fs_path := ''/t/files/f''\<rparr>"
  have kind: "resolved_kind demo_evidence None = Inr KIO_OBJECT_FILE"
    and paths: "curation_trash_paths demo_evidence demo_source demo_binding = Inr (''/t'', ''/t/files/f'', ''/t/info/f.trashinfo'')"
    by code_simp+
  have seen: "validate_mutation_path ''/t'' ''/t/files/f'' ''trash file'' False False trash_os (demo_at 4)
      = (Inr (Some (Kind_Regular, demo_stat 3 5)), demo_at 9)"
    and info: "validate_mutation_path ''/t'' ''/t/info/f.trashinfo'' ''trash info'' False False trash_os (demo_at 9)
      = (Inr (Some (Kind_Regular, demo_stat 4 9)), demo_at 14)"
    by code_simp+
  have observed: "snapshot_path ''/t/files/f'' trash_os (demo_at 14) = (Inr ?moved, demo_at 15)"
    and rest: "validate_trash_info (path_parent ''/t'') (fs_path demo_source) trash_os (demo_at 15) = (Inr (), demo_at 18)"
      "lexists (fs_path demo_source) trash_os (demo_at 18) = (Inr False, demo_at 19)"
      "resolve_strict ''/t'' trash_os (demo_at 3) = (Inr ''/t'', demo_at 4)"
    by code_simp+
  have misc: "is_metadata_binding demo_binding" "stat_matches_snapshot ?moved (demo_stat 3 5)"
      "destination_type_ok KIO_OBJECT_FILE (Kind_Regular, demo_stat 3 5)" "st_nlink (demo_stat 4 9) = 1"
      "KIO_OBJECT_FILE \<noteq> KIO_OBJECT_EMPTY_DIRECTORY"
    by code_simp+
  have object: "(case demo_evidence of J_Object _ \<Rightarrow> False | _ \<Rightarrow> True) = False" by (simp add: demo_evidence_def)
  show ?thesis
    unfolding verify_trash_receipt_evidence_def Let_def object
    by (simp add: abind_def araise_if_def aret_def lift_sum_def kind paths rest seen info misc observed
        binding_matches_snapshot_def demo_metadata del: One_nat_def)
qed


end
