(* ===== verification/Action_Recovery.thy ===== *)
theory Action_Recovery
  imports Trash_Evidence
begin

text \<open>
  \<open>workflow/actions/file_action_recovery.py\<close>: the reconciliation of actions whose
  effect is uncertain. It reads the recorded identity and receipt of an action,
  observes its paths and classifies it; it never authorises a mutation.
\<close>

section \<open>Conversions\<close>

definition json_str :: "json \<Rightarrow> string" where
  "json_str v = (case v of J_Text s \<Rightarrow> s | _ \<Rightarrow> repr_json v)"

text \<open>\<open>int(text, base)\<close>: white space, a sign, a prefix, and digits with single underscores.\<close>

definition is_digit_of :: "nat \<Rightarrow> char \<Rightarrow> bool" where
  "is_digit_of radix c \<longleftrightarrow> (if radix = 16 then is_hex_digit c else c \<in> set ''0123456789'')"

definition int_digits :: "nat \<Rightarrow> string \<Rightarrow> nat option" where
  "int_digits radix s =
     (let parts = split_on CHR ''_'' s in
      if list_all (\<lambda>p. p \<noteq> [] \<and> list_all (is_digit_of radix) p) parts \<and> (radix = 16 \<or> length (concat parts) \<le> 4300)
      then Some (from_base radix (concat parts)) else None)"

definition drop_prefix :: "nat \<Rightarrow> string \<Rightarrow> string" where
  "drop_prefix radix s =
     (if radix = 16 \<and> starts_with (casefold s) ''0x''
      then let r = drop 2 s in if starts_with r ''_'' then tl r else r
      else s)"

definition int_of_text :: "nat \<Rightarrow> string \<Rightarrow> int option" where
  "int_of_text radix s =
     (let t = strip s in
      if starts_with t ''-'' then map_option (\<lambda>n. - int n) (int_digits radix (drop_prefix radix (tl t)))
      else if starts_with t ''+'' then map_option int (int_digits radix (drop_prefix radix (tl t)))
      else map_option int (int_digits radix (drop_prefix radix t)))"

definition json_int :: "json \<Rightarrow> int option" where
  "json_int v = (case v of
     J_Int i \<Rightarrow> Some i | J_Bool b \<Rightarrow> Some (if b then 1 else 0) | J_Text s \<Rightarrow> int_of_text 10 s | _ \<Rightarrow> None)"

section \<open>Recorded actions\<close>

text \<open>A stored document: absent, text that is no document, or its value.\<close>

type_synonym stored = "json option option"

record recorded_action =
  ra_action_id :: int
  ra_run_id :: int
  ra_idempotency_key :: "string option"
  ra_action_type :: string
  ra_source_path :: string
  ra_target_path :: "string option"
  ra_recorded_status :: string

record action_row = recorded_action +
  ra_expected :: stored
  ra_receipt :: stored

record expected_identity =
  ei_volume :: int
  ei_file :: int
  ei_size :: int
  ei_mtime :: int
  ei_birthtime :: int
  ei_digest :: "string option"

definition FILE_ACTION_RECONCILER_SIGNATURE :: string where
  "FILE_ACTION_RECONCILER_SIGNATURE = ''file-action-reconciler-v1''"

record file_action_reconciliation =
  fr_action :: recorded_action
  fr_signature :: string
  fr_classification :: string
  fr_recommendation :: string
  fr_detail :: string

definition result :: "recorded_action \<Rightarrow> string \<Rightarrow> string \<Rightarrow> string \<Rightarrow> file_action_reconciliation" where
  "result action classification recommendation detail = \<lparr>fr_action = action, fr_signature = FILE_ACTION_RECONCILER_SIGNATURE,
     fr_classification = classification, fr_recommendation = recommendation, fr_detail = detail\<rparr>"

definition action_of :: "action_row \<Rightarrow> recorded_action" where
  "action_of row = recorded_action.truncate row"

section \<open>The expected identity\<close>

definition same_key :: "string \<Rightarrow> string option \<Rightarrow> string option \<Rightarrow> bool" where
  "same_key cwd p q \<longleftrightarrow> map_option (path_key cwd) p = map_option (path_key cwd) q"

text \<open>The fields read inside the guarded block; a missing key, a wrong type or a bad number is malformed.\<close>

definition read_digest :: "json \<Rightarrow> string option option" where
  "read_digest document = (case json_get document ''source_digest'' of
     None \<Rightarrow> Some None | Some J_Null \<Rightarrow> Some None | Some (J_Text d) \<Rightarrow> Some (Some d) | _ \<Rightarrow> None)"

definition read_int :: "json \<Rightarrow> string \<Rightarrow> int option" where
  "read_int v key = Option.bind (json_get v key) json_int"

definition read_hex :: "json \<Rightarrow> string \<Rightarrow> int option" where
  "read_hex v key = Option.bind (json_get v key) (\<lambda>x. int_of_text 16 (json_str x))"

definition read_identity :: "json \<Rightarrow> (int \<times> expected_identity \<times> json) option" where
  "read_identity document =
     Option.bind (json_get document ''source'') (\<lambda>source.
     Option.bind (read_int document ''schema_version'') (\<lambda>version.
     Option.bind (read_hex source ''volume_id'') (\<lambda>volume_id.
     Option.bind (read_hex source ''file_id'') (\<lambda>file_id.
     Option.bind (read_int source ''size'') (\<lambda>bytes.
     Option.bind (read_int source ''mtime_ns'') (\<lambda>mtime_ns.
     Option.bind (read_int source ''birthtime_ns'') (\<lambda>birthtime_ns.
     Option.bind (read_digest document) (\<lambda>digest.
     Some (version, \<lparr>ei_volume = volume_id, ei_file = file_id, ei_size = bytes, ei_mtime = mtime_ns,
       ei_birthtime = birthtime_ns, ei_digest = digest\<rparr>, source)))))))))"

definition json_path :: "json option \<Rightarrow> string option" where
  "json_path v = (case v of None \<Rightarrow> None | Some J_Null \<Rightarrow> None | Some j \<Rightarrow> Some (json_str j))"

definition parse_expected_identity :: "string \<Rightarrow> stored \<Rightarrow> string \<Rightarrow> string option \<Rightarrow> string + expected_identity" where
  "parse_expected_identity cwd raw source_path target_path = (case raw of
     None \<Rightarrow> Inl ''legacy action has no expected physical identity''
   | Some None \<Rightarrow> Inl ''expected physical identity evidence is malformed''
   | Some (Some document) \<Rightarrow> (case read_identity document of
       None \<Rightarrow> Inl ''expected physical identity evidence is malformed''
     | Some (version, e, source) \<Rightarrow>
         if version \<noteq> 1 \<or> ei_volume e < 0 \<or> ei_file e < 0 \<or> ei_size e < 0 \<or> ei_mtime e < 0 \<or> ei_birthtime e < -1
         then Inl ''expected physical identity evidence is unsupported''
         else if path_key cwd (case json_get source ''path'' of None \<Rightarrow> [] | Some p \<Rightarrow> json_str p) \<noteq> path_key cwd source_path
         then Inl ''expected identity source path conflicts with the action''
         else if \<not> same_key cwd (json_path (json_get document ''target_path'')) target_path
         then Inl ''expected identity target path conflicts with the action''
         else Inr e))"

section \<open>Observations\<close>

datatype path_state = State_Error string | State_Missing | State_Different string | State_Expected

definition os_state :: "act_error \<Rightarrow> path_state act" where
  "os_state e = (case e of
     Act_OSError n msg \<Rightarrow> aret (if n = 2 then State_Missing else State_Error (error_class e @ '': '' @ msg))
   | _ \<Rightarrow> araise e)"

definition bind_state :: "(byte list \<Rightarrow> byte list) \<Rightarrow> expected_identity \<Rightarrow> file_snapshot \<Rightarrow> path_state act" where
  "bind_state sha256 e current = (case ei_digest e of
     None \<Rightarrow> aret State_Expected
   | Some digest \<Rightarrow>
       atry (abind (binding_matches_snapshot sha256 current digest) (\<lambda>bound. aret (if bound then State_Expected
           else State_Different ''observed identity binding differs from the mutation evidence'')))
       (\<lambda>err. case err of
          Act_OSError _ _ \<Rightarrow> aret (State_Error (''binding observation failed: '' @ error_class err @ '': '' @ error_text err))
        | Act_FileChanged \<Rightarrow> aret (State_Error (''binding observation failed: '' @ error_class err @ '': '' @ error_text err))
        | _ \<Rightarrow> araise err))"

definition same_identity :: "file_snapshot \<Rightarrow> expected_identity \<Rightarrow> bool" where
  "same_identity current e \<longleftrightarrow> fs_volume current = ei_volume e \<and> fs_file current = ei_file e \<and> fs_size current = ei_size e
     \<and> fs_mtime current = ei_mtime e \<and> fs_birthtime current = ei_birthtime e"

definition observe_path :: "(byte list \<Rightarrow> byte list) \<Rightarrow> string \<Rightarrow> expected_identity \<Rightarrow> path_state act" where
  "observe_path sha256 path e =
     abind (lstat path) (\<lambda>a. case a of
       Not_Found \<Rightarrow> aret State_Missing
     | Stat_Error n msg \<Rightarrow> os_state (Act_OSError n msg)
     | Found kind st \<Rightarrow>
         if kind = Kind_Link \<or> kind \<noteq> Kind_Regular then aret (State_Error ''observed path is not a regular non-link file'')
         else if st_nlink st \<noteq> 1 then aret (State_Error ''observed path has additional hard links'')
         else abind (atry (abind (snapshot_path path) (\<lambda>s. aret (Inr s))) (\<lambda>err. abind (os_state err) (\<lambda>s. aret (Inl s)))) (\<lambda>r. case r of
           Inl s \<Rightarrow> aret s
         | Inr current \<Rightarrow>
             if \<not> same_identity current e
             then aret (State_Different (''observed identity='' @ hex_text (fs_volume current) @ '':'' @ hex_text (fs_file current)
               @ '';size='' @ int_text (fs_size current) @ '';mtime_ns='' @ int_text (fs_mtime current)))
             else bind_state sha256 e current))"

section \<open>Classification\<close>

definition REVIEW :: string where "REVIEW = ''preserve_evidence_and_review_manually''"
definition RETRY :: string where "RETRY = ''review_before_new_authorized_attempt''"
definition CONFIRM :: string where "CONFIRM = ''confirm_action_record''"

definition recovered_snapshot :: "string \<Rightarrow> expected_identity \<Rightarrow> file_snapshot" where
  "recovered_snapshot path e = \<lparr>fs_path = path, fs_volume = ei_volume e, fs_file = ei_file e, fs_size = ei_size e,
     fs_mtime = ei_mtime e, fs_birthtime = ei_birthtime e\<rparr>"

definition receipt_matches :: "string \<Rightarrow> json \<Rightarrow> string \<Rightarrow> recorded_action \<Rightarrow> bool" where
  "receipt_matches cwd receipt operation action \<longleftrightarrow> (case receipt of J_Object _ \<Rightarrow>
       json_get receipt ''schema_version'' \<in> {Some (J_Int 1), Some (J_Bool True)}
     \<and> json_get receipt ''operation'' = Some (J_Text operation)
     \<and> json_get receipt ''receipt_type'' = Some (J_Text ''successful_return_and_observation'')
     \<and> json_get receipt ''source_absent'' = Some (J_Bool True)
     \<and> path_key cwd (case json_get receipt ''source_path'' of None \<Rightarrow> [] | Some p \<Rightarrow> json_str p) = path_key cwd (ra_source_path action)
     \<and> same_key cwd (json_path (json_get receipt ''target_path'')) (ra_target_path action)
   | _ \<Rightarrow> False)"

definition is_trash_action :: "recorded_action \<Rightarrow> bool" where
  "is_trash_action action \<longleftrightarrow> starts_with (ra_action_type action) ''trash_''"

definition caught_by_receipt :: "act_error \<Rightarrow> bool" where
  "caught_by_receipt e \<longleftrightarrow> is_os_error e \<or> is_runtime_error e
     \<or> (case e of Act_TypeError _ \<Rightarrow> True | Act_ValueError _ \<Rightarrow> True | Act_FileChanged \<Rightarrow> True | _ \<Rightarrow> False)"

definition valid_success_receipt ::
    "(byte list \<Rightarrow> byte list) \<Rightarrow> stored \<Rightarrow> string \<Rightarrow> recorded_action \<Rightarrow> expected_identity \<Rightarrow> bool act" where
  "valid_success_receipt sha256 raw operation action e = (case raw of
     Some (Some receipt) \<Rightarrow>
       abind (ask (\<lambda>os t. os_cwd os)) (\<lambda>cwd.
       if \<not> receipt_matches cwd receipt operation action then aret False
       else if \<not> is_trash_action action then aret True
       else case json_get receipt ''source_digest'' of
         Some (J_Text digest) \<Rightarrow>
           if digest = [] \<or> (ei_digest e \<noteq> None \<and> ei_digest e \<noteq> Some digest) then aret False
           else atry (abind (verify_trash_receipt_evidence sha256
               (case json_get receipt ''trash'' of None \<Rightarrow> J_Null | Some v \<Rightarrow> v)
               (recovered_snapshot (ra_source_path action) e) digest None) (\<lambda>_. aret True))
             (\<lambda>err. if caught_by_receipt err then aret False else araise err)
       | _ \<Rightarrow> aret False)
   | _ \<Rightarrow> aret False)"

definition classify_trash :: "(byte list \<Rightarrow> byte list) \<Rightarrow> recorded_action \<Rightarrow> path_state \<Rightarrow> stored \<Rightarrow> expected_identity
    \<Rightarrow> file_action_reconciliation act" where
  "classify_trash sha256 action source_state raw e = (case source_state of
     State_Expected \<Rightarrow> aret (result action ''not_performed'' RETRY ''the expected source identity remains at the source path'')
   | State_Different d \<Rightarrow> aret (result action ''ambiguous'' REVIEW (''source path now names another object; '' @ d))
   | _ \<Rightarrow> abind (valid_success_receipt sha256 raw ''trash'' action e) (\<lambda>valid. aret (
       if valid then result action ''confirmed'' CONFIRM ''source is absent and a successful trash receipt was recorded''
       else result action ''ambiguous'' REVIEW
         ''source is absent but the Recycle Bin receipt is missing or does not match this action'')))"

definition state_name :: "path_state \<Rightarrow> string" where
  "state_name s = (case s of State_Error _ \<Rightarrow> ''error'' | State_Missing \<Rightarrow> ''missing'' | State_Different _ \<Rightarrow> ''different''
     | State_Expected \<Rightarrow> ''expected'')"

definition state_detail :: "string \<Rightarrow> path_state \<Rightarrow> string" where
  "state_detail label s = (case s of State_Error d \<Rightarrow> if d = [] then [] else ''; '' @ label @ ''_detail='' @ d
     | State_Different d \<Rightarrow> if d = [] then [] else ''; '' @ label @ ''_detail='' @ d | _ \<Rightarrow> [])"

definition classify_move :: "recorded_action \<Rightarrow> path_state \<Rightarrow> path_state \<Rightarrow> file_action_reconciliation" where
  "classify_move action source_state target_state =
     (if source_state = State_Missing \<and> target_state = State_Expected
      then result action ''confirmed'' CONFIRM ''source is absent and target retains the expected identity''
      else if source_state = State_Expected \<and> target_state = State_Missing
      then result action ''not_performed'' RETRY ''source retains the expected identity and target is absent''
      else result action ''ambiguous'' REVIEW (''source='' @ state_name source_state @ ''; target='' @ state_name target_state
        @ state_detail ''source'' source_state @ state_detail ''target'' target_state))"

definition classify_restore :: "recorded_action \<Rightarrow> path_state \<Rightarrow> file_action_reconciliation" where
  "classify_restore action source_state = (case source_state of
     State_Expected \<Rightarrow> result action ''confirmed'' CONFIRM ''restore destination has the expected identity and digest''
   | State_Missing \<Rightarrow> result action ''not_performed'' RETRY ''restore destination is absent and the effect remains unresolved''
   | State_Different d \<Rightarrow> result action ''ambiguous'' REVIEW (''restore destination names another object; '' @ d)
   | State_Error d \<Rightarrow> result action ''impossible_to_check'' REVIEW (if d = [] then ''restore destination cannot be checked'' else d))"

definition classify_observed :: "(byte list \<Rightarrow> byte list) \<Rightarrow> recorded_action \<Rightarrow> stored \<Rightarrow> expected_identity \<Rightarrow> path_state
    \<Rightarrow> file_action_reconciliation act" where
  "classify_observed sha256 action receipt e source_state = (case source_state of
     State_Error d \<Rightarrow> aret (result action ''impossible_to_check'' REVIEW (''source observation failed: '' @ d))
   | _ \<Rightarrow>
       if ra_action_type action = ''restore_curation'' then aret (classify_restore action source_state)
       else if is_trash_action action then classify_trash sha256 action source_state receipt e
       else case ra_target_path action of
         None \<Rightarrow> aret (result action ''impossible_to_check'' REVIEW ''non-trash action has no recorded target path'')
       | Some target \<Rightarrow>
           abind (observe_path sha256 target e) (\<lambda>target_state. case target_state of
             State_Error d \<Rightarrow> aret (result action ''impossible_to_check'' REVIEW (''target observation failed: '' @ d))
           | _ \<Rightarrow> aret (classify_move action source_state target_state)))"

definition classify_row :: "(byte list \<Rightarrow> byte list) \<Rightarrow> action_row \<Rightarrow> file_action_reconciliation act" where
  "classify_row sha256 row =
     (let action = action_of row in
      abind (ask (\<lambda>os t. parse_expected_identity (os_cwd os) (ra_expected row) (ra_source_path action) (ra_target_path action))) (\<lambda>parsed.
      case parsed of
        Inl text \<Rightarrow> aret (result action ''impossible_to_check'' REVIEW text)
      | Inr e \<Rightarrow>
          abind (observe_path sha256 (ra_source_path action) e) (\<lambda>source_state.
          classify_observed sha256 action (ra_receipt row) e source_state)))"

section \<open>The page of uncertain actions\<close>

datatype recovery_error = Recovery_ValueError string | Recovery_DatabaseError string | Recovery_Action act_error

definition RECOVERY_BATCH_LIMIT :: int where "RECOVERY_BATCH_LIMIT = 1000"
definition FRAMEWORK_SCHEMA_VERSION :: int where "FRAMEWORK_SCHEMA_VERSION = 25"

text \<open>
  What the read-only connection answers: the kind of the object named \<open>metadata\<close> if
  there is one, its values for \<open>schema_version\<close>, the columns of \<open>file_actions\<close> and its
  rows.
\<close>

record framework_state =
  fw_metadata :: "string option"
  fw_versions :: "string list"
  fw_columns :: "string list"
  fw_rows :: "action_row list"

definition reject_future_framework_schema :: "framework_state \<Rightarrow> recovery_error option" where
  "reject_future_framework_schema db = (case fw_metadata db of
     None \<Rightarrow> None
   | Some kind \<Rightarrow>
       if kind \<noteq> ''table'' then Some (Recovery_DatabaseError ''framework metadata is not a table'')
       else if length (take 2 (fw_versions db)) \<noteq> 1
       then Some (Recovery_DatabaseError ''framework metadata has no unique schema_version'')
       else let raw = hd (fw_versions db) in (case int_of_text 10 raw of
         None \<Rightarrow> Some (Recovery_DatabaseError ''framework schema_version is not an integer'')
       | Some version \<Rightarrow>
           if raw \<noteq> int_text version then Some (Recovery_DatabaseError ''framework schema_version is not canonical'')
           else if version > FRAMEWORK_SCHEMA_VERSION
           then Some (Recovery_DatabaseError (''framework schema '' @ int_text version @ '' is newer than supported schema ''
             @ int_text FRAMEWORK_SCHEMA_VERSION))
           else None))"

definition REQUIRED_COLUMNS :: "string list" where
  "REQUIRED_COLUMNS = [''action_id'', ''run_id'', ''action_type'', ''source_path'', ''target_path'', ''status'']"

text \<open>An optional column that the table does not have reads as NULL.\<close>

definition with_columns :: "string list \<Rightarrow> action_row \<Rightarrow> action_row" where
  "with_columns columns row = row\<lparr>
     ra_idempotency_key := (if ''idempotency_key'' \<in> set columns then ra_idempotency_key row else None),
     ra_expected := (if ''expected_identity_json'' \<in> set columns then ra_expected row else None),
     ra_receipt := (if ''effect_receipt_json'' \<in> set columns then ra_receipt row else None)\<rparr>"

definition recoverable :: "int option \<Rightarrow> action_row \<Rightarrow> bool" where
  "recoverable run_id row \<longleftrightarrow> ra_recorded_status row \<in> {''applying'', ''recovery_required''}
     \<and> (case run_id of None \<Rightarrow> True | Some r \<Rightarrow> ra_run_id row = r)"

definition select_page :: "int \<Rightarrow> int \<Rightarrow> int option \<Rightarrow> action_row list \<Rightarrow> action_row list" where
  "select_page row_limit after_action_id run_id rows =
     take (nat row_limit) (sort_key ra_action_id (filter (\<lambda>row. ra_action_id row > after_action_id \<and> recoverable run_id row) rows))"

fun classify_rows :: "(byte list \<Rightarrow> byte list) \<Rightarrow> action_row list \<Rightarrow> file_action_reconciliation list act" where
  "classify_rows sha256 [] = aret []"
| "classify_rows sha256 (row # rows) =
     abind (classify_row sha256 row) (\<lambda>r. abind (classify_rows sha256 rows) (\<lambda>rs. aret (r # rs)))"

definition list_file_action_reconciliations :: "(byte list \<Rightarrow> byte list) \<Rightarrow> framework_state \<Rightarrow> int \<Rightarrow> int \<Rightarrow> int option
    \<Rightarrow> os_answers \<Rightarrow> world \<Rightarrow> (recovery_error + file_action_reconciliation list) \<times> world" where
  "list_file_action_reconciliations sha256 db row_limit after_action_id run_id os w =
     (if row_limit < 1 \<or> row_limit > RECOVERY_BATCH_LIMIT
      then (Inl (Recovery_ValueError ''recovery limit must be between 1 and 1000''), w)
      else if after_action_id < 0 then (Inl (Recovery_ValueError ''after action identifier cannot be negative''), w)
      else if (case run_id of None \<Rightarrow> False | Some r \<Rightarrow> r < 1)
      then (Inl (Recovery_ValueError ''recovery run identifier must be positive''), w)
      else case reject_future_framework_schema db of
        Some e \<Rightarrow> (Inl e, w)
      | None \<Rightarrow>
          if \<not> list_all (\<lambda>c. c \<in> set (fw_columns db)) REQUIRED_COLUMNS
          then (Inl (Recovery_DatabaseError ''framework state has no compatible file_actions table''), w)
          else case classify_rows sha256 (map (with_columns (fw_columns db)) (select_page row_limit after_action_id run_id (fw_rows db))) os w of
            (Inl e, w') \<Rightarrow> (Inl (Recovery_Action e), w')
          | (Inr rs, w') \<Rightarrow> (Inr rs, w'))"

end
