(* ===== verification/Action_Rename_Safety.thy ===== *)
theory Action_Rename_Safety
  imports Action_Rename_Case Action_Quiet "HOL-Library.Multiset"
begin

text \<open>
  What the rename backend guarantees whatever the operating system answers: its
  outcome agrees with the effect it had, there is at most one system call and it
  follows the announcement, and every descriptor is closed. The block is verified
  with a small Hoare logic for computations that may raise.
\<close>

section \<open>Correctness of computations that may raise\<close>

definition hoare :: "(world \<Rightarrow> bool) \<Rightarrow> 'a act \<Rightarrow> ('a \<Rightarrow> world \<Rightarrow> bool) \<Rightarrow> (act_error \<Rightarrow> world \<Rightarrow> bool) \<Rightarrow> bool" where
  "hoare P m Q E \<longleftrightarrow> (\<forall>os w r w'. P w \<longrightarrow> m os w = (r, w') \<longrightarrow>
     (\<forall>x. r = Inr x \<longrightarrow> Q x w') \<and> (\<forall>e. r = Inl e \<longrightarrow> E e w'))"

text \<open>The computation may return this value.\<close>

definition gives :: "'a act \<Rightarrow> 'a \<Rightarrow> bool" where
  "gives m x \<longleftrightarrow> (\<exists>os v v'. m os v = (Inr x, v'))"

lemma hoare_aret: "(\<And>w. P w \<Longrightarrow> Q x w) \<Longrightarrow> hoare P (aret x) Q E"
  by (simp add: hoare_def aret_def)

lemma hoare_araise: "(\<And>w. P w \<Longrightarrow> E e w) \<Longrightarrow> hoare P (araise e) Q E"
  by (simp add: hoare_def araise_def)

lemma hoare_abind:
  assumes "hoare P m R E" and "\<And>x. gives m x \<Longrightarrow> hoare (R x) (f x) Q E"
  shows "hoare P (abind m f) Q E"
  unfolding hoare_def
proof (intro allI impI)
  fix os w r w' assume P: "P w" and run: "abind m f os w = (r, w')"
  obtain s v where m: "m os w = (s, v)" by force
  show "(\<forall>x. r = Inr x \<longrightarrow> Q x w') \<and> (\<forall>e. r = Inl e \<longrightarrow> E e w')"
  proof (cases s)
    case (Inl e)
    then show ?thesis using assms(1) P run m by (auto simp: abind_def hoare_def)
  next
    case (Inr x)
    then have "R x v" using assms(1) P m by (auto simp: hoare_def)
    moreover have "gives m x" using m Inr by (auto simp: gives_def)
    ultimately show ?thesis using assms(2) [of x] run m Inr by (auto simp: abind_def hoare_def)
  qed
qed

lemma hoare_atry:
  assumes "hoare P m Q R" and "\<And>e. hoare (R e) (h e) Q E"
  shows "hoare P (atry m h) Q E"
  unfolding hoare_def
proof (intro allI impI)
  fix os w r w' assume P: "P w" and run: "atry m h os w = (r, w')"
  obtain s v where m: "m os w = (s, v)" by force
  show "(\<forall>x. r = Inr x \<longrightarrow> Q x w') \<and> (\<forall>e. r = Inl e \<longrightarrow> E e w')"
  proof (cases s)
    case (Inr x)
    then show ?thesis using assms(1) P run m by (auto simp: atry_def hoare_def)
  next
    case (Inl e)
    then have "R e v" using assms(1) P m by (auto simp: hoare_def)
    then show ?thesis using assms(2) [of e] run m Inl by (auto simp: atry_def hoare_def)
  qed
qed

lemma hoare_quiet:
  assumes "quiet m" and "\<And>w t. P w \<Longrightarrow> P (w\<lparr>w_time := t\<rparr>)" and "\<And>x w. P w \<Longrightarrow> Q x w" and "\<And>e w. P w \<Longrightarrow> E e w"
  shows "hoare P m Q E"
  unfolding hoare_def using quietD [OF assms(1)] assms(2-4) by blast

lemma hoare_conseq:
  "hoare P' m Q' E' \<Longrightarrow> (\<And>w. P w \<Longrightarrow> P' w) \<Longrightarrow> (\<And>x w. Q' x w \<Longrightarrow> Q x w) \<Longrightarrow> (\<And>e w. E' e w \<Longrightarrow> E e w)
     \<Longrightarrow> hoare P m Q E"
  unfolding hoare_def by blast

section \<open>The frame of the backend\<close>

definition SLOT_ORDER :: "string list" where
  "SLOT_ORDER = [''root_fd'', ''source_parent_fd'', ''target_parent_fd'', ''source_fd'']"

text \<open>
  The descriptors the backend owns are those in its variables, besides the ones
  that were open before (\<open>M\<close>); \<open>X\<close> are the ones it holds in between.
\<close>

definition held :: "nat multiset \<Rightarrow> nat multiset \<Rightarrow> nat \<Rightarrow> world \<Rightarrow> bool" where
  "held M X k w \<longleftrightarrow> map fst (w_slots w) = take k SLOT_ORDER \<and> mset (w_open w) = M + mset (map snd (w_slots w)) + X"

definition owned :: "nat multiset \<Rightarrow> world \<Rightarrow> bool" where
  "owned M w \<longleftrightarrow> (\<exists>k\<le>4. held M {#} k w)"

lemma held_time [simp]: "held M X k (w\<lparr>w_time := t\<rparr>) = held M X k w"
  by (simp add: held_def)

lemma held_log [simp]: "held M X k (w\<lparr>w_log := l\<rparr>) = held M X k w"
  by (simp add: held_def)

lemma held_crossed [simp]: "held M X k (w\<lparr>w_crossed := c\<rparr>) = held M X k w"
  by (simp add: held_def)

lemma owned_simps [simp]:
  "owned M (w\<lparr>w_time := t\<rparr>) = owned M w" "owned M (w\<lparr>w_log := l\<rparr>) = owned M w" "owned M (w\<lparr>w_crossed := c\<rparr>) = owned M w"
  by (simp_all add: owned_def)

lemma held_owned: "held M {#} k w \<Longrightarrow> k \<le> 4 \<Longrightarrow> owned M w"
  by (auto simp: owned_def)

lemma held_set_slot:
  assumes "held M (add_mset fd X) k w" and "k < 4"
  shows "held M X (Suc k) (w\<lparr>w_slots := dict_set (w_slots w) (SLOT_ORDER ! k) fd\<rparr>)"
proof -
  have new: "SLOT_ORDER ! k \<notin> set (dict_keys (w_slots w))"
  proof -
    have "distinct SLOT_ORDER" "length SLOT_ORDER = 4" by (simp_all add: SLOT_ORDER_def)
    then show ?thesis
      using assms by (auto simp: held_def dict_keys_def in_set_conv_nth nth_eq_iff_index_eq)
  qed
  have append: "dict_set d a v = d @ [(a, v)]" if "a \<notin> set (dict_keys d)" for d :: "(string, nat) dict" and a v
    using that by (induction d a v rule: dict_set.induct) auto
  have "length SLOT_ORDER = 4" by (simp add: SLOT_ORDER_def)
  then show ?thesis
    using assms by (auto simp: held_def append [OF new] take_Suc_conv_app_nth)
qed

lemma close_slots_owned:
  assumes "owned M w"
  shows "mset (w_open (close_slots FD_VARIABLES w)) = M"
proof -
  from assms obtain k where k: "k \<le> 4" "map fst (w_slots w) = take k SLOT_ORDER"
    and op: "mset (w_open w) = M + mset (map snd (w_slots w))"
    by (auto simp: owned_def held_def)
  then consider "w_slots w = []" | a where "w_slots w = [(''root_fd'', a)]"
    | a b where "w_slots w = [(''root_fd'', a), (''source_parent_fd'', b)]"
    | a b c where "w_slots w = [(''root_fd'', a), (''source_parent_fd'', b), (''target_parent_fd'', c)]"
    | a b c d where "w_slots w = [(''root_fd'', a), (''source_parent_fd'', b), (''target_parent_fd'', c), (''source_fd'', d)]"
    by (auto simp: SLOT_ORDER_def le_Suc_eq numeral_eq_Suc map_eq_Cons_conv)
  then show ?thesis
    using op by cases (simp_all add: FD_VARIABLES_def)
qed

lemma close_slots_other [simp]:
  "w_log (close_slots names w) = w_log w" "w_crossed (close_slots names w) = w_crossed w"
  by (induction names w rule: close_slots.induct) (auto split: option.splits)

section \<open>The log of the backend\<close>

definition announced :: "act_error option option \<Rightarrow> effect list" where
  "announced before = (if before = None then [] else [Before_Syscall])"

definition untouched :: "act_error option option \<Rightarrow> string \<times> string \<Rightarrow> effect list \<Rightarrow> world \<Rightarrow> bool" where
  "untouched before nm L w \<longleftrightarrow> w_log w = L \<or> w_log w = L @ announced before
     \<or> w_log w = L @ announced before @ [Rename_Noreplace (fst nm) (snd nm) False]"

definition renamed :: "act_error option option \<Rightarrow> string \<times> string \<Rightarrow> effect list \<Rightarrow> world \<Rightarrow> bool" where
  "renamed before nm L w \<longleftrightarrow> w_log w = L @ announced before @ [Rename_Noreplace (fst nm) (snd nm) True]"

lemma log_simps [simp]:
  "untouched b nm L (w\<lparr>w_time := t\<rparr>) = untouched b nm L w" "renamed b nm L (w\<lparr>w_time := t\<rparr>) = renamed b nm L w"
  "untouched b nm L (w\<lparr>w_crossed := c\<rparr>) = untouched b nm L w" "renamed b nm L (w\<lparr>w_crossed := c\<rparr>) = renamed b nm L w"
  "untouched b nm L (close_slots names w) = untouched b nm L w" "renamed b nm L (close_slots names w) = renamed b nm L w"
  by (simp_all add: untouched_def renamed_def)

text \<open>When the block raises: the effect can only have happened once \<open>effect_crossed\<close> is set.\<close>

definition failing :: "act_error option option \<Rightarrow> string \<times> string \<Rightarrow> effect list \<Rightarrow> nat multiset \<Rightarrow> act_error \<Rightarrow> world \<Rightarrow> bool" where
  "failing before nm L M e w \<longleftrightarrow> owned M w \<and> (untouched before nm L w \<or> w_crossed w \<and> renamed before nm L w)"

section \<open>Descriptors\<close>

definition base :: "effect list \<Rightarrow> nat multiset \<Rightarrow> nat multiset \<Rightarrow> nat \<Rightarrow> world \<Rightarrow> bool" where
  "base L M X k w \<longleftrightarrow> w_log w = L \<and> held M X k w"

lemma base_time: "base L M X k w \<Longrightarrow> base L M X k (w\<lparr>w_time := t\<rparr>)"
  by (simp add: base_def)

lemma base_failing: "base L M {#} k w \<Longrightarrow> k \<le> 4 \<Longrightarrow> failing before nm L M e w"
  by (auto simp: base_def failing_def untouched_def intro: held_owned)

lemma hoare_open_fd: "hoare (base L M X k) open_fd (\<lambda>fd. base L M (add_mset fd X) k) (\<lambda>e. base L M X k)"
  by (auto simp: hoare_def open_fd_def abind_def ask_def tick_def base_def held_def araise_def
      split: if_splits option.splits prod.splits)

lemma hoare_close_fd: "hoare (base L M (add_mset fd X) k) (close_fd fd) (\<lambda>_. base L M X k) E"
  by (auto simp: hoare_def close_fd_def base_def held_def)

lemma hoare_close_other: "hoare (base L M (add_mset other (add_mset fd X)) k) (close_fd fd) (\<lambda>_. base L M (add_mset other X) k) E"
  unfolding add_mset_commute [of other] by (rule hoare_close_fd)

lemma hoare_open_parents:
  "hoare (base L M (add_mset current X) k) (open_parents current parts)
     (\<lambda>fd. base L M (add_mset fd X) k) (\<lambda>e. base L M X k)"
proof (induction parts arbitrary: current)
  case Nil
  then show ?case by (auto intro: hoare_aret)
next
  case (Cons part parts)
  have attempt: "hoare (base L M (add_mset current X) k) (atry open_fd (\<lambda>e. abind (close_fd current) (\<lambda>_. araise e)))
      (\<lambda>child. base L M (add_mset child (add_mset current X)) k) (\<lambda>e. base L M X k)"
    by (rule hoare_atry [OF hoare_open_fd], rule hoare_abind [OF hoare_close_fd], rule hoare_araise)
  show ?case
    unfolding open_parents.simps
    by (rule hoare_abind [OF attempt], rule hoare_abind [OF hoare_close_other Cons.IH])
qed

lemma hoare_open_parent_dirfd:
  "hoare (base L M X k) (open_parent_dirfd root_fd parts) (\<lambda>(fd, name). base L M (add_mset fd X) k) (\<lambda>e. base L M X k)"
  unfolding open_parent_dirfd_def
  by (auto intro!: hoare_araise hoare_abind [OF hoare_open_fd] hoare_abind [OF hoare_open_parents] hoare_aret)

lemma hoare_set_slot:
  "k < 4 \<Longrightarrow> hoare (base L M (add_mset fd X) k) (set_slot (SLOT_ORDER ! k) fd) (\<lambda>_. base L M X (Suc k)) E"
  using held_set_slot by (fastforce simp: hoare_def set_slot_def base_def held_def)


section \<open>The guarded block\<close>

text \<open>
  What the block leaves: without an outcome the rename happened; with one it did
  not, and the outcome does not claim it.
\<close>

definition early_ok :: "act_error option option \<Rightarrow> string \<times> string \<Rightarrow> effect list \<Rightarrow> nat multiset \<Rightarrow> backend_outcome option \<Rightarrow> world \<Rightarrow> bool" where
  "early_ok before nm L M early w \<longleftrightarrow> owned M w \<and> (case early of
     None \<Rightarrow> renamed before nm L w | Some b \<Rightarrow> untouched before nm L w \<and> bo_status b \<noteq> Applied)"

lemma hoare_observe:
  assumes "quiet m" and "k \<le> 4" and "\<And>x. gives m x \<Longrightarrow> hoare (base L M {#} k) (f x) Q (failing before nm L M)"
  shows "hoare (base L M {#} k) (abind m f) Q (failing before nm L M)"
  by (rule hoare_abind [OF hoare_quiet assms(3)])
    (auto simp: assms(1) intro: base_time base_failing [OF _ assms(2)])

lemma hoare_open:
  assumes "k < 4" and "\<And>fd. hoare (base L M {#} (Suc k)) (f fd) Q (failing before nm L M)"
  shows "hoare (base L M {#} k) (abind open_fd (\<lambda>fd. abind (set_slot (SLOT_ORDER ! k) fd) (\<lambda>_. f fd))) Q (failing before nm L M)"
  by (rule hoare_abind [OF hoare_conseq [OF hoare_open_fd] hoare_abind [OF hoare_set_slot assms(2)]])
    (use assms(1) in \<open>auto intro: base_failing\<close>)

lemma hoare_open_parent:
  assumes "k < 4" and "\<And>fd name. gives (open_parent_dirfd root_fd parts) (fd, name) \<Longrightarrow> hoare (base L M {#} (Suc k)) (f fd name) Q (failing before nm L M)"
  shows "hoare (base L M {#} k)
    (abind (open_parent_dirfd root_fd parts) (\<lambda>(fd, name). abind (set_slot (SLOT_ORDER ! k) fd) (\<lambda>_. f fd name)))
    Q (failing before nm L M)"
proof (rule hoare_abind)
  show "hoare (base L M {#} k) (open_parent_dirfd root_fd parts)
      (\<lambda>(fd, name). base L M (add_mset fd {#}) k) (failing before nm L M)"
    by (rule hoare_conseq [OF hoare_open_parent_dirfd]) (use assms(1) in \<open>auto intro: base_failing\<close>)
  show "hoare (case x of (fd, name) \<Rightarrow> base L M (add_mset fd {#}) k)
      (case x of (fd, name) \<Rightarrow> abind (set_slot (SLOT_ORDER ! k) fd) (\<lambda>_. f fd name)) Q (failing before nm L M)"
    if "gives (open_parent_dirfd root_fd parts) x" for x
    using that by (cases x) (simp add: hoare_abind [OF hoare_set_slot [OF assms(1)] assms(2)])
qed

lemma outcome_status: "outcome s r d j os w = (Inr b, w') \<Longrightarrow> bo_status b = s \<and> w' = w"
  by (auto simp: outcome_def Let_def araise_def aret_def split: option.splits)

lemma outcome_raises: "outcome s r d j os w = (Inl e, w') \<Longrightarrow> w' = w"
  by (auto simp: outcome_def Let_def araise_def aret_def split: option.splits)

lemma hoare_outcome:
  "hoare P (outcome s r d j) (\<lambda>b w. P w \<and> bo_status b = s) (\<lambda>e. P)"
  unfolding hoare_def using outcome_status outcome_raises by metis

lemma hoare_early:
  assumes "k \<le> 4" and "s \<noteq> Applied"
  shows "hoare (base L M {#} k) (abind (outcome s r d j) (\<lambda>b. aret (Some b))) (early_ok before nm L M) (failing before nm L M)"
  by (rule hoare_abind [OF hoare_conseq [OF hoare_outcome]], assumption, assumption, rule base_failing, assumption,
      rule assms(1), rule hoare_aret)
    (use assms in \<open>auto simp: early_ok_def base_def untouched_def intro: held_owned\<close>)

subsection \<open>The system call\<close>

definition ready :: "act_error option option \<Rightarrow> effect list \<Rightarrow> nat multiset \<Rightarrow> world \<Rightarrow> bool" where
  "ready before L M w \<longleftrightarrow> owned M w \<and> w_log w = L @ announced before"

lemma hoare_run_before:
  "hoare (base L M {#} 4) (run_before before) (\<lambda>_. ready before L M) (failing before nm L M)"
  by (cases before; auto simp: hoare_def run_before_def abind_def aret_def araise_def log_effect_def base_def ready_def
      failing_def untouched_def announced_def intro: held_owned split: option.splits)

lemma hoare_set_crossed:
  "hoare (ready before L M) (set_crossed c) (\<lambda>_ w. ready before L M w \<and> w_crossed w = c) E"
  by (simp add: hoare_def set_crossed_def ready_def)

definition done_rename :: "act_error option option \<Rightarrow> string \<times> string \<Rightarrow> effect list \<Rightarrow> nat multiset \<Rightarrow> world \<Rightarrow> bool" where
  "done_rename before nm L M w \<longleftrightarrow> owned M w \<and> w_crossed w \<and> renamed before nm L w"

lemma hoare_syscall:
  "hoare (\<lambda>w. ready before L M w \<and> w_crossed w) (abind (renameat2_noreplace (fst nm) (snd nm)) (\<lambda>_. aret None))
     (\<lambda>early w. early = None \<and> done_rename before nm L M w) (\<lambda>e w. owned M w \<and> untouched before nm L w)"
  by (auto simp: hoare_def renameat2_noreplace_def abind_def ask_def aret_def araise_def log_effect_def ready_def tick_def
      done_rename_def renamed_def untouched_def split: if_splits option.splits prod.splits)

lemma hoare_syscall_failure:
  "hoare (\<lambda>w. owned M w \<and> untouched before nm L w) (syscall_failure before e)
     (\<lambda>early w. \<exists>b. early = Some b \<and> early_ok before nm L M early w) (failing before nm L M)"
proof (cases "\<exists>n msg. e = Act_OSError n msg")
  case True
  then obtain n msg where e: "e = Act_OSError n msg" by blast
  let ?P = "\<lambda>w. owned M w \<and> untouched before nm L w"
  have status: "failed_status before \<noteq> Applied" by (simp add: failed_status_def)
  have "hoare ?P (set_crossed False) (\<lambda>_. ?P) (failing before nm L M)"
    by (auto simp: hoare_def set_crossed_def)
  moreover have "hoare ?P (abind (outcome (failed_status before) r d None) (\<lambda>b. aret (Some b)))
      (\<lambda>early w. \<exists>b. early = Some b \<and> early_ok before nm L M early w) (failing before nm L M)" for r d
    by (rule hoare_abind [OF hoare_conseq [OF hoare_outcome [of ?P]]], assumption, assumption)
      (use status in \<open>auto simp: failing_def early_ok_def intro!: hoare_aret\<close>)
  moreover have "syscall_failure before e
      = abind (set_crossed False) (\<lambda>_. abind (outcome (failed_status before)
          (if n = 17 then ''destination_exists'' else if n = 18 then ''exdev_same_filesystem_required''
           else if n \<in> {38, 22, 95} then ''renameat2_unavailable'' else ''rename_syscall_failed'')
          (if n \<in> {17, 18, 38, 22, 95} then None else Some msg) None) (\<lambda>b. aret (Some b)))"
    unfolding syscall_failure_def e by simp
  ultimately show ?thesis by (simp only: hoare_abind)
next
  case False
  then have "syscall_failure before e = araise e" by (auto simp: syscall_failure_def split: act_error.splits)
  then show ?thesis by (auto simp: failing_def intro!: hoare_araise)
qed

lemma hoare_fsync: "hoare (done_rename before nm L M) fsync_fd (\<lambda>_. done_rename before nm L M) (failing before nm L M)"
  by (rule hoare_quiet [OF quiet_fsync_fd]) (auto simp: done_rename_def failing_def)

lemma hoare_effect:
  "hoare (\<lambda>w. ready before L M w \<and> w_crossed w)
     (abind (atry (abind (renameat2_noreplace (fst nm) (snd nm)) (\<lambda>_. aret None)) (syscall_failure before)) (\<lambda>early. case early of
        Some b \<Rightarrow> aret (Some b) | None \<Rightarrow> abind fsync_fd (\<lambda>_. abind fsync_fd (\<lambda>_. aret None))))
     (early_ok before nm L M) (failing before nm L M)"
  (is "hoare ?P (abind ?m ?f) _ _")
proof (rule hoare_abind)
  let ?R = "\<lambda>early w. case early of None \<Rightarrow> done_rename before nm L M w | Some b \<Rightarrow> early_ok before nm L M (Some b) w"
  show "hoare ?P ?m ?R (failing before nm L M)"
    by (rule hoare_atry [OF hoare_conseq [OF hoare_syscall] hoare_conseq [OF hoare_syscall_failure]]) auto
  have "hoare (done_rename before nm L M) (abind fsync_fd (\<lambda>_. abind fsync_fd (\<lambda>_. aret None)))
      (early_ok before nm L M) (failing before nm L M)"
    by (rule hoare_abind [OF hoare_fsync], rule hoare_abind [OF hoare_fsync], rule hoare_aret)
      (auto simp: done_rename_def early_ok_def)
  then show "hoare (?R early) (?f early) (early_ok before nm L M) (failing before nm L M)" for early
    by (cases early) (auto intro!: hoare_aret)
qed

lemma hoare_final:
  "hoare (base L M {#} 4)
     (abind (look_at_source source) (\<lambda>_. abind (run_before before) (\<lambda>_. abind (set_crossed True) (\<lambda>_.
        abind (atry (abind (renameat2_noreplace (fst nm) (snd nm)) (\<lambda>_. aret None)) (syscall_failure before)) (\<lambda>early. case early of
          Some b \<Rightarrow> aret (Some b) | None \<Rightarrow> abind fsync_fd (\<lambda>_. abind fsync_fd (\<lambda>_. aret None)))))))
     (early_ok before nm L M) (failing before nm L M)"
  by (rule hoare_observe [OF quiet_look_at_source], simp, rule hoare_abind [OF hoare_run_before],
      rule hoare_abind [OF hoare_set_crossed], rule hoare_conseq [OF hoare_effect]) auto

lemma gives_relative_parts: "gives (relative_parts path root_dir) parts \<Longrightarrow> \<exists>n. parts = drop n (path_parts path)"
  by (auto simp: gives_def relative_parts_def act_simps split: if_splits)

lemma gives_open_parent_dirfd: "gives (open_parent_dirfd fd parts) (d, name) \<Longrightarrow> parts \<noteq> [] \<and> name = last parts"
  by (auto simp: gives_def open_parent_dirfd_def act_simps split: if_splits)

lemma gives_names:
  assumes "gives (relative_parts path root_dir) parts" and "gives (open_parent_dirfd fd parts) (d, name)"
  shows "last (path_parts path) = name"
  using gives_relative_parts [OF assms(1)] gives_open_parent_dirfd [OF assms(2)] by (metis last_drop drop_eq_Nil not_le)

lemma hoare_rename_block:
  defines "nm \<equiv> \<lambda>source target. (last (path_parts (fs_path source)), last (path_parts target))"
  shows "hoare (base L M {#} 0) (rename_block sha before root_dir effect source target)
    (early_ok before (nm source target) L M) (failing before (nm source target) L M)"
proof -
  have slots: "''root_fd'' = SLOT_ORDER ! 0" "''source_parent_fd'' = SLOT_ORDER ! Suc 0"
    "''target_parent_fd'' = SLOT_ORDER ! Suc (Suc 0)" "''source_fd'' = SLOT_ORDER ! Suc (Suc (Suc 0))"
    by (simp_all add: SLOT_ORDER_def)
  have last: "hoare (base L M {#} (Suc (Suc (Suc (Suc 0)))))
     (abind (look_at_source source) (\<lambda>_. abind (run_before before) (\<lambda>_. abind (set_crossed True) (\<lambda>_.
        abind (atry (abind (renameat2_noreplace s t) (\<lambda>_. aret None)) (syscall_failure before)) (\<lambda>early. case early of
          Some b \<Rightarrow> aret (Some b) | None \<Rightarrow> abind fsync_fd (\<lambda>_. abind fsync_fd (\<lambda>_. aret None)))))))
     (early_ok before (nm source target) L M) (failing before (nm source target) L M)"
    if "gives (relative_parts (fs_path source) root_dir) sp" "gives (open_parent_dirfd fd sp) (d, s)"
      "gives (relative_parts target root_dir) tp" "gives (open_parent_dirfd fd tp) (d', t)" for s t sp tp fd d d'
  proof -
    have "nm source target = (s, t)"
      using gives_names [OF that(1,2)] gives_names [OF that(3,4)] by (simp add: nm_def)
    then show ?thesis
      using hoare_final [of L M source before "(s, t)"] by (simp add: numeral_eq_Suc)
  qed
  show ?thesis
    unfolding rename_block_def slots
    by (rule hoare_observe, intro quiet_intros, simp, rule hoare_observe, intro quiet_intros, simp)
     (auto intro!: hoare_early hoare_observe [where m = "validate_effect_physical _ _ _"] hoare_observe [where m = "stat_device _"]
       hoare_observe [where m = "relative_parts _ _"] hoare_open hoare_open_parent simp: quiet_intros elim!: last)
qed


section \<open>The handlers\<close>

definition detail_too_long :: act_error where
  "detail_too_long = Act_ValueError ''backend outcome detail is too long''"

definition plain_reason :: "string \<Rightarrow> bool" where
  "plain_reason r \<longleftrightarrow> r \<noteq> [] \<and> strip r = r \<and> utf8_length r \<le> 512"

lemma plain_reasons:
  "plain_reason ''rename_effect_ambiguous''" "plain_reason ''rename_preflight_failed''" "plain_reason ''destination_exists''"
  "plain_reason ''exdev_same_filesystem_required''" "plain_reason ''rename_interrupted_before_effect''"
  "plain_reason ''rename_effect_unverified''" "plain_reason ''rename_action_requires_target''"
  by code_simp+

lemma hoare_plain_outcome:
  assumes "plain_reason r" and "s \<noteq> Applied"
  shows "hoare P (outcome s r d None) (\<lambda>b w. P w \<and> bo_status b = s) (\<lambda>e w. P w \<and> e = detail_too_long)"
  using assms by (auto simp: hoare_def outcome_def outcome_error_def plain_reason_def detail_too_long_def Let_def aret_def araise_def
      split: option.splits if_splits)

lemma plain_outcome:
  assumes "plain_reason reason" and "s \<noteq> Applied" and "outcome s reason d None os w = (r, w')"
  shows "w' = w \<and> (case r of Inl e \<Rightarrow> e = detail_too_long | Inr b \<Rightarrow> bo_status b = s)"
proof -
  have "(\<forall>b. r = Inr b \<longrightarrow> w' = w \<and> bo_status b = s) \<and> (\<forall>e. r = Inl e \<longrightarrow> w' = w \<and> e = detail_too_long)"
    using hoare_plain_outcome [OF assms(1,2), where P = "\<lambda>v. v = w" and d = d, unfolded hoare_def] assms(3) by blast
  then show ?thesis by (cases r) auto
qed

text \<open>After the handlers: a blocked outcome means that nothing was renamed.\<close>

definition settled :: "act_error option option \<Rightarrow> string \<times> string \<Rightarrow> effect list \<Rightarrow> nat multiset \<Rightarrow> world \<Rightarrow> bool" where
  "settled before nm L M w \<longleftrightarrow> owned M w \<and> (untouched before nm L w \<or> renamed before nm L w)"

definition answered :: "act_error option option \<Rightarrow> string \<times> string \<Rightarrow> effect list \<Rightarrow> nat multiset \<Rightarrow> backend_outcome option \<Rightarrow> world \<Rightarrow> bool" where
  "answered before nm L M early w \<longleftrightarrow> settled before nm L M w \<and> (case early of
     None \<Rightarrow> renamed before nm L w
   | Some b \<Rightarrow> bo_status b \<noteq> Applied \<and> (bo_status b = Blocked \<longrightarrow> untouched before nm L w))"

lemma rename_handler_shape:
  "\<exists>r d. plain_reason r \<and> rename_handler e os w =
     abind (outcome (if w_crossed w then Recovery_Required else Blocked) r d None) (\<lambda>b. aret (Some b)) os w"
proof (cases "is_mutation_error e")
  case True
  then show ?thesis using plain_reasons(1,2) by (cases "w_crossed w") (auto simp: rename_handler_def)
next
  case False
  show ?thesis
  proof (cases "\<exists>n msg. e = Act_OSError n msg")
    case True
    then obtain n msg where "e = Act_OSError n msg" by blast
    then show ?thesis
      using False plain_reasons(1-4) by (cases "w_crossed w"; cases "n = 17"; cases "n = 18") (auto simp: rename_handler_def)
  next
    case other: False
    then have "rename_handler e os w = abind (if w_crossed w
          then outcome Recovery_Required ''rename_effect_ambiguous'' (Some (error_class e)) None
          else outcome Blocked ''rename_interrupted_before_effect'' (Some (error_class e)) None) (\<lambda>b. aret (Some b)) os w"
      using False by (cases e) (auto simp: rename_handler_def)
    then show ?thesis using plain_reasons(1,5) by (cases "w_crossed w") auto
  qed
qed

lemma hoare_rename_handler:
  "hoare (failing before nm L M e) (rename_handler e) (answered before nm L M)
     (\<lambda>e w. settled before nm L M w \<and> e = detail_too_long)"
  unfolding hoare_def
proof (intro allI impI)
  fix os w r w' assume failing: "failing before nm L M e w" and run: "rename_handler e os w = (r, w')"
  let ?s = "if w_crossed w then Recovery_Required else Blocked"
  obtain reason d where plain: "plain_reason reason"
    and eq: "rename_handler e os w = abind (outcome ?s reason d None) (\<lambda>b. aret (Some b)) os w"
    using rename_handler_shape by blast
  have "hoare (\<lambda>v. v = w) (abind (outcome ?s reason d None) (\<lambda>b. aret (Some b)))
      (\<lambda>early v. v = w \<and> (\<exists>b. early = Some b \<and> bo_status b = ?s)) (\<lambda>e v. v = w \<and> e = detail_too_long)"
    by (rule hoare_abind [OF hoare_plain_outcome [OF plain]]) (auto intro: hoare_aret)
  then have "(\<forall>early. r = Inr early \<longrightarrow> w' = w \<and> (\<exists>b. early = Some b \<and> bo_status b = ?s))"
    "(\<forall>e. r = Inl e \<longrightarrow> w' = w \<and> e = detail_too_long)"
    using run eq unfolding hoare_def by fastforce+
  then show "(\<forall>x. r = Inr x \<longrightarrow> answered before nm L M x w') \<and> (\<forall>e. r = Inl e \<longrightarrow> settled before nm L M w' \<and> e = detail_too_long)"
    using failing by (auto simp: failing_def answered_def settled_def)
qed

section \<open>The outcome agrees with the effect\<close>

text \<open>With every descriptor closed, the log is as an outcome of this status says.\<close>

definition agrees :: "act_error option option \<Rightarrow> string \<times> string \<Rightarrow> world \<Rightarrow> act_error + backend_outcome \<Rightarrow> world \<Rightarrow> bool" where
  "agrees before nm w r w' \<longleftrightarrow>
     mset (w_open w') = mset (w_open w)
     \<and> (untouched before nm (w_log w) w' \<or> renamed before nm (w_log w) w')
     \<and> (case r of Inl e \<Rightarrow> e = detail_too_long
        | Inr b \<Rightarrow> (bo_status b = Applied \<longrightarrow> renamed before nm (w_log w) w')
            \<and> (bo_status b = Blocked \<longrightarrow> untouched before nm (w_log w) w'))"

lemma agrees_outcome:
  assumes "plain_reason reason" and "outcome Blocked reason None None os w = (r, w')"
  shows "agrees before nm w r w'"
  using plain_outcome [OF assms(1) _ assms(2)] by (auto simp: agrees_def untouched_def split: sum.splits)

lemma verify_rename_status:
  assumes "verify_rename sha action source digest target os w = (r, w')"
  shows "(\<forall>e. r = Inl e \<longrightarrow> e = detail_too_long) \<and> (\<forall>b. r = Inr b \<longrightarrow> bo_status b \<noteq> Blocked)"
proof -
  have raised: "bo_status b = Recovery_Required"
    if "outcome Recovery_Required ''rename_effect_unverified'' d None os v = (Inr b, w')" for d b v
    using outcome_status [OF that] by simp
  have escaped: "e = detail_too_long"
    if "outcome Recovery_Required ''rename_effect_unverified'' d None os v = (Inl e, w')" for d e v
    using plain_outcome [OF plain_reasons(6) _ that] by simp
  show ?thesis
    using assms raised escaped unfolding verify_rename_def atry_def
    by (auto simp: act_simps split: prod.splits sum.splits dest!: outcome_status)
qed

lemma rename_block_settled:
  assumes run: "closing (atry (rename_block sha before root_dir effect source target) rename_handler) os
      (w\<lparr>w_slots := [], w_crossed := False\<rparr>) = (r, v)"
  defines "nm \<equiv> (last (path_parts (fs_path source)), last (path_parts target))"
  shows "mset (w_open v) = mset (w_open w) \<and> (untouched before nm (w_log w) v \<or> renamed before nm (w_log w) v)
    \<and> (case r of Inl e \<Rightarrow> e = detail_too_long | Inr None \<Rightarrow> renamed before nm (w_log w) v
       | Inr (Some b) \<Rightarrow> bo_status b \<noteq> Applied \<and> (bo_status b = Blocked \<longrightarrow> untouched before nm (w_log w) v))"
proof -
  let ?w = "w\<lparr>w_slots := [], w_crossed := False\<rparr>" and ?L = "w_log w" and ?M = "mset (w_open w)"
  obtain v' where inner: "atry (rename_block sha before root_dir effect source target) rename_handler os ?w = (r, v')"
    and v: "v = close_slots FD_VARIABLES v'"
    using run by (auto simp: closing_def split: prod.splits)
  have "hoare (base ?L ?M {#} 0) (atry (rename_block sha before root_dir effect source target) rename_handler)
      (answered before nm ?L ?M) (\<lambda>e w. settled before nm ?L ?M w \<and> e = detail_too_long)"
    unfolding nm_def
    by (rule hoare_atry [OF hoare_conseq [OF hoare_rename_block] hoare_rename_handler])
      (auto simp: early_ok_def answered_def settled_def split: option.splits)
  moreover have "base ?L ?M {#} 0 ?w" by (simp add: base_def held_def)
  ultimately have "(\<forall>x. r = Inr x \<longrightarrow> answered before nm ?L ?M x v') \<and> (\<forall>e. r = Inl e \<longrightarrow> settled before nm ?L ?M v' \<and> e = detail_too_long)"
    using inner by (simp add: hoare_def)
  then show ?thesis
    using v close_slots_owned [of ?M v'] by (auto simp: answered_def settled_def split: sum.splits option.splits)
qed


lemma rename_apply_run:
  assumes "me_action effect \<in> {''move'', ''rename''}" and "me_target effect = Some target" and "me_source effect = Some source"
    and "me_source_digest effect = Some digest"
  shows "rename_apply sha before root_dir effect os w =
    (case closing (atry (rename_block sha before root_dir effect source target) rename_handler) os
        (w\<lparr>w_slots := [], w_crossed := False\<rparr>) of
       (Inl e, v) \<Rightarrow> (Inl e, v)
     | (Inr (Some b), v) \<Rightarrow> (Inr b, v)
     | (Inr None, v) \<Rightarrow> verify_rename sha (me_action effect) source digest target os v)"
  using assms by (auto simp: rename_apply_def abind_def aret_def split: prod.splits sum.splits option.splits)

lemma rename_apply_refused:
  assumes "\<not> (me_action effect \<in> {''move'', ''rename''} \<and> me_target effect \<noteq> None \<and> me_source effect \<noteq> None
    \<and> me_source_digest effect \<noteq> None)"
  shows "rename_apply sha before root_dir effect os w = outcome Blocked ''rename_action_requires_target'' None None os w"
  using assms by (auto simp: rename_apply_def split: option.splits)

definition effect_names :: "mutation_effect \<Rightarrow> string \<times> string" where
  "effect_names effect = (case (me_source effect, me_target effect) of
     (Some source, Some target) \<Rightarrow> (last (path_parts (fs_path source)), last (path_parts target)) | _ \<Rightarrow> ([], []))"

text \<open>
  C21. Whatever the operating system answers, with other processes and interrupts
  between any two calls, \<open>PosixRenameBackend.apply\<close> closes every descriptor it
  opened, makes at most one \<open>renameat2\<close>, of the source's name to the target's, and
  only after the callback; an applied outcome means that the call succeeded, a
  blocked one that it did not, and the only exception that leaves the method is the
  \<open>ValueError\<close> of an outcome whose detail is longer than 4096 bytes.
\<close>

theorem rename_outcome_sound:
  assumes "rename_apply sha256 before root_dir effect os w = (r, w')"
  shows "agrees before (effect_names effect) w r w'"
proof (cases "me_action effect \<in> {''move'', ''rename''} \<and> me_target effect \<noteq> None \<and> me_source effect \<noteq> None
    \<and> me_source_digest effect \<noteq> None")
  case False
  then show ?thesis
    using assms agrees_outcome [OF plain_reasons(7)] rename_apply_refused by metis
next
  case True
  then obtain target source digest where e: "me_target effect = Some target" "me_source effect = Some source"
      "me_source_digest effect = Some digest" by blast
  obtain early v where block: "closing (atry (rename_block sha256 before root_dir effect source target) rename_handler) os
      (w\<lparr>w_slots := [], w_crossed := False\<rparr>) = (early, v)" by force
  have nm: "effect_names effect = (last (path_parts (fs_path source)), last (path_parts target))"
    by (simp add: effect_names_def e)
  note settled = rename_block_settled [OF block, folded nm]
  show ?thesis
  proof (cases "early = Inr None")
    case False
    then show ?thesis
      using assms settled rename_apply_run [of effect] True e block
      by (auto simp: agrees_def split: sum.splits option.splits)
  next
    case renamed: True
    then have verify: "verify_rename sha256 (me_action effect) source digest target os v = (r, w')"
      using assms rename_apply_run [of effect] True e block by simp
    then obtain t where "w' = v\<lparr>w_time := t\<rparr>" using quietD [OF quiet_verify_rename] by blast
    then show ?thesis
      using verify_rename_status [OF verify] settled renamed by (auto simp: agrees_def split: sum.splits)
  qed
qed


theorem rename_outcome_sound_witness:
  "agrees (Some None) (effect_names demo_move) start_world
     (fst (rename_apply demo_digest (Some None) ''/r'' demo_move demo_move_os start_world))
     (snd (rename_apply demo_digest (Some None) ''/r'' demo_move demo_move_os start_world))
   \<and> has_status Applied (fst (rename_apply demo_digest (Some None) ''/r'' demo_move demo_move_os start_world))"
  by (intro conjI rename_outcome_sound [OF prod.collapse [symmetric]] demo_applied)

section \<open>What an applied outcome establishes\<close>

text \<open>The observation of the source just before the system call.\<close>

definition source_seen :: "os_answers \<Rightarrow> file_snapshot \<Rightarrow> bool" where
  "source_seen os source \<longleftrightarrow> (\<exists>t. \<not> unsafe_source source (os_fstat os t) \<and> \<not> unsafe_source source (os_lstat os (Suc t) (fs_path source)))"

text \<open>
  The observations of the verification: the source is gone, and the target is a
  regular file with one link and with the source's identity, size and times, whose
  binding is the one that was planned.
\<close>

definition target_seen :: "(byte list \<Rightarrow> byte list) \<Rightarrow> os_answers \<Rightarrow> file_snapshot \<Rightarrow> string \<Rightarrow> string \<Rightarrow> bool" where
  "target_seen sha256 os source digest target \<longleftrightarrow>
     (\<exists>t t' st current.
        (\<forall>kind found. os_lstat os t (fs_path source) \<noteq> Found kind found)
        \<and> os_lstat os (Suc t) target = Found Kind_Regular st \<and> st_nlink st = 1
        \<and> stat_matches_snapshot (source\<lparr>fs_path := target\<rparr>) st
        \<and> same_snapshot_at current (source\<lparr>fs_path := target\<rparr>)
        \<and> (if is_metadata_binding digest then metadata_binding sha256 current = digest
           else \<exists>content again. same_snapshot_at again current
             \<and> fst (full_fingerprint sha256 (os_cwd os) DEFAULT_IO_CHUNK_SIZE again (os_content os t')) = Inr content
             \<and> content_binding content = digest))"

lemma look_at_source_seen:
  assumes "look_at_source source os v = (Inr (), v')"
  shows "source_seen os source"
  using assms unfolding look_at_source_def source_seen_def
  by (auto simp: act_simps lstat_def tick_def split: stat_answer.splits intro!: exI [of _ "w_time v"])

lemma rename_block_seen:
  assumes "rename_block sha before root_dir effect source target os w = (Inr None, w')"
  shows "source_seen os source"
proof -
  have "\<exists>v v'. look_at_source source os v = (Inr (), v')"
    using assms unfolding rename_block_def
    by (auto simp: act_simps split: if_splits)
  then show ?thesis using look_at_source_seen by blast
qed

lemma digest_snapshot_seen:
  assumes "digest_snapshot sha s os v = (Inr d, v')"
  shows "\<exists>t content again. same_snapshot_at again s
    \<and> fst (full_fingerprint sha (os_cwd os) DEFAULT_IO_CHUNK_SIZE again (os_content os t)) = Inr content \<and> content_binding content = d"
proof -
  have "\<exists>current v1 content v2. same_snapshot_at current s \<and> hash_snapshot sha current os v1 = (Inr content, v2)
      \<and> content_binding content = d"
    using assms unfolding digest_snapshot_def atry_def by (auto simp: act_simps split: prod.splits sum.splits)
  moreover have "\<exists>t. fst (full_fingerprint sha (os_cwd os) DEFAULT_IO_CHUNK_SIZE current (os_content os t)) = Inr content"
    if "hash_snapshot sha current os v1 = (Inr content, v2)" for current v1 content v2
    using that unfolding hash_snapshot_def by (auto simp: act_simps split: sum.splits)
  ultimately show ?thesis by blast
qed

lemma binding_snapshot_seen:
  assumes "binding_snapshot sha s digest os v = (Inr True, v')"
  shows "\<exists>t. if is_metadata_binding digest then metadata_binding sha s = digest
    else \<exists>content again. same_snapshot_at again s
      \<and> fst (full_fingerprint sha (os_cwd os) DEFAULT_IO_CHUNK_SIZE again (os_content os t)) = Inr content \<and> content_binding content = digest"
proof (cases "is_metadata_binding digest")
  case False
  then have "digest_snapshot sha s os v = (Inr digest, v')"
    using assms by (auto simp: binding_snapshot_def act_simps)
  from digest_snapshot_seen [OF this] show ?thesis using False by auto
qed (use assms in \<open>simp add: binding_snapshot_def act_simps\<close>)

lemma validate_regular_unique_seen:
  assumes "validate_regular_unique s role os v = (Inr current, v')"
  shows "\<exists>st. os_lstat os (w_time v) (fs_path s) = Found Kind_Regular st \<and> st_nlink st = 1
    \<and> stat_matches_snapshot s st \<and> same_snapshot_at current s"
  using assms unfolding validate_regular_unique_def Let_def lstat_def
  by (auto simp: act_simps split: stat_answer.splits if_splits)

lemma verify_rename_seen:
  assumes "verify_rename sha action source digest target os w = (Inr b, w')" and "bo_status b = Applied"
  shows "target_seen sha os source digest target"
proof -
  let ?planned = "source\<lparr>fs_path := target\<rparr>"
  have "\<exists>v v' v'' v3 current. lstat (fs_path source) os w = (Inr v, v')
      \<and> \<not> (case v of Found _ _ \<Rightarrow> True | _ \<Rightarrow> False)
      \<and> validate_regular_unique ?planned ''rename target'' os v' = (Inr current, v'')
      \<and> binding_snapshot sha current digest os v'' = (Inr True, v3)"
    using assms unfolding verify_rename_def atry_def
    by (auto simp: act_simps simp del: not_None_eq split: prod.splits sum.splits dest!: outcome_status)
  then obtain v v' v'' v3 current where l: "lstat (fs_path source) os w = (Inr v, v')" "\<not> (case v of Found _ _ \<Rightarrow> True | _ \<Rightarrow> False)"
    and r: "validate_regular_unique ?planned ''rename target'' os v' = (Inr current, v'')"
    and b: "binding_snapshot sha current digest os v'' = (Inr True, v3)" by blast
  from l have "v = os_lstat os (w_time w) (fs_path source)" "w_time v' = Suc (w_time w)"
    by (auto simp: lstat_def act_simps tick_def)
  moreover have "\<forall>kind found. v \<noteq> Found kind found" using l(2) by auto
  ultimately show ?thesis
    using validate_regular_unique_seen [OF r] binding_snapshot_seen [OF b] unfolding target_seen_def by fastforce
qed

lemma closing_none:
  assumes "closing (atry (rename_block sha before root_dir effect source target) rename_handler) os v = (Inr None, v')"
  shows "\<exists>w'. rename_block sha before root_dir effect source target os v = (Inr None, w')"
proof -
  have "rename_handler e os w \<noteq> (Inr None, w')" for e w w'
  proof
    assume "rename_handler e os w = (Inr None, w')"
    then show False using rename_handler_shape [of e os w] by (auto simp: act_simps dest!: sym [where s = "(_, _)"])
  qed
  then show ?thesis using assms by (auto simp: closing_def atry_def split: prod.splits sum.splits)
qed

text \<open>An applied outcome comes from a verification after an undisturbed block.\<close>

lemma applied_run:
  assumes "rename_apply sha before root_dir effect os w = (r, w')" and "has_status Applied r"
  obtains source digest target v u u' where "me_source effect = Some source" "me_source_digest effect = Some digest"
    "me_target effect = Some target" "me_action effect \<in> {''move'', ''rename''}"
    "rename_block sha before root_dir effect source target os u = (Inr None, u')"
    "verify_rename sha (me_action effect) source digest target os v = (r, w')"
proof -
  obtain b where b: "r = Inr b" "bo_status b = Applied" using assms(2) by (auto simp: has_status_def split: sum.splits)
  have ok: "me_action effect \<in> {''move'', ''rename''} \<and> me_target effect \<noteq> None \<and> me_source effect \<noteq> None
      \<and> me_source_digest effect \<noteq> None"
    using assms(1) b rename_apply_refused outcome_status by (metis apply_status.distinct(1))
  then obtain target source digest where e: "me_target effect = Some target" "me_source effect = Some source"
      "me_source_digest effect = Some digest" by blast
  obtain early v where block: "closing (atry (rename_block sha before root_dir effect source target) rename_handler) os
      (w\<lparr>w_slots := [], w_crossed := False\<rparr>) = (early, v)" by force
  have none: "early = Inr None"
    using assms(1) b rename_apply_run [of effect] ok e block rename_block_settled [OF block]
    by (auto split: sum.splits option.splits)
  then have verify: "verify_rename sha (me_action effect) source digest target os v = (r, w')"
    using assms(1) rename_apply_run [of effect] ok e block by simp
  obtain u' where "rename_block sha before root_dir effect source target os (w\<lparr>w_slots := [], w_crossed := False\<rparr>) = (Inr None, u')"
    using closing_none [OF block [unfolded none]] by (elim exE)
  then show thesis using that [OF e(2,3,1) _ _ verify] ok by (elim conjE)
qed



end
