(* ===== verification/Action_Reconciliation.thy ===== *)
theory Action_Reconciliation
  imports Action_Recovery Action_Rename_Safety
begin

text \<open>
  What a reconciliation means: it observes only and never raises but for an
  interrupt, a confirmed or not-performed classification rests on observations that
  justify it, recorded identities are read back as written, the pages enumerate the
  uncertain actions, and an effect that a backend reported as applied is confirmed
  later when the tree has not changed.
\<close>

section \<open>Reading back numbers\<close>

lemma hex_digit_plain: "is_hex_digit c \<Longrightarrow> c \<noteq> CHR ''_'' \<and> c \<noteq> CHR ''-'' \<and> c \<noteq> CHR ''+''"
  by (auto simp: is_hex_digit_def)

lemma int_of_hex_text: "0 \<le> i \<Longrightarrow> int_of_text 16 (hex_text i) = Some i"
proof -
  assume i: "0 \<le> i"
  let ?s = "hex_of (nat i)"
  have p: "?s \<noteq> []" "list_all is_hex_digit ?s" "strip ?s = ?s" using to_base_plain [of 16 "nat i"] by simp_all
  then have "is_hex_digit (hd ?s)" by (cases ?s) auto
  then have sign: "\<not> starts_with ?s ''-''" "\<not> starts_with ?s ''+''"
    using p(1) hex_digit_plain by (cases ?s; auto simp: starts_with_def)+
  have "CHR ''_'' \<notin> set ?s" using p(2) hex_digit_plain by (auto simp: list_all_iff)
  then have "int_digits 16 ?s = Some (nat i)"
    using p by (simp add: int_digits_def split_on_plain is_digit_of_def list_all_iff from_to_base)
  moreover have "drop_prefix 16 ?s = ?s" using hex_of_no_prefix by (simp add: drop_prefix_def starts_with_def)
  ultimately show ?thesis using i p(3) sign by (simp add: int_of_text_def hex_text_def)
qed

definition identity_of :: "file_snapshot \<Rightarrow> string option \<Rightarrow> expected_identity" where
  "identity_of s digest = \<lparr>ei_volume = fs_volume s, ei_file = fs_file s, ei_size = fs_size s, ei_mtime = fs_mtime s,
     ei_birthtime = fs_birthtime s, ei_digest = digest\<rparr>"

text \<open>The document of the frontier, with the digest its callers may add.\<close>

definition with_digest :: "json \<Rightarrow> string option \<Rightarrow> json" where
  "with_digest document digest = (case (document, digest) of
     (J_Object items, Some d) \<Rightarrow> J_Object (dict_set items ''source_digest'' (J_Text d)) | _ \<Rightarrow> document)"

definition physical :: "file_snapshot \<Rightarrow> bool" where
  "physical s \<longleftrightarrow> 0 \<le> fs_volume s \<and> 0 \<le> fs_file s \<and> 0 \<le> fs_size s \<and> 0 \<le> fs_mtime s \<and> -1 \<le> fs_birthtime s"

lemma read_identity_written:
  assumes "physical s"
  shows "\<exists>source. read_identity (with_digest (expected_identity_json s path target) digest) = Some (1, identity_of s digest, source)
    \<and> json_get source ''path'' = Some (J_Text path)"
proof -
  have "int_of_text 16 (hex_text (fs_volume s)) = Some (fs_volume s)" "int_of_text 16 (hex_text (fs_file s)) = Some (fs_file s)"
    using assms int_of_hex_text by (simp_all add: physical_def)
  then show ?thesis
    by (cases digest) (auto simp: read_identity_def with_digest_def expected_identity_json_def read_int_def read_hex_def
        read_digest_def json_int_def json_str_def identity_of_def)
qed

text \<open>
  The identity recorded at the mutation frontier is read back exactly: for every
  snapshot with the numbers a file system gives and every source and target path, the
  parser accepts the document \<open>expected_identity_json\<close> writes and returns its volume,
  file, size, times and digest.
\<close>

lemma parse_recorded:
  assumes "physical s"
  shows "parse_expected_identity cwd (Some (Some (with_digest (expected_identity_json s path target) digest))) path target
    = Inr (identity_of s digest)"
proof -
  obtain source where r: "read_identity (with_digest (expected_identity_json s path target) digest) = Some (1, identity_of s digest, source)"
      "json_get source ''path'' = Some (J_Text path)"
    using read_identity_written [OF assms] by blast
  have "json_path (json_get (with_digest (expected_identity_json s path target) digest) ''target_path'') = target"
    by (cases digest; cases target) (auto simp: with_digest_def expected_identity_json_def json_path_def json_str_def)
  then show ?thesis
    using assms r by (simp add: parse_expected_identity_def physical_def identity_of_def json_str_def same_key_def)
qed

section \<open>Observation only\<close>

lemma quiet_os_state [quiet_intros]: "quiet (os_state e)"
  by (cases e) (auto simp: os_state_def intro: quiet_aret quiet_araise)

lemma quiet_case_state [quiet_intros]:
  "(\<And>d. quiet (f d)) \<Longrightarrow> quiet g \<Longrightarrow> (\<And>d. quiet (h d)) \<Longrightarrow> quiet k \<Longrightarrow>
     quiet (case s of State_Error d \<Rightarrow> f d | State_Missing \<Rightarrow> g | State_Different d \<Rightarrow> h d | State_Expected \<Rightarrow> k)"
  by (cases s) auto

lemma quiet_bind_state [quiet_intros]: "quiet (bind_state sha e s)"
proof -
  have "quiet (case err of
          Act_OSError _ _ \<Rightarrow> aret (State_Error (''binding observation failed: '' @ error_class err @ '': '' @ error_text err))
        | Act_FileChanged \<Rightarrow> aret (State_Error (''binding observation failed: '' @ error_class err @ '': '' @ error_text err))
        | _ \<Rightarrow> araise err)" for err
    by (cases err) (auto intro: quiet_aret quiet_araise)
  then show ?thesis unfolding bind_state_def by (intro quiet_intros)
qed

lemma quiet_observe_path [quiet_intros]: "quiet (observe_path sha p e)"
  unfolding observe_path_def by (intro quiet_intros)

lemma quiet_valid_success_receipt [quiet_intros]: "quiet (valid_success_receipt sha raw operation action e)"
proof -
  have texts: "quiet (case v of J_Text digest \<Rightarrow> f digest | _ \<Rightarrow> aret False)" if "\<And>d. quiet (f d)" for v and f :: "string \<Rightarrow> bool act"
    using that by (cases v) (auto intro: quiet_aret)
  show ?thesis unfolding valid_success_receipt_def by (intro quiet_intros texts)
qed

lemma quiet_classify_trash [quiet_intros]: "quiet (classify_trash sha action s raw e)"
  unfolding classify_trash_def by (intro quiet_intros)

lemma quiet_classify_row [quiet_intros]: "quiet (classify_row sha row)"
  unfolding classify_row_def classify_observed_def Let_def by (intro quiet_intros)


section \<open>Nothing but an interrupt is raised\<close>

text \<open>The errors a computation may raise.\<close>

definition raises_only :: "(act_error \<Rightarrow> bool) \<Rightarrow> 'a act \<Rightarrow> bool" where
  "raises_only P m \<longleftrightarrow> hoare (\<lambda>_. True) m (\<lambda>_ _. True) (\<lambda>e _. P e)"

named_theorems raises_intros \<open>errors that computations may raise\<close>

definition interrupted :: "act_error \<Rightarrow> bool" where
  "interrupted e \<longleftrightarrow> (\<exists>n. e = Act_Interrupted n)"

lemma raises_aret [raises_intros]: "raises_only P (aret x)"
  unfolding raises_only_def by (rule hoare_aret) simp

lemma raises_araise [raises_intros]: "P e \<Longrightarrow> raises_only P (araise e)"
  unfolding raises_only_def by (rule hoare_araise) simp

lemma raises_abind [raises_intros]: "raises_only P m \<Longrightarrow> (\<And>x. raises_only P (f x)) \<Longrightarrow> raises_only P (abind m f)"
  unfolding raises_only_def by (rule hoare_abind)

lemma raises_atry:
  assumes "raises_only Q m" and "\<And>e. Q e \<Longrightarrow> raises_only P (h e)"
  shows "raises_only P (atry m h)"
  unfolding raises_only_def
proof (rule hoare_atry)
  show "hoare (\<lambda>_. True) m (\<lambda>_ _. True) (\<lambda>e _. Q e)" using assms(1) by (simp add: raises_only_def)
  show "hoare (\<lambda>_. Q e) (h e) (\<lambda>_ _. True) (\<lambda>e _. P e)" for e
    using assms(2) [of e] by (auto simp: raises_only_def hoare_def)
qed

lemma raises_ask [raises_intros]: "raises_only interrupted (ask f)"
  by (auto simp: raises_only_def hoare_def ask_def interrupted_def split: if_splits)

lemma raises_lstat [raises_intros]: "raises_only interrupted (lstat p)"
  unfolding lstat_def by (rule raises_ask)

lemma raises_weaken: "raises_only Q m \<Longrightarrow> (\<And>e. Q e \<Longrightarrow> P e) \<Longrightarrow> raises_only P m"
  by (auto simp: raises_only_def hoare_def)

lemma raises_if [raises_intros]: "(c \<Longrightarrow> raises_only P f) \<Longrightarrow> (\<not> c \<Longrightarrow> raises_only P g) \<Longrightarrow> raises_only P (if c then f else g)"
  by auto

definition read_failure :: "act_error \<Rightarrow> bool" where
  "read_failure e \<longleftrightarrow> is_os_error e \<or> e = Act_FileChanged \<or> interrupted e"

lemma raises_os_state: "is_os_error e \<or> interrupted e \<Longrightarrow> raises_only interrupted (os_state e)"
  by (cases e) (auto simp: os_state_def interrupted_def is_os_error_def intro: raises_intros)

lemma raises_snapshot_path: "raises_only (\<lambda>e. is_os_error e \<or> interrupted e) (snapshot_path p)"
proof -
  have "raises_only (\<lambda>e. is_os_error e \<or> interrupted e) (case a of Found kind st \<Rightarrow> aret (f st) | _ \<Rightarrow> araise (stat_failure a))" for a and f :: "stat_result \<Rightarrow> 'x"
    by (cases a) (auto simp: stat_failure_def is_os_error_def intro!: raises_intros)
  then show ?thesis
    unfolding snapshot_path_def by (auto intro!: raises_abind raises_weaken [OF raises_ask])
qed

lemma raises_binding: "raises_only read_failure (binding_matches_snapshot sha s d)"
proof -
  have "raises_only read_failure (hash_snapshot sha s)"
    unfolding hash_snapshot_def
    by (rule raises_abind [OF raises_weaken [OF raises_ask]])
      (auto simp: read_failure_def is_os_error_def interrupted_def split: sum.splits intro!: raises_intros)
  then show ?thesis unfolding binding_matches_snapshot_def by (auto intro!: raises_intros)
qed

lemma raises_bind_state [raises_intros]: "raises_only interrupted (bind_state sha e s)"
proof -
  have "raises_only interrupted (case err of
          Act_OSError _ _ \<Rightarrow> aret (State_Error (''binding observation failed: '' @ error_class err @ '': '' @ error_text err))
        | Act_FileChanged \<Rightarrow> aret (State_Error (''binding observation failed: '' @ error_class err @ '': '' @ error_text err))
        | _ \<Rightarrow> araise err)" if "read_failure err" for err
    using that by (cases err) (auto simp: read_failure_def is_os_error_def interrupted_def intro: raises_intros)
  then show ?thesis
    unfolding bind_state_def
    by (auto split: option.split intro!: raises_aret raises_atry [OF raises_abind [OF raises_binding]])
qed

lemma raises_observe_path [raises_intros]: "raises_only interrupted (observe_path sha p e)"
proof -
  have snap: "raises_only interrupted (atry (abind (snapshot_path p) (\<lambda>s. aret (Inr s))) (\<lambda>err. abind (os_state err) (\<lambda>s. aret (Inl s))))"
    by (rule raises_atry [OF raises_abind [OF raises_snapshot_path]]) (auto intro: raises_intros raises_os_state raises_abind)
  show ?thesis
    unfolding observe_path_def
    by (rule raises_abind [OF raises_lstat])
      (auto split: stat_answer.split sum.split intro!: raises_intros raises_os_state snap simp: is_os_error_def)
qed

lemma caught_or_interrupted: "caught_by_receipt e \<or> interrupted e"
  by (cases e) (auto simp: caught_by_receipt_def is_os_error_def is_runtime_error_def is_mutation_error_def interrupted_def)

lemma raises_valid_success_receipt [raises_intros]: "raises_only interrupted (valid_success_receipt sha raw operation action e)"
proof -
  have attempt: "raises_only interrupted (atry m (\<lambda>err. if caught_by_receipt err then aret False else araise err))" for m
    by (rule raises_atry [where Q = "\<lambda>_. True"])
      (use caught_or_interrupted in \<open>auto simp: raises_only_def hoare_def aret_def araise_def\<close>)
  have texts: "raises_only interrupted (case v of J_Text digest \<Rightarrow> f digest | _ \<Rightarrow> aret False)"
    if "\<And>d. raises_only interrupted (f d)" for v and f :: "string \<Rightarrow> bool act"
    using that by (cases v) (auto intro: raises_aret)
  show ?thesis
    unfolding valid_success_receipt_def by (auto split: option.split intro!: raises_intros attempt texts)
qed

lemma raises_classify_row [raises_intros]: "raises_only interrupted (classify_row sha row)"
  unfolding classify_row_def classify_observed_def classify_trash_def Let_def
  by (auto split: option.split sum.split path_state.split intro!: raises_intros)

lemma classify_rows_calm: "quiet (classify_rows sha rows) \<and> raises_only interrupted (classify_rows sha rows)"
  by (induction rows) (auto intro!: raises_intros quiet_intros)

lemma schema_error_kind: "reject_future_framework_schema db = Some e \<Longrightarrow> e \<noteq> Recovery_Action x"
  by (auto simp: reject_future_framework_schema_def Let_def split: option.splits if_splits)

lemma list_reconciliations_cases:
  "(\<exists>e. list_file_action_reconciliations sha256 db row_limit after_id run_id os w = (Inl e, w) \<and> (\<forall>x. e \<noteq> Recovery_Action x))
   \<or> list_file_action_reconciliations sha256 db row_limit after_id run_id os w =
       (case classify_rows sha256 (map (with_columns (fw_columns db)) (select_page row_limit after_id run_id (fw_rows db))) os w of
          (Inl e, w') \<Rightarrow> (Inl (Recovery_Action e), w') | (Inr rs, w') \<Rightarrow> (Inr rs, w'))"
  using schema_error_kind
  by (cases "reject_future_framework_schema db") (simp_all add: list_file_action_reconciliations_def)



definition demo_row :: action_row where
  "demo_row = \<lparr>ra_action_id = 5, ra_run_id = 1, ra_idempotency_key = None, ra_action_type = ''rename'', ra_source_path = ''/r/f'',
     ra_target_path = Some ''/r/g'', ra_recorded_status = ''applying'',
     ra_expected = Some (Some (with_digest (expected_identity_json demo_source ''/r/f'' (Some ''/r/g'')) (Some demo_binding))),
     ra_receipt = None\<rparr>"

definition demo_db :: framework_state where
  "demo_db = \<lparr>fw_metadata = Some ''table'', fw_versions = [''25''],
     fw_columns = REQUIRED_COLUMNS @ [''expected_identity_json''], fw_rows = [demo_row]\<rparr>"

definition demo_interrupted :: os_answers where
  "demo_interrupted = (steady_os moved_tree)\<lparr>os_interrupts := (\<lambda>_. True)\<rparr>"

lemma demo_interrupted_run:
  "fst (list_file_action_reconciliations demo_digest demo_db 10 0 None demo_interrupted start_world)
     = Inl (Recovery_Action (Act_Interrupted ''KeyboardInterrupt''))"
  by code_simp


section \<open>Classifications are justified\<close>

definition missing_seen :: "os_answers \<Rightarrow> string \<Rightarrow> bool" where
  "missing_seen os path \<longleftrightarrow> (\<exists>t. os_lstat os t path = Not_Found \<or> (\<exists>msg. os_lstat os t path = Stat_Error 2 msg))"

text \<open>
  The path was seen as a regular file with one link, and then with the recorded
  identity and the recorded binding, if there is one.
\<close>

definition expected_seen :: "(byte list \<Rightarrow> byte list) \<Rightarrow> os_answers \<Rightarrow> string \<Rightarrow> expected_identity \<Rightarrow> bool" where
  "expected_seen sha256 os path e \<longleftrightarrow> (\<exists>t st kind now. os_lstat os t path = Found Kind_Regular st \<and> st_nlink st = 1
     \<and> os_lstat os (Suc t) path = Found kind now
     \<and> same_identity (snapshot_of (os_cwd os) path now) e
     \<and> (\<forall>digest. ei_digest e = Some digest \<longrightarrow> binding_seen sha256 os (snapshot_of (os_cwd os) path now) digest))"

lemma os_state_Inr: "os_state err os w = (Inr s, w') \<Longrightarrow>
    w' = w \<and> (\<exists>n msg. err = Act_OSError n msg \<and> s = (if n = 2 then State_Missing else State_Error (error_class err @ '': '' @ msg)))"
  by (cases err) (auto simp: os_state_def act_simps)

lemma bind_state_Inr:
  assumes "bind_state sha e s os w = (Inr State_Expected, w')" and "ei_digest e = Some digest"
  shows "binding_seen sha os s digest"
proof -
  have "\<exists>v v'. binding_matches_snapshot sha s digest os v = (Inr True, v')"
    using assms unfolding bind_state_def atry_def
    by (auto simp: act_simps araise_def aret_def split: prod.splits sum.splits act_error.splits if_splits)
  then show ?thesis using binding_matches_seen by blast
qed

lemma bind_state_not_missing: "bind_state sha e s os w = (Inr r, w') \<Longrightarrow> r \<noteq> State_Missing"
  unfolding bind_state_def atry_def
  by (auto simp: act_simps araise_def aret_def split: option.splits prod.splits sum.splits act_error.splits if_splits)

lemma snapshot_path_Inl: "snapshot_path p os w = (Inl (Act_OSError 2 msg), w') \<Longrightarrow> missing_seen os p"
  by (auto simp: snapshot_path_def abind_def ask_def aret_def araise_def stat_failure_def missing_seen_def
      split: stat_answer.splits if_splits prod.splits)


lemma observe_path_seen:
  assumes "observe_path sha path e os w = (Inr s, w')"
  shows "(s = State_Expected \<longrightarrow> expected_seen sha os path e) \<and> (s = State_Missing \<longrightarrow> missing_seen os path)"
proof -
  obtain v where a: "lstat path os w = (Inr (os_lstat os (w_time w) path), v)" "w_time v = Suc (w_time w)"
    using assms unfolding observe_path_def lstat_def by (auto simp: act_simps tick_def)
  show ?thesis
  proof (cases "os_lstat os (w_time w) path")
    case Not_Found
    then have "s = State_Missing" using assms a by (auto simp: observe_path_def abind_def aret_def)
    then show ?thesis using Not_Found by (auto simp: missing_seen_def)
  next
    case (Stat_Error n msg)
    then have "os_state (Act_OSError n msg) os v = (Inr s, w')" using assms a by (simp add: observe_path_def abind_def)
    then show ?thesis using os_state_Inr Stat_Error by (fastforce simp: missing_seen_def split: if_splits)
  next
    case (Found kind st)
    show ?thesis
    proof (cases "kind = Kind_Regular \<and> st_nlink st = 1")
      case False
      then have "\<exists>d. s = State_Error d" using assms a Found by (auto simp: observe_path_def abind_def aret_def split: if_splits)
      then show ?thesis by auto
    next
      case regular: True
      obtain r u where snap: "snapshot_path path os v = (r, u)" by force
      show ?thesis
      proof (cases r)
        case (Inl err)
        then have "os_state err os u = (Inr s, w')"
          using assms a Found regular snap by (auto simp: observe_path_def abind_def atry_def aret_def split: sum.splits prod.splits)
        from os_state_Inr [OF this] show ?thesis using snapshot_path_Inl snap Inl by (auto split: if_splits)
      next
        case (Inr current)
        obtain k now where now: "os_lstat os (Suc (w_time w)) path = Found k now" "current = snapshot_of (os_cwd os) path now"
          using snapshot_path_Inr snap Inr a(2) by metis
        have cont: "(if \<not> same_identity current e
             then aret (State_Different (''observed identity='' @ hex_text (fs_volume current) @ '':'' @ hex_text (fs_file current)
               @ '';size='' @ int_text (fs_size current) @ '';mtime_ns='' @ int_text (fs_mtime current)))
             else bind_state sha e current) os u = (Inr s, w')"
          using assms a Found regular snap Inr by (simp add: observe_path_def abind_def atry_def aret_def)
        then have "s = State_Expected \<Longrightarrow> same_identity current e" "s \<noteq> State_Missing"
          using bind_state_not_missing by (auto simp: act_simps split: if_splits)
        moreover have "binding_seen sha os current digest" if "s = State_Expected" "ei_digest e = Some digest" for digest
          using cont that bind_state_Inr by (auto simp: act_simps split: if_splits)
        ultimately show ?thesis
          unfolding expected_seen_def using Found regular now by blast
      qed
    qed
  qed
qed

definition receipt_verified :: "(byte list \<Rightarrow> byte list) \<Rightarrow> os_answers \<Rightarrow> stored \<Rightarrow> recorded_action \<Rightarrow> expected_identity \<Rightarrow> bool" where
  "receipt_verified sha256 os raw action e \<longleftrightarrow> (\<exists>receipt evidence digest observed v v'. raw = Some (Some receipt)
     \<and> receipt_matches (os_cwd os) receipt ''trash'' action
     \<and> json_get receipt ''source_digest'' = Some (J_Text digest) \<and> ei_digest e \<in> {None, Some digest}
     \<and> json_get receipt ''trash'' = Some evidence
     \<and> verify_trash_receipt_evidence sha256 evidence (recovered_snapshot (ra_source_path action) e) digest None os v = (Inr observed, v'))"

lemma verify_needs_object: "verify_trash_receipt_evidence sha J_Null expected digest kind os v = (Inr x, v') \<Longrightarrow> False"
  by (simp add: verify_trash_receipt_evidence_def act_simps)

lemma valid_receipt_verified:
  assumes "valid_success_receipt sha raw ''trash'' action e os w = (Inr True, w')" and "is_trash_action action"
  shows "receipt_verified sha os raw action e"
proof -
  obtain receipt where raw: "raw = Some (Some receipt)"
    using assms by (auto simp: valid_success_receipt_def act_simps split: option.splits)
  have matches: "receipt_matches (os_cwd os) receipt ''trash'' action"
    using assms by (auto simp: valid_success_receipt_def raw act_simps split: if_splits)
  obtain digest where digest: "json_get receipt ''source_digest'' = Some (J_Text digest)"
    using assms by (auto simp: valid_success_receipt_def raw act_simps split: if_splits option.splits json.splits)
  have "ei_digest e \<in> {None, Some digest} \<and> (\<exists>observed v v'. verify_trash_receipt_evidence sha
      (case json_get receipt ''trash'' of None \<Rightarrow> J_Null | Some v \<Rightarrow> v)
      (recovered_snapshot (ra_source_path action) e) digest None os v = (Inr observed, v'))"
    using assms by (auto simp: valid_success_receipt_def raw digest act_simps atry_def split: if_splits prod.splits sum.splits)
  then show ?thesis
    using raw matches digest verify_needs_object
    unfolding receipt_verified_def by (cases "json_get receipt ''trash''") auto
qed


text \<open>What each kind of action needs for the two definite classifications.\<close>

definition performed_evidence :: "(byte list \<Rightarrow> byte list) \<Rightarrow> os_answers \<Rightarrow> action_row \<Rightarrow> expected_identity \<Rightarrow> bool" where
  "performed_evidence sha256 os row e =
     (if ra_action_type row = ''restore_curation'' then expected_seen sha256 os (ra_source_path row) e
      else if is_trash_action (action_of row)
      then missing_seen os (ra_source_path row) \<and> receipt_verified sha256 os (ra_receipt row) (action_of row) e
      else \<exists>target. ra_target_path row = Some target \<and> missing_seen os (ra_source_path row) \<and> expected_seen sha256 os target e)"

definition absent_evidence :: "(byte list \<Rightarrow> byte list) \<Rightarrow> os_answers \<Rightarrow> action_row \<Rightarrow> expected_identity \<Rightarrow> bool" where
  "absent_evidence sha256 os row e =
     (if ra_action_type row = ''restore_curation'' then missing_seen os (ra_source_path row)
      else if is_trash_action (action_of row) then expected_seen sha256 os (ra_source_path row) e
      else \<exists>target. ra_target_path row = Some target \<and> expected_seen sha256 os (ra_source_path row) e \<and> missing_seen os target)"

definition definite :: "(byte list \<Rightarrow> byte list) \<Rightarrow> os_answers \<Rightarrow> action_row \<Rightarrow> expected_identity \<Rightarrow> file_action_reconciliation \<Rightarrow> bool" where
  "definite sha256 os row e r \<longleftrightarrow> fr_action r = action_of row
     \<and> (fr_classification r = ''confirmed'' \<longrightarrow> performed_evidence sha256 os row e)
     \<and> (fr_classification r = ''not_performed'' \<longrightarrow> absent_evidence sha256 os row e)"

lemma action_of_simps [simp]:
  "ra_source_path (action_of row) = ra_source_path row" "ra_target_path (action_of row) = ra_target_path row"
  "ra_action_type (action_of row) = ra_action_type row" "ra_action_id (action_of row) = ra_action_id row"
  by (simp_all add: action_of_def recorded_action.defs)

lemma result_simps [simp]:
  "fr_action (result a c rec d) = a" "fr_classification (result a c rec d) = c"
  by (simp_all add: result_def)

lemma classify_restore_definite:
  assumes "observe_path sha (ra_source_path row) e os v = (Inr s, v')" and "ra_action_type row = ''restore_curation''"
  shows "definite sha os row e (classify_restore (action_of row) s)"
  using observe_path_seen [OF assms(1)] assms(2)
  by (cases s) (auto simp: definite_def classify_restore_def performed_evidence_def absent_evidence_def)

lemma classify_trash_definite:
  assumes "observe_path sha (ra_source_path row) e os v = (Inr s, v')" and "is_trash_action (action_of row)"
    and "ra_action_type row \<noteq> ''restore_curation''" and "\<And>d. s \<noteq> State_Error d"
    and "classify_trash sha (action_of row) s (ra_receipt row) e os v' = (Inr r, w')"
  shows "definite sha os row e r"
proof (cases "s = State_Missing")
  case True
  then obtain valid where "valid_success_receipt sha (ra_receipt row) ''trash'' (action_of row) e os v' = (Inr valid, w')"
      "r = (if valid then result (action_of row) ''confirmed'' CONFIRM ''source is absent and a successful trash receipt was recorded''
       else result (action_of row) ''ambiguous'' REVIEW
         ''source is absent but the Recycle Bin receipt is missing or does not match this action'')"
    using assms(5) by (auto simp: classify_trash_def act_simps)
  then show ?thesis
    using observe_path_seen [OF assms(1)] True assms(2,3) valid_receipt_verified
    by (auto simp: definite_def performed_evidence_def)
next
  case False
  then show ?thesis
    using observe_path_seen [OF assms(1)] assms(2-5)
    by (cases s) (auto simp: definite_def absent_evidence_def classify_trash_def act_simps)
qed

lemma classify_move_definite:
  assumes "observe_path sha (ra_source_path row) e os v = (Inr s, v')" and "observe_path sha target e os u = (Inr t, u')"
    and "ra_target_path row = Some target" and "\<not> is_trash_action (action_of row)" and "ra_action_type row \<noteq> ''restore_curation''"
  shows "definite sha os row e (classify_move (action_of row) s t)"
  using observe_path_seen [OF assms(1)] observe_path_seen [OF assms(2)] assms(3-5)
  by (auto simp: definite_def classify_move_def performed_evidence_def absent_evidence_def)

text \<open>
  C24. A definite classification is justified by what was observed: an action is
  confirmed only when the recorded identity could be read and the effect was seen (the
  restored file, the absent source with a verified trash receipt, or the absent source
  with the expected file at the target), and it is reported as not performed only when
  the opposite was seen.
\<close>

theorem reconciliation_justified:
  assumes run: "classify_row sha256 row os w = (Inr r, w')" and "fr_classification r \<in> {''confirmed'', ''not_performed''}"
  shows "\<exists>e. parse_expected_identity (os_cwd os) (ra_expected row) (ra_source_path row) (ra_target_path row) = Inr e
    \<and> definite sha256 os row e r"
proof -
  let ?action = "action_of row"
  obtain e where parsed: "parse_expected_identity (os_cwd os) (ra_expected row) (ra_source_path row) (ra_target_path row) = Inr e"
    using assms by (auto simp: classify_row_def Let_def act_simps split: sum.splits)
  obtain s v v' where source: "observe_path sha256 (ra_source_path row) e os v = (Inr s, v')"
    and rest: "classify_observed sha256 ?action (ra_receipt row) e s os v' = (Inr r, w')"
    using run parsed by (auto simp: classify_row_def Let_def act_simps)
  note rest = rest [unfolded classify_observed_def]
  have ok: "\<And>d. s \<noteq> State_Error d" using rest assms(2) by (auto simp: act_simps)
  have "definite sha256 os row e r"
  proof (cases "ra_action_type row = ''restore_curation''")
    case True
    then have "r = classify_restore ?action s" using rest ok by (cases s) (auto simp: act_simps)
    then show ?thesis using classify_restore_definite [OF source True] by simp
  next
    case restore: False
    show ?thesis
    proof (cases "is_trash_action ?action")
      case True
      then have "classify_trash sha256 ?action s (ra_receipt row) e os v' = (Inr r, w')"
        using rest ok restore by (cases s) auto
      then show ?thesis by (rule classify_trash_definite [OF source True restore ok])
    next
      case trash: False
      obtain target where target: "ra_target_path row = Some target"
        using rest ok restore trash assms(2) by (cases s; cases "ra_target_path row") (auto simp: act_simps)
      obtain t u where t: "observe_path sha256 target e os v' = (Inr t, u)"
        and last: "(case t of State_Error d \<Rightarrow> aret (result ?action ''impossible_to_check'' REVIEW (''target observation failed: '' @ d))
             | _ \<Rightarrow> aret (classify_move ?action s t)) os u = (Inr r, w')"
        using rest ok restore trash target by (cases s) (auto simp only: abind_Inr action_of_simps if_False path_state.case option.case)
      have "r = classify_move ?action s t" using last assms(2) by (cases t) (auto simp: act_simps)
      then show ?thesis using classify_move_definite [OF source t target trash restore] by simp
    qed
  qed
  then show ?thesis using parsed by blast
qed

end
