(* ===== verification/Trash_Batch.thy ===== *)
theory Trash_Batch
  imports Trash_Evidence
begin

text \<open>
  The batch entry of \<open>KioTrashBackend\<close>: outcomes stay in the order of the items, and
  an applied outcome carries a receipt bound to the source of its own item.
\<close>

lemma outcome_result:
  "outcome s r d j os w = (Inr b, w') \<longleftrightarrow> outcome_error \<lparr>bo_status = s, bo_reason = r, bo_detail = d, bo_receipt = j\<rparr> = None
     \<and> b = \<lparr>bo_status = s, bo_reason = r, bo_detail = d, bo_receipt = j\<rparr> \<and> w' = w"
  by (auto simp: outcome_def Let_def aret_def araise_def split: option.splits)

text \<open>The evidence of a result is bound to the item, and is what the receipt carries.\<close>

definition bound_to_item :: "file_snapshot \<times> string \<times> string \<Rightarrow> kio_trash_result \<Rightarrow> backend_outcome \<Rightarrow> bool" where
  "bound_to_item item r b = (case item of (s, digest, kind) \<Rightarrow>
     kr_status r = Applied \<and> (\<exists>evidence paths. kr_receipt r = Some (Some evidence)
       \<and> trash_receipt_paths evidence s digest = Inr paths \<and> bo_receipt b = Some (trash_receipt s digest kind evidence)))"

lemma backend_outcome_bound:
  assumes "backend_outcome_of s digest kind r os w = (Inr b, w')" and "bo_status b = Applied"
  shows "bound_to_item (s, digest, kind) r b"
proof -
  have applied: "kr_status r = Applied"
    using assms by (cases "kr_status r") (auto simp: backend_outcome_of_def outcome_result)
  then obtain document where doc: "kr_receipt r = Some document"
    using assms by (auto simp: backend_outcome_of_def outcome_result split: option.splits)
  have "\<exists>evidence paths. document = Some evidence \<and> trash_receipt_paths evidence s digest = Inr paths
      \<and> bo_receipt b = Some (trash_receipt s digest kind evidence)"
    using assms unfolding backend_outcome_of_def applied doc atry_def
    by (auto simp: act_simps outcome_result split: prod.splits sum.splits act_error.splits option.splits)
  then show ?thesis using applied doc by (auto simp: bound_to_item_def)
qed

text \<open>The results are used in order by the items that passed their preflight.\<close>

definition rank :: "backend_outcome option list \<Rightarrow> nat \<Rightarrow> nat" where
  "rank earlies i = length (filter (\<lambda>e. e = None) (take i earlies))"

lemma rank_Cons: "rank (e # earlies) (Suc i) = (if e = None then Suc (rank earlies i) else rank earlies i)"
  by (simp add: rank_def)

definition aligned :: "(file_snapshot \<times> string \<times> string) list \<Rightarrow> backend_outcome option list \<Rightarrow> kio_trash_result list
    \<Rightarrow> backend_outcome list \<Rightarrow> bool" where
  "aligned items earlies results outcomes \<longleftrightarrow>
     length earlies = length items \<and> length outcomes = length items
     \<and> length results = length (filter (\<lambda>e. e = None) earlies)
     \<and> (\<forall>i<length items. case earlies ! i of
          Some b \<Rightarrow> outcomes ! i = b
        | None \<Rightarrow> bo_status (outcomes ! i) = Applied \<longrightarrow> bound_to_item (items ! i) (results ! rank earlies i) (outcomes ! i))"

lemma aligned_early:
  "aligned items earlies results outcomes \<Longrightarrow> aligned (item # items) (Some b # earlies) results (b # outcomes)"
  by (auto simp: aligned_def less_Suc_eq_0_disj rank_Cons split: option.splits)

lemma aligned_result:
  "aligned items earlies results outcomes \<Longrightarrow> (bo_status b = Applied \<Longrightarrow> bound_to_item item r b)
     \<Longrightarrow> aligned (item # items) (None # earlies) (r # results) (b # outcomes)"
  by (auto simp: aligned_def less_Suc_eq_0_disj rank_Cons rank_def [of _ 0] split: option.splits)

lemma merge_results_aligned:
  "merge_results items earlies results os w = (Inr outcomes, w') \<Longrightarrow> aligned items earlies results outcomes"
proof (induction items earlies results arbitrary: os w outcomes w' rule: merge_results.induct)
  case (1 item items b rest results)
  then show ?case by (auto simp: act_simps intro!: aligned_early)
next
  case (2 s digest kind items rest r results)
  then show ?case by (auto simp: act_simps intro!: aligned_result backend_outcome_bound)
qed (auto simp: act_simps aligned_def)

lemma preflight_items_length:
  "preflight_items sha root_dir items os w = (Inr earlies, w') \<Longrightarrow>
     length earlies = length items \<and> (\<forall>b. Some b \<in> set earlies \<longrightarrow> bo_status b = Blocked)"
proof (induction items arbitrary: w earlies w')
  case (Cons item items)
  obtain s digest kind where item: "item = (s, digest, kind)" by (cases item)
  from Cons.prems obtain early rest v v' where e: "kio_preflight sha root_dir (trash_effect s digest) s kind os v = (Inr early, v')"
      "preflight_items sha root_dir items os v' = (Inr rest, w')" "earlies = early # rest"
    by (auto simp: item act_simps)
  have "\<forall>b. early = Some b \<longrightarrow> bo_status b = Blocked"
    using e(1) unfolding kio_preflight_def atry_def
    by (auto simp: act_simps outcome_result split: prod.splits sum.splits if_splits)
  then show ?case using Cons.IH [OF e(2)] e(3) by auto
qed (simp add: act_simps)



text \<open>One item passes and one is refused; the service reports the first as trashed.\<close>

definition demo_service :: "(file_snapshot \<times> string \<times> string) list \<Rightarrow> kio_trash_result list act" where
  "demo_service items = aret (map (\<lambda>_. \<lparr>kr_status = Applied, kr_reason = ''ok'', kr_detail = None,
     kr_receipt = Some (Some demo_evidence)\<rparr>) items)"

definition demo_items :: "(file_snapshot \<times> string \<times> string) list" where
  "demo_items = [(demo_source, demo_binding, KIO_OBJECT_FILE), (demo_source\<lparr>fs_path := ''/r/x''\<rparr>, demo_binding, KIO_OBJECT_FILE)]"

definition statuses :: "act_error + backend_outcome list \<Rightarrow> apply_status list" where
  "statuses r = (case r of Inl _ \<Rightarrow> [] | Inr bs \<Rightarrow> map bo_status bs)"


lemma demo_batch:
  "statuses (fst (apply_many_snapshots demo_digest demo_service ''/r'' demo_items (steady_os unmoved_tree) start_world))
     = [Applied, Blocked]"
  by code_simp


end
