(* ===== verification/Action_Followup.thy ===== *)
theory Action_Followup
  imports Action_Reconciliation Trash_Batch
begin

text \<open>
  Reconciliation together with its neighbours: following the pages enumerates the
  uncertain actions, and what a backend reported as applied is confirmed later when
  the tree has not changed.
\<close>

section \<open>Pages\<close>

definition pending :: "int \<Rightarrow> int option \<Rightarrow> action_row list \<Rightarrow> action_row list" where
  "pending after run_id rows = sort_key ra_action_id (filter (\<lambda>row. ra_action_id row > after \<and> recoverable run_id row) rows)"

text \<open>A client that asks for the next page after the last identifier it got.\<close>

fun read_pages :: "nat \<Rightarrow> int \<Rightarrow> int \<Rightarrow> int option \<Rightarrow> action_row list \<Rightarrow> action_row list" where
  "read_pages 0 row_limit after run_id rows = []"
| "read_pages (Suc fuel) row_limit after run_id rows =
     (let page = select_page row_limit after run_id rows in
      if page = [] then [] else page @ read_pages fuel row_limit (ra_action_id (last page)) run_id rows)"

lemma pending_later:
  assumes "after \<le> later"
  shows "pending later run_id rows = filter (\<lambda>row. ra_action_id row > later) (pending after run_id rows)"
proof -
  have "filter (\<lambda>row. ra_action_id row > later) (filter (\<lambda>row. ra_action_id row > after \<and> recoverable run_id row) rows)
      = filter (\<lambda>row. ra_action_id row > later \<and> recoverable run_id row) rows"
    using assms by (auto simp: filter_filter intro!: filter_cong)
  then show ?thesis by (simp add: pending_def filter_sort)
qed

lemma sorted_wrt_pending:
  assumes "distinct (map ra_action_id rows)"
  shows "sorted_wrt (\<lambda>x y. ra_action_id x < ra_action_id y) (pending after run_id rows)"
proof -
  let ?p = "pending after run_id rows"
  have "distinct (map ra_action_id (filter (\<lambda>row. ra_action_id row > after \<and> recoverable run_id row) rows))"
    using assms by (rule distinct_map_filter)
  then have "distinct (map ra_action_id ?p)" by (simp add: pending_def distinct_map)
  moreover have "sorted (map ra_action_id ?p)" by (simp add: pending_def)
  ultimately have "sorted_wrt (<) (map ra_action_id ?p)" by (simp add: strict_sorted_iff)
  then show ?thesis by (simp add: sorted_wrt_map)
qed

lemma filter_after_prefix:
  assumes "sorted_wrt (\<lambda>x y. f x < (f y :: int)) xs" and "0 < n" and "xs \<noteq> []"
  shows "filter (\<lambda>x. f x > f (last (take n xs))) xs = drop n xs"
proof -
  let ?l = "last (take n xs)"
  have ne: "take n xs \<noteq> []" using assms by simp
  have sorted: "sorted_wrt (\<lambda>x y. f x < f y) (take n xs @ drop n xs)" using assms(1) by simp
  have "\<not> f x > f ?l" if "x \<in> set (take n xs)" for x
  proof (cases "x = ?l")
    case False
    have "take n xs = butlast (take n xs) @ [?l]" using ne by simp
    then have "x \<in> set (butlast (take n xs))" "sorted_wrt (\<lambda>x y. f x < f y) (butlast (take n xs) @ [?l])"
      using that False sorted by (metis Un_iff empty_iff insert_iff list.set set_append, metis sorted_wrt_append)
    then show ?thesis by (auto simp: sorted_wrt_append dest!: bspec)
  qed simp
  then have "filter (\<lambda>x. f x > f ?l) (take n xs) = []" by (auto simp: filter_empty_conv)
  moreover have "\<forall>y \<in> set (drop n xs). f ?l < f y"
    using sorted [unfolded sorted_wrt_append] last_in_set [OF ne] by blast
  then have "filter (\<lambda>x. f x > f ?l) (drop n xs) = drop n xs" by (simp add: filter_id_conv)
  ultimately show ?thesis by (metis append_take_drop_id filter_append self_append_conv2)
qed

text \<open>
  C33. Keyset pagination loses and repeats nothing: with distinct action identifiers
  and any admitted page size, a client that asks for the page after the last
  identifier it received gets every recoverable action after its starting point, once
  and in the order of the identifiers.
\<close>

theorem pages_enumerate:
  assumes "distinct (map ra_action_id rows)" and "1 \<le> row_limit" and "length (pending after run_id rows) < fuel"
  shows "read_pages fuel row_limit after run_id rows = pending after run_id rows"
  using assms(3)
proof (induction fuel arbitrary: after)
  case (Suc fuel)
  let ?p = "pending after run_id rows"
  have page: "select_page row_limit after run_id rows = take (nat row_limit) ?p"
    by (simp add: select_page_def pending_def)
  show ?case
  proof (cases "?p = []")
    case False
    let ?l = "ra_action_id (last (take (nat row_limit) ?p))"
    have n: "0 < nat row_limit" using assms(2) by simp
    have "last (take (nat row_limit) ?p) \<in> set ?p" using False n by (metis in_set_takeD last_in_set take_eq_Nil not_gr_zero)
    then have "after \<le> ?l" by (auto simp: pending_def)
    then have rest: "pending ?l run_id rows = drop (nat row_limit) ?p"
      using pending_later filter_after_prefix [OF sorted_wrt_pending [OF assms(1)] n False] by metis
    have "length ?p \<noteq> 0" using False by simp
    then have "length (pending ?l run_id rows) < fuel" unfolding rest length_drop using Suc.prems n by linarith
    from Suc.IH [OF this] rest show ?thesis
      using False n by (simp add: page Let_def)
  qed (simp add: page Let_def)
qed simp

theorem pages_enumerate_witness:
  "read_pages 2 10 0 None [demo_row] = pending 0 None [demo_row]"
  by (rule pages_enumerate) (simp_all add: pending_def demo_row_def recoverable_def)

section \<open>An applied rename is confirmed later\<close>

definition steady :: "os_answers \<Rightarrow> bool" where
  "steady os \<longleftrightarrow> (\<forall>t. \<not> os_interrupts os t)"

lemma observe_missing:
  assumes "steady os" and "\<And>t. os_lstat os t path = Not_Found"
  shows "\<exists>w'. observe_path sha path e os w = (Inr State_Missing, w')"
  using assms by (simp add: observe_path_def steady_def abind_def lstat_def ask_def aret_def)

lemma observe_expected:
  assumes "steady os" and there: "\<And>t. os_lstat os t path = Found Kind_Regular st" and "st_nlink st = 1"
    and same: "same_identity (snapshot_of (os_cwd os) path st) e"
    and bound: "\<And>digest. ei_digest e = Some digest
      \<Longrightarrow> is_metadata_binding digest \<and> metadata_binding sha (snapshot_of (os_cwd os) path st) = digest"
  shows "\<exists>w'. observe_path sha path e os w = (Inr State_Expected, w')"
proof -
  have "bind_state sha e (snapshot_of (os_cwd os) path st) os v = (Inr State_Expected, v)" for v
    using bound
    by (cases "ei_digest e") (auto simp: bind_state_def binding_matches_snapshot_def abind_def atry_def aret_def)
  then show ?thesis
    using assms(1-4)
    by (simp add: observe_path_def snapshot_path_def steady_def abind_def atry_def lstat_def ask_def aret_def)
qed

lemma metadata_binding_cong: "same_snapshot s s' \<Longrightarrow> metadata_binding sha s = metadata_binding sha s'"
  by (simp add: same_snapshot_def snap_identity_def metadata_binding_def)

text \<open>The row that records an effect at the frontier.\<close>

definition records_move :: "file_snapshot \<Rightarrow> string \<Rightarrow> string \<Rightarrow> action_row \<Rightarrow> bool" where
  "records_move source digest target row \<longleftrightarrow> ra_source_path row = fs_path source \<and> ra_target_path row = Some target
     \<and> \<not> is_trash_action (action_of row) \<and> ra_action_type row \<noteq> ''restore_curation''
     \<and> ra_expected row = Some (Some (with_digest (expected_identity_json source (fs_path source) (Some target)) (Some digest)))"

text \<open>The source is gone and the target names the moved object, at every moment.\<close>

definition still_moved :: "os_answers \<Rightarrow> file_snapshot \<Rightarrow> string \<Rightarrow> bool" where
  "still_moved os source target \<longleftrightarrow> steady os \<and> (\<forall>t. os_lstat os t (fs_path source) = Not_Found)
     \<and> (\<exists>st. (\<forall>t. os_lstat os t target = Found Kind_Regular st) \<and> st_nlink st = 1
          \<and> same_snapshot (snapshot_of (os_cwd os) target st) source)"

lemma same_identity_of: "same_snapshot s source \<Longrightarrow> same_identity s (identity_of source digest)"
  by (simp add: same_snapshot_def snap_identity_def same_identity_def identity_of_def)

lemma moved_row_confirmed:
  assumes row: "records_move source digest target row" and moved: "still_moved os source target" and "physical source"
    and bound: "is_metadata_binding digest" "metadata_binding sha source = digest"
  shows "\<exists>r w'. classify_row sha row os w = (Inr r, w') \<and> fr_classification r = ''confirmed''"
proof -
  let ?e = "identity_of source (Some digest)"
  obtain st where st: "\<And>t. os_lstat os t target = Found Kind_Regular st" "st_nlink st = 1"
      "same_snapshot (snapshot_of (os_cwd os) target st) source"
    using moved by (auto simp: still_moved_def)
  have os: "steady os" "\<And>t. os_lstat os t (fs_path source) = Not_Found" using moved by (simp_all add: still_moved_def)
  have binding: "ei_digest ?e = Some d \<Longrightarrow> is_metadata_binding d \<and> metadata_binding sha (snapshot_of (os_cwd os) target st) = d" for d
    using bound metadata_binding_cong [OF st(3)] by (simp add: identity_of_def)
  obtain v where v: "observe_path sha (fs_path source) ?e os (tick w) = (Inr State_Missing, v)"
    using observe_missing [OF os] by blast
  obtain u where u: "observe_path sha target ?e os v = (Inr State_Expected, u)"
    using observe_expected [OF os(1) st(1,2) same_identity_of [OF st(3)] binding] by blast
  have "classify_row sha row os w = classify_observed sha (action_of row) (ra_receipt row) ?e State_Missing os v"
    using row os(1) v parse_recorded [OF assms(3)]
    by (simp add: classify_row_def records_move_def abind_def ask_def steady_def Let_def)
  moreover have "classify_observed sha (action_of row) (ra_receipt row) ?e State_Missing os v
      = (Inr (classify_move (action_of row) State_Missing State_Expected), u)"
    using row u by (simp add: classify_observed_def records_move_def abind_def aret_def)
  ultimately show ?thesis by (simp add: classify_move_def)
qed


lemma demo_recorded:
  "is_metadata_binding demo_binding" "physical demo_source" "records_move demo_source demo_binding ''/r/g'' demo_row"
  "still_moved (steady_os moved_tree) demo_source ''/r/g''"
  by (simp_all add: demo_checks physical_def demo_source_def records_move_def demo_row_def is_trash_action_def starts_with_def
      still_moved_def steady_def steady_os_def moved_tree_def same_snapshot_def snap_identity_def snapshot_of_def demo_stat_def
      stat_birthtime_def UNAVAILABLE_BIRTHTIME_def)


text \<open>The case also shows that a definite classification occurs.\<close>

theorem reconciliation_justified_witness:
  "\<exists>r e. parse_expected_identity ''/'' (ra_expected demo_row) ''/r/f'' (Some ''/r/g'') = Inr e
    \<and> definite demo_digest (steady_os moved_tree) demo_row e r \<and> fr_classification r = ''confirmed''"
proof -
  obtain r w' where run: "classify_row demo_digest demo_row (steady_os moved_tree) start_world = (Inr r, w')"
      and r: "fr_classification r = ''confirmed''"
    using moved_row_confirmed [OF demo_recorded(3,4,2,1) demo_metadata] by blast
  have "os_cwd (steady_os moved_tree) = ''/''" "ra_source_path demo_row = ''/r/f''" "ra_target_path demo_row = Some ''/r/g''"
    by (simp_all add: steady_os_def demo_row_def)
  then show ?thesis using reconciliation_justified [OF run] r by auto
qed

section \<open>An applied trash is confirmed later\<close>

lemma trash_receipt_get:
  "json_get (trash_receipt source digest kind evidence) k = map_option sort_json
     (dict_get (update_items (effect_receipt_json ''trash'' (fs_path source) None None)
       [(''backend'', J_Text KIO_BACKEND_NAME), (''source_digest'', J_Text digest), (''object_kind'', J_Text kind), (''trash'', evidence)]) k)"
proof -
  have "dict_wf (effect_receipt_json ''trash'' (fs_path source) None None)"
    by (simp add: effect_receipt_json_def)
  then show ?thesis by (simp only: trash_receipt_def canonical_json_get dict_wf_update)
qed

lemma trash_receipt_entries:
  "json_get (trash_receipt source digest kind evidence) ''source_digest'' = Some (J_Text digest)"
  "json_get (trash_receipt source digest kind evidence) ''trash'' = Some (sort_json evidence)"
  unfolding trash_receipt_get by (simp_all add: update_items_def effect_receipt_json_def)

lemma trash_receipt_matches:
  assumes "ra_source_path action = fs_path source" and "ra_target_path action = None"
  shows "receipt_matches cwd (trash_receipt source digest kind evidence) ''trash'' action"
proof -
  let ?r = "trash_receipt source digest kind evidence"
  have "json_get ?r ''schema_version'' = Some (J_Int 1)" "json_get ?r ''operation'' = Some (J_Text ''trash'')"
    "json_get ?r ''receipt_type'' = Some (J_Text ''successful_return_and_observation'')"
    "json_get ?r ''source_absent'' = Some (J_Bool True)" "json_get ?r ''source_path'' = Some (J_Text (fs_path source))"
    "json_get ?r ''target_path'' = Some J_Null"
    unfolding trash_receipt_get by (simp_all add: update_items_def effect_receipt_json_def)
  moreover obtain items where "?r = J_Object items" by (auto simp: trash_receipt_def canonical_json_def)
  ultimately show ?thesis
    using assms by (simp add: receipt_matches_def json_str_def same_key_def json_path_def)
qed

lemma outcome_Inr: "outcome s reason d r os v = (Inr b, v') \<Longrightarrow> bo_status b = s \<and> bo_receipt b = r"
  by (auto simp: outcome_def Let_def act_simps split: option.splits)

lemma applied_trash_receipt:
  assumes "backend_outcome_of source digest kind answer os w = (Inr b, w')" and "bo_status b = Applied"
  shows "\<exists>evidence. kr_receipt answer = Some (Some evidence) \<and> bo_receipt b = Some (trash_receipt source digest kind evidence)"
proof -
  have status: "kr_status answer \<noteq> Blocked" "kr_status answer \<noteq> Recovery_Required"
    using assms by (auto simp: backend_outcome_of_def dest!: outcome_Inr split: if_splits)
  obtain document where document: "kr_receipt answer = Some document"
    using assms status by (cases "kr_receipt answer") (auto simp: backend_outcome_of_def dest!: outcome_Inr)
  obtain evidence where evidence: "document = Some evidence"
    using assms status document
    by (cases document) (auto simp: backend_outcome_of_def atry_def abind_def araise_def dest!: outcome_Inr)
  show ?thesis
    using assms status document evidence
    by (auto simp: backend_outcome_of_def atry_def abind_def aret_def lift_sum_def araise_def
        split: sum.splits prod.splits act_error.splits dest!: outcome_Inr)
qed

definition records_trash :: "file_snapshot \<Rightarrow> string \<Rightarrow> json option \<Rightarrow> action_row \<Rightarrow> bool" where
  "records_trash source digest receipt row \<longleftrightarrow> ra_source_path row = fs_path source \<and> ra_target_path row = None
     \<and> is_trash_action (action_of row) \<and> ra_receipt row = Some receipt
     \<and> ra_expected row = Some (Some (with_digest (expected_identity_json source (fs_path source) None) (Some digest)))"


definition trash_row :: action_row where
  "trash_row = demo_row\<lparr>ra_action_type := ''trash_file'', ra_target_path := None,
     ra_expected := Some (Some (with_digest (expected_identity_json demo_source ''/r/f'' None) (Some demo_binding))),
     ra_receipt := Some (Some (trash_receipt demo_source demo_binding KIO_OBJECT_FILE demo_evidence))\<rparr>"

definition trash_answer :: kio_trash_result where
  "trash_answer = \<lparr>kr_status = Applied, kr_reason = ''kio_trash_applied'', kr_detail = None, kr_receipt = Some (Some demo_evidence)\<rparr>"

lemma trash_answer_applied:
  "backend_outcome_of demo_source demo_binding KIO_OBJECT_FILE trash_answer trash_os start_world
     = (Inr \<lparr>bo_status = Applied, bo_reason = ''kio_trash_verified'', bo_detail = None,
          bo_receipt = Some (trash_receipt demo_source demo_binding KIO_OBJECT_FILE demo_evidence)\<rparr>, start_world)"
proof -
  have "trash_receipt_paths demo_evidence demo_source demo_binding = Inr (''/t'', ''/t/files/f'', ''/t/info/f.trashinfo'')"
    by code_simp
  moreover have "outcome_error \<lparr>bo_status = Applied, bo_reason = ''kio_trash_verified'', bo_detail = None,
          bo_receipt = Some (trash_receipt demo_source demo_binding KIO_OBJECT_FILE demo_evidence)\<rparr> = None" by code_simp
  ultimately show ?thesis
    by (simp add: backend_outcome_of_def trash_answer_def outcome_def atry_def abind_def aret_def lift_sum_def)
qed


end
