(* ===== verification/Trash_Claim.thy ===== *)
theory Trash_Claim
  imports Trash_Evidence
begin

text \<open>
  Moves around the desktop trash in \<open>safety/kio_trash.py\<close>: the descriptor-relative
  rename without replacement, the private claim of a source before the desktop
  client runs and its restoration, and the restoration of a trashed object from its
  receipt.
\<close>

section \<open>The rename of an admitted object\<close>

definition fsync_directory :: "unit act" where
  "fsync_directory = with_descriptor (\<lambda>fd. fsync_fd)"

definition fstat_or_raise :: "stat_answer act" where
  "fstat_or_raise = abind (ask os_fstat) (\<lambda>a. case a of Found _ _ \<Rightarrow> aret a | _ \<Rightarrow> araise (stat_failure a))"

definition claim_unsafe :: "string \<Rightarrow> file_snapshot \<Rightarrow> stat_answer \<Rightarrow> bool" where
  "claim_unsafe kind expected a = (case a of
     Found k st \<Rightarrow> k = Kind_Link \<or> \<not> destination_type_ok kind (k, st) \<or> \<not> stat_matches_snapshot expected st
   | _ \<Rightarrow> True)"

definition answer_identity :: "stat_answer \<Rightarrow> (int \<times> int) option" where
  "answer_identity a = (case a of Found _ st \<Rightarrow> Some (st_dev st, st_ino st) | _ \<Rightarrow> None)"

definition check_destination_free :: "string \<Rightarrow> unit act" where
  "check_destination_free destination = abind (lstat destination) (\<lambda>a. case a of
     Found _ _ \<Rightarrow> araise (KioTrashUnavailable ''kio_claim_collision'' ''private KIO claim destination already exists'')
   | Not_Found \<Rightarrow> aret ()
   | Stat_Error n msg \<Rightarrow> if n = 2 then aret () else araise (Act_OSError n msg))"

definition look_at_claim_source :: "string \<Rightarrow> string \<Rightarrow> file_snapshot \<Rightarrow> string \<Rightarrow> unit act" where
  "look_at_claim_source source destination expected kind =
     abind fstat_or_raise (\<lambda>opened.
     abind (araise_if (claim_unsafe kind expected opened)
       (KioTrashUnavailable ''kio_claim_source_changed'' ''claim source identity or metadata changed'')) (\<lambda>_.
     abind (check_destination_free destination) (\<lambda>_.
     abind fstat_or_raise (\<lambda>parent.
     abind (araise_if (map_option fst (answer_identity opened) \<noteq> map_option fst (answer_identity parent))
       (KioTrashUnavailable ''kio_claim_exdev'' ''private KIO claim requires one filesystem'')) (\<lambda>_.
     abind (stat_or_raise source) (\<lambda>current.
     araise_if (claim_unsafe kind expected current \<or> answer_identity current \<noteq> answer_identity opened)
       (KioTrashUnavailable ''kio_claim_source_changed'' ''claim source changed immediately before rename'')))))))"

definition claim_syscall_failure :: "act_error \<Rightarrow> act_error" where
  "claim_syscall_failure e = (case e of
     Act_OSError n msg \<Rightarrow>
       if n = 17 then KioTrashUnavailable ''kio_claim_collision'' ''private KIO claim destination already exists''
       else if n = 18 then KioTrashUnavailable ''kio_claim_exdev'' ''private KIO claim requires one filesystem''
       else if n \<in> {38, 22, 95} then KioTrashUnavailable ''kio_claim_unavailable'' ''renameat2(RENAME_NOREPLACE) is unavailable''
       else KioTrashUnavailable ''kio_claim_failed'' (''private KIO claim failed: '' @ msg)
   | _ \<Rightarrow> e)"

definition verify_claim :: "string \<Rightarrow> string \<Rightarrow> file_snapshot \<Rightarrow> string \<Rightarrow> unit act" where
  "verify_claim source destination expected kind =
     abind (lstat destination) (\<lambda>a. case a of
       Found _ _ \<Rightarrow>
         if claim_unsafe kind expected a
         then araise (KioTrashUnavailable ''kio_claim_unverified'' ''private KIO claim destination does not identify the source'')
         else abind (lexists source) (\<lambda>present. araise_if present
           (KioTrashUnavailable ''kio_claim_unverified'' ''private KIO claim destination does not identify the source''))
     | _ \<Rightarrow> araise (KioTrashUnavailable ''kio_claim_unverified'' ''private KIO claim destination cannot be verified''))"

text \<open>The three descriptors are closed on every path; the failures of closing are ignored.\<close>

definition claim_rename_block :: "string \<Rightarrow> string \<Rightarrow> file_snapshot \<Rightarrow> string \<Rightarrow> unit act" where
  "claim_rename_block source destination expected kind =
     with_descriptor (\<lambda>source_parent_fd. with_descriptor (\<lambda>destination_parent_fd. with_descriptor (\<lambda>source_fd.
       abind (look_at_claim_source source destination expected kind) (\<lambda>_.
       abind (atry (renameat2_noreplace (path_name source) (path_name destination)) (\<lambda>e. araise (claim_syscall_failure e))) (\<lambda>_.
       abind (verify_claim source destination expected kind) (\<lambda>_.
       abind fsync_directory (\<lambda>_.
       if path_parts (path_parent destination) \<noteq> path_parts (path_parent source) then fsync_directory else aret ())))))))"

definition claim_rename_error :: "act_error \<Rightarrow> act_error" where
  "claim_rename_error e = (case e of
     Act_OSError n msg \<Rightarrow> KioTrashUnavailable (if n = 18 then ''kio_claim_exdev'' else ''kio_claim_failed'')
       (''private KIO claim failed: '' @ msg)
   | _ \<Rightarrow> e)"

definition claim_rename :: "string \<Rightarrow> string \<Rightarrow> file_snapshot \<Rightarrow> string \<Rightarrow> unit act" where
  "claim_rename source destination expected kind =
     (if kind \<notin> {KIO_OBJECT_FILE, KIO_OBJECT_EMPTY_DIRECTORY}
      then araise (KioTrashUnavailable ''kio_object_kind_invalid'' ''unsupported KIO object kind'')
      else abind (lift_sum (absolute_path (fs_path expected) ''snapshot'')) (\<lambda>expected_path.
        abind (araise_if (path_parts expected_path \<noteq> path_parts source)
          (KioTrashUnavailable ''kio_claim_snapshot_path_mismatch'' ''claim snapshot does not identify the requested source path'')) (\<lambda>_.
        atry (claim_rename_block source destination expected kind) (\<lambda>e. araise (claim_rename_error e)))))"

section \<open>Private claims\<close>

record kio_trash_claim =
  kc_source :: string
  kc_path :: string
  kc_directory :: string
  kc_snapshot :: file_snapshot
  kc_kind :: string

definition make_directory :: "string act" where
  "make_directory = abind (ask os_mkdtemp) (\<lambda>r. case r of
     Inl (n, msg) \<Rightarrow> araise (Act_OSError n msg)
   | Inr path \<Rightarrow> abind (log_effect (Make_Directory path)) (\<lambda>_. aret path))"

definition call_or_raise :: "(os_answers \<Rightarrow> nat \<Rightarrow> (nat \<times> string) option) \<Rightarrow> unit act" where
  "call_or_raise f = abind (ask f) (\<lambda>r. case r of None \<Rightarrow> aret () | Some (n, msg) \<Rightarrow> araise (Act_OSError n msg))"

definition remove_directory :: "string \<Rightarrow> unit act" where
  "remove_directory path = abind (call_or_raise os_rmdir) (\<lambda>_. log_effect (Remove_Directory path))"

text \<open>
  \<open>KioTrashClaimUnavailable\<close> is the left part of the value: its reason, its detail and
  the claim that crossed the frontier.
\<close>

type_synonym claim_result = "(string \<times> string \<times> kio_trash_claim) + kio_trash_claim"

definition clean_claim_directory :: "string \<Rightarrow> act_error \<Rightarrow> 'a act" where
  "clean_claim_directory path e =
     abind (atry (abind listing_empty (\<lambda>empty. if empty then remove_directory path else aret ()))
       (\<lambda>err. if is_os_error err then aret () else araise err)) (\<lambda>_. araise e)"

definition claim_failure_detail :: "act_error \<Rightarrow> string \<times> string" where
  "claim_failure_detail e = (case e of
     KioTrashUnavailable reason detail \<Rightarrow> (reason, detail)
   | _ \<Rightarrow> (''kio_claim_failed'', error_class e @ '': '' @ error_text e))"

definition claim_failed :: "kio_trash_claim \<Rightarrow> act_error \<Rightarrow> claim_result act" where
  "claim_failed claim e =
     abind (lexists (kc_path claim)) (\<lambda>claimed.
     if claimed then (case claim_failure_detail e of (reason, detail) \<Rightarrow> aret (Inl (reason, detail, claim)))
     else clean_claim_directory (kc_directory claim) e)"

definition check_claim_empty :: "string \<Rightarrow> unit act" where
  "check_claim_empty kind = (if kind = KIO_OBJECT_EMPTY_DIRECTORY
     then abind listing_empty (\<lambda>empty. araise_if (\<not> empty)
       (KioTrashUnavailable ''kio_directory_not_empty'' ''empty-directory source contains an entry''))
     else aret ())"

definition claim_source :: "string \<Rightarrow> file_snapshot \<Rightarrow> string \<Rightarrow> claim_result act" where
  "claim_source source expected kind =
     abind (lift_sum (validate_object_kind (J_Text kind))) (\<lambda>_.
     abind make_directory (\<lambda>made.
     let claim = \<lparr>kc_source = source, kc_path = child_path (path_str made) (path_name source), kc_directory = path_str made,
       kc_snapshot = expected, kc_kind = kind\<rparr> in
     abind (atry (call_or_raise os_chmod) (clean_claim_directory (path_str made))) (\<lambda>_.
     atry (abind (check_claim_empty kind) (\<lambda>_.
         abind (claim_rename source (kc_path claim) expected kind) (\<lambda>_. aret (Inr claim))))
       (claim_failed claim))))"

definition restore_claimed_object :: "kio_trash_claim \<Rightarrow> unit act" where
  "restore_claimed_object claim =
     abind (lexists (kc_source claim)) (\<lambda>present.
     if present then
       abind (snapshot_path (kc_source claim)) (\<lambda>current.
       abind (araise_if (current \<noteq> kc_snapshot claim)
         (KioTrashUnavailable ''kio_claim_restore_collision'' ''original source path contains a different object'')) (\<lambda>_.
       abind (lexists (kc_path claim)) (\<lambda>claimed. araise_if claimed
         (KioTrashUnavailable ''kio_claim_restore_collision'' ''both original and claimed paths are present''))))
     else
       abind (lexists (kc_path claim)) (\<lambda>claimed.
       if claimed then claim_rename (kc_path claim) (kc_source claim) ((kc_snapshot claim)\<lparr>fs_path := kc_path claim\<rparr>) (kc_kind claim)
       else araise (KioTrashUnavailable ''kio_claim_restore_missing'' ''neither the original nor private KIO claim is present'')))"

definition restore_claim :: "kio_trash_claim \<Rightarrow> unit act" where
  "restore_claim claim =
     abind (restore_claimed_object claim) (\<lambda>_.
     abind (atry (remove_directory (kc_directory claim)) (\<lambda>e. case e of
         Act_OSError n msg \<Rightarrow> if n = 2 then aret () else araise (KioTrashUnavailable ''kio_claim_cleanup_failed''
           ''private KIO claim directory could not be removed'')
       | _ \<Rightarrow> araise e)) (\<lambda>_.
     atry fsync_directory (\<lambda>e. araise (if is_os_error e then KioTrashUnavailable ''kio_claim_cleanup_failed''
       ''private KIO claim directory removal could not be flushed'' else e))))"

section \<open>Restoring from a receipt\<close>

definition KIO_RESTORE_SCHEMA :: string where
  "KIO_RESTORE_SCHEMA = ''neocortex.kio-restore/v1''"

definition read_regular_bounded :: "byte list act" where
  "read_regular_bounded =
     with_descriptor (\<lambda>fd.
       abind fstat_or_raise (\<lambda>a.
       abind (araise_if (\<not> unique_regular a) (Act_ValueError ''file is not a regular unique file'')) (\<lambda>_.
       abind (ask os_bytes) (\<lambda>content.
       let raw = take (nat (MAX_TRASH_INFO_BYTES + 1)) content in
       abind (araise_if (too_long raw) (Act_ValueError ''file exceeds its bound'')) (\<lambda>_. aret raw)))))"

definition restore_identity :: "json option option \<Rightarrow> act_error + (string \<times> string \<times> json \<times> string)" where
  "restore_identity receipt = (case receipt of
     None \<Rightarrow> Inl (Act_ValueError ''KIO restore receipt must be non-empty JSON'')
   | Some None \<Rightarrow> Inl (Act_ValueError ''KIO restore receipt is malformed'')
   | Some (Some document) \<Rightarrow>
       if json_get document ''operation'' \<noteq> Some (J_Text ''trash'')
       then Inl (Act_ValueError ''KIO restore receipt is not a trash operation'')
       else case (json_get document ''source_path'', json_get document ''source_digest'') of
         (Some (J_Text source), Some (J_Text digest)) \<Rightarrow>
           (case json_get document ''trash'' of
              Some (J_Object items) \<Rightarrow>
                (case validate_object_kind (case json_get document ''object_kind'' of Some v \<Rightarrow> v
                    | None \<Rightarrow> (case dict_get items ''object_kind'' of Some v \<Rightarrow> v | None \<Rightarrow> J_Text KIO_OBJECT_FILE)) of
                   Inl e \<Rightarrow> Inl (Act_ValueError (error_text e))
                 | Inr kind \<Rightarrow> Inr (source, digest, J_Object items, kind))
            | _ \<Rightarrow> Inl (Act_ValueError ''KIO restore receipt lacks Trash evidence''))
       | _ \<Rightarrow> Inl (Act_ValueError ''KIO restore receipt lacks source identity''))"

definition restore_path :: "json \<Rightarrow> string \<Rightarrow> string \<Rightarrow> act_error + string" where
  "restore_path evidence key label = (case json_get evidence key of
     Some (J_Text v) \<Rightarrow> absolute_path v label
   | _ \<Rightarrow> Inl (Act_ValueError ''KIO restore receipt has invalid Trash paths''))"

definition after_colon :: "string \<Rightarrow> string" where
  "after_colon v = (if CHR '':'' \<in> set v then tl (dropWhile (\<lambda>c. c \<noteq> CHR '':'') v) else v)"

definition restore_digest_error :: "string \<Rightarrow> act_error option" where
  "restore_digest_error digest =
     (let expected = after_colon digest in
      if length expected \<noteq> 64 \<or> \<not> list_all (\<lambda>c. c \<in> set ''0123456789abcdef'') expected
      then Some (Act_ValueError (if is_metadata_binding digest then ''KIO restore metadata binding is invalid''
        else ''KIO restore digest is invalid''))
      else None)"

record restore_request =
  rr_source :: string
  rr_digest :: string
  rr_kind :: string
  rr_trash_root :: string
  rr_trash :: string
  rr_info :: string

definition restore_admission :: "json option option \<Rightarrow> string \<Rightarrow> restore_request act" where
  "restore_admission receipt root_dir =
     abind (lift_sum (restore_identity receipt)) (\<lambda>(source_value, digest, evidence, kind).
     abind (lift_sum (absolute_path source_value ''restore source'')) (\<lambda>source.
     abind (lift_sum (absolute_path root_dir ''restore root'')) (\<lambda>base.
     abind (validate_mutation_path base source ''restore source'' True False) (\<lambda>_.
     abind (lift_sum (restore_path evidence ''trash_root'' ''trash root'')) (\<lambda>trash_root.
     abind (lift_sum (restore_path evidence ''trash_path'' ''trash file'')) (\<lambda>trash_path.
     abind (lift_sum (restore_path evidence ''info_path'' ''trash info'')) (\<lambda>info_path.
     abind (validate_mutation_path trash_root trash_path ''trash file'' True False) (\<lambda>_.
     abind (validate_mutation_path trash_root info_path ''trash info'' True False) (\<lambda>_.
     abind (araise_if (path_name info_path \<noteq> path_name trash_path @ ''.trashinfo'')
       (Act_ValueError ''KIO restore metadata name does not match its file'')) (\<lambda>_.
     case restore_digest_error digest of
       Some e \<Rightarrow> araise e
     | None \<Rightarrow> aret \<lparr>rr_source = source, rr_digest = digest, rr_kind = kind, rr_trash_root = trash_root, rr_trash = trash_path,
         rr_info = info_path\<rparr>))))))))))"

definition restore_document :: "restore_request \<Rightarrow> string \<Rightarrow> (string \<times> json) list \<Rightarrow> json" where
  "restore_document rr status more_items = J_Object
     ([(''schema'', J_Text KIO_RESTORE_SCHEMA), (''status'', J_Text status), (''source_path'', J_Text (rr_source rr)),
       (''trash_path'', J_Text (rr_trash rr)), (''info_path'', J_Text (rr_info rr)), (''digest'', J_Text (rr_digest rr)),
       (''object_kind'', J_Text (rr_kind rr))] @ more_items)"

definition already_restored :: "(byte list \<Rightarrow> byte list) \<Rightarrow> restore_request \<Rightarrow> bool \<Rightarrow> json act" where
  "already_restored sha256 rr evidence_exists =
     abind (stat_or_raise (rr_source rr)) (\<lambda>a.
     abind (araise_if (case a of Found k st \<Rightarrow> k = Kind_Link \<or> \<not> destination_type_ok (rr_kind rr) (k, st) | _ \<Rightarrow> True)
       (KioTrashUnavailable ''kio_restore_destination_unsafe'' ''restore source has an unsafe object kind or identity'')) (\<lambda>_.
     abind (snapshot_path (rr_source rr)) (\<lambda>current.
     abind (binding_matches_snapshot sha256 current (rr_digest rr)) (\<lambda>bound.
     abind (araise_if (\<not> bound)
       (KioTrashUnavailable ''kio_restore_destination_collision'' ''restore destination contains different bytes'')) (\<lambda>_.
     abind (araise_if evidence_exists
       (KioTrashUnavailable ''kio_restore_collision'' ''restored source and Trash evidence both exist'')) (\<lambda>_.
     aret (restore_document rr ''already_restored'' [(''idempotent'', J_Bool True)])))))))"

definition names_restore_source :: "restore_request \<Rightarrow> byte list \<Rightarrow> bool" where
  "names_restore_source rr raw \<longleftrightarrow> resolve_trash_info_path (Some (path_parent (rr_trash_root rr)))
     (case trash_info_path_value raw of None \<Rightarrow> [] | Some v \<Rightarrow> v) = Some (normpath (rr_source rr))"

definition restore_evidence :: "restore_request \<Rightarrow> (file_snapshot \<times> byte list) act" where
  "restore_evidence rr =
     abind (stat_or_raise (rr_trash rr)) (\<lambda>t.
     abind (stat_or_raise (rr_info rr)) (\<lambda>i.
     abind (araise_if ((case t of Found k st \<Rightarrow> k = Kind_Link \<or> \<not> destination_type_ok (rr_kind rr) (k, st) | _ \<Rightarrow> True)
         \<or> \<not> unique_regular i)
       (KioTrashUnavailable ''kio_restore_evidence_unsafe'' ''Trash evidence is not a unique regular pair'')) (\<lambda>_.
     abind (snapshot_path (rr_info rr)) (\<lambda>info_snapshot.
     abind read_regular_bounded (\<lambda>raw.
     abind (araise_if (\<not> names_restore_source rr raw)
       (KioTrashUnavailable ''kio_restore_origin_mismatch'' ''Trash metadata does not name the original source'')) (\<lambda>_.
     aret (info_snapshot, raw)))))))"

text \<open>The private claim of the restoration data, and whether it still holds what was claimed.\<close>

definition metadata_claim_failed :: "act_error \<Rightarrow> act_error" where
  "metadata_claim_failed e = KioTrashUnavailable ''kio_restore_metadata_claim_failed''
     (''private metadata claim failed; recovery evidence may remain: '' @ error_class e @ '': '' @ error_text e)"

definition check_info_claim :: "string \<Rightarrow> file_snapshot \<Rightarrow> byte list \<Rightarrow> string \<Rightarrow> unit act" where
  "check_info_claim claimed info_snapshot raw detail =
     abind (snapshot_path claimed) (\<lambda>current.
     abind read_regular_bounded (\<lambda>content.
     araise_if (current \<noteq> info_snapshot\<lparr>fs_path := claimed\<rparr> \<or> content \<noteq> raw)
       (KioTrashUnavailable ''kio_restore_metadata_changed'' (detail @ claimed))))"

definition info_claim_error :: "string \<Rightarrow> string \<Rightarrow> act_error \<Rightarrow> 'a act" where
  "info_claim_error made claimed e = (case e of
     KioTrashUnavailable _ _ \<Rightarrow>
       abind (atry (abind (ask (\<lambda>os t. os_exists os t claimed)) (\<lambda>r. case r of
           Inl (n, msg) \<Rightarrow> araise (Act_OSError n msg)
         | Inr present \<Rightarrow> if present then aret () else remove_directory made))
         (\<lambda>err. if is_os_error err then aret () else araise err)) (\<lambda>_. araise e)
   | _ \<Rightarrow> araise (metadata_claim_failed e))"

definition claim_info :: "restore_request \<Rightarrow> file_snapshot \<Rightarrow> byte list \<Rightarrow> (string \<times> string) act" where
  "claim_info rr info_snapshot raw =
     abind (atry (abind make_directory (\<lambda>made. abind (call_or_raise os_chmod) (\<lambda>_. aret (path_str made))))
       (\<lambda>e. araise (metadata_claim_failed e))) (\<lambda>made.
     let claimed = child_path made (path_name (rr_info rr)) in
     atry (abind (claim_rename (rr_info rr) claimed info_snapshot KIO_OBJECT_FILE) (\<lambda>_.
         abind (check_info_claim claimed info_snapshot raw ''private metadata claim changed: '') (\<lambda>_.
         abind (validate_trash_info (path_parent (rr_trash_root rr)) (rr_source rr)) (\<lambda>_. aret (made, claimed)))))
       (info_claim_error made claimed))"

definition check_trash_object :: "(byte list \<Rightarrow> byte list) \<Rightarrow> restore_request \<Rightarrow> file_snapshot act" where
  "check_trash_object sha256 rr =
     abind (snapshot_path (rr_trash rr)) (\<lambda>trash_snapshot.
     abind (binding_matches_snapshot sha256 trash_snapshot (rr_digest rr)) (\<lambda>bound.
     abind (araise_if (\<not> bound)
       (KioTrashUnavailable ''kio_restore_content_changed'' ''Trash bytes differ from the receipt digest'')) (\<lambda>_.
     abind (if rr_kind rr = KIO_OBJECT_EMPTY_DIRECTORY
       then abind (atry listing_empty (\<lambda>e. araise (if is_os_error e
           then KioTrashUnavailable ''kio_restore_evidence_unsafe'' ''Trash directory emptiness cannot be verified'' else e))) (\<lambda>empty.
         araise_if (\<not> empty)
           (KioTrashUnavailable ''kio_restore_directory_not_empty'' ''Trash directory gained content after the effect''))
       else aret ()) (\<lambda>_.
     abind (stat_device (path_parent (rr_source rr))) (\<lambda>device.
     abind (araise_if (fs_volume trash_snapshot \<noteq> device)
       (KioTrashUnavailable ''kio_restore_exdev'' ''restore requires one filesystem'')) (\<lambda>_.
     aret trash_snapshot))))))"

definition retained_error :: "string \<Rightarrow> string \<Rightarrow> act_error \<Rightarrow> act_error" where
  "retained_error what claimed e = KioTrashUnavailable ''kio_restore_recovery_required''
     (what @ ''; private metadata claim retained at '' @ claimed @ '': '' @ error_class e @ '': '' @ error_text e)"

definition move_trash_object :: "restore_request \<Rightarrow> string \<Rightarrow> file_snapshot \<Rightarrow> (file_snapshot \<times> stat_answer) act" where
  "move_trash_object rr claimed trash_snapshot =
     abind (atry (claim_rename (rr_trash rr) (rr_source rr) trash_snapshot (rr_kind rr))
       (\<lambda>e. araise (retained_error ''Trash object restore failed'' claimed e))) (\<lambda>_.
     atry (abind fsync_directory (\<lambda>_. abind fsync_directory (\<lambda>_.
         abind (snapshot_path (rr_source rr)) (\<lambda>restored.
         abind (stat_or_raise (rr_source rr)) (\<lambda>a. aret (restored, a))))))
       (\<lambda>e. araise (retained_error ''restored object is present'' claimed e)))"

definition unlink_file :: "string \<Rightarrow> unit act" where
  "unlink_file path = abind (call_or_raise os_unlink) (\<lambda>_. log_effect (Unlink_File path))"

definition cleanup_error :: "string \<Rightarrow> act_error \<Rightarrow> act_error" where
  "cleanup_error claimed e = (case e of
     KioTrashUnavailable _ _ \<Rightarrow> e
   | _ \<Rightarrow> KioTrashUnavailable ''kio_restore_metadata_cleanup_required''
       (''restored object is present; retain metadata claim for recovery: '' @ claimed @ '': '' @ error_class e @ '': '' @ error_text e))"

definition remove_info_claim :: "string \<Rightarrow> string \<Rightarrow> file_snapshot \<Rightarrow> byte list \<Rightarrow> unit act" where
  "remove_info_claim made claimed info_snapshot raw =
     atry (abind (check_info_claim claimed info_snapshot raw ''private metadata claim changed after restore: '') (\<lambda>_.
         abind (unlink_file claimed) (\<lambda>_.
         abind fsync_directory (\<lambda>_.
         abind (remove_directory made) (\<lambda>_. fsync_directory)))))
       (\<lambda>e. araise (cleanup_error claimed e))"

definition finish_restore :: "(byte list \<Rightarrow> byte list) \<Rightarrow> restore_request \<Rightarrow> string \<Rightarrow> string \<Rightarrow> file_snapshot \<Rightarrow> byte list
    \<Rightarrow> file_snapshot \<times> stat_answer \<Rightarrow> json act" where
  "finish_restore sha256 rr made claimed info_snapshot raw restored = (case restored of (current, a) \<Rightarrow>
     if (case a of Found k st \<Rightarrow> k = Kind_Link \<or> \<not> destination_type_ok (rr_kind rr) (k, st) | _ \<Rightarrow> True)
     then aret (restore_document rr ''recovery_required'' [(''idempotent'', J_Bool False)])
     else abind (binding_matches_snapshot sha256 current (rr_digest rr)) (\<lambda>bound.
       if \<not> bound then aret (restore_document rr ''recovery_required'' [(''idempotent'', J_Bool False)])
       else abind (remove_info_claim made claimed info_snapshot raw) (\<lambda>_.
         aret (restore_document rr ''restored'' [(''info_removed'', J_Bool True), (''idempotent'', J_Bool False)]))))"

definition restore_trash_receipt :: "(byte list \<Rightarrow> byte list) \<Rightarrow> json option option \<Rightarrow> string \<Rightarrow> json act" where
  "restore_trash_receipt sha256 receipt root_dir =
     abind (restore_admission receipt root_dir) (\<lambda>rr.
     abind (lexists (rr_source rr)) (\<lambda>source_exists.
     abind (lexists (rr_trash rr)) (\<lambda>trash_exists.
     abind (lexists (rr_info rr)) (\<lambda>info_exists.
     if source_exists then already_restored sha256 rr (trash_exists \<or> info_exists)
     else if \<not> trash_exists \<or> \<not> info_exists
     then araise (KioTrashUnavailable ''kio_restore_evidence_missing'' ''Trash file or metadata is missing'')
     else
       abind (restore_evidence rr) (\<lambda>(info_snapshot, raw).
       abind (claim_info rr info_snapshot raw) (\<lambda>(made, claimed).
       abind (check_trash_object sha256 rr) (\<lambda>trash_snapshot.
       abind (move_trash_object rr claimed trash_snapshot) (\<lambda>restored.
       finish_restore sha256 rr made claimed info_snapshot raw restored))))))))"

end
