(* ===== verification/Trash_Claim_Safety.thy ===== *)
theory Trash_Claim_Safety
  imports Trash_Claim
begin

text \<open>
  Private claims, whatever the operating system answers: a claim is returned, surfaced
  or not visible, and its restoration is exact. A case shows where a claim that cannot
  be looked at is forgotten.
\<close>

section \<open>Traces\<close>

text \<open>
  A computation whose effects are added to the log and which changes nothing else
  but the moment; the predicate relates the answers, the result and the effects.
\<close>

definition traced :: "(os_answers \<Rightarrow> act_error + 'a \<Rightarrow> effect list \<Rightarrow> bool) \<Rightarrow> 'a act \<Rightarrow> bool" where
  "traced P m \<longleftrightarrow> (\<forall>os w r w'. m os w = (r, w') \<longrightarrow> (\<exists>t l. w' = w\<lparr>w_time := t, w_log := w_log w @ l\<rparr> \<and> P os r l))"

lemma tracedD: "traced P m \<Longrightarrow> m os w = (r, w') \<Longrightarrow> \<exists>t l. w' = w\<lparr>w_time := t, w_log := w_log w @ l\<rparr> \<and> P os r l"
  by (simp add: traced_def)

lemma tracedI:
  assumes "\<And>os w r w'. m os w = (r, w') \<Longrightarrow> \<exists>t l. w' = w\<lparr>w_time := t, w_log := w_log w @ l\<rparr> \<and> P os r l"
  shows "traced P m"
  using assms by (simp add: traced_def)

lemma traced_mono: "traced P m \<Longrightarrow> (\<And>os r l. P os r l \<Longrightarrow> Q os r l) \<Longrightarrow> traced Q m"
  unfolding traced_def by blast

lemma traced_quiet:
  assumes "quiet m" and "\<And>os w r w'. m os w = (r, w') \<Longrightarrow> Q os r"
  shows "traced (\<lambda>os r l. l = [] \<and> Q os r) m"
proof (rule tracedI)
  fix os w r w'
  assume run: "m os w = (r, w')"
  then obtain t where "w' = w\<lparr>w_time := t\<rparr>" using quietD [OF assms(1)] by blast
  then show "\<exists>t l. w' = w\<lparr>w_time := t, w_log := w_log w @ l\<rparr> \<and> l = [] \<and> Q os r" using assms(2) [OF run] by auto
qed

lemma traced_log: "traced (\<lambda>os r l. r = Inr () \<and> l = [e]) (log_effect e)"
proof (rule tracedI)
  fix os :: os_answers and w w' r
  assume "log_effect e os w = (r, w')"
  then show "\<exists>t l. w' = w\<lparr>w_time := t, w_log := w_log w @ l\<rparr> \<and> r = Inr () \<and> l = [e]"
    by (intro exI [of _ "w_time w"] exI [of _ "[e]"]) (auto simp: log_effect_def)
qed

lemma traced_abind:
  assumes "traced P m" and "\<And>x. traced (Q x) (f x)"
  shows "traced (\<lambda>os r l. (\<exists>e. r = Inl e \<and> P os (Inl e) l)
    \<or> (\<exists>x l1 l2. l = l1 @ l2 \<and> P os (Inr x) l1 \<and> Q x os r l2)) (abind m f)"
proof (rule tracedI)
  fix os w r w'
  assume run: "abind m f os w = (r, w')"
  obtain s v where m: "m os w = (s, v)" by force
  obtain t l where v: "v = w\<lparr>w_time := t, w_log := w_log w @ l\<rparr>" "P os s l" using tracedD [OF assms(1) m] by blast
  show "\<exists>t l. w' = w\<lparr>w_time := t, w_log := w_log w @ l\<rparr> \<and> ((\<exists>e. r = Inl e \<and> P os (Inl e) l)
    \<or> (\<exists>x l1 l2. l = l1 @ l2 \<and> P os (Inr x) l1 \<and> Q x os r l2))"
  proof (cases s)
    case (Inl e)
    then show ?thesis using run m v by (auto simp: abind_def)
  next
    case (Inr x)
    then have "f x os v = (r, w')" using run m by (simp add: abind_def)
    from tracedD [OF assms(2) this] obtain t' l' where "w' = v\<lparr>w_time := t', w_log := w_log v @ l'\<rparr>" "Q x os r l'" by blast
    then show ?thesis using v Inr by (intro exI [of _ t'] exI [of _ "l @ l'"]) auto
  qed
qed

lemma traced_atry:
  assumes "traced P m" and "\<And>e. traced (H e) (h e)"
  shows "traced (\<lambda>os r l. (\<exists>x. r = Inr x \<and> P os (Inr x) l)
    \<or> (\<exists>e l1 l2. l = l1 @ l2 \<and> P os (Inl e) l1 \<and> H e os r l2)) (atry m h)"
proof (rule tracedI)
  fix os w r w'
  assume run: "atry m h os w = (r, w')"
  obtain s v where m: "m os w = (s, v)" by force
  obtain t l where v: "v = w\<lparr>w_time := t, w_log := w_log w @ l\<rparr>" "P os s l" using tracedD [OF assms(1) m] by blast
  show "\<exists>t l. w' = w\<lparr>w_time := t, w_log := w_log w @ l\<rparr> \<and> ((\<exists>x. r = Inr x \<and> P os (Inr x) l)
    \<or> (\<exists>e l1 l2. l = l1 @ l2 \<and> P os (Inl e) l1 \<and> H e os r l2))"
  proof (cases s)
    case (Inr x)
    then show ?thesis using run m v by (auto simp: atry_def)
  next
    case (Inl e)
    then have "h e os v = (r, w')" using run m by (simp add: atry_def)
    from tracedD [OF assms(2) this] obtain t' l' where "w' = v\<lparr>w_time := t', w_log := w_log v @ l'\<rparr>" "H e os r l'" by blast
    then show ?thesis using v Inl by (intro exI [of _ t'] exI [of _ "l @ l'"]) auto
  qed
qed

lemma traced_with_descriptor:
  assumes "\<And>fd. traced P (m fd)"
  shows "traced (\<lambda>os r l. P os r l \<or> l = [] \<and> (\<exists>e. r = Inl e)) (with_descriptor m)"
proof (rule tracedI)
  fix os w r w'
  assume run: "with_descriptor m os w = (r, w')"
  obtain s v where o: "open_fd os w = (s, v)" by force
  show "\<exists>t l. w' = w\<lparr>w_time := t, w_log := w_log w @ l\<rparr> \<and> (P os r l \<or> l = [] \<and> (\<exists>e. r = Inl e))"
  proof (cases s)
    case (Inl e)
    then have "w' = w\<lparr>w_time := Suc (w_time w)\<rparr>" "r = Inl e"
      using run o by (auto simp: with_descriptor_def abind_def open_fd_def ask_def araise_def tick_def split: if_splits option.splits)
    then show ?thesis by (intro exI [of _ "Suc (w_time w)"] exI [of _ "[]"]) simp
  next
    case (Inr fd)
    then have v: "v = w\<lparr>w_time := Suc (w_time w), w_open := fd # w_open w\<rparr>"
      using o by (auto simp: open_fd_def abind_def ask_def araise_def tick_def split: if_splits option.splits)
    obtain u where u: "m fd os v = (r, u)" "w' = u\<lparr>w_open := remove1 fd (w_open u)\<rparr>"
      using run o Inr by (auto simp: with_descriptor_def abind_def close_fd_def split: prod.splits)
    from tracedD [OF assms u(1)] obtain t l where "u = v\<lparr>w_time := t, w_log := w_log v @ l\<rparr>" "P os r l" by blast
    then show ?thesis using u(2) v by auto
  qed
qed

lemma traced_observe: "quiet m \<Longrightarrow> traced (\<lambda>os r l. l = []) m"
  using traced_quiet [of m "\<lambda>_ _. True"] by simp

lemma traced_pure_raise: "traced (\<lambda>os r l. r = Inl e \<and> l = []) (araise e)"
  using traced_quiet [OF quiet_araise, of e "\<lambda>os r. r = Inl e"] by (auto simp: araise_def conj_commute)

lemma traced_pure_ret: "traced (\<lambda>os r l. r = Inr x \<and> l = []) (aret x)"
  using traced_quiet [OF quiet_aret, of x "\<lambda>os r. r = Inr x"] by (auto simp: aret_def conj_commute)

lemma traced_after:
  assumes "quiet m" and "\<And>x. traced P (f x)" and "\<And>os e. P os (Inl e) []"
  shows "traced P (abind m f)"
  by (rule traced_mono [OF traced_abind [OF traced_observe [OF assms(1)] assms(2)]]) (auto simp: assms(3))

lemma traced_raise: "(\<And>os. P os (Inl e) []) \<Longrightarrow> traced P (araise e)"
  by (rule traced_mono [OF traced_pure_raise]) auto

lemma traced_ret: "(\<And>os. P os (Inr x) []) \<Longrightarrow> traced P (aret x)"
  by (rule traced_mono [OF traced_pure_ret]) auto

section \<open>The rename\<close>

text \<open>After the rename the destination was seen as the admitted object, and then no source.\<close>

definition claim_seen :: "os_answers \<Rightarrow> string \<Rightarrow> string \<Rightarrow> file_snapshot \<Rightarrow> string \<Rightarrow> bool" where
  "claim_seen os source destination expected kind \<longleftrightarrow> (\<exists>t. \<not> claim_unsafe kind expected (os_lstat os t destination)
     \<and> (\<forall>k st. os_lstat os (Suc t) source \<noteq> Found k st))"

definition rename_trace :: "string \<Rightarrow> string \<Rightarrow> file_snapshot \<Rightarrow> string \<Rightarrow> os_answers \<Rightarrow> act_error + unit \<Rightarrow> effect list \<Rightarrow> bool" where
  "rename_trace source destination expected kind os r l \<longleftrightarrow>
     (l = [] \<or> (\<exists>done. l = [Rename_Noreplace (path_name source) (path_name destination) done]))
     \<and> (r = Inr () \<longrightarrow> l = [Rename_Noreplace (path_name source) (path_name destination) True] \<and> claim_seen os source destination expected kind)"

lemma quiet_fstat_or_raise [quiet_intros]: "quiet fstat_or_raise"
  unfolding fstat_or_raise_def by (intro quiet_intros)

lemma quiet_stat_or_raise [quiet_intros]: "quiet (stat_or_raise p)"
  unfolding stat_or_raise_def by (intro quiet_intros)

lemma quiet_fsync_directory [quiet_intros]: "quiet fsync_directory"
  unfolding fsync_directory_def by (intro quiet_intros)

lemma quiet_check_destination_free [quiet_intros]: "quiet (check_destination_free p)"
  unfolding check_destination_free_def by (intro quiet_intros)

lemma quiet_look_at_claim_source [quiet_intros]: "quiet (look_at_claim_source s d e k)"
  unfolding look_at_claim_source_def by (intro quiet_intros)

lemma quiet_verify_claim [quiet_intros]: "quiet (verify_claim s d e k)"
  unfolding verify_claim_def by (intro quiet_intros)

lemma verify_claim_seen:
  assumes "verify_claim s d e k os w = (Inr (), w')"
  shows "claim_seen os s d e k"
  using assms unfolding verify_claim_def lexists_def lstat_def claim_seen_def
  by (intro exI [of _ "w_time w"]) (auto simp: act_simps tick_def split: stat_answer.splits if_splits)

lemma traced_renameat2:
  "traced (\<lambda>os r l. (\<exists>done. l = [Rename_Noreplace s d done] \<and> (r = Inr () \<longrightarrow> done)) \<or> l = [] \<and> (\<exists>e. r = Inl e)) (renameat2_noreplace s d)"
proof -
  have "traced (\<lambda>os r l. \<exists>done. l = [Rename_Noreplace s d done] \<and> (r = Inr () \<longrightarrow> done))
      (case a of None \<Rightarrow> log_effect (Rename_Noreplace s d True)
       | Some (n, msg) \<Rightarrow> abind (log_effect (Rename_Noreplace s d False)) (\<lambda>_. araise (Act_OSError n msg)))" for a
  proof (cases a)
    case None
    show ?thesis unfolding None option.case by (rule traced_mono [OF traced_log]) auto
  next
    case (Some p)
    show ?thesis unfolding Some option.case case_prod_beta
      by (rule traced_mono [OF traced_abind [OF traced_log traced_pure_raise]]) auto
  qed
  from traced_abind [OF traced_observe [OF quiet_ask] this] show ?thesis
    unfolding renameat2_noreplace_def by (rule traced_mono) fastforce
qed

lemma traced_claim_rename_block: "traced (rename_trace source destination expected kind) (claim_rename_block source destination expected kind)"
proof -
  let ?P = "rename_trace source destination expected kind"
  let ?r = "\<lambda>b. [Rename_Noreplace (path_name source) (path_name destination) b]"
  have call: "traced (\<lambda>os r l. (\<exists>b. l = ?r b \<and> (r = Inr () \<longrightarrow> b)) \<or> l = [] \<and> (\<exists>e. r = Inl e))
      (atry (renameat2_noreplace (path_name source) (path_name destination)) (\<lambda>e. araise (claim_syscall_failure e)))"
    by (rule traced_mono [OF traced_atry [OF traced_renameat2 traced_pure_raise]]) auto
  have verify: "traced (\<lambda>os r l. l = [] \<and> (r = Inr () \<longrightarrow> claim_seen os source destination expected kind))
      (verify_claim source destination expected kind)"
    by (rule traced_quiet [OF quiet_verify_claim]) (use verify_claim_seen in blast)
  have fsync: "traced (\<lambda>os r l. l = []) (abind fsync_directory (\<lambda>_. if c then fsync_directory else aret ()))" for c
    by (rule traced_observe) (intro quiet_intros)
  have "traced ?P (abind (look_at_claim_source source destination expected kind) (\<lambda>_.
       abind (atry (renameat2_noreplace (path_name source) (path_name destination)) (\<lambda>e. araise (claim_syscall_failure e))) (\<lambda>_.
       abind (verify_claim source destination expected kind) (\<lambda>_.
       abind fsync_directory (\<lambda>_.
       if path_parts (path_parent destination) \<noteq> path_parts (path_parent source) then fsync_directory else aret ())))))"
    by (rule traced_mono [OF traced_abind [OF traced_observe [OF quiet_look_at_claim_source]
          traced_abind [OF call traced_abind [OF verify fsync]]]]) (auto simp: rename_trace_def)
  then show ?thesis
    unfolding claim_rename_block_def
    by (auto intro!: traced_mono [OF traced_with_descriptor, where Q = ?P] simp: rename_trace_def)
qed

lemma traced_claim_rename: "traced (rename_trace source destination expected kind) (claim_rename source destination expected kind)"
proof -
  have block: "traced (rename_trace source destination expected kind)
      (atry (claim_rename_block source destination expected kind) (\<lambda>e. araise (claim_rename_error e)))"
    by (rule traced_mono [OF traced_atry [OF traced_claim_rename_block traced_pure_raise]]) (auto simp: rename_trace_def)
  then show ?thesis
    unfolding claim_rename_def
    by (auto intro!: traced_after traced_raise quiet_intros simp: rename_trace_def)
qed

section \<open>Claims\<close>

definition claim_at :: "string \<Rightarrow> file_snapshot \<Rightarrow> string \<Rightarrow> string \<Rightarrow> kio_trash_claim" where
  "claim_at source expected kind made = \<lparr>kc_source = source, kc_path = child_path (path_str made) (path_name source),
     kc_directory = path_str made, kc_snapshot = expected, kc_kind = kind\<rparr>"

definition absent_seen :: "os_answers \<Rightarrow> string \<Rightarrow> bool" where
  "absent_seen os path \<longleftrightarrow> (\<exists>t. \<forall>k st. os_lstat os t path \<noteq> Found k st)"

definition present_seen :: "os_answers \<Rightarrow> string \<Rightarrow> bool" where
  "present_seen os path \<longleftrightarrow> (\<exists>t k st. os_lstat os t path = Found k st)"

definition moves :: "kio_trash_claim \<Rightarrow> effect list \<Rightarrow> bool" where
  "moves c l \<longleftrightarrow> Rename_Noreplace (path_name (kc_source c)) (path_name (kc_path c)) True \<in> set l"

text \<open>The effects of a claim: the directory, at most one rename, and at most one removal of the directory.\<close>

definition claim_effects :: "kio_trash_claim \<Rightarrow> effect list \<Rightarrow> bool" where
  "claim_effects c l \<longleftrightarrow> (\<exists>made renames removed. l = Make_Directory made # renames @ removed \<and> kc_directory c = path_str made
     \<and> (renames = [] \<or> (\<exists>done. renames = [Rename_Noreplace (path_name (kc_source c)) (path_name (kc_path c)) done]))
     \<and> (removed = [] \<or> removed = [Remove_Directory (kc_directory c)]))"

definition claim_trace :: "string \<Rightarrow> file_snapshot \<Rightarrow> string \<Rightarrow> os_answers \<Rightarrow> act_error + claim_result \<Rightarrow> effect list \<Rightarrow> bool" where
  "claim_trace source expected kind os r l = (case r of
     Inr (Inr c) \<Rightarrow> (\<exists>made. c = claim_at source expected kind made
       \<and> l = [Make_Directory made, Rename_Noreplace (path_name source) (path_name (kc_path c)) True]
       \<and> claim_seen os source (kc_path c) expected kind)
   | Inr (Inl (reason, detail, c)) \<Rightarrow> (\<exists>made. c = claim_at source expected kind made \<and> claim_effects c l \<and> present_seen os (kc_path c))
   | Inl e \<Rightarrow> l = [] \<or> (\<exists>made. let c = claim_at source expected kind made in
       claim_effects c l \<and> (moves c l \<longrightarrow> absent_seen os (kc_path c) \<or> (\<exists>name. e = Act_Interrupted name))))"

lemma traced_make_directory:
  "traced (\<lambda>os r l. (\<exists>made. r = Inr made \<and> l = [Make_Directory made]) \<or> l = [] \<and> (\<exists>e. r = Inl e)) make_directory"
proof -
  have "traced (\<lambda>os r l. (\<exists>made. r = Inr made \<and> l = [Make_Directory made]) \<or> l = [] \<and> (\<exists>e. r = Inl e))
      (case a of Inl (n, msg) \<Rightarrow> araise (Act_OSError n msg) | Inr path \<Rightarrow> abind (log_effect (Make_Directory path)) (\<lambda>_. aret path))" for a
  proof (cases a)
    case (Inl p)
    show ?thesis unfolding Inl sum.case case_prod_beta by (rule traced_raise) simp
  next
    case (Inr path)
    show ?thesis unfolding Inr sum.case by (rule traced_mono [OF traced_abind [OF traced_log traced_pure_ret]]) auto
  qed
  then show ?thesis unfolding make_directory_def by (rule traced_after [OF quiet_ask]) simp
qed

lemma quiet_call_or_raise [quiet_intros]: "quiet (call_or_raise f)"
  unfolding call_or_raise_def by (intro quiet_intros)

lemma quiet_check_claim_empty [quiet_intros]: "quiet (check_claim_empty k)"
  unfolding check_claim_empty_def by (intro quiet_intros)

lemma traced_call_or_raise:
  "traced (\<lambda>os r l. l = [] \<and> (\<forall>n msg. r = Inl (Act_OSError n msg) \<longrightarrow> (\<exists>t. f os t = Some (n, msg)))) (call_or_raise f)"
  by (rule traced_quiet [OF quiet_call_or_raise])
    (auto simp: call_or_raise_def abind_def ask_def aret_def araise_def split: option.splits if_splits)

lemma traced_remove_directory_seen:
  "traced (\<lambda>os r l. l = [Remove_Directory p] \<and> r = Inr () \<or> l = [] \<and> (\<exists>e. r = Inl e
     \<and> (\<forall>n msg. e = Act_OSError n msg \<longrightarrow> (\<exists>t. os_rmdir os t = Some (n, msg))))) (remove_directory p)"
  unfolding remove_directory_def
  by (rule traced_mono [OF traced_abind [OF traced_call_or_raise traced_log]]) auto

lemma traced_remove_directory:
  "traced (\<lambda>os r l. l = [Remove_Directory p] \<and> r = Inr () \<or> l = [] \<and> (\<exists>e. r = Inl e)) (remove_directory p)"
  by (rule traced_mono [OF traced_remove_directory_seen]) auto

lemma traced_clean_claim_directory:
  "traced (\<lambda>os r l. (l = [] \<or> l = [Remove_Directory p]) \<and> (\<exists>e'. r = Inl e')) (clean_claim_directory p e)"
proof -
  have "traced (\<lambda>os r l. l = [] \<or> l = [Remove_Directory p] \<and> r = Inr ())
      (abind listing_empty (\<lambda>empty. if empty then remove_directory p else aret ()))"
    by (auto intro!: traced_after quiet_intros traced_mono [OF traced_remove_directory] traced_ret)
  from traced_atry [OF this, of "\<lambda>_ _ _ l. l = []"]
  have "traced (\<lambda>os r l. l = [] \<or> l = [Remove_Directory p])
      (atry (abind listing_empty (\<lambda>empty. if empty then remove_directory p else aret ()))
        (\<lambda>err. if is_os_error err then aret () else araise err))"
    by (rule traced_mono) (auto intro!: traced_ret traced_raise)
  then show ?thesis
    unfolding clean_claim_directory_def
    by (rule traced_mono [OF traced_abind [OF _ traced_pure_raise]]) auto
qed

lemma lexists_seen: "lexists p os w = (Inr b, w') \<Longrightarrow> if b then present_seen os p else absent_seen os p"
  by (auto simp: lexists_def lstat_def act_simps present_seen_def absent_seen_def split: stat_answer.splits intro!: exI [of _ "w_time w"])

lemma lexists_raises: "lexists p os w = (Inl e, w') \<Longrightarrow> \<exists>name. e = Act_Interrupted name"
  by (auto simp: lexists_def lstat_def abind_def ask_def aret_def split: if_splits)

lemma traced_lexists:
  "traced (\<lambda>os r l. l = [] \<and> (case r of Inr b \<Rightarrow> if b then present_seen os p else absent_seen os p
     | Inl e \<Rightarrow> \<exists>name. e = Act_Interrupted name)) (lexists p)"
proof (rule traced_quiet [OF quiet_lexists])
  fix os w r w'
  assume "lexists p os w = (r, w')"
  then show "case r of Inr b \<Rightarrow> if b then present_seen os p else absent_seen os p | Inl e \<Rightarrow> \<exists>name. e = Act_Interrupted name"
    using lexists_seen lexists_raises by (cases r) fastforce+
qed

text \<open>The handler: it surfaces the claim, or the claim was not there, or it was interrupted.\<close>

definition failed_trace :: "kio_trash_claim \<Rightarrow> os_answers \<Rightarrow> act_error + claim_result \<Rightarrow> effect list \<Rightarrow> bool" where
  "failed_trace c os r l = (case r of
     Inr (Inl (reason, detail, c')) \<Rightarrow> c' = c \<and> l = [] \<and> present_seen os (kc_path c)
   | Inr (Inr _) \<Rightarrow> False
   | Inl e \<Rightarrow> (l = [] \<or> l = [Remove_Directory (kc_directory c)]) \<and> (absent_seen os (kc_path c) \<or> (\<exists>name. e = Act_Interrupted name)))"

lemma traced_claim_failed: "traced (failed_trace c) (claim_failed c e)"
proof -
  have "traced (\<lambda>os r l. if b then \<exists>reason detail. r = Inr (Inl (reason, detail, c)) \<and> l = []
        else (l = [] \<or> l = [Remove_Directory (kc_directory c)]) \<and> (\<exists>e'. r = Inl e'))
      (if b then (case claim_failure_detail e of (reason, detail) \<Rightarrow> aret (Inl (reason, detail, c)))
       else clean_claim_directory (kc_directory c) e)" for b
    using traced_clean_claim_directory by (cases b) (auto simp: case_prod_beta intro!: traced_ret)
  from traced_abind [OF traced_lexists this] show ?thesis
    unfolding claim_failed_def by (rule traced_mono) (auto simp: failed_trace_def split: sum.splits if_splits)
qed

definition attempt_trace :: "kio_trash_claim \<Rightarrow> os_answers \<Rightarrow> act_error + claim_result \<Rightarrow> effect list \<Rightarrow> bool" where
  "attempt_trace c os r l \<longleftrightarrow>
     (l = [] \<or> (\<exists>done. l = [Rename_Noreplace (path_name (kc_source c)) (path_name (kc_path c)) done]))
     \<and> (case r of Inr x \<Rightarrow> x = Inr c \<and> l = [Rename_Noreplace (path_name (kc_source c)) (path_name (kc_path c)) True]
          \<and> claim_seen os (kc_source c) (kc_path c) (kc_snapshot c) (kc_kind c) | Inl e \<Rightarrow> True)"

lemma claim_trace_chmod:
  "l = [] \<or> l = [Remove_Directory (path_str made)] \<Longrightarrow> claim_trace source expected kind os (Inl e) (Make_Directory made # l)"
  by (auto simp: claim_trace_def claim_effects_def moves_def claim_at_def Let_def intro!: exI [of _ made])

lemma claim_at_simps [simp]:
  "kc_source (claim_at source expected kind made) = source" "kc_directory (claim_at source expected kind made) = path_str made"
  "kc_snapshot (claim_at source expected kind made) = expected" "kc_kind (claim_at source expected kind made) = kind"
  by (simp_all add: claim_at_def)

lemma claim_trace_nothing: "claim_trace source expected kind os (Inl e) []"
  by (simp add: claim_trace_def)

lemma claim_trace_claimed:
  "attempt_trace (claim_at source expected kind made) os (Inr x) l \<Longrightarrow> claim_trace source expected kind os (Inr x) (Make_Directory made # l)"
  by (auto simp: claim_trace_def attempt_trace_def)

lemma claim_trace_failed:
  assumes "attempt_trace (claim_at source expected kind made) os (Inl e) l1" and "failed_trace (claim_at source expected kind made) os r l2"
  shows "claim_trace source expected kind os r (Make_Directory made # l1 @ l2)"
proof -
  let ?c = "claim_at source expected kind made"
  have effects: "claim_effects ?c (Make_Directory made # l1 @ l2)" if "l2 = [] \<or> l2 = [Remove_Directory (path_str made)]"
    unfolding claim_effects_def using assms(1) that unfolding attempt_trace_def claim_at_simps by blast
  show ?thesis
  proof (cases r)
    case (Inl e')
    then have "claim_effects ?c (Make_Directory made # l1 @ l2)" "absent_seen os (kc_path ?c) \<or> (\<exists>name. e' = Act_Interrupted name)"
      using assms(2) effects by (auto simp: failed_trace_def)
    then show ?thesis unfolding Inl claim_trace_def Let_def sum.case by blast
  next
    case (Inr x)
    then obtain reason detail where x: "x = Inl (reason, detail, ?c)" "l2 = []" "present_seen os (kc_path ?c)"
      using assms(2) by (auto simp: failed_trace_def split: sum.splits)
    then show ?thesis using effects unfolding Inr x(1) claim_trace_def sum.case prod.case by blast
  qed
qed

lemma traced_claim_attempt:
  "traced (attempt_trace c) (abind (check_claim_empty (kc_kind c)) (\<lambda>_.
     abind (claim_rename (kc_source c) (kc_path c) (kc_snapshot c) (kc_kind c)) (\<lambda>_. aret (Inr c))))"
  by (rule traced_after [OF quiet_check_claim_empty traced_mono [OF traced_abind [OF traced_claim_rename traced_pure_ret]]])
    (auto simp: rename_trace_def attempt_trace_def)

lemma claim_source_unfold:
  "claim_source source expected kind = abind (lift_sum (validate_object_kind (J_Text kind))) (\<lambda>_. abind make_directory (\<lambda>made.
      let c = claim_at source expected kind made in
      abind (atry (call_or_raise os_chmod) (clean_claim_directory (path_str made))) (\<lambda>_.
       atry (abind (check_claim_empty (kc_kind c)) (\<lambda>_.
         abind (claim_rename (kc_source c) (kc_path c) (kc_snapshot c) (kc_kind c)) (\<lambda>_. aret (Inr c)))) (claim_failed c))))"
  by (simp add: claim_source_def claim_at_def Let_def)

lemma traced_claim_source: "traced (claim_trace source expected kind) (claim_source source expected kind)"
proof -
  let ?c = "claim_at source expected kind"
  have body: "traced (\<lambda>os r l. claim_trace source expected kind os r (Make_Directory made # l))
      (let c = ?c made in
      abind (atry (call_or_raise os_chmod) (clean_claim_directory (path_str made))) (\<lambda>_.
       atry (abind (check_claim_empty (kc_kind c)) (\<lambda>_.
         abind (claim_rename (kc_source c) (kc_path c) (kc_snapshot c) (kc_kind c)) (\<lambda>_. aret (Inr c)))) (claim_failed c)))" for made
    unfolding Let_def
    by (rule traced_mono [OF traced_abind [OF traced_atry [OF traced_observe [OF quiet_call_or_raise] traced_clean_claim_directory]
          traced_atry [OF traced_claim_attempt traced_claim_failed]]], elim disjE exE conjE)
      (simp_all add: claim_trace_chmod claim_trace_claimed claim_trace_failed)
  have "traced (claim_trace source expected kind) (abind make_directory (\<lambda>made. let c = ?c made in
      abind (atry (call_or_raise os_chmod) (clean_claim_directory (path_str made))) (\<lambda>_.
       atry (abind (check_claim_empty (kc_kind c)) (\<lambda>_.
         abind (claim_rename (kc_source c) (kc_path c) (kc_snapshot c) (kc_kind c)) (\<lambda>_. aret (Inr c)))) (claim_failed c))))"
    by (rule traced_mono [OF traced_abind [OF traced_make_directory body]], elim disjE exE conjE) (simp_all add: claim_trace_nothing)
  then show ?thesis
    unfolding claim_source_unfold by (rule traced_after [OF quiet_lift_sum]) (rule claim_trace_nothing)
qed


section \<open>Restoring a claim\<close>

definition back_trace :: "kio_trash_claim \<Rightarrow> os_answers \<Rightarrow> act_error + unit \<Rightarrow> effect list \<Rightarrow> bool" where
  "back_trace c os r l \<longleftrightarrow>
     (l = [] \<or> (\<exists>done. l = [Rename_Noreplace (path_name (kc_path c)) (path_name (kc_source c)) done]))
     \<and> (r = Inr () \<longrightarrow>
         l = [] \<and> absent_seen os (kc_path c) \<and> (\<exists>t k st. os_lstat os t (kc_source c) = Found k st
            \<and> snapshot_of (os_cwd os) (kc_source c) st = kc_snapshot c)
       \<or> l = [Rename_Noreplace (path_name (kc_path c)) (path_name (kc_source c)) True]
         \<and> claim_seen os (kc_path c) (kc_source c) ((kc_snapshot c)\<lparr>fs_path := kc_path c\<rparr>) (kc_kind c))"

lemma traced_back_present:
  "traced (back_trace c) (abind (snapshot_path (kc_source c)) (\<lambda>current.
       abind (araise_if (current \<noteq> kc_snapshot c) e) (\<lambda>_.
       abind (lexists (kc_path c)) (\<lambda>claimed. araise_if claimed e'))))"
proof -
  have q: "quiet (abind (snapshot_path (kc_source c)) (\<lambda>current.
       abind (araise_if (current \<noteq> kc_snapshot c) e) (\<lambda>_.
       abind (lexists (kc_path c)) (\<lambda>claimed. araise_if claimed e'))))"
    by (intro quiet_intros)
  show ?thesis
  proof (rule traced_mono [OF traced_quiet [OF q, where Q = "\<lambda>os r. r = Inr () \<longrightarrow> absent_seen os (kc_path c)
        \<and> (\<exists>t k st. os_lstat os t (kc_source c) = Found k st \<and> snapshot_of (os_cwd os) (kc_source c) st = kc_snapshot c)"]], goal_cases)
    case (1 os w r w')
    show ?case
    proof
      assume "r = Inr ()"
      with 1 obtain v v' v'' where "snapshot_path (kc_source c) os w = (Inr (kc_snapshot c), v)" "lexists (kc_path c) os v' = (Inr False, v'')"
        by (auto simp: act_simps)
      then show "absent_seen os (kc_path c) \<and> (\<exists>t k st. os_lstat os t (kc_source c) = Found k st
          \<and> snapshot_of (os_cwd os) (kc_source c) st = kc_snapshot c)"
        using lexists_seen [of "kc_path c"] by (fastforce simp: snapshot_path_def act_simps split: stat_answer.splits)
    qed
  qed (auto simp: back_trace_def)
qed

lemma traced_restore_claimed_object: "traced (back_trace c) (restore_claimed_object c)"
proof -
  have rename: "traced (back_trace c) (claim_rename (kc_path c) (kc_source c) ((kc_snapshot c)\<lparr>fs_path := kc_path c\<rparr>) (kc_kind c))"
    by (rule traced_mono [OF traced_claim_rename]) (auto simp: rename_trace_def back_trace_def)
  show ?thesis
    unfolding restore_claimed_object_def
    by (intro traced_after quiet_intros) (auto intro!: traced_back_present traced_after quiet_intros rename traced_raise simp: back_trace_def)
qed

text \<open>
  The ends of a restoration: the object first, and then the claim directory, which is
  removed unless it is gone.
\<close>

definition restored_trace :: "kio_trash_claim \<Rightarrow> os_answers \<Rightarrow> act_error + unit \<Rightarrow> effect list \<Rightarrow> bool" where
  "restored_trace c os r l \<longleftrightarrow> (\<exists>e moved removed. l = moved @ removed \<and> back_trace c os e moved
     \<and> (removed = [] \<or> removed = [Remove_Directory (kc_directory c)] \<and> e = Inr ())
     \<and> (r = Inr () \<longrightarrow> e = Inr () \<and> (removed = [] \<longrightarrow> (\<exists>t msg. os_rmdir os t = Some (2, msg)))))"

lemma restored_trace_stop: "back_trace c os (Inl e) l \<Longrightarrow> restored_trace c os (Inl e') l"
  unfolding restored_trace_def by (intro exI [of _ "Inl e"] exI [of _ l] exI [of _ "[]"]) simp

lemma restored_trace_error: "back_trace c os (Inr ()) l \<Longrightarrow> restored_trace c os (Inl e') l"
  unfolding restored_trace_def by (intro exI [of _ "Inr ()"] exI [of _ l] exI [of _ "[]"]) simp

lemma restored_trace_kept:
  "back_trace c os (Inr ()) l \<Longrightarrow> (r = Inr () \<Longrightarrow> \<exists>t msg. os_rmdir os t = Some (2, msg)) \<Longrightarrow> restored_trace c os r l"
  unfolding restored_trace_def by (intro exI [of _ "Inr ()"] exI [of _ l] exI [of _ "[]"]) simp

lemma restored_trace_removed: "back_trace c os (Inr ()) l \<Longrightarrow> restored_trace c os r (l @ [Remove_Directory (kc_directory c)])"
  unfolding restored_trace_def by (intro exI [of _ "Inr ()"] exI [of _ l] exI [of _ "[Remove_Directory (kc_directory c)]"]) simp

lemma traced_restore_claim: "traced (restored_trace c) (restore_claim c)"
proof -
  let ?h = "\<lambda>e. case e of Act_OSError n msg \<Rightarrow> if n = 2 then aret () else araise (KioTrashUnavailable ''kio_claim_cleanup_failed''
           ''private KIO claim directory could not be removed'') | _ \<Rightarrow> araise e"
  have "traced (\<lambda>os r l. l = [] \<and> (r = Inr () \<longrightarrow> (\<exists>msg. e = Act_OSError 2 msg))) (?h e)" for e
    by (cases e) (auto intro!: traced_raise traced_ret)
  from traced_atry [OF traced_remove_directory_seen this]
  have clean: "traced (\<lambda>os r l. l = [Remove_Directory (kc_directory c)] \<or> l = [] \<and> (r = Inr () \<longrightarrow> (\<exists>t msg. os_rmdir os t = Some (2, msg))))
      (atry (remove_directory (kc_directory c)) ?h)"
    by (rule traced_mono) fastforce
  have sync: "traced (\<lambda>os r l. l = []) (atry fsync_directory (\<lambda>e. araise (if is_os_error e then KioTrashUnavailable ''kio_claim_cleanup_failed''
       ''private KIO claim directory removal could not be flushed'' else e)))"
    by (intro traced_observe quiet_intros)
  show ?thesis
    unfolding restore_claim_def
    by (rule traced_mono [OF traced_abind [OF traced_restore_claimed_object traced_abind [OF clean sync]]], elim disjE exE conjE)
      (simp_all add: restored_trace_stop restored_trace_error restored_trace_kept restored_trace_removed)
qed

text \<open>
  C28. The restoration of a claim is exact: when it returns, the original path was
  seen with the recorded snapshot and the claim path empty, or the claimed object was
  renamed back without replacement and seen there; then the claim directory was
  removed, unless the system said that it was gone. On every end there was at most one
  rename, and the directory is removed last.
\<close>

theorem restore_claim_sound:
  assumes "restore_claim claim os w = (r, w')"
  shows "\<exists>t l. w' = w\<lparr>w_time := t, w_log := w_log w @ l\<rparr> \<and> restored_trace claim os r l"
  by (rule tracedD [OF traced_restore_claim assms])

section \<open>Cases\<close>

text \<open>A file below \<open>/r\<close> is claimed: the answers before and after the rename.\<close>

definition claim_dir :: string where
  "claim_dir = ''/r/.neocortex-kio-claim-x''"

definition claim_os :: "stat_answer \<Rightarrow> os_answers" where
  "claim_os claimed = (steady_os unmoved_tree)\<lparr>os_mkdtemp := (\<lambda>_. Inr claim_dir), os_fstat := (\<lambda>_. Found Kind_Regular (demo_stat 3 5)),
     os_listing := (\<lambda>_. Inr [''f'']),
     os_lstat := (\<lambda>t p. if t < 10 then unmoved_tree p else if p = claim_dir @ ''/f'' then claimed else Not_Found)\<rparr>"

definition demo_claim :: kio_trash_claim where
  "demo_claim = claim_at ''/r/f'' demo_source KIO_OBJECT_FILE claim_dir"

lemma demo_claimed:
  "fst (claim_source ''/r/f'' demo_source KIO_OBJECT_FILE (claim_os (Found Kind_Regular (demo_stat 3 5))) start_world) = Inr (Inr demo_claim)"
  by code_simp


text \<open>
  \<open>os.path.lexists\<close> answers \<open>False\<close> on every failure of \<open>lstat\<close>, so the clause that
  takes an unreadable claim as present is never reached: the object was moved, its
  claim cannot be looked at, and the error that leaves does not carry the claim.
\<close>

lemma unreadable_claim_forgotten:
  "claim_source ''/r/f'' demo_source KIO_OBJECT_FILE (claim_os (Stat_Error 5 ''Input/output error'')) start_world =
     (Inl (KioTrashUnavailable ''kio_claim_unverified'' ''private KIO claim destination cannot be verified''),
      start_world\<lparr>w_time := 13, w_log := [Make_Directory claim_dir, Rename_Noreplace ''f'' ''f'' True]\<rparr>)"
  by code_simp

text \<open>The claim is restored: the object is renamed back and its directory removed.\<close>

definition restore_os :: os_answers where
  "restore_os = (claim_os Not_Found)\<lparr>os_lstat := (\<lambda>t p. if p = (if t < 9 then claim_dir @ ''/f'' else ''/r/f'')
     then Found Kind_Regular (demo_stat 3 5) else Not_Found)\<rparr>"

lemma demo_restored: "fst (restore_claim demo_claim restore_os start_world) = Inr ()"
  by code_simp

theorem restore_claim_sound_witness: "\<exists>l. restored_trace demo_claim restore_os (Inr ()) l"
  using restore_claim_sound [OF prod.collapse [symmetric], of demo_claim restore_os start_world]
  unfolding demo_restored by blast

end
