(* ===== verification/Trash_Restore_Safety.thy ===== *)
theory Trash_Restore_Safety
  imports Trash_Claim_Safety
begin

text \<open>
  The restoration of a trashed object from its receipt: the restoration data are
  removed only after the restored object was verified.
\<close>

section \<open>Restoring from a receipt\<close>

definition info_claim :: "restore_request \<Rightarrow> string \<Rightarrow> string" where
  "info_claim rr made = child_path (path_str made) (path_name (rr_info rr))"

definition claim_moves :: "restore_request \<Rightarrow> string \<Rightarrow> effect list" where
  "claim_moves rr made = [Make_Directory made, Rename_Noreplace (path_name (rr_info rr)) (path_name (info_claim rr made)) True]"

definition object_move :: "restore_request \<Rightarrow> bool \<Rightarrow> effect" where
  "object_move rr b = Rename_Noreplace (path_name (rr_trash rr)) (path_name (rr_source rr)) b"

text \<open>The restored object was seen at the source, of the right kind and with the binding of the receipt.\<close>

definition restored_seen :: "(byte list \<Rightarrow> byte list) \<Rightarrow> os_answers \<Rightarrow> restore_request \<Rightarrow> bool" where
  "restored_seen sha256 os rr \<longleftrightarrow>
     (\<exists>t k st. os_lstat os t (rr_source rr) = Found k st \<and> k \<noteq> Kind_Link \<and> destination_type_ok (rr_kind rr) (k, st))
     \<and> (\<exists>t k st. os_lstat os t (rr_source rr) = Found k st
          \<and> binding_seen sha256 os (snapshot_of (os_cwd os) (rr_source rr) st) (rr_digest rr))"

definition no_unlink :: "effect list \<Rightarrow> bool" where
  "no_unlink l \<longleftrightarrow> (\<forall>p. Unlink_File p \<notin> set l)"

lemma no_unlink_simps [simp]:
  "no_unlink []" "no_unlink (a @ b) \<longleftrightarrow> no_unlink a \<and> no_unlink b" "no_unlink (Make_Directory p # l) \<longleftrightarrow> no_unlink l"
  "no_unlink (Remove_Directory p # l) \<longleftrightarrow> no_unlink l" "no_unlink (Rename_Noreplace x y ok # l) \<longleftrightarrow> no_unlink l"
  by (auto simp: no_unlink_def)

lemma quiet_read_regular_bounded [quiet_intros]: "quiet read_regular_bounded"
  unfolding read_regular_bounded_def Let_def by (intro quiet_intros)

lemma quiet_check_info_claim [quiet_intros]: "quiet (check_info_claim c s r d)"
  unfolding check_info_claim_def by (intro quiet_intros)

lemma quiet_restore_evidence [quiet_intros]: "quiet (restore_evidence rr)"
  unfolding restore_evidence_def by (intro quiet_intros)

lemma quiet_restore_admission [quiet_intros]: "quiet (restore_admission receipt root_dir)"
  unfolding restore_admission_def by (intro quiet_intros)

lemma quiet_check_trash_object [quiet_intros]: "quiet (check_trash_object sha rr)"
  unfolding check_trash_object_def by (intro quiet_intros)

lemma quiet_already_restored [quiet_intros]: "quiet (already_restored sha rr b)"
  unfolding already_restored_def by (intro quiet_intros)

lemma traced_info_claim_error: "traced (\<lambda>os r l. no_unlink l \<and> (\<exists>e. r = Inl e)) (info_claim_error made claimed e)"
proof -
  have "traced (\<lambda>os r l. no_unlink l) (atry (abind (ask (\<lambda>os t. os_exists os t claimed)) (\<lambda>r. case r of
           Inl (n, msg) \<Rightarrow> araise (Act_OSError n msg)
         | Inr present \<Rightarrow> if present then aret () else remove_directory made))
         (\<lambda>err. if is_os_error err then aret () else araise err))"
    by (rule traced_mono [OF traced_atry [where P = "\<lambda>os r l. no_unlink l" and H = "\<lambda>e os r l. l = []"]])
      (auto intro!: traced_after quiet_intros traced_raise traced_ret traced_mono [OF traced_remove_directory] split: sum.splits)
  from traced_abind [OF this traced_pure_raise]
  have "traced (\<lambda>os r l. no_unlink l \<and> (\<exists>e. r = Inl e)) (abind (atry (abind (ask (\<lambda>os t. os_exists os t claimed)) (\<lambda>r. case r of
           Inl (n, msg) \<Rightarrow> araise (Act_OSError n msg)
         | Inr present \<Rightarrow> if present then aret () else remove_directory made))
         (\<lambda>err. if is_os_error err then aret () else araise err)) (\<lambda>_. araise e'))" for e'
    by (rule traced_mono) auto
  then show ?thesis
    unfolding info_claim_error_def by (cases e) (auto intro!: traced_raise)
qed

definition info_trace :: "restore_request \<Rightarrow> os_answers \<Rightarrow> act_error + (string \<times> string) \<Rightarrow> effect list \<Rightarrow> bool" where
  "info_trace rr os r l \<longleftrightarrow> (case r of
     Inl e \<Rightarrow> no_unlink l
   | Inr x \<Rightarrow> \<exists>made. x = (path_str made, info_claim rr made) \<and> l = claim_moves rr made)"

lemma traced_claim_info: "traced (info_trace rr) (claim_info rr info_snapshot raw)"
proof -
  have made: "traced (\<lambda>os r l. no_unlink l \<and> (\<forall>x. r = Inr x \<longrightarrow> (\<exists>made. x = path_str made \<and> l = [Make_Directory made])))
      (atry (abind make_directory (\<lambda>made. abind (call_or_raise os_chmod) (\<lambda>_. aret (path_str made)))) (\<lambda>e. araise (metadata_claim_failed e)))"
    by (rule traced_mono [OF traced_atry [OF traced_abind [OF traced_make_directory
              traced_abind [OF traced_observe [OF quiet_call_or_raise] traced_pure_ret]] traced_pure_raise]]) auto
  have check: "traced (\<lambda>os r l. l = [] \<and> (\<forall>x. r = Inr x \<longrightarrow> x = (p, q)))
      (abind (check_info_claim q info_snapshot raw d) (\<lambda>_. abind (validate_trash_info b s) (\<lambda>_. aret (p, q))))" for p q d b s
    by (rule traced_quiet) (auto intro!: quiet_intros simp: act_simps)
  have rename: "traced (\<lambda>os r l. no_unlink l \<and> (\<forall>x. r = Inr x \<longrightarrow> x = (p, q) \<and> l = [Rename_Noreplace (path_name (rr_info rr)) (path_name q) True]))
      (atry (abind (claim_rename (rr_info rr) q info_snapshot KIO_OBJECT_FILE) (\<lambda>_.
         abind (check_info_claim q info_snapshot raw ''private metadata claim changed: '') (\<lambda>_.
         abind (validate_trash_info (path_parent (rr_trash_root rr)) (rr_source rr)) (\<lambda>_. aret (p, q)))))
       (info_claim_error p q))" for p q
    by (rule traced_mono [OF traced_atry [OF traced_abind [OF traced_claim_rename check] traced_info_claim_error]])
      (auto simp: rename_trace_def)
  show ?thesis
    unfolding claim_info_def Let_def
    by (rule traced_mono [OF traced_abind [OF made rename]])
      (auto simp: info_trace_def claim_moves_def info_claim_def split: sum.splits)
qed

definition object_at :: "os_answers \<Rightarrow> restore_request \<Rightarrow> file_snapshot \<times> stat_answer \<Rightarrow> bool" where
  "object_at os rr x \<longleftrightarrow> (\<exists>t k st. os_lstat os t (rr_source rr) = Found k st \<and> fst x = snapshot_of (os_cwd os) (rr_source rr) st)
     \<and> (\<exists>t. os_lstat os t (rr_source rr) = snd x)"

definition move_trace :: "restore_request \<Rightarrow> os_answers \<Rightarrow> act_error + file_snapshot \<times> stat_answer \<Rightarrow> effect list \<Rightarrow> bool" where
  "move_trace rr os r l \<longleftrightarrow> no_unlink l \<and> (\<forall>x. r = Inr x \<longrightarrow> l = [object_move rr True] \<and> object_at os rr x)"

lemma traced_move_trash_object: "traced (move_trace rr) (move_trash_object rr claimed trash_snapshot)"
proof -
  let ?m = "abind fsync_directory (\<lambda>_. abind fsync_directory (\<lambda>_. abind (snapshot_path (rr_source rr)) (\<lambda>restored.
         abind (stat_or_raise (rr_source rr)) (\<lambda>a. aret (restored, a)))))"
  let ?h = "\<lambda>e. araise (retained_error ''restored object is present'' claimed e)"
  have look: "traced (\<lambda>os r l. l = [] \<and> (\<forall>x. r = Inr x \<longrightarrow> object_at os rr x)) (atry ?m ?h)"
  proof (rule traced_quiet)
    show "quiet (atry ?m ?h)" by (intro quiet_intros)
    show "\<forall>x. r = Inr x \<longrightarrow> object_at os rr x" if "atry ?m ?h os w = (r, w')" for os w r w'
    proof (intro allI impI)
      fix x
      assume "r = Inr x"
      with that have "?m os w = (Inr x, w')" by (auto simp: atry_def araise_def split: prod.splits sum.splits)
      then obtain v v' u u' where x: "snapshot_path (rr_source rr) os v = (Inr (fst x), v')"
          "stat_or_raise (rr_source rr) os u = (Inr (snd x), u')" by (auto simp: act_simps)
      then show "object_at os rr x"
        using snapshot_path_Inr [OF x(1)] stat_or_raise_Inr [OF x(2)] unfolding object_at_def by blast
    qed
  qed
  show ?thesis
    unfolding move_trash_object_def
    by (rule traced_mono [OF traced_abind [OF traced_atry [OF traced_claim_rename traced_pure_raise] look]])
      (auto simp: rename_trace_def move_trace_def object_move_def)
qed

lemma traced_remove_info_claim:
  "traced (\<lambda>os r l. (l = [] \<or> l = [Unlink_File claimed] \<or> l = [Unlink_File claimed, Remove_Directory made])
     \<and> (r = Inr () \<longrightarrow> l = [Unlink_File claimed, Remove_Directory made])) (remove_info_claim made claimed info_snapshot raw)"
proof -
  have unlink: "traced (\<lambda>os r l. l = [Unlink_File claimed] \<and> r = Inr () \<or> l = [] \<and> (\<exists>e. r = Inl e)) (unlink_file claimed)"
    unfolding unlink_file_def by (rule traced_after [OF quiet_call_or_raise traced_mono [OF traced_log]]) auto
  show ?thesis
    unfolding remove_info_claim_def
    by (rule traced_mono [OF traced_atry [OF traced_abind [OF traced_observe [OF quiet_check_info_claim]
            traced_abind [OF unlink traced_abind [OF traced_observe [OF quiet_fsync_directory]
              traced_abind [OF traced_remove_directory traced_observe [OF quiet_fsync_directory]]]]] traced_pure_raise]]) auto
qed

definition finish_trace :: "(byte list \<Rightarrow> byte list) \<Rightarrow> restore_request \<Rightarrow> string \<Rightarrow> string \<Rightarrow> os_answers \<Rightarrow> act_error + json \<Rightarrow> effect list \<Rightarrow> bool" where
  "finish_trace sha256 rr made claimed os r l \<longleftrightarrow>
     (l = [] \<or> restored_seen sha256 os rr \<and> (l = [Unlink_File claimed] \<or> l = [Unlink_File claimed, Remove_Directory made]))
     \<and> (\<forall>document. r = Inr document \<longrightarrow>
          document = restore_document rr ''recovery_required'' [(''idempotent'', J_Bool False)] \<and> l = []
        \<or> document = restore_document rr ''restored'' [(''info_removed'', J_Bool True), (''idempotent'', J_Bool False)]
          \<and> l = [Unlink_File claimed, Remove_Directory made])"

lemma traced_finish_restore:
  "traced (\<lambda>os r l. object_at os rr x \<longrightarrow> finish_trace sha rr made claimed os r l) (finish_restore sha rr made claimed info_snapshot raw x)"
proof (cases "case snd x of Found k st \<Rightarrow> k = Kind_Link \<or> \<not> destination_type_ok (rr_kind rr) (k, st) | _ \<Rightarrow> True")
  case True
  then show ?thesis
    unfolding finish_restore_def case_prod_beta by (auto intro!: traced_ret simp: finish_trace_def)
next
  case False
  then obtain k st where a: "snd x = Found k st" "k \<noteq> Kind_Link" "destination_type_ok (rr_kind rr) (k, st)"
    by (auto split: stat_answer.splits)
  have bound: "traced (\<lambda>os r l. l = [] \<and> (r = Inr True \<longrightarrow> binding_seen sha os (fst x) (rr_digest rr)))
      (binding_matches_snapshot sha (fst x) (rr_digest rr))"
    by (rule traced_quiet [OF quiet_binding_matches]) (use binding_matches_seen in blast)
  have rest: "traced (\<lambda>os r l. (\<not> b \<longrightarrow> l = [] \<and> r = Inr (restore_document rr ''recovery_required'' [(''idempotent'', J_Bool False)]))
      \<and> (b \<longrightarrow> (l = [] \<or> l = [Unlink_File claimed] \<or> l = [Unlink_File claimed, Remove_Directory made])
          \<and> (\<forall>d. r = Inr d \<longrightarrow> d = restore_document rr ''restored'' [(''info_removed'', J_Bool True), (''idempotent'', J_Bool False)]
              \<and> l = [Unlink_File claimed, Remove_Directory made])))
      (if \<not> b then aret (restore_document rr ''recovery_required'' [(''idempotent'', J_Bool False)])
       else abind (remove_info_claim made claimed info_snapshot raw) (\<lambda>_.
         aret (restore_document rr ''restored'' [(''info_removed'', J_Bool True), (''idempotent'', J_Bool False)])))" for b
  proof (cases b)
    case True
    then have b: "b = True" by simp
    show ?thesis
      unfolding b not_True_eq_False if_False
      by (rule traced_mono [OF traced_abind [OF traced_remove_info_claim traced_pure_ret]]) auto
  qed (auto intro!: traced_ret)
  have seen: "object_at os rr x \<Longrightarrow> binding_seen sha os (fst x) (rr_digest rr) \<Longrightarrow> restored_seen sha os rr" for os
    using a unfolding object_at_def restored_seen_def by metis
  have "finish_restore sha rr made claimed info_snapshot raw x = abind (binding_matches_snapshot sha (fst x) (rr_digest rr)) (\<lambda>b.
      if \<not> b then aret (restore_document rr ''recovery_required'' [(''idempotent'', J_Bool False)])
       else abind (remove_info_claim made claimed info_snapshot raw) (\<lambda>_.
         aret (restore_document rr ''restored'' [(''info_removed'', J_Bool True), (''idempotent'', J_Bool False)])))"
    unfolding finish_restore_def case_prod_beta using a by simp
  moreover have step: "finish_trace sha rr made claimed os r l"
    if "object_at os rr x" "b \<Longrightarrow> binding_seen sha os (fst x) (rr_digest rr)"
      "\<not> b \<longrightarrow> l = [] \<and> r = Inr (restore_document rr ''recovery_required'' [(''idempotent'', J_Bool False)])"
      "b \<longrightarrow> (l = [] \<or> l = [Unlink_File claimed] \<or> l = [Unlink_File claimed, Remove_Directory made])
          \<and> (\<forall>d. r = Inr d \<longrightarrow> d = restore_document rr ''restored'' [(''info_removed'', J_Bool True), (''idempotent'', J_Bool False)]
              \<and> l = [Unlink_File claimed, Remove_Directory made])" for os r l b
    using that(3,4) seen [OF that(1,2)] by (cases b) (simp_all add: finish_trace_def)
  ultimately show ?thesis
  proof (simp only:, intro traced_mono [OF traced_abind [OF bound rest]] impI, elim disjE exE conjE, goal_cases)
    case (2 os r l b l1 l2)
    then show ?case using step [of os b l2 r] by simp
  qed (simp add: finish_trace_def)
qed

text \<open>The ends of a restoration from a receipt.\<close>

definition receipt_trace :: "(byte list \<Rightarrow> byte list) \<Rightarrow> restore_request \<Rightarrow> os_answers \<Rightarrow> act_error + json \<Rightarrow> effect list \<Rightarrow> bool" where
  "receipt_trace sha256 rr os r l \<longleftrightarrow>
     (no_unlink l \<or> restored_seen sha256 os rr \<and> (\<exists>made tail. l = claim_moves rr made @ [object_move rr True, Unlink_File (info_claim rr made)] @ tail
        \<and> (tail = [] \<or> tail = [Remove_Directory (path_str made)])))
     \<and> (\<forall>document. r = Inr document \<longrightarrow>
          document = restore_document rr ''already_restored'' [(''idempotent'', J_Bool True)] \<and> l = [] \<and> restored_seen sha256 os rr
        \<or> (\<exists>made. document = restore_document rr ''recovery_required'' [(''idempotent'', J_Bool False)]
            \<and> l = claim_moves rr made @ [object_move rr True])
        \<or> (\<exists>made. document = restore_document rr ''restored'' [(''info_removed'', J_Bool True), (''idempotent'', J_Bool False)]
            \<and> l = claim_moves rr made @ [object_move rr True, Unlink_File (info_claim rr made), Remove_Directory (path_str made)]))"

lemma claim_moves_no_unlink [simp]: "no_unlink (claim_moves rr made)" "no_unlink [object_move rr b]"
  by (simp_all add: claim_moves_def object_move_def)

lemma traced_already_restored: "traced (receipt_trace sha rr) (already_restored sha rr b)"
proof -
  have "restored_seen sha os rr \<and> d = restore_document rr ''already_restored'' [(''idempotent'', J_Bool True)]"
    if run: "already_restored sha rr b os w = (Inr d, w')" for os w d w'
  proof -
    let ?bad = "\<lambda>a. case a of Found k st \<Rightarrow> k = Kind_Link \<or> \<not> destination_type_ok (rr_kind rr) (k, st) | _ \<Rightarrow> True"
    have "\<exists>a u u' current v v' x x' bound. stat_or_raise (rr_source rr) os u = (Inr a, u') \<and> \<not> ?bad a
        \<and> snapshot_path (rr_source rr) os v = (Inr current, v')
        \<and> binding_matches_snapshot sha current (rr_digest rr) os x = (Inr bound, x') \<and> bound
        \<and> d = restore_document rr ''already_restored'' [(''idempotent'', J_Bool True)]"
      using run unfolding already_restored_def abind_Inr araise_if_Inr aret_Inr not_not by blast
    then obtain a u u' current v v' x x' where f: "stat_or_raise (rr_source rr) os u = (Inr a, u')" "\<not> ?bad a"
        "snapshot_path (rr_source rr) os v = (Inr current, v')"
        "binding_matches_snapshot sha current (rr_digest rr) os x = (Inr True, x')"
        "d = restore_document rr ''already_restored'' [(''idempotent'', J_Bool True)]"
      by (elim exE conjE) simp
    from f(2) obtain k st where "a = Found k st" "k \<noteq> Kind_Link" "destination_type_ok (rr_kind rr) (k, st)"
      by (auto split: stat_answer.splits)
    then show ?thesis
      using stat_or_raise_Inr [OF f(1)] snapshot_path_Inr [OF f(3)] binding_matches_seen [OF f(4)] f(5)
      unfolding restored_seen_def by blast
  qed
  then show ?thesis
    by (intro traced_mono [OF traced_quiet [OF quiet_already_restored, where Q = "\<lambda>os r. \<forall>d. r = Inr d \<longrightarrow> restored_seen sha os rr
        \<and> d = restore_document rr ''already_restored'' [(''idempotent'', J_Bool True)]"]]) (auto simp: receipt_trace_def)
qed

lemma receipt_trace_stop: "no_unlink l \<Longrightarrow> receipt_trace sha rr os (Inl e) l"
  by (simp add: receipt_trace_def)

lemma receipt_trace_finish:
  assumes "finish_trace sha rr (path_str made) (info_claim rr made) os r l"
  shows "receipt_trace sha rr os r (claim_moves rr made @ object_move rr True # l)"
proof -
  have "no_unlink (claim_moves rr made @ object_move rr True # l) \<or> restored_seen sha os rr
      \<and> (\<exists>m tail. claim_moves rr made @ object_move rr True # l = claim_moves rr m @ [object_move rr True, Unlink_File (info_claim rr m)] @ tail
        \<and> (tail = [] \<or> tail = [Remove_Directory (path_str m)]))"
  proof (cases "l = []")
    case False
    then obtain tail where "l = Unlink_File (info_claim rr made) # tail" "tail = [] \<or> tail = [Remove_Directory (path_str made)]"
        "restored_seen sha os rr"
      using assms unfolding finish_trace_def by blast
    then show ?thesis by (intro disjI2) (intro conjI exI [of _ made] exI [of _ tail], simp_all)
  qed simp
  then show ?thesis
    using assms unfolding receipt_trace_def finish_trace_def by fastforce
qed

lemma traced_restore_moves:
  "traced (receipt_trace sha rr) (abind (restore_evidence rr) (\<lambda>(info_snapshot, raw).
     abind (claim_info rr info_snapshot raw) (\<lambda>(made, claimed).
     abind (check_trash_object sha rr) (\<lambda>trash_snapshot.
     abind (move_trash_object rr claimed trash_snapshot) (\<lambda>restored.
     finish_restore sha rr made claimed info_snapshot raw restored)))))"
proof -
  have tail: "traced (\<lambda>os r l. receipt_trace sha rr os r (claim_moves rr made @ l))
      (abind (check_trash_object sha rr) (\<lambda>trash_snapshot.
       abind (move_trash_object rr (info_claim rr made) trash_snapshot) (\<lambda>restored.
       finish_restore sha rr (path_str made) (info_claim rr made) info_snapshot raw restored)))" for made info_snapshot raw
    by (rule traced_mono [OF traced_abind [OF traced_observe [OF quiet_check_trash_object]
          traced_abind [OF traced_move_trash_object traced_finish_restore]]], elim disjE exE conjE)
      (auto simp: move_trace_def receipt_trace_stop receipt_trace_finish)
  have claims: "traced (receipt_trace sha rr) (abind (claim_info rr info_snapshot raw) (\<lambda>(made, claimed).
     abind (check_trash_object sha rr) (\<lambda>trash_snapshot.
     abind (move_trash_object rr claimed trash_snapshot) (\<lambda>restored.
     finish_restore sha rr made claimed info_snapshot raw restored))))" for info_snapshot raw
  proof (rule tracedI)
    show "\<exists>t l. w' = w\<lparr>w_time := t, w_log := w_log w @ l\<rparr> \<and> receipt_trace sha rr os r l" if "abind (claim_info rr info_snapshot raw) (\<lambda>(made, claimed).
     abind (check_trash_object sha rr) (\<lambda>trash_snapshot.
     abind (move_trash_object rr claimed trash_snapshot) (\<lambda>restored.
     finish_restore sha rr made claimed info_snapshot raw restored))) os w = (r, w')" for os w r w'
    proof -
      obtain s v where c: "claim_info rr info_snapshot raw os w = (s, v)" by force
      obtain t l where v: "v = w\<lparr>w_time := t, w_log := w_log w @ l\<rparr>" "info_trace rr os s l" using tracedD [OF traced_claim_info c] by blast
      show ?thesis
      proof (cases s)
        case (Inl e)
        then show ?thesis
          using that c v by (intro exI [of _ t] exI [of _ l]) (auto simp: abind_def info_trace_def receipt_trace_stop)
      next
        case (Inr x)
        then obtain made where made: "x = (path_str made, info_claim rr made)" "l = claim_moves rr made" using v by (auto simp: info_trace_def)
        then have "abind (check_trash_object sha rr) (\<lambda>trash_snapshot.
            abind (move_trash_object rr (info_claim rr made) trash_snapshot) (\<lambda>restored.
            finish_restore sha rr (path_str made) (info_claim rr made) info_snapshot raw restored)) os v = (r, w')"
          using that c Inr by (simp add: abind_def)
        from tracedD [OF tail this] obtain t' l' where "w' = v\<lparr>w_time := t', w_log := w_log v @ l'\<rparr>"
            "receipt_trace sha rr os r (claim_moves rr made @ l')" by blast
        then show ?thesis using v made by (intro exI [of _ t'] exI [of _ "l @ l'"]) simp
      qed
    qed
  qed
  show ?thesis
    by (rule traced_after [OF quiet_restore_evidence]) (auto simp: claims receipt_trace_stop split: prod.splits)
qed

lemma traced_restore_request:
  "traced (receipt_trace sha rr) (abind (lexists (rr_source rr)) (\<lambda>source_exists.
     abind (lexists (rr_trash rr)) (\<lambda>trash_exists.
     abind (lexists (rr_info rr)) (\<lambda>info_exists.
     if source_exists then already_restored sha rr (trash_exists \<or> info_exists)
     else if \<not> trash_exists \<or> \<not> info_exists
     then araise (KioTrashUnavailable ''kio_restore_evidence_missing'' ''Trash file or metadata is missing'')
     else
       abind (restore_evidence rr) (\<lambda>(info_snapshot, raw).
       abind (claim_info rr info_snapshot raw) (\<lambda>(made, claimed).
       abind (check_trash_object sha rr) (\<lambda>trash_snapshot.
       abind (move_trash_object rr claimed trash_snapshot) (\<lambda>restored.
       finish_restore sha rr made claimed info_snapshot raw restored))))))))"
  by (intro traced_after quiet_intros)
    (auto simp: receipt_trace_stop traced_already_restored traced_restore_moves intro!: traced_raise)

text \<open>
  C26. The restoration data of a trashed object are removed only after the restored
  object was verified: whatever the operating system answers, if \<open>restore_trash_receipt\<close>
  unlinks a file then it is the private claim of the restoration data, after both
  renames without replacement succeeded and after the object was seen at its source,
  of the recorded kind and with the binding of the receipt. The answer \<open>restored\<close>
  means exactly these effects and the removal of the claim directory,
  \<open>already_restored\<close> no effect, and \<open>recovery_required\<close> the two renames.
\<close>

theorem restore_receipt_sound:
  assumes "restore_trash_receipt sha256 receipt root_dir os w = (r, w')"
  shows "\<exists>t l. w' = w\<lparr>w_time := t, w_log := w_log w @ l\<rparr> \<and>
    (l = [] \<and> (\<exists>e. r = Inl e) \<or> (\<exists>rr v v'. restore_admission receipt root_dir os v = (Inr rr, v') \<and> receipt_trace sha256 rr os r l))"
proof -
  have admission: "traced (\<lambda>os r l. l = [] \<and> (\<forall>rr. r = Inr rr \<longrightarrow> (\<exists>v v'. restore_admission receipt root_dir os v = (Inr rr, v'))))
      (restore_admission receipt root_dir)"
    by (rule traced_quiet [OF quiet_restore_admission]) blast
  have "traced (\<lambda>os r l. l = [] \<and> (\<exists>e. r = Inl e)
      \<or> (\<exists>rr v v'. restore_admission receipt root_dir os v = (Inr rr, v') \<and> receipt_trace sha256 rr os r l))
      (restore_trash_receipt sha256 receipt root_dir)"
    unfolding restore_trash_receipt_def
    by (rule traced_mono [OF traced_abind [OF admission traced_restore_request]]) auto
  then show ?thesis using assms by (rule tracedD)
qed

end
