(* ===== verification/Trash_Restore_Case.thy ===== *)
theory Trash_Restore_Case
  imports Trash_Restore_Safety
begin

text \<open>
  One restoration from a receipt on concrete answers, by its stages: it succeeds when
  the source is on the file system of the trash, and when it is refused the
  restoration data stay in their private claim.
\<close>

text \<open>
  A file in the trash \<open>/t\<close> is restored to \<open>/r\<close>: the restoration data move at the
  first moment, the object at the third; the last argument is the device of \<open>/r\<close>.
\<close>

definition info_dir :: string where
  "info_dir = ''/t/info/.neocortex-kio-restore-info-x''"

definition receipt_os :: "nat \<Rightarrow> nat \<Rightarrow> nat \<Rightarrow> int \<Rightarrow> os_answers" where
  "receipt_os t1 t2 t3 device = (steady_os (\<lambda>_. Not_Found))\<lparr>os_mkdtemp := (\<lambda>_. Inr info_dir),
     os_fstat := (\<lambda>t. Found Kind_Regular (if t < t2 then demo_stat 4 9 else demo_stat 3 5)),
     os_bytes := os_bytes trash_os,
     os_lstat := (\<lambda>t p.
       if p \<in> {''/t'', ''/t/files'', ''/t/info''} then Found Kind_Directory (demo_stat 1 0)
       else if p = ''/r'' then Found Kind_Directory ((demo_stat 1 0)\<lparr>st_dev := device\<rparr>)
       else if p = ''/t/info/f.trashinfo'' \<and> t < t1 \<or> p = info_dir @ ''/f.trashinfo'' \<and> t1 \<le> t then Found Kind_Regular (demo_stat 4 9)
       else if p = ''/t/files/f'' \<and> t < t3 \<or> p = ''/r/f'' \<and> t3 \<le> t then Found Kind_Regular (demo_stat 3 5)
       else Not_Found)\<rparr>"

definition demo_receipt :: "json option option" where
  "demo_receipt = Some (Some (trash_receipt demo_source demo_binding KIO_OBJECT_FILE demo_evidence))"

definition demo_request :: restore_request where
  "demo_request = \<lparr>rr_source = ''/r/f'', rr_digest = demo_binding, rr_kind = KIO_OBJECT_FILE, rr_trash_root = ''/t'',
     rr_trash = ''/t/files/f'', rr_info = ''/t/info/f.trashinfo''\<rparr>"

text \<open>The world at a moment, after the effects of the list.\<close>

definition logged :: "nat \<Rightarrow> effect list \<Rightarrow> world" where
  "logged t l = (demo_at t)\<lparr>w_log := l\<rparr>"

text \<open>The restoration data: their snapshot and their content.\<close>

definition restore_info :: file_snapshot where
  "restore_info = \<lparr>fs_path = ''/t/info/f.trashinfo'', fs_volume = 7, fs_file = 4, fs_size = 9, fs_mtime = 100, fs_birthtime = -1\<rparr>"

definition demo_raw :: "byte list" where
  "demo_raw = os_bytes trash_os 0"

abbreviation restoring_os :: "int \<Rightarrow> os_answers" where "restoring_os \<equiv> receipt_os 33 45 56"

lemma demo_raw_short: "take (nat (MAX_TRASH_INFO_BYTES + 1)) demo_raw = demo_raw" "\<not> too_long demo_raw"
proof -
  have "length demo_raw = 23" by code_simp
  then show "take (nat (MAX_TRASH_INFO_BYTES + 1)) demo_raw = demo_raw" "\<not> too_long demo_raw"
    by (simp_all add: MAX_TRASH_INFO_BYTES_def too_long_def)
qed

lemma receipt_os_calls:
  "os_interrupts (receipt_os t1 t2 t3 d) = (\<lambda>_. False)" "os_open (receipt_os t1 t2 t3 d) = (\<lambda>_. None)"
  "os_bytes (receipt_os t1 t2 t3 d) = (\<lambda>_. demo_raw)" "unique_regular (os_fstat (receipt_os t1 t2 t3 d) t)"
  "\<exists>k st. os_fstat (receipt_os t1 t2 t3 d) t = Found k st"
  by (simp_all add: receipt_os_def steady_os_def demo_raw_def trash_os_def unique_regular_def demo_stat_def)

lemma demo_read: "read_regular_bounded (receipt_os t1 t2 t3 d) (logged t l) = (Inr demo_raw, logged (t + 3) l)"
proof -
  obtain k st where a: "os_fstat (receipt_os t1 t2 t3 d) (Suc t) = Found k st" using receipt_os_calls(5) by blast
  then have "unique_regular (Found k st)" using receipt_os_calls(4) by metis
  with a show ?thesis
    by (simp add: read_regular_bounded_def with_descriptor_def fstat_or_raise_def abind_def open_fd_def ask_def aret_def araise_if_def
        close_fd_def receipt_os_calls demo_raw_short tick_def logged_def demo_at_def Let_def)
qed

lemma demo_names: "validate_trash_text (Some (path_parent ''/t'')) ''/r/f'' demo_raw = None" "names_restore_source demo_request demo_raw"
  by code_simp+

lemma demo_info_valid:
  "validate_trash_info (path_parent ''/t'') ''/r/f'' (receipt_os t1 t2 t3 d) (logged t l) = (Inr (), logged (t + 3) l)"
proof -
  obtain k st where a: "os_fstat (receipt_os t1 t2 t3 d) (Suc t) = Found k st" using receipt_os_calls(5) by blast
  then have "unique_regular (Found k st)" using receipt_os_calls(4) by metis
  with a show ?thesis
    by (simp add: validate_trash_info_def with_descriptor_def abind_def open_fd_def ask_def aret_def araise_if_def
        close_fd_def receipt_os_calls demo_raw_short demo_names tick_def logged_def demo_at_def)
qed

lemma demo_admitted:
  "restore_admission demo_receipt ''/r'' (restoring_os 7) start_world = (Inr demo_request, logged 14 [])"
  "restore_admission demo_receipt ''/r'' (restoring_os 8) start_world = (Inr demo_request, logged 14 [])"
  by code_simp+

lemma demo_present:
  "lexists ''/r/f'' (restoring_os d) (logged 14 l) = (Inr False, logged 15 l)"
  "lexists ''/t/files/f'' (restoring_os d) (logged 15 l) = (Inr True, logged 16 l)"
  "lexists ''/t/info/f.trashinfo'' (restoring_os d) (logged 16 l) = (Inr True, logged 17 l)"
  by (simp_all add: lexists_def lstat_def abind_def ask_def aret_def tick_def logged_def demo_at_def receipt_os_def steady_os_def)

lemma demo_request_simps [simp]:
  "rr_source demo_request = ''/r/f''" "rr_trash demo_request = ''/t/files/f''" "rr_info demo_request = ''/t/info/f.trashinfo''"
  "rr_trash_root demo_request = ''/t''" "rr_digest demo_request = demo_binding" "rr_kind demo_request = KIO_OBJECT_FILE"
  by (simp_all add: demo_request_def)

lemma demo_evidence_read: "restore_evidence demo_request (restoring_os d) (logged 17 []) = (Inr (restore_info, demo_raw), logged 23 [])"
proof -
  have "stat_or_raise ''/t/files/f'' (restoring_os d) (logged 17 []) = (Inr (Found Kind_Regular (demo_stat 3 5)), logged 18 [])"
    "stat_or_raise ''/t/info/f.trashinfo'' (restoring_os d) (logged 18 []) = (Inr (Found Kind_Regular (demo_stat 4 9)), logged 19 [])"
    by (simp_all add: stat_or_raise_def lstat_def abind_def ask_def aret_def tick_def logged_def demo_at_def receipt_os_def steady_os_def)
  moreover have "abspath ''/'' ''/t/info/f.trashinfo'' = ''/t/info/f.trashinfo''" by code_simp
  then have "snapshot_path ''/t/info/f.trashinfo'' (restoring_os d) (logged 19 []) = (Inr restore_info, logged 20 [])"
    by (simp add: snapshot_path_def abind_def ask_def aret_def tick_def logged_def demo_at_def receipt_os_def steady_os_def
        snapshot_of_def restore_info_def demo_stat_def stat_birthtime_def UNAVAILABLE_BIRTHTIME_def)
  ultimately show ?thesis
    using demo_names(2)
    by (simp add: restore_evidence_def abind_def aret_def araise_if_def demo_read unique_regular_def destination_type_ok_def demo_stat_def)
qed

definition demo_claimed_info :: string where
  "demo_claimed_info = info_dir @ ''/f.trashinfo''"

lemma demo_info_renamed:
  "claim_rename ''/t/info/f.trashinfo'' demo_claimed_info restore_info KIO_OBJECT_FILE (restoring_os 7) (logged 25 [Make_Directory info_dir])
    = (Inr (), logged 39 (claim_moves demo_request info_dir))"
  "claim_rename ''/t/info/f.trashinfo'' demo_claimed_info restore_info KIO_OBJECT_FILE (restoring_os 8) (logged 25 [Make_Directory info_dir])
    = (Inr (), logged 39 (claim_moves demo_request info_dir))"
  by code_simp+

definition demo_moved :: file_snapshot where
  "demo_moved = demo_source\<lparr>fs_path := ''/t/files/f''\<rparr>"

lemma demo_snapshots:
  "33 \<le> t \<Longrightarrow> snapshot_path demo_claimed_info (restoring_os d) (logged t l) = (Inr (restore_info\<lparr>fs_path := demo_claimed_info\<rparr>), logged (Suc t) l)"
  "t < 56 \<Longrightarrow> snapshot_path ''/t/files/f'' (restoring_os d) (logged t l) = (Inr demo_moved, logged (Suc t) l)"
proof -
  have "abspath ''/'' demo_claimed_info = demo_claimed_info" "abspath ''/'' ''/t/files/f'' = ''/t/files/f''" by code_simp+
  then show "33 \<le> t \<Longrightarrow> snapshot_path demo_claimed_info (restoring_os d) (logged t l) = (Inr (restore_info\<lparr>fs_path := demo_claimed_info\<rparr>), logged (Suc t) l)"
    "t < 56 \<Longrightarrow> snapshot_path ''/t/files/f'' (restoring_os d) (logged t l) = (Inr demo_moved, logged (Suc t) l)"
    by (simp_all add: snapshot_path_def abind_def ask_def aret_def tick_def logged_def demo_at_def receipt_os_def steady_os_def
        snapshot_of_def restore_info_def demo_moved_def demo_source_def demo_stat_def stat_birthtime_def UNAVAILABLE_BIRTHTIME_def
        demo_claimed_info_def info_dir_def)
qed

lemma demo_info_checked:
  "33 \<le> t \<Longrightarrow> check_info_claim demo_claimed_info restore_info demo_raw detail (restoring_os d) (logged t l) = (Inr (), logged (t + 4) l)"
  by (simp add: check_info_claim_def abind_def demo_snapshots demo_read araise_if_def aret_def add.commute)

lemma demo_info_claimed:
  assumes "claim_rename ''/t/info/f.trashinfo'' demo_claimed_info restore_info KIO_OBJECT_FILE (restoring_os d) (logged 25 [Make_Directory info_dir])
    = (Inr (), logged 39 (claim_moves demo_request info_dir))"
  shows "claim_info demo_request restore_info demo_raw (restoring_os d) (logged 23 []) =
    (Inr (info_dir, demo_claimed_info), logged 46 (claim_moves demo_request info_dir))"
proof -
  have "path_str info_dir = info_dir" "child_path info_dir (path_name ''/t/info/f.trashinfo'') = demo_claimed_info" by code_simp+
  moreover have "make_directory (restoring_os d) (logged 23 []) = (Inr info_dir, logged 24 [Make_Directory info_dir])"
    "call_or_raise os_chmod (restoring_os d) (logged 24 l) = (Inr (), logged 25 l)" for l
    by (simp_all add: make_directory_def call_or_raise_def abind_def ask_def aret_def log_effect_def tick_def logged_def demo_at_def
        receipt_os_def steady_os_def)
  ultimately show ?thesis
    using assms by (simp add: claim_info_def abind_def atry_def aret_def Let_def demo_info_checked demo_info_valid)
qed

lemma demo_object:
  "check_trash_object demo_digest demo_request (restoring_os d) (logged 46 l) = (if d = 7 then Inr demo_moved
     else Inl (KioTrashUnavailable ''kio_restore_exdev'' ''restore requires one filesystem''), logged 48 l)"
proof -
  have "path_parent ''/r/f'' = ''/r''" "KIO_OBJECT_FILE \<noteq> KIO_OBJECT_EMPTY_DIRECTORY" "fs_volume demo_moved = 7" by code_simp+
  moreover have "stat_device ''/r'' (restoring_os d) (logged 47 l) = (Inr d, logged 48 l)"
    by (simp add: stat_device_def lstat_def abind_def ask_def aret_def tick_def logged_def demo_at_def receipt_os_def steady_os_def)
  ultimately show ?thesis
    by (simp add: check_trash_object_def abind_def demo_snapshots binding_matches_snapshot_def demo_checks(9) demo_metadata
        araise_if_def aret_def araise_def)
qed

definition demo_moves :: "effect list" where
  "demo_moves = claim_moves demo_request info_dir @ [object_move demo_request True]"

lemma demo_object_moved:
  "move_trash_object demo_request demo_claimed_info demo_moved (restoring_os 7) (logged 48 (claim_moves demo_request info_dir))
     = (Inr (demo_source, Found Kind_Regular (demo_stat 3 5)), logged 68 demo_moves)"
  by code_simp

lemma demo_calls:
  "fsync_directory (restoring_os d) (logged t l) = (Inr (), logged (t + 2) l)"
  "unlink_file p (restoring_os d) (logged t l) = (Inr (), logged (t + 1) (l @ [Unlink_File p]))"
  "remove_directory p (restoring_os d) (logged t l) = (Inr (), logged (t + 1) (l @ [Remove_Directory p]))"
  by (simp_all add: fsync_directory_def fsync_fd_def with_descriptor_def open_fd_def close_fd_def unlink_file_def remove_directory_def
      call_or_raise_def abind_def ask_def aret_def log_effect_def tick_def logged_def demo_at_def receipt_os_def steady_os_def)

lemma demo_finished:
  "finish_restore demo_digest demo_request info_dir demo_claimed_info restore_info demo_raw (demo_source, Found Kind_Regular (demo_stat 3 5))
     (restoring_os d) (logged 68 demo_moves) =
   (Inr (restore_document demo_request ''restored'' [(''info_removed'', J_Bool True), (''idempotent'', J_Bool False)]),
    logged 78 (demo_moves @ [Unlink_File demo_claimed_info, Remove_Directory info_dir]))"
  by (simp add: finish_restore_def destination_type_ok_def demo_stat_def abind_def binding_matches_snapshot_def demo_checks(9) demo_metadata
      aret_def remove_info_claim_def atry_def demo_info_checked demo_calls)

lemmas demo_stages = demo_admitted demo_present demo_evidence_read demo_info_claimed [OF demo_info_renamed(1)]
  demo_info_claimed [OF demo_info_renamed(2)] demo_object

lemma demo_receipt_restored:
  "restore_trash_receipt demo_digest demo_receipt ''/r'' (restoring_os 7) start_world =
     (Inr (restore_document demo_request ''restored'' [(''info_removed'', J_Bool True), (''idempotent'', J_Bool False)]),
      logged 78 (demo_moves @ [Unlink_File demo_claimed_info, Remove_Directory info_dir]))"
  by (simp add: restore_trash_receipt_def abind_def demo_stages demo_object_moved demo_finished)

theorem restore_receipt_sound_witness:
  "\<exists>l rr v v'. restore_admission demo_receipt ''/r'' (restoring_os 7) v = (Inr rr, v') \<and> receipt_trace demo_digest rr (restoring_os 7)
     (Inr (restore_document demo_request ''restored'' [(''info_removed'', J_Bool True), (''idempotent'', J_Bool False)])) l"
  using restore_receipt_sound [OF demo_receipt_restored] by blast

text \<open>
  The checks of the trashed object come after the claim of its restoration data, and
  their errors do not give it back: a restoration to another file system is refused,
  the data stay in the private directory that the error does not name, and the same
  request then fails because they are missing.
\<close>

lemma refused_restore_strands_metadata:
  "restore_trash_receipt demo_digest demo_receipt ''/r'' (restoring_os 8) start_world =
     (Inl (KioTrashUnavailable ''kio_restore_exdev'' ''restore requires one filesystem''), logged 48 (claim_moves demo_request info_dir))"
  "fst (restore_trash_receipt demo_digest demo_receipt ''/r'' (receipt_os 0 45 56 8) start_world) =
     Inl (KioTrashUnavailable ''kio_restore_evidence_missing'' ''Trash file or metadata is missing'')"
  subgoal by (simp add: restore_trash_receipt_def abind_def demo_stages)
  subgoal by code_simp
  done

end
