(* ===== verification/Spec2Isabelle.thy ===== *)
theory Spec2Isabelle
  imports Retry_Policy Resource_Grants Resource_Summary Dedup_Publication Zip_Recovery Zip_Roundtrip
    Action_Containment Action_Followup Trash_Restore_Case
begin

text \<open>
  \<^bold>\<open>NeoCortex: resource coordination, duplicate planning, archives and file actions\<close>

  NeoCortex indexes and curates a personal document store on Linux. Four of its
  parts are modelled here from the Python sources under \<open>src/neocortex\<close>: they
  decide whether work may run, which files are copies of each other, which archives
  may be opened, and what is done to a file and known about it afterwards.

  \<^bold>\<open>Runtime control\<close> (\<open>runtime/control\<close>). One coordinator per process owns the
  CPU, native-thread, memory, temporary-storage, I/O and GPU ceilings. A route
  asks for an admission; the request waits in the queue of its route until the
  scheduler finds that it fits, is committed to the ledger under one lock, and is
  released when its scope ends. A sampler observes the host, and latched pressure
  and measured external load narrow what the scheduler may grant.

    \<^item> \<^emph>\<open>Resource_Models\<close>: \<open>resource_models.py\<close> (limits, samples, counters, requests,
      the coordinator's state); \<^emph>\<open>Resource_Init\<close>: construction
      (\<open>GlobalResourceCoordinator.__init__\<close>, adaptive headroom and budgets).
    \<^item> \<^emph>\<open>Resource_Ledger\<close>, \<^emph>\<open>Resource_Rollback\<close>, \<^emph>\<open>Resource_Commit\<close>: the commit of a grant
      and its release in \<open>global_resources.py\<close> as sequences of single effects, any
      of which an exception may interrupt, with the rollback of both. A commit has
      at most 50 effects and a release at most 21; an interrupt count at or above
      the length is an undisturbed run (lemma \<open>length_grant_steps\<close>).
    \<^item> \<^emph>\<open>Resource_Invariant\<close>, \<^emph>\<open>Resource_Preservation\<close>: the ledger invariant, that every
      counter equals what the live leases hold, and that each operation keeps it.
    \<^item> \<^emph>\<open>Resource_Scheduling\<close>: \<open>resource_scheduling.py\<close>, the fit predicate and the
      choice of the next route.
    \<^item> \<^emph>\<open>Resource_Observation\<close>, \<^emph>\<open>Resource_Devices\<close>, \<^emph>\<open>Resource_Process\<close>: the live
      observation of \<open>resource_observation.py\<close> with its pressure latches, GPU
      devices, worker targets, and the registration of verified child processes
      (\<open>ResourceGrant.register_process\<close>, a partial function of what the process
      table answers, proved to return).
    \<^item> \<^emph>\<open>Resource_System\<close>, \<^emph>\<open>Resource_Ceilings\<close>: the operations as a step relation, with
      accounting, device limits and configured ceilings by rule induction over
      every reachable state.
    \<^item> \<^emph>\<open>Resource_Admission\<close>, \<^emph>\<open>Resource_Waiting\<close>: \<open>resource_admission.py\<close>, validation of
      a demand and the waiting loop with its timeout and cleanup; between two
      rounds of the loop other threads may take any steps.
    \<^item> \<^emph>\<open>Resource_Grants\<close>, \<^emph>\<open>Resource_Summary\<close>: leases, checkpoints, subprocess
      environments and the route adapter (\<open>resource_grants.py\<close>), and the published
      summaries.
    \<^item> \<^emph>\<open>Cancel_Tokens\<close>, \<^emph>\<open>Io_Identity\<close>, \<^emph>\<open>Retry_Policy\<close>: cancellation tokens, canonical
      device identities and the retry policy of the PDF routes.

  \<^bold>\<open>Duplicate planning\<close> (\<open>deduplication\<close>). Files of one size are captured again,
  every physical object is hashed once, equal digests are compared byte for byte
  and collected into groups with one keeper, and the plan is published with its
  coverage. Planning never deletes anything; later phases act on what it proved.

    \<^item> \<^emph>\<open>Dedup_Models\<close>: \<open>domain/*.py\<close> and \<open>admission.py\<close>.
    \<^item> \<^emph>\<open>Dedup_Fingerprint\<close>, \<^emph>\<open>Dedup_Content\<close>: \<open>fingerprinting.py\<close>,
      \<open>content_observation.py\<close> and \<open>DedupPlanner._compare_exact\<close>. The answers of the
      operating system are arbitrary, so the files may change while they are read;
      SHA-256 is a parameter, a function of the bytes fed to it.
    \<^item> \<^emph>\<open>Dedup_Keeper\<close>: \<open>planning/keeper.py\<close> over the path functions of \<^emph>\<open>Py_Path\<close>.
    \<^item> \<^emph>\<open>Dedup_Index\<close>: the planning tables, persisted groups and publication checks of
      \<open>inventory/repository_plans.py\<close> and \<open>inventory/plan_evidence.py\<close>.
    \<^item> \<^emph>\<open>Dedup_Planning\<close>, \<^emph>\<open>Dedup_Groups\<close>: the accumulator and the collision builder of
      \<open>planning/pipeline.py\<close>, and the invariants they keep.
    \<^item> \<^emph>\<open>Dedup_Session\<close>, \<^emph>\<open>Dedup_Publication\<close>: \<open>PlanningSession\<close> from the candidates to
      the published plan. The locale \<open>exact_matcher\<close> is the contract between the
      builder and its matcher; it is interpreted on the modelled comparison.

  \<^bold>\<open>Archive preflight\<close> (\<open>platform/zip_safety.py\<close>). Before a ZIP container is given to
  a format route its central directory is bounded and cross-checked with the local
  headers, and a member with a damaged container can be recovered alone.

    \<^item> \<^emph>\<open>Zip_Bytes\<close>: the structures of the format as the \<open>struct\<close> formats read them.
    \<^item> \<^emph>\<open>Zip_Structure\<close>: the search for the end record, ZIP64, the scan of the central
      directory and \<open>inspect_zip_stream\<close>, \<open>inspect_zip_bytes\<close>, \<open>inspect_zip_structure\<close>;
      \<^emph>\<open>Zip_Soundness\<close>: what an accepted archive satisfies.
    \<^item> \<^emph>\<open>Zip_Recovery\<close>: \<open>read_raw_deflate_member\<close>. The zlib decoder is a parameter with
      its documented behaviour; the loops that feed it are partial functions and are
      proved to return.
    \<^item> \<^emph>\<open>Zip_Roundtrip\<close>: a reference writer whose archives are accepted and reported
      exactly.

  \<^bold>\<open>File actions\<close> (\<open>workflow\<close>). An action is bound to the file it was planned for,
  checked again physically, applied by a backend and described by an outcome.

    \<^item> \<^emph>\<open>Action_World\<close>: the answers of the operating system, one per moment and
      unrelated to each other, interrupts, and the record of effects; actions are
      computations over them.
    \<^item> \<^emph>\<open>Action_Policy\<close>, \<^emph>\<open>Action_Containment\<close>: \<open>actions/action_policy.py\<close>, containment of
      a mutation path, protected paths and the child-first listing of directories.
    \<^item> \<^emph>\<open>Action_Json\<close>: documents, those written at the mutation frontier
      (\<open>actions/file_action_recovery.py\<close>), and the metadata binding
      (\<open>safety/kio_trash.py\<close>).
    \<^item> \<^emph>\<open>Action_Rename\<close>: the checks of \<open>mutations.py\<close> and \<open>PosixRenameBackend.apply\<close>, with
      its early returns, handlers and closing clause; \<^emph>\<open>Action_Quiet\<close>,
      \<^emph>\<open>Action_Rename_Safety\<close>: its verification with a small Hoare logic;
      \<^emph>\<open>Action_Rename_Case\<close>: one rename on concrete answers.
    \<^item> \<^emph>\<open>Trash_Info\<close>: the restoration data of the desktop trash (\<open>.trashinfo\<close> files in
      \<open>safety/kio_trash.py\<close>), their check and their rewriting in place.
    \<^item> \<^emph>\<open>Trash_Evidence\<close>, \<^emph>\<open>Trash_Batch\<close>: receipts and their physical verification
      (\<open>verify_trash_receipt_evidence\<close>), the checks of an empty directory, and
      \<open>KioTrashBackend\<close> of \<open>mutations.py\<close> with its batches; the trash service it calls
      is an argument.
    \<^item> \<^emph>\<open>Trash_Claim\<close>: the rename without replacement of \<open>kio_trash.py\<close>, the private claim
      of a source and its restoration, and \<open>restore_trash_receipt\<close>;
      \<^emph>\<open>Trash_Claim_Safety\<close>, \<^emph>\<open>Trash_Restore_Safety\<close>: their traces of effects for all
      answers of the operating system; \<^emph>\<open>Trash_Restore_Case\<close>: two restorations on
      concrete answers.
    \<^item> \<^emph>\<open>Action_Recovery\<close>, \<^emph>\<open>Action_Reconciliation\<close>: \<open>actions/file_action_recovery.py\<close>, the
      classification of actions whose effect is uncertain, and what a classification
      means. \<^emph>\<open>Action_Followup\<close>: the pages of such actions, and that what the two
      backends report as applied is confirmed by the reconciliation.

  \<^emph>\<open>Neo_Prelude\<close> and \<^emph>\<open>Py_Text\<close> hold what the parts share: Python's dictionaries in
  insertion order, sums over lists, errors as values, and text.

  \<^bold>\<open>What is shown.\<close> For the coordinator: exact accounting in every reachable state
  and nothing left when idle; all-or-nothing admission; exact rollback of an
  interrupted commit or release; ceilings and device limits; fair selection and
  service of a selected head; timeouts only when nothing could run; stability and
  bounds of observations; exactness of renewals, environments and summaries. For
  planning: digests and comparisons are about exactly the observed content, groups
  never lose the last copy, the recorded reasons are justified, and what a session
  gathers is always publishable, with totals that count the persisted groups. For
  archives: accepted archives are within their limits and consistent, regions of
  members are disjoint, recovery of one member depends on no other and returns. For
  actions: accepted paths stay below their root; the outcome of a rename agrees with
  the effect it had, whatever the operating system answers; verified trash evidence
  identifies the source, and rewritten restoration data name it; claims are returned,
  surfaced or not visible, and restoration data go only after the restored object was
  verified; a reconciliation
  only observes, its definite classifications are justified by what was seen, and
  applied effects are confirmed.

  \<^bold>\<open>Conventions.\<close> Python integers are \<^typ>\<open>int\<close>; bytes are words of 8 bits; text is
  made of the first 256 code points. A method returns its new state; an exception
  is the left part of a sum. Floating-point loads and percentages are real numbers.
  Locks are the atomicity of a step. Names in archives are lists of code
  points; their two codecs are parameters. A JSON document is its value, and its text is
  written out where a length or a digest of it matters; numbers in it are integers.
  A stored document that is no JSON text is an absent value. Encoded paths
  that decode to other code points are taken as different from every path.

  \<^bold>\<open>Not modelled.\<close> The threads that sample the host and probe GPUs (each round is
  the observation or publication it makes); parsing of pressure files and injected
  samples; the dispatch of fingerprints to elastic workers, the durable fingerprint
  cache, progress reporting, the head row of a published plan, and the traversal
  that fills the inventory; the Windows branches of the mutation policy; the
  trash service itself: the search for trash roots, the discovery and supervision of
  the desktop client, its batches and the recovery locators of claims. The format routes, the semantic index, the document
  catalogue, retention and the programming interface are storage, native libraries
  and input or output around these parts.
\<close>

end
